(* ===== verification/Ddbsh_Prelude.thy ===== *)
theory Ddbsh_Prelude
  imports Main "HOL-Library.Char_ord" "HOL-Library.List_Lexorder"
begin

text \<open>
  The library shared by the component theories: what the engine uses of the C++ standard
  library (\<^verbatim>\<open>std::map\<close> as an association list sorted by key,
  \<^verbatim>\<open>std::to_string\<close> on non-negative integers, \<^verbatim>\<open>std::string\<close> search and
  concatenation) and the generic facts about it.  Strings are lists of 8-bit characters;
  the order on strings is the lexicographic order on unsigned bytes, as that of
  \<^verbatim>\<open>std::string\<close>.
\<close>

named_theorems smap_simps "facts about ordered maps"
named_theorems text_simps "facts about string pieces"

section \<open>Ordered maps\<close>

text \<open>
  A \<^verbatim>\<open>std::map\<close> is the list of its entries in iteration order.  \<open>emplace\<close> keeps the
  entry that is already there, as the C++ operation does; \<open>insert\<close> of a range is a fold
  of it.
\<close>

type_synonym ('k, 'v) smap = "('k \<times> 'v) list"

fun smap_emplace :: "'k::linorder \<Rightarrow> 'v \<Rightarrow> ('k, 'v) smap \<Rightarrow> ('k, 'v) smap" where
  "smap_emplace k v [] = [(k, v)]"
| "smap_emplace k v ((k', v') # m) =
     (if k < k' then (k, v) # (k', v') # m
      else if k = k' then (k', v') # m
      else (k', v') # smap_emplace k v m)"

definition smap_insert_all :: "('k::linorder, 'v) smap \<Rightarrow> ('k, 'v) smap \<Rightarrow> ('k, 'v) smap" where
  "smap_insert_all m new = fold (\<lambda>(k, v). smap_emplace k v) new m"

abbreviation smap_ok :: "('k::linorder, 'v) smap \<Rightarrow> bool" where
  "smap_ok m \<equiv> sorted_wrt (<) (map fst m)"

lemma keys_smap_emplace [smap_simps]:
  "set (map fst (smap_emplace k v m)) = insert k (set (map fst m))"
  by (induction m rule: smap_emplace.induct) auto

lemma fst_set_smap_emplace [smap_simps]:
  "fst ` set (smap_emplace k v m) = insert k (fst ` set m)"
  using keys_smap_emplace [of k v m] by simp

lemma smap_ok_emplace [smap_simps, intro]: "smap_ok m \<Longrightarrow> smap_ok (smap_emplace k v m)"
  by (induction k v m rule: smap_emplace.induct)
    (auto simp: fst_set_smap_emplace)

lemma smap_ok_distinct: "smap_ok m \<Longrightarrow> distinct (map fst m)"
  by (simp add: strict_sorted_iff)

lemma map_of_less_None: "\<forall>x\<in>set (map fst m). (k::'k::linorder) < x \<Longrightarrow> map_of m k = None"
  by (induction m) auto

lemma map_of_smap_emplace [smap_simps]:
  "smap_ok m \<Longrightarrow>
     map_of (smap_emplace k v m) = (case map_of m k of None \<Rightarrow> (map_of m)(k \<mapsto> v) | Some _ \<Rightarrow> map_of m)"
proof (induction k v m rule: smap_emplace.induct)
  case (2 k v k' v' m)
  then have tl: "smap_ok m" and hd: "\<forall>x\<in>set (map fst m). k' < x" by auto
  show ?case
  proof (cases k k' rule: linorder_cases)
    case less
    with hd have "map_of m k = None" by (intro map_of_less_None) auto
    with less show ?thesis by auto
  next
    case greater
    then show ?thesis using "2.IH" tl by (auto split: option.splits)
  qed simp
qed simp

lemma smap_emplace_present [smap_simps]:
  "smap_ok m \<Longrightarrow> k \<in> fst ` set m \<Longrightarrow> smap_emplace k v m = m"
  by (induction k v m rule: smap_emplace.induct) force+

lemma smap_ok_insert_all [smap_simps, intro]: "smap_ok m \<Longrightarrow> smap_ok (smap_insert_all m new)"
  unfolding smap_insert_all_def
  by (induction new arbitrary: m) (auto simp: smap_ok_emplace split: prod.splits)

lemma keys_smap_insert_all [smap_simps]:
  "fst ` set (smap_insert_all m new) = fst ` set m \<union> fst ` set new"
  unfolding smap_insert_all_def
  by (induction new arbitrary: m) (auto simp: fst_set_smap_emplace split: prod.splits)

lemma map_of_smap_insert_all [smap_simps]:
  "smap_ok m \<Longrightarrow> map_of (smap_insert_all m new) = map_of new ++ map_of m"
proof (unfold smap_insert_all_def, induction new arbitrary: m)
  case (Cons e new)
  obtain k v where e: "e = (k, v)" by fastforce
  have "map_of (smap_emplace k v m) = [k \<mapsto> v] ++ map_of m"
    using Cons.prems by (auto simp: smap_simps map_add_def fun_eq_iff split: option.splits)
  moreover have "smap_ok (smap_emplace k v m)" using Cons.prems by (rule smap_ok_emplace)
  ultimately show ?case
    by (simp add: e Cons.IH map_add_assoc) (simp add: map_add_def fun_eq_iff split: option.splits)
qed (simp add: map_add_def)

section \<open>Decimal rendering\<close>

definition digit :: "nat \<Rightarrow> char" where
  "digit d = ''0123456789'' ! d"

fun to_string :: "nat \<Rightarrow> string" where
  "to_string n = (if n < 10 then [digit n] else to_string (n div 10) @ [digit (n mod 10)])"

declare to_string.simps [simp del]

definition digit_val :: "char \<Rightarrow> nat" where
  "digit_val c = of_char c - 48"

lemma less_10_cases: "(n::nat) < 10 \<Longrightarrow> n \<in> {0,1,2,3,4,5,6,7,8,9}"
  by auto

lemma digit_val_digit [text_simps]: "d < 10 \<Longrightarrow> digit_val (digit d) = d"
  by (drule less_10_cases) (auto simp: digit_val_def digit_def)

lemma digit_chars [text_simps]: "d < 10 \<Longrightarrow> digit d \<in> set ''0123456789''"
  by (drule less_10_cases) (auto simp: digit_def)

lemma to_string_nonempty [text_simps]: "to_string n \<noteq> []"
  by (subst to_string.simps) simp

lemma to_string_chars: "set (to_string n) \<subseteq> set ''0123456789''"
proof (induction n rule: to_string.induct)
  case (1 n)
  show ?case
  proof (cases "n < 10")
    case True
    then show ?thesis using digit_chars [of n] by (simp add: to_string.simps [of n])
  next
    case False
    have "digit (n mod 10) \<in> set ''0123456789''" by (rule digit_chars) simp
    moreover have "set (to_string (n div 10)) \<subseteq> set ''0123456789''" using False by (rule "1.IH")
    moreover have "to_string n = to_string (n div 10) @ [digit (n mod 10)]"
      using False by (simp add: to_string.simps [of n])
    ultimately show ?thesis by (simp only: set_append) simp
  qed
qed

lemma to_string_value: "foldl (\<lambda>a c. a * 10 + digit_val c) 0 (to_string n) = n"
proof (induction n rule: to_string.induct)
  case (1 n)
  show ?case
  proof (cases "n < 10")
    case True
    then show ?thesis by (simp add: to_string.simps [of n] digit_val_digit)
  next
    case False
    then show ?thesis using "1.IH" by (simp add: to_string.simps [of n] digit_val_digit)
  qed
qed

lemma to_string_inject [text_simps]: "to_string m = to_string n \<longleftrightarrow> m = n"
  by (metis to_string_value)

text \<open>\<open>std::to_string\<close> of a signed integer.\<close>

definition to_string_int :: "int \<Rightarrow> string" where
  "to_string_int i = (if i < 0 then CHR ''-'' # to_string (nat (- i)) else to_string (nat i))"

lemma to_string_int_inject [simp]: "to_string_int i = to_string_int j \<longleftrightarrow> i = j"
proof -
  have m: "CHR ''-'' \<notin> set (to_string n)" for n using to_string_chars [of n] by auto
  have d: "CHR ''-'' # xs \<noteq> to_string n" "to_string n \<noteq> CHR ''-'' # xs" for xs n
    using m [of n] by (metis list.set_intros(1))+
  show ?thesis using d by (auto simp: to_string_int_def to_string_inject)
qed

section \<open>Strings\<close>

text \<open>\<open>join_with sep ps\<close>: the pieces in order with \<open>sep\<close> between them.\<close>

fun join_with :: "string \<Rightarrow> string list \<Rightarrow> string" where
  "join_with sep [] = ''''"
| "join_with sep [p] = p"
| "join_with sep (p # q # ps) = p @ sep @ join_with sep (q # ps)"

lemma join_with_Cons: "ps \<noteq> [] \<Longrightarrow> join_with sep (p # ps) = p @ sep @ join_with sep ps"
  by (cases ps) auto

lemma join_with_append:
  "ps \<noteq> [] \<Longrightarrow> qs \<noteq> [] \<Longrightarrow> join_with sep (ps @ qs) = join_with sep ps @ sep @ join_with sep qs"
proof (induction ps)
  case (Cons p ps)
  then show ?case by (cases ps) (auto simp: join_with_Cons)
qed simp

lemma join_with_eq_Nil: "(\<forall>p\<in>set ps. p \<noteq> []) \<Longrightarrow> join_with sep ps = [] \<longleftrightarrow> ps = []"
  by (cases ps) (auto simp: neq_Nil_conv join_with_Cons, metis append_is_Nil_conv join_with.simps(2) join_with_Cons list.exhaust)

text \<open>
  \<open>split_at_char c s\<close> is the pair of the text before the first \<open>c\<close> and the text from it
  on (\<^verbatim>\<open>find\<close> followed by the two \<^verbatim>\<open>substr\<close>); \<open>split_on c s\<close> the list of the
  segments between the occurrences of \<open>c\<close>.
\<close>

definition split_at_char :: "char \<Rightarrow> string \<Rightarrow> string \<times> string" where
  "split_at_char c s = (takeWhile (\<lambda>x. x \<noteq> c) s, dropWhile (\<lambda>x. x \<noteq> c) s)"

lemma split_at_char_append [text_simps]: "fst (split_at_char c s) @ snd (split_at_char c s) = s"
  by (simp add: split_at_char_def)

lemma split_at_char_free:
  "c \<notin> set t \<Longrightarrow> b = [] \<or> hd b = c \<Longrightarrow> split_at_char c (t @ b) = (t, b)"
proof -
  assume "c \<notin> set t" "b = [] \<or> hd b = c"
  then have "takeWhile (\<lambda>x. x \<noteq> c) b = []" "dropWhile (\<lambda>x. x \<noteq> c) b = b" by (cases b; auto)+
  moreover have "\<forall>x\<in>set t. x \<noteq> c" using \<open>c \<notin> set t\<close> by auto
  ultimately show ?thesis by (simp add: split_at_char_def takeWhile_append2 dropWhile_append2)
qed

function split_on :: "char \<Rightarrow> string \<Rightarrow> string list" where
  "split_on c s =
     (case split_at_char c s of (a, []) \<Rightarrow> [a] | (a, _ # rest) \<Rightarrow> a # split_on c rest)"
  by pat_completeness auto
termination
proof (relation "measure (\<lambda>(c, s). length s)", goal_cases)
  case (2 c s a b x rest)
  then have "dropWhile (\<lambda>y. y \<noteq> c) s = x # rest" by (simp add: split_at_char_def)
  then have "length (x # rest) \<le> length s" by (metis length_dropWhile_le)
  then show ?case by simp
qed simp

declare split_on.simps [simp del]

lemma split_on_free: "c \<notin> set s \<Longrightarrow> split_on c s = [s]"
  using split_at_char_free [of c s "[]"] by (simp add: split_on.simps [of c s])

lemma split_on_Cons: "c \<notin> set a \<Longrightarrow> split_on c (a @ c # rest) = a # split_on c rest"
  using split_at_char_free [of c a "c # rest"] by (subst split_on.simps) simp

lemma split_on_nonempty [text_simps]: "split_on c s \<noteq> []"
  by (subst split_on.simps) (simp split: prod.splits list.splits)

lemma split_on_segments: "seg \<in> set (split_on c s) \<Longrightarrow> c \<notin> set seg"
proof (induction c s rule: split_on.induct)
  case (1 c s)
  obtain a b where ab: "split_at_char c s = (a, b)" by fastforce
  then have a: "c \<notin> set a" by (auto simp: split_at_char_def dest: set_takeWhileD)
  show ?case
  proof (cases b)
    case Nil
    then show ?thesis using 1(2) ab a by (simp add: split_on.simps [of c s])
  next
    case (Cons x rest)
    then have "split_on c s = a # split_on c rest" using ab by (simp add: split_on.simps [of c s])
    then show ?thesis using 1 ab a Cons by auto
  qed
qed

lemma join_split_on: "join_with [c] (split_on c s) = s"
proof (induction c s rule: split_on.induct)
  case (1 c s)
  obtain a b where ab: "split_at_char c s = (a, b)" by fastforce
  then have s: "s = a @ b" using split_at_char_append [of c s] by simp
  show ?case
  proof (cases b)
    case Nil
    then show ?thesis using ab s by (subst split_on.simps) simp
  next
    case (Cons x rest)
    have "dropWhile (\<lambda>y. y \<noteq> c) s = x # rest" using ab Cons by (simp add: split_at_char_def)
    then have "x = c" by (metis (full_types) dropWhile_eq_Cons_conv)
    moreover have "split_on c s = a # split_on c rest" using ab Cons by (simp add: split_on.simps [of c s])
    moreover have "join_with [c] (split_on c rest) = rest" using 1 ab Cons by auto
    ultimately show ?thesis using s Cons by (simp add: join_with_Cons split_on_nonempty)
  qed
qed

lemma split_on_join_with:
  "segs \<noteq> [] \<Longrightarrow> \<forall>s\<in>set segs. c \<notin> set s \<Longrightarrow> split_on c (join_with [c] segs) = segs"
proof (induction segs)
  case (Cons s segs)
  then show ?case by (cases segs) (auto simp: split_on_free join_with_Cons split_on_Cons)
qed simp

end
