(* ===== verification/Values.thy ===== *)
theory Values
  imports Ddbsh_Prelude
begin

text \<open>
  The attribute values, the errors and the result type of the engine
  (\<^verbatim>\<open>include/ddbsh/value.hpp\<close>, \<^verbatim>\<open>error.hpp\<close>, \<^verbatim>\<open>result.hpp\<close>) and the wire
  rendering of a literal value (\<^verbatim>\<open>src/expressions/attribute_serialize.cpp\<close>).  The
  C++ \<^verbatim>\<open>Value\<close> is a struct whose \<^verbatim>\<open>type\<close> member selects the active field: a tagged
  union, so a datatype with one constructor per tag.
\<close>

section \<open>Values\<close>

datatype "value" =
    S string
  | N string
  | B string
  | BOOL bool
  | NUL
  | L "value list"
  | M "(string \<times> value) list"
  | SS "string list"
  | NS "string list"
  | BS "string list"

type_synonym value_map = "(string \<times> value) list"

text \<open>The tag alone, and the string field \<^verbatim>\<open>s\<close> (empty for the tags that do not use it).\<close>

datatype value_type = TS | TN | TB | TBOOL | TNUL | TL | TM | TSS | TNS | TBS

fun type_of :: "value \<Rightarrow> value_type" where
  "type_of (S _) = TS"
| "type_of (N _) = TN"
| "type_of (B _) = TB"
| "type_of (BOOL _) = TBOOL"
| "type_of NUL = TNUL"
| "type_of (L _) = TL"
| "type_of (M _) = TM"
| "type_of (SS _) = TSS"
| "type_of (NS _) = TNS"
| "type_of (BS _) = TBS"

fun val_s :: "value \<Rightarrow> string" where
  "val_s (S s) = s"
| "val_s (N s) = s"
| "val_s (B s) = s"
| "val_s _ = ''''"

definition string_value :: "string \<Rightarrow> value" where
  "string_value v = S v"

definition null_value :: "value" where
  "null_value = NUL"

section \<open>Errors and results\<close>

datatype errc =
    parse_error
  | no_such_table
  | table_already_exists
  | conditional_check_failed
  | service_error
  | invalid_argument
  | cancelled
  | not_reducible_to_getitem
  | not_implemented
  | internal_error

record error =
  err_code :: errc
  err_message :: string
  service_error_name :: "string option"
  request_id :: "string option"

type_synonym 'a result = "error + 'a"

definition fail_with :: "errc \<Rightarrow> string \<Rightarrow> 'a result" where
  "fail_with code msg =
     Inl \<lparr>err_code = code, err_message = msg, service_error_name = None, request_id = None\<rparr>"

section \<open>Wire rendering of a literal value\<close>

fun escape_char :: "char \<Rightarrow> string" where
  "escape_char c =
     (if c = CHR 0x22 then [CHR 0x5C, CHR 0x22]
      else if c = CHR 0x5C then [CHR 0x5C, CHR 0x5C]
      else if c = CHR 0x09 then [CHR 0x5C, CHR ''t'']
      else if c = CHR 0x0D then [CHR 0x5C, CHR ''r'']
      else if c = CHR 0x0A then [CHR 0x5C, CHR ''n'']
      else [c])"

definition append_escaped :: "string \<Rightarrow> string" where
  "append_escaped s = concat (map escape_char s)"

definition quoted :: "string \<Rightarrow> string" where
  "quoted s = [CHR 0x22] @ s @ [CHR 0x22]"

fun serialize_impl :: "value \<Rightarrow> string" where
  "serialize_impl (S s) = ''{'' @ quoted ''S'' @ '':'' @ quoted (append_escaped s) @ ''}''"
| "serialize_impl (N s) = ''{'' @ quoted ''N'' @ '':'' @ quoted s @ ''}''"
| "serialize_impl (B s) = ''{'' @ quoted ''B'' @ '':'' @ quoted (append_escaped s) @ ''}''"
| "serialize_impl (BOOL b) = ''{'' @ quoted ''BOOL'' @ '':'' @ (if b then ''true'' else ''false'') @ ''}''"
| "serialize_impl NUL = ''{'' @ quoted ''NULL'' @ '':true}''"
| "serialize_impl (L vs) =
     ''{'' @ quoted ''L'' @ '':['' @ join_with '','' (map serialize_impl vs) @ '']}''"
| "serialize_impl (M kvs) =
     ''{'' @ quoted ''M'' @ '':{'' @
     join_with '','' (map (\<lambda>kv. quoted (append_escaped (fst kv)) @ '':'' @ serialize_impl (snd kv)) kvs) @
     ''}}''"
| "serialize_impl (SS ss) =
     ''{'' @ quoted ''SS'' @ '':['' @ join_with '','' (map (\<lambda>s. quoted (append_escaped s)) ss) @ '']}''"
| "serialize_impl (NS ss) =
     ''{'' @ quoted ''NS'' @ '':['' @ join_with '','' (map (\<lambda>s. quoted (append_escaped s)) ss) @ '']}''"
| "serialize_impl (BS ss) =
     ''{'' @ quoted ''BS'' @ '':['' @ join_with '','' (map (\<lambda>s. quoted (append_escaped s)) ss) @ '']}''"

definition serialize_attribute :: "value \<Rightarrow> string" where
  "serialize_attribute v = filter (\<lambda>c. c \<noteq> CHR 0x0A) (serialize_impl v)"

subsection \<open>Escaping is reversible\<close>

fun unescape :: "string \<Rightarrow> string" where
  "unescape [] = []"
| "unescape [c] = [c]"
| "unescape (c # d # cs) =
     (if c = CHR 0x5C then
        (if d = CHR ''t'' then CHR 0x09 else if d = CHR ''r'' then CHR 0x0D
         else if d = CHR ''n'' then CHR 0x0A else d) # unescape cs
      else c # unescape (d # cs))"

lemma unescape_plain: "c \<noteq> CHR 0x5C \<Longrightarrow> unescape (c # cs) = c # unescape cs"
  by (cases cs) auto

lemma unescape_escaped: "unescape (append_escaped s) = s"
proof (induction s)
  case (Cons c s)
  then show ?case by (simp add: append_escaped_def unescape_plain)
qed (simp add: append_escaped_def)

lemma append_escaped_no_newline: "CHR 0x0A \<notin> set (append_escaped s)"
  by (induction s) (auto simp: append_escaped_def)

lemma append_escaped_inject: "append_escaped s = append_escaped t \<longleftrightarrow> s = t"
  by (metis unescape_escaped)

lemma serialize_attribute_nonempty [text_simps]: "serialize_attribute v \<noteq> []"
  by (cases v) (simp_all add: serialize_attribute_def)

end
