(* ===== verification/Symbol_Table.thy ===== *)
theory Symbol_Table
  imports Values "HOL-Library.Multiset"
begin

text \<open>
  The alias generator of the expression engine: the per-statement prefix
  (\<^verbatim>\<open>src/expressions/prefix.hpp\<close>) and the symbol table that turns attribute paths and
  values into \<open>#a<prefix><n>\<close> and \<open>:v<prefix><n>\<close> tokens
  (\<^verbatim>\<open>src/expressions/symbol_table.hpp\<close>, \<^verbatim>\<open>.cpp\<close>).  The invariant says that tokens are
  never shared between names; its consequences are that a rendered path resolves back to
  the path it was made from and that a value token is always fresh.
\<close>

section \<open>Alias prefixes\<close>

definition kPrefixChars :: string where
  "kPrefixChars = ''abcdefghijklmnopqrstuvwxyzABCDEFGHIJKLMNOPQRSTUVWXYZ''"

definition kPrefixLength :: nat where
  "kPrefixLength = 3"

fun prefix_loop :: "nat \<Rightarrow> nat \<Rightarrow> string \<Rightarrow> string" where
  "prefix_loop 0 val pre = pre"
| "prefix_loop (Suc ix) val pre = prefix_loop ix (val div 52) (pre @ [kPrefixChars ! (val mod 52)])"

definition unique_prefix :: "nat \<Rightarrow> string" where
  "unique_prefix counter = prefix_loop kPrefixLength counter ''''"

lemma length_kPrefixChars: "length kPrefixChars = 52"
  by (simp add: kPrefixChars_def)

lemma distinct_kPrefixChars: "distinct kPrefixChars"
  by (simp add: kPrefixChars_def)

lemma unique_prefix_eq:
  "unique_prefix c =
     [kPrefixChars ! (c mod 52), kPrefixChars ! (c div 52 mod 52), kPrefixChars ! (c div 52 div 52 mod 52)]"
  by (simp add: unique_prefix_def kPrefixLength_def numeral_3_eq_3)

lemma unique_prefix_chars: "set (unique_prefix c) \<subseteq> set kPrefixChars"
  using nth_mem [of _ kPrefixChars] by (simp add: unique_prefix_eq length_kPrefixChars)

lemma unique_prefix_clean: "CHR ''.'' \<notin> set (unique_prefix c)" "CHR ''['' \<notin> set (unique_prefix c)"
proof -
  have "CHR ''.'' \<notin> set kPrefixChars" "CHR ''['' \<notin> set kPrefixChars"
    by (simp_all add: kPrefixChars_def)
  then show "CHR ''.'' \<notin> set (unique_prefix c)" "CHR ''['' \<notin> set (unique_prefix c)"
    using unique_prefix_chars [of c] by auto
qed

lemma kPrefixChars_nth_inject:
  "i < 52 \<Longrightarrow> j < 52 \<Longrightarrow> kPrefixChars ! i = kPrefixChars ! j \<longleftrightarrow> i = j"
  using distinct_kPrefixChars length_kPrefixChars by (simp add: nth_eq_iff_index_eq)

lemma base52_digits: "(c::nat) = c mod 52 + 52 * (c div 52 mod 52) + 2704 * (c div 52 div 52)"
  using div_mult_mod_eq [of c 52] div_mult_mod_eq [of "c div 52" 52] by linarith

lemma unique_prefix_mod: "unique_prefix c = unique_prefix d \<longleftrightarrow> c mod 140608 = d mod 140608"
proof -
  have split: "n mod 140608 = n mod 52 + 52 * (n div 52 mod 52) + 2704 * (n div 52 div 52 mod 52)"
    for n :: nat
  proof -
    have "n mod (52 * 2704) = 52 * (n div 52 mod 2704) + n mod 52" by (rule mod_mult2_eq)
    moreover have "n div 52 mod (52 * 52) = 52 * (n div 52 div 52 mod 52) + n div 52 mod 52"
      by (rule mod_mult2_eq)
    ultimately show ?thesis by simp
  qed
  have "unique_prefix c = unique_prefix d \<longleftrightarrow>
      c mod 52 = d mod 52 \<and> c div 52 mod 52 = d div 52 mod 52 \<and> c div 52 div 52 mod 52 = d div 52 div 52 mod 52"
    by (simp add: unique_prefix_eq kPrefixChars_nth_inject)
  moreover have digits: "x + 52 * y + 2704 * z = x' + 52 * y' + 2704 * z' \<longleftrightarrow> x = x' \<and> y = y' \<and> z = z'"
    if "x < 52" "y < 52" "x' < 52" "y' < 52" for x y z x' y' z' :: nat
  proof
    assume eq: "x + 52 * y + 2704 * z = x' + 52 * y' + 2704 * z'"
    have "x + 52 * (y + 52 * z) = x' + 52 * (y' + 52 * z')" using eq by simp
    then have "x = x' \<and> y + 52 * z = y' + 52 * z'"
      using that(1,3) by (metis add_left_cancel mod_less mod_mult_self2 mult_left_cancel zero_neq_numeral)
    moreover from this have "y = y' \<and> z = z'"
      using that(2,4) by (metis add_left_cancel mod_less mod_mult_self2 mult_left_cancel zero_neq_numeral)
    ultimately show "x = x' \<and> y = y' \<and> z = z'" by simp
  qed simp
  ultimately show ?thesis
    using digits [of "c mod 52" "c div 52 mod 52" "d mod 52" "d div 52 mod 52"]
    by (simp add: split)
qed

section \<open>The symbol table\<close>

record symtab =
  st_prefix :: string
  attr_ix :: nat
  value_ix :: nat
  st_names :: "(string, string) smap"
  st_values :: "(string, value) smap"

definition new_symtab :: "string \<Rightarrow> symtab" where
  "new_symtab prefix = \<lparr>st_prefix = prefix, attr_ix = 1, value_ix = 1, st_names = [], st_values = []\<rparr>"

definition attr_token :: "string \<Rightarrow> nat \<Rightarrow> string" where
  "attr_token prefix ix = ''#a'' @ prefix @ to_string ix"

definition value_token :: "string \<Rightarrow> nat \<Rightarrow> string" where
  "value_token prefix ix = '':v'' @ prefix @ to_string ix"

definition new_bare :: "string \<Rightarrow> symtab \<Rightarrow> string \<times> symtab" where
  "new_bare name st =
     (let token = attr_token (st_prefix st) (attr_ix st) in
      case map_of (st_names st) name of
        None \<Rightarrow> (token, st\<lparr>st_names := smap_emplace name token (st_names st), attr_ix := attr_ix st + 1\<rparr>)
      | Some old \<Rightarrow> (old, st))"

definition new_segment :: "string \<Rightarrow> symtab \<Rightarrow> string \<times> symtab" where
  "new_segment name st =
     (case split_at_char (CHR ''['') name of
        (bare, []) \<Rightarrow> new_bare name st
      | (bare, subscript) \<Rightarrow> (let (tok, st') = new_bare bare st in (tok @ subscript, st')))"

function new_attribute_loop :: "string \<Rightarrow> string \<Rightarrow> symtab \<Rightarrow> string \<times> symtab" where
  "new_attribute_loop token name st =
     (case split_at_char (CHR ''.'') name of
        (segment, remn) \<Rightarrow>
          (case new_segment segment st of
             (tok, st') \<Rightarrow>
               (let token' = (if token = [] then tok else token @ ''.'' @ tok) in
                case remn of
                  [] \<Rightarrow> (token', st')
                | _ # rest \<Rightarrow> new_attribute_loop token' rest st')))"
  by pat_completeness auto
termination
proof (relation "measure (\<lambda>(token, name, st). length name)", goal_cases)
  case (2 token name st segment remn tok st' token' x rest)
  then have "dropWhile (\<lambda>y. y \<noteq> CHR ''.'') name = x # rest" by (simp add: split_at_char_def)
  then have "length (x # rest) \<le> length name" by (metis length_dropWhile_le)
  then show ?case by simp
qed simp

declare new_attribute_loop.simps [simp del]

definition new_attribute :: "string \<Rightarrow> symtab \<Rightarrow> string \<times> symtab" where
  "new_attribute name st = new_attribute_loop '''' name st"

definition new_value :: "value \<Rightarrow> symtab \<Rightarrow> string \<times> symtab" where
  "new_value v st =
     (let token = value_token (st_prefix st) (value_ix st) in
      (token, st\<lparr>value_ix := value_ix st + 1, st_values := smap_emplace token v (st_values st)\<rparr>))"

definition has_names :: "symtab \<Rightarrow> bool" where
  "has_names st = (st_names st \<noteq> [])"

definition has_values :: "symtab \<Rightarrow> bool" where
  "has_values st = (st_values st \<noteq> [])"

definition get_names :: "symtab \<Rightarrow> (string, string) smap" where
  "get_names st = fold (\<lambda>(real_name, token). smap_emplace token real_name) (st_names st) []"

definition get_values :: "symtab \<Rightarrow> (string, value) smap" where
  "get_values st = st_values st"

section \<open>The invariant\<close>

text \<open>
  Both maps are ordered, every attribute token in use carries an index already handed out
  and no two names share one, the value tokens are exactly those handed out, and the prefix
  contains none of the characters the path syntax uses.
\<close>

definition st_inv :: "symtab \<Rightarrow> bool" where
  "st_inv st \<longleftrightarrow>
     smap_ok (st_names st) \<and> smap_ok (st_values st) \<and>
     distinct (map snd (st_names st)) \<and>
     (\<forall>t\<in>snd ` set (st_names st). \<exists>i. 1 \<le> i \<and> i < attr_ix st \<and> t = attr_token (st_prefix st) i) \<and>
     fst ` set (st_values st) = value_token (st_prefix st) ` {1..<value_ix st} \<and>
     1 \<le> attr_ix st \<and> 1 \<le> value_ix st \<and>
     CHR ''.'' \<notin> set (st_prefix st) \<and> CHR ''['' \<notin> set (st_prefix st)"

lemma attr_token_inject [simp]: "attr_token p i = attr_token p j \<longleftrightarrow> i = j"
  by (simp add: attr_token_def text_simps)

lemma value_token_inject [simp]: "value_token p i = value_token p j \<longleftrightarrow> i = j"
  by (simp add: value_token_def text_simps)

lemma attr_token_nonempty [simp]: "attr_token p i \<noteq> []"
  by (simp add: attr_token_def)

lemma attr_token_clean:
  assumes "c \<notin> set p" and "c \<notin> set ''#a''" and "c \<notin> set ''0123456789''"
  shows "c \<notin> set (attr_token p i)"
proof -
  have "c \<notin> set (to_string i)" using to_string_chars [of i] assms(3) by blast
  then show ?thesis using assms(1,2) by (simp only: attr_token_def set_append Un_iff) blast
qed

lemma st_inv_new [intro, simp]:
  "CHR ''.'' \<notin> set p \<Longrightarrow> CHR ''['' \<notin> set p \<Longrightarrow> st_inv (new_symtab p)"
  by (simp add: st_inv_def new_symtab_def)

lemma map_snd_emplace:
  "k \<notin> fst ` set m \<Longrightarrow> mset (map snd (smap_emplace k v m)) = add_mset v (mset (map snd m))"
  by (induction k v m rule: smap_emplace.induct) auto

lemma distinct_snd_emplace:
  assumes "k \<notin> fst ` set m" and "distinct (map snd m)" and "v \<notin> snd ` set m"
  shows "distinct (map snd (smap_emplace k v m))"
    and "snd ` set (smap_emplace k v m) = insert v (snd ` set m)"
proof -
  note ms = map_snd_emplace [OF assms(1), of v]
  have "mset (map snd (smap_emplace k v m)) = mset (v # map snd m)" using ms by simp
  moreover have "distinct (v # map snd m)" using assms by simp
  ultimately show "distinct (map snd (smap_emplace k v m))"
    by (metis mset_eq_imp_distinct_iff)
  have "set_mset (mset (map snd (smap_emplace k v m))) = insert v (set (map snd m))"
    using ms by simp
  then show "snd ` set (smap_emplace k v m) = insert v (snd ` set m)" by simp
qed

lemma new_bare_inv:
  assumes "st_inv st" and "new_bare name st = (tok, st')"
  shows "st_inv st'"
proof (cases "map_of (st_names st) name")
  case None
  let ?t = "attr_token (st_prefix st) (attr_ix st)"
  have st': "st' = st\<lparr>st_names := smap_emplace name ?t (st_names st), attr_ix := attr_ix st + 1\<rparr>"
    using assms(2) None by (auto simp: new_bare_def Let_def)
  have fresh: "name \<notin> fst ` set (st_names st)" using None by (simp add: map_of_eq_None_iff)
  have tok_new: "?t \<notin> snd ` set (st_names st)"
  proof
    assume "?t \<in> snd ` set (st_names st)"
    then obtain i where "i < attr_ix st" "?t = attr_token (st_prefix st) i"
      using assms(1) unfolding st_inv_def by blast
    then show False by simp
  qed
  have "distinct (map snd (st_names st))" using assms(1) by (simp add: st_inv_def)
  note snds = distinct_snd_emplace [OF fresh this tok_new]
  have "\<exists>i. 1 \<le> i \<and> i < attr_ix st' \<and> t = attr_token (st_prefix st') i" if "t \<in> snd ` set (st_names st')" for t
  proof (cases "t = ?t")
    case True
    then show ?thesis using assms(1) st' by (auto simp: st_inv_def intro: exI [of _ "attr_ix st"])
  next
    case False
    then have "t \<in> snd ` set (st_names st)" using that snds(2) st' by simp
    then obtain i where "1 \<le> i" "i < attr_ix st" "t = attr_token (st_prefix st) i"
      using assms(1) unfolding st_inv_def by blast
    then show ?thesis using st' by (intro exI [of _ i]) simp
  qed
  moreover have "distinct (map snd (st_names st'))" using snds(1) st' by simp
  moreover have "smap_ok (st_names st')" using assms(1) st' smap_ok_emplace by (auto simp: st_inv_def)
  ultimately show ?thesis using assms(1) st' by (simp add: st_inv_def)
next
  case (Some t)
  then show ?thesis using assms by (simp add: new_bare_def Let_def)
qed

lemma new_bare_token:
  assumes "st_inv st" and "new_bare name st = (tok, st')"
  shows "map_of (st_names st') name = Some tok"
    and "map_of (st_names st) \<subseteq>\<^sub>m map_of (st_names st')"
    and "tok \<noteq> []" and "CHR ''.'' \<notin> set tok" and "CHR ''['' \<notin> set tok"
proof -
  have ok: "smap_ok (st_names st)" using assms(1) by (simp add: st_inv_def)
  show look: "map_of (st_names st') name = Some tok"
    and "map_of (st_names st) \<subseteq>\<^sub>m map_of (st_names st')"
    using assms(2) by (auto simp: new_bare_def Let_def map_of_smap_emplace [OF ok] map_le_def split: option.splits)
  have inv': "st_inv st'" using assms by (rule new_bare_inv)
  have "tok \<in> snd ` set (st_names st')" using map_of_SomeD [OF look] by force
  then obtain i where tok: "tok = attr_token (st_prefix st') i"
    using inv' unfolding st_inv_def by blast
  have clean: "CHR ''.'' \<notin> set (st_prefix st')" "CHR ''['' \<notin> set (st_prefix st')"
    using inv' by (simp_all add: st_inv_def)
  show "tok \<noteq> []" "CHR ''.'' \<notin> set tok" "CHR ''['' \<notin> set tok"
    using tok attr_token_clean [OF clean(1)] attr_token_clean [OF clean(2)] by simp_all
qed

lemma new_segment_eq:
  "new_segment seg st =
     (let (bare, sub) = split_at_char (CHR ''['') seg; (tok, st') = new_bare bare st in (tok @ sub, st'))"
proof -
  obtain bare sub where bs: "split_at_char (CHR ''['') seg = (bare, sub)" by fastforce
  moreover have "seg = bare @ sub" using split_at_char_append [of "CHR ''[''" seg] bs by simp
  ultimately show ?thesis by (cases sub) (simp_all add: new_segment_def split: prod.splits)
qed

lemma new_segment_inv: "st_inv st \<Longrightarrow> new_segment seg st = (tok, st') \<Longrightarrow> st_inv st'"
  by (auto simp: new_segment_eq Let_def split: prod.splits dest: new_bare_inv)

section \<open>The path loop, segment by segment\<close>

fun new_segments :: "string list \<Rightarrow> symtab \<Rightarrow> string list \<times> symtab" where
  "new_segments [] st = ([], st)"
| "new_segments (seg # segs) st =
     (let (tok, st') = new_segment seg st; (toks, st'') = new_segments segs st' in (tok # toks, st''))"

lemma new_segments_nonempty: "new_segments segs st = (toks, st') \<Longrightarrow> toks = [] \<longleftrightarrow> segs = []"
  by (cases segs) (auto split: prod.splits)

lemma new_segments_inv: "st_inv st \<Longrightarrow> new_segments segs st = (toks, st') \<Longrightarrow> st_inv st'"
  by (induction segs arbitrary: st toks) (auto split: prod.splits dest: new_segment_inv)

lemma new_segment_nonempty: "st_inv st \<Longrightarrow> new_segment seg st = (tok, st') \<Longrightarrow> tok \<noteq> []"
  by (auto simp: new_segment_eq Let_def split: prod.splits dest: new_bare_token(3))

lemma new_attribute_loop_segments:
  "st_inv st \<Longrightarrow>
     new_attribute_loop token name st =
       (let (toks, st') = new_segments (split_on (CHR ''.'') name) st in
        (if token = [] then join_with ''.'' toks else token @ ''.'' @ join_with ''.'' toks, st'))"
proof (induction token name st rule: new_attribute_loop.induct)
  case (1 token name st)
  obtain seg remn where sm: "split_at_char (CHR ''.'') name = (seg, remn)" by fastforce
  obtain tok st1 where ns: "new_segment seg st = (tok, st1)" by fastforce
  have tok: "tok \<noteq> []" using "1.prems" ns by (rule new_segment_nonempty)
  show ?case
  proof (cases remn)
    case Nil
    have "split_on (CHR ''.'') name = [seg]" using sm Nil by (subst split_on.simps) simp
    then show ?thesis using sm ns Nil by (simp add: new_attribute_loop.simps [of token name st])
  next
    case (Cons x rest)
    have so: "split_on (CHR ''.'') name = seg # split_on (CHR ''.'') rest"
      using sm Cons by (subst split_on.simps) simp
    obtain toks st2 where ts: "new_segments (split_on (CHR ''.'') rest) st1 = (toks, st2)" by fastforce
    have "toks \<noteq> []" using new_segments_nonempty [OF ts] by (simp add: split_on_nonempty)
    let ?t = "if token = [] then tok else token @ ''.'' @ tok"
    have "new_attribute_loop token name st = new_attribute_loop ?t rest st1"
      using sm ns Cons by (simp add: new_attribute_loop.simps [of token name st])
    also have "\<dots> = (?t @ ''.'' @ join_with ''.'' toks, st2)"
      using "1.IH" [OF sm [symmetric] ns [symmetric] refl Cons new_segment_inv [OF "1.prems" ns]] ts tok
      by simp
    finally show ?thesis using so ns ts \<open>toks \<noteq> []\<close> by (simp add: join_with_Cons)
  qed
qed

lemma new_attribute_segments:
  "st_inv st \<Longrightarrow>
     new_attribute name st =
       (let (toks, st') = new_segments (split_on (CHR ''.'') name) st in (join_with ''.'' toks, st'))"
  by (simp add: new_attribute_def new_attribute_loop_segments)

lemma new_attribute_inv: "st_inv st \<Longrightarrow> st_inv (snd (new_attribute name st))"
  by (auto simp: new_attribute_segments split: prod.splits dest: new_segments_inv)

lemma new_value_inv: "st_inv st \<Longrightarrow> st_inv (snd (new_value v st))"
proof -
  assume inv: "st_inv st"
  have "value_token (st_prefix st) ` {1..<value_ix st + 1} =
      insert (value_token (st_prefix st) (value_ix st)) (value_token (st_prefix st) ` {1..<value_ix st})"
    using inv by (auto simp: st_inv_def less_Suc_eq)
  then show ?thesis
    using inv smap_ok_emplace by (auto simp: st_inv_def new_value_def Let_def fst_set_smap_emplace)
qed

section \<open>Growth: tokens never change their meaning\<close>

text \<open>
  \<open>st_le st st'\<close>: every name and every value token of \<open>st\<close> is in \<open>st'\<close> with the same
  meaning.
\<close>

definition st_le :: "symtab \<Rightarrow> symtab \<Rightarrow> bool" where
  "st_le st st' \<longleftrightarrow>
     map_of (st_names st) \<subseteq>\<^sub>m map_of (st_names st') \<and> map_of (st_values st) \<subseteq>\<^sub>m map_of (st_values st') \<and>
     st_prefix st' = st_prefix st"

lemma st_le_refl [simp, intro]: "st_le st st"
  by (simp add: st_le_def)

lemma st_le_trans [trans]: "st_le a b \<Longrightarrow> st_le b c \<Longrightarrow> st_le a c"
  by (auto simp: st_le_def intro: map_le_trans)

lemma new_bare_le: "st_inv st \<Longrightarrow> new_bare name st = (tok, st') \<Longrightarrow> st_le st st'"
  using new_bare_token(2) [of st name tok st']
  by (auto simp: st_le_def new_bare_def Let_def split: option.splits)

lemma new_segment_le: "st_inv st \<Longrightarrow> new_segment seg st = (tok, st') \<Longrightarrow> st_le st st'"
  by (auto simp: new_segment_eq Let_def split: prod.splits dest: new_bare_le)

lemma new_segments_le: "st_inv st \<Longrightarrow> new_segments segs st = (toks, st') \<Longrightarrow> st_le st st'"
proof (induction segs arbitrary: st toks)
  case (Cons seg segs)
  then show ?case
    by (auto split: prod.splits dest: new_segment_inv intro: st_le_trans [OF new_segment_le])
qed simp

lemma new_attribute_le: "st_inv st \<Longrightarrow> st_le st (snd (new_attribute name st))"
  by (auto simp: new_attribute_segments split: prod.splits dest: new_segments_le)

lemma value_token_fresh:
  "st_inv st \<Longrightarrow> map_of (st_values st) (value_token (st_prefix st) (value_ix st)) = None"
  by (auto simp: st_inv_def map_of_eq_None_iff)

lemma new_value_values:
  assumes "st_inv st" and "new_value v st = (tok, st')"
  shows "map_of (st_values st) tok = None" and "map_of (st_values st') = (map_of (st_values st))(tok \<mapsto> v)"
  using assms value_token_fresh [OF assms(1)]
  by (auto simp: new_value_def Let_def map_of_smap_emplace st_inv_def)

lemma new_value_le: "st_inv st \<Longrightarrow> st_le st (snd (new_value v st))"
  using new_value_values [of st v] by (auto simp: st_le_def map_le_def new_value_def Let_def)

section \<open>Names resolve back\<close>

lemma get_names_fold:
  "smap_ok acc \<Longrightarrow> distinct (map snd ns) \<Longrightarrow> snd ` set ns \<inter> fst ` set acc = {} \<Longrightarrow>
     map_of (fold (\<lambda>(n, t). smap_emplace t n) ns acc) t =
       (case map_of acc t of Some n \<Rightarrow> Some n | None \<Rightarrow> map_of (map (\<lambda>(n, t). (t, n)) ns) t)"
proof (induction ns arbitrary: acc)
  case (Cons e ns)
  obtain n u where e: "e = (n, u)" by fastforce
  have u: "map_of acc u = None" "u \<notin> snd ` set ns" using Cons.prems e by (auto simp: map_of_eq_None_iff)
  have "map_of (fold (\<lambda>(n, t). smap_emplace t n) ns (smap_emplace u n acc)) t =
      (case map_of (smap_emplace u n acc) t of Some n \<Rightarrow> Some n
       | None \<Rightarrow> map_of (map (\<lambda>(n, t). (t, n)) ns) t)"
    using Cons.prems e u(2) by (intro Cons.IH) (auto simp: smap_ok_emplace fst_set_smap_emplace)
  then show ?case using u(1) Cons.prems(1) by (auto simp: e map_of_smap_emplace split: option.splits)
qed (simp split: option.splits)

lemma map_of_swap:
  "distinct (map fst ns) \<Longrightarrow> distinct (map snd ns) \<Longrightarrow>
     map_of (map (\<lambda>(n, t). (t, n)) ns) t = Some n \<longleftrightarrow> map_of ns n = Some t"
  by (induction ns) (auto simp: map_of_eq_None_iff split: if_splits dest: map_of_SomeD intro: rev_image_eqI)

lemma get_names_iff:
  assumes "st_inv st"
  shows "map_of (get_names st) tok = Some n \<longleftrightarrow> map_of (st_names st) n = Some tok"
  using assms get_names_fold [of "[]" "st_names st" tok] map_of_swap [of "st_names st" tok n]
  by (simp add: get_names_def st_inv_def smap_ok_distinct)

text \<open>
  What the service does with a rendered path: every segment's token is looked up in
  \<^verbatim>\<open>ExpressionAttributeNames\<close>, its subscript kept.
\<close>

definition resolve_segment :: "(string, string) smap \<Rightarrow> string \<Rightarrow> string" where
  "resolve_segment names seg =
     (let (tok, sub) = split_at_char (CHR ''['') seg in
      case map_of names tok of None \<Rightarrow> seg | Some n \<Rightarrow> n @ sub)"

definition resolve_path :: "(string, string) smap \<Rightarrow> string \<Rightarrow> string" where
  "resolve_path names path = join_with ''.'' (map (resolve_segment names) (split_on (CHR ''.'') path))"

lemma split_at_char_hd: "split_at_char c s = (a, b) \<Longrightarrow> b = [] \<or> hd b = c"
  unfolding split_at_char_def by (metis (mono_tags, lifting) Pair_inject hd_dropWhile)

lemma new_segment_resolves:
  assumes "st_inv st" and "new_segment seg st = (tok, st1)" and "st_inv st'" and "st_le st1 st'"
    and "CHR ''.'' \<notin> set seg"
  shows "resolve_segment (get_names st') tok = seg" and "CHR ''.'' \<notin> set tok"
proof -
  obtain bare sub where bs: "split_at_char (CHR ''['') seg = (bare, sub)" by fastforce
  obtain t where nb: "new_bare bare st = (t, st1)" and tok: "tok = t @ sub"
    using assms(2) bs by (auto simp: new_segment_eq split: prod.splits)
  note t = new_bare_token [OF assms(1) nb]
  have seg: "seg = bare @ sub" using split_at_char_append [of "CHR ''[''" seg] bs by simp
  have "split_at_char (CHR ''['') tok = (t, sub)"
    using tok split_at_char_free [OF t(5) split_at_char_hd [OF bs]] by simp
  moreover have "map_of (st_names st') bare = Some t"
    using t(1) assms(4) by (auto simp: st_le_def map_le_def dest!: bspec [of _ _ bare] intro: domI)
  then have "map_of (get_names st') t = Some bare" using get_names_iff [OF assms(3)] by simp
  ultimately show "resolve_segment (get_names st') tok = seg" using seg by (simp add: resolve_segment_def)
  show "CHR ''.'' \<notin> set tok" using t(4) assms(5) seg tok by auto
qed

lemma new_segments_resolve:
  assumes "st_inv st" and "new_segments segs st = (toks, st1)" and "st_inv st'" and "st_le st1 st'"
    and "\<forall>s\<in>set segs. CHR ''.'' \<notin> set s"
  shows "map (resolve_segment (get_names st')) toks = segs \<and> (\<forall>t\<in>set toks. CHR ''.'' \<notin> set t)"
  using assms
proof (induction segs arbitrary: st toks)
  case (Cons seg segs)
  then obtain tok st0 toks' where sg: "new_segment seg st = (tok, st0)" "new_segments segs st0 = (toks', st1)"
    and toks: "toks = tok # toks'" by (auto split: prod.splits)
  have inv0: "st_inv st0" using Cons.prems(1) sg(1) by (rule new_segment_inv)
  then have "st_le st0 st'" using new_segments_le [OF inv0 sg(2)] Cons.prems(4) by (blast intro: st_le_trans)
  then have "resolve_segment (get_names st') tok = seg \<and> CHR ''.'' \<notin> set tok"
    using new_segment_resolves [OF Cons.prems(1) sg(1) Cons.prems(3)] Cons.prems(5) by simp
  then show ?case using Cons.IH [OF inv0 sg(2) Cons.prems(3,4)] Cons.prems(5) toks by simp
qed simp

lemma new_attribute_resolves:
  assumes "st_inv st" and "st_inv st'" and "st_le (snd (new_attribute name st)) st'"
  shows "resolve_path (get_names st') (fst (new_attribute name st)) = name"
proof -
  let ?segs = "split_on (CHR ''.'') name"
  obtain toks st1 where sg: "new_segments ?segs st = (toks, st1)" by fastforce
  have na: "new_attribute name st = (join_with ''.'' toks, st1)"
    using sg by (simp add: new_attribute_segments [OF assms(1)])
  have "\<forall>s\<in>set ?segs. CHR ''.'' \<notin> set s" by (auto dest: split_on_segments)
  then have r: "map (resolve_segment (get_names st')) toks = ?segs" "\<forall>t\<in>set toks. CHR ''.'' \<notin> set t"
    using new_segments_resolve [OF assms(1) sg assms(2)] assms(3) na by simp_all
  have "toks \<noteq> []" using new_segments_nonempty [OF sg] by (simp add: split_on_nonempty)
  then have "split_on (CHR ''.'') (join_with ''.'' toks) = toks" using r(2) by (rule split_on_join_with)
  then show ?thesis using na r(1) by (simp add: resolve_path_def join_split_on)
qed

lemma new_segments_nonempty_pieces:
  "st_inv st \<Longrightarrow> new_segments segs st = (toks, st') \<Longrightarrow> \<forall>t\<in>set toks. t \<noteq> []"
proof (induction segs arbitrary: st toks)
  case (Cons seg segs)
  then obtain tok st0 toks' where sg: "new_segment seg st = (tok, st0)" "new_segments segs st0 = (toks', st')"
    and toks: "toks = tok # toks'" by (auto split: prod.splits)
  have "st_inv st0" "tok \<noteq> []"
    using new_segment_inv [OF Cons.prems(1) sg(1)] new_segment_nonempty [OF Cons.prems(1) sg(1)] by simp_all
  then show ?case using Cons.IH sg(2) toks by simp
qed simp

lemma new_attribute_nonempty: "st_inv st \<Longrightarrow> fst (new_attribute name st) \<noteq> []"
proof -
  assume inv: "st_inv st"
  obtain toks st1 where sg: "new_segments (split_on (CHR ''.'') name) st = (toks, st1)" by fastforce
  then show ?thesis
    using new_segments_nonempty [OF sg] new_segments_nonempty_pieces [OF inv sg]
    by (simp add: new_attribute_segments [OF inv] join_with_eq_Nil split_on_nonempty)
qed

section \<open>Runs of the table\<close>

text \<open>Any sequence of calls a serializer can make.\<close>

datatype st_op = NewAttribute string | NewValue "value"

fun st_apply :: "st_op \<Rightarrow> symtab \<Rightarrow> symtab" where
  "st_apply (NewAttribute n) st = snd (new_attribute n st)"
| "st_apply (NewValue v) st = snd (new_value v st)"

definition st_run :: "st_op list \<Rightarrow> symtab \<Rightarrow> symtab" where
  "st_run ops st = fold st_apply ops st"

lemma st_apply_inv: "st_inv st \<Longrightarrow> st_inv (st_apply op st)"
  by (cases op) (simp_all add: new_attribute_inv new_value_inv)

lemma st_apply_le: "st_inv st \<Longrightarrow> st_le st (st_apply op st)"
  by (cases op) (simp_all add: new_attribute_le new_value_le)

lemma st_run_inv_le: "st_inv st \<Longrightarrow> st_inv (st_run ops st) \<and> st_le st (st_run ops st)"
  unfolding st_run_def
proof (induction ops arbitrary: st)
  case (Cons op ops)
  then show ?case using st_apply_inv [of st op] st_apply_le [of st op] by (auto intro: st_le_trans)
qed simp

lemma st_run_append: "st_run (xs @ ys) st = st_run ys (st_run xs st)"
  by (simp add: st_run_def)

lemma unique_symtab_inv [simp, intro]: "st_inv (new_symtab (unique_prefix c))"
  by (simp add: unique_prefix_clean)

section \<open>Properties\<close>

text \<open>C32: whatever calls are made on the symbol table of any statement, its invariant holds:
  both maps stay ordered, no two attribute names ever share a token, every token in use has
  an index already handed out, and the value tokens are exactly those handed out.\<close>
theorem symtab_always_consistent: "st_inv (st_run ops (new_symtab (unique_prefix c)))"
  using st_run_inv_le by blast

text \<open>C31: alias resolution round trip. A path of any shape (dotted, subscripted, repeated) that is
  aliased at some point of a statement is recovered exactly when the token string is resolved
  through the \<^verbatim>\<open>ExpressionAttributeNames\<close> of the finished statement, whatever was aliased
  before and after it.\<close>
theorem new_attribute_roundtrip:
  "resolve_path (get_names (st_run (before @ [NewAttribute path] @ after) (new_symtab (unique_prefix c))))
     (fst (new_attribute path (st_run before (new_symtab (unique_prefix c))))) = path"
proof -
  let ?st = "st_run before (new_symtab (unique_prefix c))"
  have inv: "st_inv ?st" using st_run_inv_le by blast
  then have "st_inv (snd (new_attribute path ?st))" by (rule new_attribute_inv)
  then have "st_inv (st_run after (snd (new_attribute path ?st))) \<and>
      st_le (snd (new_attribute path ?st)) (st_run after (snd (new_attribute path ?st)))"
    by (rule st_run_inv_le)
  then have "resolve_path (get_names (st_run after (snd (new_attribute path ?st))))
      (fst (new_attribute path ?st)) = path"
    using inv new_attribute_resolves by blast
  then show ?thesis by (simp add: st_run_append) (simp add: st_run_def)
qed

text \<open>values never dedupe and are never overwritten. The token minted for a value was not in use
  before, and the finished statement's \<^verbatim>\<open>ExpressionAttributeValues\<close> map it to that value.\<close>
theorem new_value_fresh_and_kept:
  "map_of (get_values (st_run before (new_symtab (unique_prefix c))))
     (fst (new_value v (st_run before (new_symtab (unique_prefix c))))) = None \<and>
   map_of (get_values (st_run (before @ [NewValue v] @ after) (new_symtab (unique_prefix c))))
     (fst (new_value v (st_run before (new_symtab (unique_prefix c))))) = Some v"
proof -
  let ?st = "st_run before (new_symtab (unique_prefix c))"
  have inv: "st_inv ?st" using st_run_inv_le by blast
  obtain tok st' where nv: "new_value v ?st = (tok, st')" by fastforce
  have le: "st_le st' (st_run after st')"
    using st_run_inv_le new_value_inv [OF inv, of v] nv by simp
  have "map_of (st_values st') tok = Some v" using new_value_values(2) [OF inv nv] by simp
  then have "map_of (st_values (st_run after st')) tok = Some v"
    using le by (auto simp: st_le_def map_le_def dest!: bspec [of _ _ tok] intro: domI)
  moreover have "st_run (before @ [NewValue v] @ after) (new_symtab (unique_prefix c)) = st_run after st'"
    using nv by (simp add: st_run_append) (simp add: st_run_def)
  ultimately show ?thesis
    using new_value_values(1) [OF inv nv] nv by (simp add: get_values_def)
qed

text \<open>the three-character prefix repeats with period \<open>52 ^ 3 = 140608\<close> and never sooner, so two
  statements of a session share a prefix exactly when their numbers agree modulo 140608.\<close>
theorem unique_prefix_collision: "unique_prefix c = unique_prefix d \<longleftrightarrow> c mod 52 ^ 3 = d mod 52 ^ 3"
  by (simp add: unique_prefix_mod)

end
