(* ===== verification/Logical_Expr.thy ===== *)
theory Logical_Expr
  imports Symbol_Table
begin

text \<open>
  The WHERE expression tree (\<^verbatim>\<open>src/expressions/logical_*.hpp\<close>): the node classes, the
  flattening factories, the counting probes the planner uses, and the four renderings of a
  tree (scan filter, key condition, query filter, update/delete condition).  A class is a
  constructor, the base-class members \<^verbatim>\<open>m_negate\<close> and \<^verbatim>\<open>m_parens\<close> are its flags.  A
  \<^verbatim>\<open>SymbolTable*\<close> that may be null is a \<open>symtab option\<close>.
\<close>

section \<open>The tree\<close>

record flags =
  m_negate :: bool
  m_parens :: bool

definition no_flags :: flags where
  "no_flags = \<lparr>m_negate = False, m_parens = False\<rparr>"

datatype leaf =
    LogicalComparison string string "value"
  | LogicalBetween string "value" "value"
  | LogicalBeginsWith string "value"
  | LogicalIn string "value list"
  | LogicalContains string "value"
  | LogicalAttributeType string string
  | LogicalAttributeExists string

datatype lexpr =
    Leaf flags leaf
  | LogicalAnd flags "lexpr list"
  | LogicalOr flags "lexpr list"

fun flags_of :: "lexpr \<Rightarrow> flags" where
  "flags_of (Leaf f _) = f"
| "flags_of (LogicalAnd f _) = f"
| "flags_of (LogicalOr f _) = f"

fun set_flags :: "flags \<Rightarrow> lexpr \<Rightarrow> lexpr" where
  "set_flags f (Leaf _ l) = Leaf f l"
| "set_flags f (LogicalAnd _ es) = LogicalAnd f es"
| "set_flags f (LogicalOr _ es) = LogicalOr f es"

definition is_negated :: "lexpr \<Rightarrow> bool" where
  "is_negated e = m_negate (flags_of e)"

definition is_paren_group :: "lexpr \<Rightarrow> bool" where
  "is_paren_group e = m_parens (flags_of e)"

definition negate :: "lexpr \<Rightarrow> lexpr" where
  "negate e = set_flags ((flags_of e)\<lparr>m_negate := \<not> is_negated e\<rparr>) e"

definition set_paren_group :: "lexpr \<Rightarrow> lexpr" where
  "set_paren_group e = set_flags ((flags_of e)\<lparr>m_parens := True\<rparr>) e"

text \<open>The constructors that do more than store their arguments.\<close>

definition mk_comparison :: "string \<Rightarrow> string \<Rightarrow> value \<Rightarrow> lexpr" where
  "mk_comparison lhs op rhs =
     (if op = ''!='' then negate (Leaf no_flags (LogicalComparison lhs ''='' rhs))
      else Leaf no_flags (LogicalComparison lhs op rhs))"

definition mk_attribute_exists :: "string \<Rightarrow> bool \<Rightarrow> lexpr" where
  "mk_attribute_exists lhs sense = Leaf (no_flags\<lparr>m_negate := \<not> sense\<rparr>) (LogicalAttributeExists lhs)"

fun make_and :: "lexpr \<Rightarrow> lexpr \<Rightarrow> lexpr" where
  "make_and (LogicalAnd f1 es1) e2 =
     (case e2 of
        LogicalAnd f2 es2 \<Rightarrow>
          (if m_negate f1 = m_negate f2 \<and> \<not> m_parens f1 \<and> \<not> m_parens f2 then LogicalAnd f1 (es1 @ es2)
           else if \<not> m_negate f1 then LogicalAnd f1 (es1 @ [e2])
           else LogicalAnd no_flags [LogicalAnd f1 es1, e2])
      | _ \<Rightarrow> (if \<not> m_negate f1 then LogicalAnd f1 (es1 @ [e2])
             else LogicalAnd no_flags [LogicalAnd f1 es1, e2]))"
| "make_and e1 e2 = LogicalAnd no_flags [e1, e2]"

fun make_or :: "lexpr \<Rightarrow> lexpr \<Rightarrow> lexpr" where
  "make_or (LogicalOr f1 es1) e2 =
     (case e2 of
        LogicalOr f2 es2 \<Rightarrow>
          (if m_negate f1 = m_negate f2 \<and> \<not> m_parens f1 \<and> \<not> m_parens f2 then LogicalOr f1 (es1 @ es2)
           else if \<not> m_negate f1 then LogicalOr f1 (es1 @ [e2])
           else LogicalOr no_flags [LogicalOr f1 es1, e2])
      | _ \<Rightarrow> (if \<not> m_negate f1 then LogicalOr f1 (es1 @ [e2])
             else LogicalOr no_flags [LogicalOr f1 es1, e2]))"
| "make_or e1 e2 = LogicalOr no_flags [e1, e2]"

text \<open>\<open>IS NOT NULL\<close>, as the grammar action builds it.\<close>

definition mk_is_not_null :: "string \<Rightarrow> lexpr" where
  "mk_is_not_null lhs =
     make_and (negate (mk_comparison lhs ''='' null_value)) (mk_attribute_exists lhs True)"

section \<open>Probes\<close>

fun leaf_lhs :: "leaf \<Rightarrow> string" where
  "leaf_lhs (LogicalComparison lhs _ _) = lhs"
| "leaf_lhs (LogicalBetween lhs _ _) = lhs"
| "leaf_lhs (LogicalBeginsWith lhs _) = lhs"
| "leaf_lhs (LogicalIn lhs _) = lhs"
| "leaf_lhs (LogicalContains lhs _) = lhs"
| "leaf_lhs (LogicalAttributeType lhs _) = lhs"
| "leaf_lhs (LogicalAttributeExists lhs) = lhs"

fun count_nodes :: "lexpr \<Rightarrow> nat" where
  "count_nodes (Leaf _ _) = 1"
| "count_nodes (LogicalAnd _ es) = sum_list (map count_nodes es)"
| "count_nodes (LogicalOr _ es) = sum_list (map count_nodes es)"

fun count_lhs :: "string \<Rightarrow> lexpr \<Rightarrow> nat" where
  "count_lhs lhs (Leaf _ l) = (if leaf_lhs l = lhs then 1 else 0)"
| "count_lhs lhs (LogicalAnd _ es) = sum_list (map (count_lhs lhs) es)"
| "count_lhs lhs (LogicalOr _ es) = sum_list (map (count_lhs lhs) es)"

fun count_gud_key :: "string \<Rightarrow> lexpr \<Rightarrow> nat" where
  "count_gud_key lhs (Leaf f (LogicalComparison m_lhs op rhs)) =
     (if m_lhs = lhs \<and> \<not> m_negate f \<and> op = ''='' then 1 else 0)"
| "count_gud_key lhs (Leaf f l) = 0"
| "count_gud_key lhs (LogicalAnd f es) = sum_list (map (count_gud_key lhs) es)"
| "count_gud_key lhs (LogicalOr f es) = 0"

type_synonym key_map = "(string, value) smap"

fun get_gud_key :: "string \<Rightarrow> string \<Rightarrow> lexpr \<Rightarrow> key_map" where
  "get_gud_key pk rk (Leaf f (LogicalComparison lhs op rhs)) =
     (if count_gud_key pk (Leaf f (LogicalComparison lhs op rhs)) \<noteq> 0 \<or>
         count_gud_key rk (Leaf f (LogicalComparison lhs op rhs)) \<noteq> 0
      then [(lhs, rhs)] else [])"
| "get_gud_key pk rk (Leaf f l) = []"
| "get_gud_key pk rk (LogicalAnd f es) = foldl smap_insert_all [] (map (get_gud_key pk rk) es)"
| "get_gud_key pk rk (LogicalOr f es) = []"

record key_schema_view =
  ks_pk :: "string list"
  ks_sk :: "string list"

definition key_contains :: "string list \<Rightarrow> string \<Rightarrow> bool" where
  "key_contains xs name = (\<exists>entry\<in>set xs. entry = name)"

lemma key_contains_iff [simp]: "key_contains xs name \<longleftrightarrow> name \<in> set xs"
  by (auto simp: key_contains_def)

fun leaf_query_safe :: "key_schema_view \<Rightarrow> flags \<Rightarrow> leaf \<Rightarrow> bool" where
  "leaf_query_safe ks f (LogicalComparison lhs op rhs) =
     (if \<not> key_contains (ks_pk ks) lhs \<and> \<not> key_contains (ks_sk ks) lhs then True
      else if key_contains (ks_pk ks) lhs then op = ''='' \<and> \<not> m_negate f
      else if op = ''='' \<and> m_negate f then False
      else True)"
| "leaf_query_safe ks f (LogicalBetween lhs lo hi) =
     (if \<not> key_contains (ks_pk ks) lhs \<and> \<not> key_contains (ks_sk ks) lhs then True
      else key_contains (ks_sk ks) lhs \<and> \<not> m_negate f)"
| "leaf_query_safe ks f (LogicalBeginsWith lhs v) =
     (if \<not> key_contains (ks_pk ks) lhs \<and> \<not> key_contains (ks_sk ks) lhs then True
      else key_contains (ks_sk ks) lhs \<and> \<not> m_negate f)"
| "leaf_query_safe ks f l =
     (\<not> key_contains (ks_pk ks) (leaf_lhs l) \<and> \<not> key_contains (ks_sk ks) (leaf_lhs l))"

fun query_safe :: "key_schema_view \<Rightarrow> lexpr \<Rightarrow> bool" where
  "query_safe ks (Leaf f l) = leaf_query_safe ks f l"
| "query_safe ks (LogicalAnd f es) = (\<forall>e\<in>set es. query_safe ks e)"
| "query_safe ks (LogicalOr f es) =
     (if \<exists>p\<in>set (ks_pk ks). 0 < count_lhs p (LogicalOr f es) then False
      else if \<exists>s\<in>set (ks_sk ks). 0 < count_lhs s (LogicalOr f es) then False
      else \<forall>e\<in>set es. query_safe ks e)"

section \<open>Renderings\<close>

text \<open>\<open>st ? st->new_attribute(x) : x\<close> and its counterpart for values.\<close>

definition alias_attribute :: "string \<Rightarrow> symtab option \<Rightarrow> string \<times> symtab option" where
  "alias_attribute name st =
     (case st of None \<Rightarrow> (name, None) | Some t \<Rightarrow> (let (tok, t') = new_attribute name t in (tok, Some t')))"

definition alias_value :: "string \<Rightarrow> value \<Rightarrow> symtab option \<Rightarrow> string \<times> symtab option" where
  "alias_value lit v st =
     (case st of None \<Rightarrow> (lit, None) | Some t \<Rightarrow> (let (tok, t') = new_value v t in (tok, Some t')))"

fun alias_values :: "value list \<Rightarrow> symtab option \<Rightarrow> string list \<times> symtab option" where
  "alias_values [] st = ([], st)"
| "alias_values (v # vs) st =
     (let (tok, st') = alias_value (serialize_attribute v) v st; (toks, st'') = alias_values vs st'
      in (tok # toks, st''))"

fun leaf_serialize :: "leaf \<Rightarrow> symtab option \<Rightarrow> string \<times> symtab option" where
  "leaf_serialize (LogicalComparison m_lhs m_op m_rhs) st =
     (let (lhs, st1) = alias_attribute m_lhs st;
          (rhs, st2) = alias_value (serialize_attribute m_rhs) m_rhs st1
      in (lhs @ '' '' @ m_op @ '' '' @ rhs, st2))"
| "leaf_serialize (LogicalBetween m_lhs m_lo m_hi) st =
     (let (lhs, st1) = alias_attribute m_lhs st;
          (lo, st2) = alias_value (serialize_attribute m_lo) m_lo st1;
          (hi, st3) = alias_value (serialize_attribute m_hi) m_hi st2
      in (lhs @ '' BETWEEN '' @ lo @ '' AND '' @ hi, st3))"
| "leaf_serialize (LogicalBeginsWith m_lhs m_prefix) st =
     (let (lhs, st1) = alias_attribute m_lhs st;
          (rhs, st2) = alias_value (quoted (serialize_attribute m_prefix)) m_prefix st1
      in (''begins_with('' @ lhs @ '', '' @ rhs @ '')'', st2))"
| "leaf_serialize (LogicalIn m_lhs m_rhs) st =
     (let (lhs, st1) = alias_attribute m_lhs st; (toks, st2) = alias_values m_rhs st1
      in (lhs @ '' IN ('' @ join_with '', '' toks @ '')'', st2))"
| "leaf_serialize (LogicalContains m_lhs m_operand) st =
     (let (lhs, st1) = alias_attribute m_lhs st;
          (rhs, st2) = alias_value (quoted (serialize_attribute m_operand)) m_operand st1
      in (''contains('' @ lhs @ '', '' @ rhs @ '')'', st2))"
| "leaf_serialize (LogicalAttributeType m_lhs m_type) st =
     (let (lhs, st1) = alias_attribute m_lhs st;
          (ty, st2) = alias_value m_type (string_value m_type) st1
      in (''attribute_type('' @ lhs @ '', '' @ ty @ '')'', st2))"
| "leaf_serialize (LogicalAttributeExists m_lhs) st =
     (let (lhs, st1) = alias_attribute m_lhs st in (''attribute_exists('' @ lhs @ '')'', st1))"

definition parens :: "flags \<Rightarrow> string \<Rightarrow> string" where
  "parens f s = (if m_parens f then ''('' @ s @ '')'' else s)"

definition negated :: "flags \<Rightarrow> string \<Rightarrow> string" where
  "negated f s = (if m_negate f then ''NOT ('' @ s @ '')'' else s)"

definition negated_nonempty :: "flags \<Rightarrow> string \<Rightarrow> string" where
  "negated_nonempty f rv = (if rv \<noteq> [] then negated f rv else rv)"

definition nonempty :: "string list \<Rightarrow> string list" where
  "nonempty parts = filter (\<lambda>part. part \<noteq> []) parts"

fun serialize :: "lexpr \<Rightarrow> symtab option \<Rightarrow> string \<times> symtab option"
  and serialize_list :: "lexpr list \<Rightarrow> symtab option \<Rightarrow> string list \<times> symtab option" where
  "serialize (Leaf f l) st = (let (s, st') = leaf_serialize l st in (negated f s, st'))"
| "serialize (LogicalAnd f es) st =
     (let (ps, st') = serialize_list es st in (negated f (parens f (join_with '' AND '' ps)), st'))"
| "serialize (LogicalOr f es) st =
     (let (ps, st') = serialize_list es st in (negated f (parens f (join_with '' OR '' ps)), st'))"
| "serialize_list [] st = ([], st)"
| "serialize_list (e # es) st =
     (let (p, st') = serialize e st; (ps, st'') = serialize_list es st' in (p # ps, st''))"

fun leaf_key_condition :: "key_schema_view \<Rightarrow> flags \<Rightarrow> leaf \<Rightarrow> symtab option \<Rightarrow> string \<times> symtab option" where
  "leaf_key_condition ks f (LogicalComparison lhs op rhs) st =
     (if key_contains (ks_pk ks) lhs \<or> key_contains (ks_sk ks) lhs
      then leaf_serialize (LogicalComparison lhs op rhs) st else ('''', st))"
| "leaf_key_condition ks f (LogicalBetween lhs lo hi) st =
     (if key_contains (ks_sk ks) lhs \<and> \<not> m_negate f
      then leaf_serialize (LogicalBetween lhs lo hi) st else ('''', st))"
| "leaf_key_condition ks f (LogicalBeginsWith lhs v) st =
     (if key_contains (ks_sk ks) lhs \<and> \<not> m_negate f
      then leaf_serialize (LogicalBeginsWith lhs v) st else ('''', st))"
| "leaf_key_condition ks f l st = ('''', st)"

fun query_key_condition_expression ::
    "key_schema_view \<Rightarrow> lexpr \<Rightarrow> symtab option \<Rightarrow> string \<times> symtab option"
  and key_condition_list ::
    "key_schema_view \<Rightarrow> lexpr list \<Rightarrow> symtab option \<Rightarrow> string list \<times> symtab option" where
  "query_key_condition_expression ks (Leaf f l) st =
     (let (rv, st') = leaf_key_condition ks f l st in (negated_nonempty f rv, st'))"
| "query_key_condition_expression ks (LogicalAnd f es) st =
     (let (ps, st') = key_condition_list ks es st
      in (negated_nonempty f (parens f (join_with '' AND '' (nonempty ps))), st'))"
| "query_key_condition_expression ks (LogicalOr f es) st = ('''', st)"
| "key_condition_list ks [] st = ([], st)"
| "key_condition_list ks (e # es) st =
     (let (p, st') = query_key_condition_expression ks e st; (ps, st'') = key_condition_list ks es st'
      in (p # ps, st''))"

fun leaf_query_filter :: "key_schema_view \<Rightarrow> leaf \<Rightarrow> symtab option \<Rightarrow> string \<times> symtab option" where
  "leaf_query_filter ks (LogicalComparison lhs op rhs) st =
     (if \<not> key_contains (ks_pk ks) lhs \<and> \<not> key_contains (ks_sk ks) lhs
      then leaf_serialize (LogicalComparison lhs op rhs) st else ('''', st))"
| "leaf_query_filter ks (LogicalBetween lhs lo hi) st =
     (if \<not> key_contains (ks_sk ks) lhs then leaf_serialize (LogicalBetween lhs lo hi) st else ('''', st))"
| "leaf_query_filter ks (LogicalBeginsWith lhs v) st =
     (if \<not> key_contains (ks_sk ks) lhs then leaf_serialize (LogicalBeginsWith lhs v) st else ('''', st))"
| "leaf_query_filter ks l st = leaf_serialize l st"

fun query_filter_expression ::
    "key_schema_view \<Rightarrow> lexpr \<Rightarrow> symtab option \<Rightarrow> string \<times> symtab option"
  and query_filter_list ::
    "key_schema_view \<Rightarrow> lexpr list \<Rightarrow> symtab option \<Rightarrow> string list \<times> symtab option" where
  "query_filter_expression ks (Leaf f l) st =
     (let (rv, st') = leaf_query_filter ks l st in (negated_nonempty f rv, st'))"
| "query_filter_expression ks (LogicalAnd f es) st =
     (let (ps, st') = query_filter_list ks es st
      in (negated_nonempty f (parens f (join_with '' AND '' (nonempty ps))), st'))"
| "query_filter_expression ks (LogicalOr f es) st =
     (let (ps, st') = serialize_list es st
      in (negated_nonempty f (parens f (join_with '' OR '' ps)), st'))"
| "query_filter_list ks [] st = ([], st)"
| "query_filter_list ks (e # es) st =
     (let (p, st') = query_filter_expression ks e st; (ps, st'') = query_filter_list ks es st'
      in (p # ps, st''))"

fun leaf_condition_check ::
    "string \<Rightarrow> string \<Rightarrow> bool \<Rightarrow> flags \<Rightarrow> leaf \<Rightarrow> symtab option \<Rightarrow> string \<times> symtab option" where
  "leaf_condition_check pk rk toplevel f (LogicalComparison lhs op rhs) st =
     (if \<not> toplevel then leaf_serialize (LogicalComparison lhs op rhs) st
      else if (lhs = pk \<or> lhs = rk) \<and> \<not> m_negate f then ('''', st)
      else leaf_serialize (LogicalComparison lhs op rhs) st)"
| "leaf_condition_check pk rk toplevel f (LogicalBetween lhs lo hi) st =
     (if \<not> toplevel then leaf_serialize (LogicalBetween lhs lo hi) st
      else if (lhs = pk \<or> lhs = rk) \<and> \<not> m_negate f then ('''', st)
      else leaf_serialize (LogicalBetween lhs lo hi) st)"
| "leaf_condition_check pk rk toplevel f (LogicalBeginsWith lhs v) st =
     (if \<not> toplevel then leaf_serialize (LogicalBeginsWith lhs v) st
      else if (lhs = pk \<or> lhs = rk) \<and> \<not> m_negate f then ('''', st)
      else leaf_serialize (LogicalBeginsWith lhs v) st)"
| "leaf_condition_check pk rk toplevel f l st = leaf_serialize l st"

fun update_delete_condition_check ::
    "string \<Rightarrow> string \<Rightarrow> bool \<Rightarrow> lexpr \<Rightarrow> symtab option \<Rightarrow> string \<times> symtab option"
  and condition_check_list ::
    "string \<Rightarrow> string \<Rightarrow> bool \<Rightarrow> lexpr list \<Rightarrow> symtab option \<Rightarrow> string list \<times> symtab option" where
  "update_delete_condition_check pk rk toplevel (Leaf f l) st =
     (let (rv, st') = leaf_condition_check pk rk toplevel f l st in (negated_nonempty f rv, st'))"
| "update_delete_condition_check pk rk toplevel (LogicalAnd f es) st =
     (let (ps, st') = condition_check_list pk rk toplevel es st
      in (negated_nonempty f (parens f (join_with '' AND '' (nonempty ps))), st'))"
| "update_delete_condition_check pk rk toplevel (LogicalOr f es) st =
     (let (ps, st') = condition_check_list pk rk False es st
      in (negated_nonempty f (parens f (join_with '' OR '' (nonempty ps))), st'))"
| "condition_check_list pk rk toplevel [] st = ([], st)"
| "condition_check_list pk rk toplevel (e # es) st =
     (let (p, st') = update_delete_condition_check pk rk toplevel e st;
          (ps, st'') = condition_check_list pk rk toplevel es st'
      in (p # ps, st''))"

end
