(* ===== verification/Expr_Semantics.thy ===== *)
theory Expr_Semantics
  imports Logical_Expr
begin

text \<open>
  What a WHERE tree means and what its renderings say.  The meaning of a tree is a truth
  value, given the truth of its leaves; a rendering of a tree is shown to be the plain
  serialization of a part of the tree, so that statements about strings become statements
  about trees.  The interface between the renderings and the symbol table is the locale
  \<open>alias_invariant\<close>: whatever the two aliasing calls keep, every rendering keeps.
\<close>

section \<open>Meaning\<close>

fun eval :: "(leaf \<Rightarrow> bool) \<Rightarrow> lexpr \<Rightarrow> bool" where
  "eval sat (Leaf f l) = (m_negate f \<noteq> sat l)"
| "eval sat (LogicalAnd f es) = (m_negate f \<noteq> (\<forall>e\<in>set es. eval sat e))"
| "eval sat (LogicalOr f es) = (m_negate f \<noteq> (\<exists>e\<in>set es. eval sat e))"

lemma flags_of_set_flags [simp]: "flags_of (set_flags f e) = f"
  by (cases e) simp_all

lemma eval_negate [simp]: "eval sat (negate e) \<longleftrightarrow> \<not> eval sat e"
  by (cases e) (auto simp: negate_def is_negated_def)

lemma eval_set_paren_group [simp]: "eval sat (set_paren_group e) = eval sat e"
  by (cases e) (simp_all add: set_paren_group_def)

text \<open>Both operands are unparenthesised conjunctions (disjunctions) under a negation.\<close>

fun splices_negated_and :: "lexpr \<Rightarrow> lexpr \<Rightarrow> bool" where
  "splices_negated_and (LogicalAnd f1 _) (LogicalAnd f2 _) =
     (m_negate f1 \<and> m_negate f2 \<and> \<not> m_parens f1 \<and> \<not> m_parens f2)"
| "splices_negated_and _ _ = False"

fun splices_negated_or :: "lexpr \<Rightarrow> lexpr \<Rightarrow> bool" where
  "splices_negated_or (LogicalOr f1 _) (LogicalOr f2 _) =
     (m_negate f1 \<and> m_negate f2 \<and> \<not> m_parens f1 \<and> \<not> m_parens f2)"
| "splices_negated_or _ _ = False"

lemma eval_make_and:
  "eval sat (make_and e1 e2) =
     (if splices_negated_and e1 e2 then eval sat e1 \<or> eval sat e2 else eval sat e1 \<and> eval sat e2)"
  by (cases e1; cases e2) (auto simp: no_flags_def)

lemma eval_make_or:
  "eval sat (make_or e1 e2) =
     (if splices_negated_or e1 e2 then eval sat e1 \<and> eval sat e2 else eval sat e1 \<or> eval sat e2)"
  by (cases e1; cases e2) (auto simp: no_flags_def)

lemma count_make_and [simp]:
  "count_nodes (make_and e1 e2) = count_nodes e1 + count_nodes e2"
  "count_lhs k (make_and e1 e2) = count_lhs k e1 + count_lhs k e2"
  "count_gud_key k (make_and e1 e2) = count_gud_key k e1 + count_gud_key k e2"
  by (cases e1; cases e2; simp)+

lemma count_make_or [simp]:
  "count_nodes (make_or e1 e2) = count_nodes e1 + count_nodes e2"
  "count_lhs k (make_or e1 e2) = count_lhs k e1 + count_lhs k e2"
  by (cases e1; cases e2; simp)+

section \<open>Well-formed trees\<close>

text \<open>The factories never build a conjunction or disjunction without children.\<close>

fun wf_expr :: "lexpr \<Rightarrow> bool" where
  "wf_expr (Leaf f l) = True"
| "wf_expr (LogicalAnd f es) = (es \<noteq> [] \<and> (\<forall>e\<in>set es. wf_expr e))"
| "wf_expr (LogicalOr f es) = (es \<noteq> [] \<and> (\<forall>e\<in>set es. wf_expr e))"

lemma wf_negate [simp]: "wf_expr (negate e) = wf_expr e"
  by (cases e) (simp_all add: negate_def)

lemma wf_set_paren_group [simp]: "wf_expr (set_paren_group e) = wf_expr e"
  by (cases e) (simp_all add: set_paren_group_def)

lemma wf_make_and: "wf_expr e1 \<Longrightarrow> wf_expr e2 \<Longrightarrow> wf_expr (make_and e1 e2)"
  by (cases e1; cases e2) auto

lemma wf_make_or: "wf_expr e1 \<Longrightarrow> wf_expr e2 \<Longrightarrow> wf_expr (make_or e1 e2)"
  by (cases e1; cases e2) auto

lemma count_nodes_pos: "wf_expr e \<Longrightarrow> 0 < count_nodes e"
proof (induction e)
  case (LogicalAnd f es)
  then obtain e es' where "es = e # es'" by (cases es) auto
  then show ?case using LogicalAnd by simp
next
  case (LogicalOr f es)
  then obtain e es' where "es = e # es'" by (cases es) auto
  then show ?case using LogicalOr by simp
qed simp

section \<open>The renderings as serialized parts\<close>

text \<open>The part of a tree that a rendering emits; \<open>None\<close> stands for the empty string.\<close>

fun key_leaf :: "key_schema_view \<Rightarrow> flags \<Rightarrow> leaf \<Rightarrow> bool" where
  "key_leaf ks f (LogicalComparison lhs op rhs) = (lhs \<in> set (ks_pk ks) \<union> set (ks_sk ks))"
| "key_leaf ks f (LogicalBetween lhs lo hi) = (lhs \<in> set (ks_sk ks) \<and> \<not> m_negate f)"
| "key_leaf ks f (LogicalBeginsWith lhs v) = (lhs \<in> set (ks_sk ks) \<and> \<not> m_negate f)"
| "key_leaf ks f l = False"

fun filter_leaf :: "key_schema_view \<Rightarrow> leaf \<Rightarrow> bool" where
  "filter_leaf ks (LogicalComparison lhs op rhs) = (lhs \<notin> set (ks_pk ks) \<union> set (ks_sk ks))"
| "filter_leaf ks (LogicalBetween lhs lo hi) = (lhs \<notin> set (ks_sk ks))"
| "filter_leaf ks (LogicalBeginsWith lhs v) = (lhs \<notin> set (ks_sk ks))"
| "filter_leaf ks l = True"

fun dropped_leaf :: "string \<Rightarrow> string \<Rightarrow> flags \<Rightarrow> leaf \<Rightarrow> bool" where
  "dropped_leaf pk rk f (LogicalComparison lhs op rhs) = ((lhs = pk \<or> lhs = rk) \<and> \<not> m_negate f)"
| "dropped_leaf pk rk f (LogicalBetween lhs lo hi) = ((lhs = pk \<or> lhs = rk) \<and> \<not> m_negate f)"
| "dropped_leaf pk rk f (LogicalBeginsWith lhs v) = ((lhs = pk \<or> lhs = rk) \<and> \<not> m_negate f)"
| "dropped_leaf pk rk f l = False"

definition opt_parts :: "lexpr option list \<Rightarrow> lexpr list" where
  "opt_parts os = concat (map (\<lambda>p. case p of None \<Rightarrow> [] | Some e \<Rightarrow> [e]) os)"

definition group_part :: "flags \<Rightarrow> lexpr list \<Rightarrow> lexpr option" where
  "group_part f ps = (if ps = [] \<and> \<not> m_parens f then None else Some (LogicalAnd f ps))"

fun key_part :: "key_schema_view \<Rightarrow> lexpr \<Rightarrow> lexpr option" where
  "key_part ks (Leaf f l) = (if key_leaf ks f l then Some (Leaf f l) else None)"
| "key_part ks (LogicalAnd f es) = group_part f (opt_parts (map (key_part ks) es))"
| "key_part ks (LogicalOr f es) = None"

fun filter_part :: "key_schema_view \<Rightarrow> lexpr \<Rightarrow> lexpr option" where
  "filter_part ks (Leaf f l) = (if filter_leaf ks l then Some (Leaf f l) else None)"
| "filter_part ks (LogicalAnd f es) = group_part f (opt_parts (map (filter_part ks) es))"
| "filter_part ks (LogicalOr f es) = Some (LogicalOr f es)"

fun condition_part :: "string \<Rightarrow> string \<Rightarrow> lexpr \<Rightarrow> lexpr option" where
  "condition_part pk rk (Leaf f l) = (if dropped_leaf pk rk f l then None else Some (Leaf f l))"
| "condition_part pk rk (LogicalAnd f es) = group_part f (opt_parts (map (condition_part pk rk) es))"
| "condition_part pk rk (LogicalOr f es) = Some (LogicalOr f es)"

definition serialize_opt :: "lexpr option \<Rightarrow> symtab option \<Rightarrow> string \<times> symtab option" where
  "serialize_opt p st = (case p of None \<Rightarrow> ('''', st) | Some e \<Rightarrow> serialize e st)"

text \<open>Trees whose serialization is not empty.\<close>

fun nonvoid :: "lexpr \<Rightarrow> bool" where
  "nonvoid (Leaf f l) = True"
| "nonvoid (LogicalAnd f es) = (m_parens f \<or> (es \<noteq> [] \<and> (\<forall>e\<in>set es. nonvoid e)))"
| "nonvoid (LogicalOr f es) = (m_parens f \<or> (es \<noteq> [] \<and> (\<forall>e\<in>set es. nonvoid e)))"

lemma wf_nonvoid: "wf_expr e \<Longrightarrow> nonvoid e"
  by (induction e) auto

lemma leaf_serialize_nonempty [simp]: "fst (leaf_serialize l st) \<noteq> []"
  by (cases l) (simp_all add: Let_def split: prod.splits)

lemma negated_nonempty_iff [simp]: "negated f s = [] \<longleftrightarrow> \<not> m_negate f \<and> s = []"
  by (simp add: negated_def)

lemma parens_eq_Nil [simp]: "parens f s = [] \<longleftrightarrow> \<not> m_parens f \<and> s = []"
  by (simp add: parens_def)

lemma serialize_nonempty:
  "nonvoid e \<Longrightarrow> fst (serialize e st) \<noteq> []"
  "\<forall>e\<in>set es. nonvoid e \<Longrightarrow> \<forall>s\<in>set (fst (serialize_list es st)). s \<noteq> []"
proof (induction e st and es st rule: serialize_serialize_list.induct)
  case (1 f l st)
  then show ?case using leaf_serialize_nonempty [of l st] by (cases "leaf_serialize l st") simp
next
  case (2 f es st)
  have "fst (serialize_list es st) = [] \<longleftrightarrow> es = []" by (cases es) (simp_all split: prod.splits)
  then show ?case using 2 by (auto simp: join_with_eq_Nil split: prod.splits)
next
  case (3 f es st)
  have "fst (serialize_list es st) = [] \<longleftrightarrow> es = []" by (cases es) (simp_all split: prod.splits)
  then show ?case using 3 by (auto simp: join_with_eq_Nil split: prod.splits)
next
  case (5 e es st)
  obtain p st1 where p: "serialize e st = (p, st1)" by fastforce
  obtain ps st2 where ps: "serialize_list es st1 = (ps, st2)" by fastforce
  have "p \<noteq> []" using "5.IH"(1) "5.prems" p by simp
  moreover have "\<forall>s\<in>set ps. s \<noteq> []" using "5.IH"(2) [OF p [symmetric]] "5.prems" ps by (metis fst_conv list.set_intros(2))
  ultimately show ?case by (simp add: p ps)
qed simp

lemma serialize_list_Nil_iff: "fst (serialize_list es st) = [] \<longleftrightarrow> es = []"
  by (cases es) (simp_all split: prod.splits)

lemma opt_parts_simps [simp]:
  "opt_parts [] = []" "opt_parts (None # os) = opt_parts os" "opt_parts (Some e # os) = e # opt_parts os"
  by (simp_all add: opt_parts_def)

lemma set_opt_parts: "set (opt_parts os) = {e. Some e \<in> set os}"
  by (induction os) (auto simp: opt_parts_def split: option.splits)

lemma opt_parts_Some [simp]: "opt_parts (map Some es) = es"
  by (induction es) simp_all

text \<open>
  A rendering that walks a list of children, threading the symbol table, is the
  serialization of the children's parts once the empty strings are left out.
\<close>

locale threaded_rendering =
  fixes render :: "lexpr \<Rightarrow> symtab option \<Rightarrow> string \<times> symtab option"
    and render_list :: "lexpr list \<Rightarrow> symtab option \<Rightarrow> string list \<times> symtab option"
  assumes render_Nil: "render_list [] st = ([], st)"
    and render_Cons: "render_list (e # es) st =
      (let (p, st') = render e st; (ps, st'') = render_list es st' in (p # ps, st''))"
begin

lemma render_list_parts:
  assumes "\<And>e st. e \<in> set es \<Longrightarrow> render e st = serialize_opt (part e) st"
    and "\<And>e p. e \<in> set es \<Longrightarrow> part e = Some p \<Longrightarrow> nonvoid p"
  shows "nonempty (fst (render_list es st)) = fst (serialize_list (opt_parts (map part es)) st) \<and>
    snd (render_list es st) = snd (serialize_list (opt_parts (map part es)) st)"
  using assms
proof (induction es arbitrary: st)
  case Nil
  then show ?case by (simp add: render_Nil nonempty_def)
next
  case (Cons e es)
  obtain p st1 where p: "render e st = (p, st1)" by fastforce
  obtain ps st2 where ps: "render_list es st1 = (ps, st2)" by fastforce
  have "nonempty (fst (render_list es st1)) = fst (serialize_list (opt_parts (map part es)) st1) \<and>
      snd (render_list es st1) = snd (serialize_list (opt_parts (map part es)) st1)"
    by (rule Cons.IH) (use Cons.prems in auto)
  then have IH: "nonempty ps = fst (serialize_list (opt_parts (map part es)) st1)"
    "st2 = snd (serialize_list (opt_parts (map part es)) st1)"
    using ps by simp_all
  show ?case
  proof (cases "part e")
    case None
    then have "p = []" "st1 = st" using Cons.prems(1) [of e st] p by (simp_all add: serialize_opt_def)
    then show ?thesis using None p ps IH by (simp add: render_Cons nonempty_def)
  next
    case (Some q)
    then have q: "serialize q st = (p, st1)" using Cons.prems(1) [of e st] p by (simp add: serialize_opt_def)
    moreover have "p \<noteq> []" using serialize_nonempty(1) [of q st] Cons.prems(2) [of e q] Some q by simp
    ultimately show ?thesis using Some p ps IH by (simp add: render_Cons nonempty_def split: prod.splits)
  qed
qed

lemma render_group:
  assumes "\<And>e st. e \<in> set es \<Longrightarrow> render e st = serialize_opt (part e) st"
    and "\<And>e p. e \<in> set es \<Longrightarrow> part e = Some p \<Longrightarrow> nonvoid p"
  shows "(let (ps, st') = render_list es st
          in (negated_nonempty f (parens f (join_with '' AND '' (nonempty ps))), st')) =
         serialize_opt (group_part f (opt_parts (map part es))) st"
proof -
  let ?es = "opt_parts (map part es)"
  obtain ps st' where ps: "render_list es st = (ps, st')" by fastforce
  obtain qs st'' where qs: "serialize_list ?es st = (qs, st'')" by fastforce
  have "nonempty (fst (render_list es st)) = fst (serialize_list ?es st) \<and>
      snd (render_list es st) = snd (serialize_list ?es st)"
    using assms by (rule render_list_parts)
  then have eqs: "nonempty ps = qs" "st' = st''" using ps qs by simp_all
  have nv: "\<forall>e\<in>set ?es. nonvoid e" using assms(2) by (auto simp: set_opt_parts)
  show ?thesis
  proof (cases "?es = [] \<and> \<not> m_parens f")
    case True
    then have "qs = []" "st'' = st" using qs by simp_all
    then show ?thesis using True ps eqs
      by (simp add: group_part_def serialize_opt_def parens_def negated_nonempty_def)
  next
    case False
    have "qs = [] \<longleftrightarrow> ?es = []" using serialize_list_Nil_iff [of ?es st] qs by simp
    moreover have "\<forall>s\<in>set qs. s \<noteq> []" using serialize_nonempty(2) [OF nv, of st] qs by simp
    ultimately have "parens f (join_with '' AND '' qs) \<noteq> []" using False by (auto simp: join_with_eq_Nil)
    then show ?thesis using False ps qs eqs
      by (auto simp: group_part_def serialize_opt_def negated_nonempty_def)
  qed
qed

end

interpretation key_condition: threaded_rendering
  "query_key_condition_expression ks" "key_condition_list ks" for ks
  by unfold_locales simp_all

interpretation query_filter: threaded_rendering
  "query_filter_expression ks" "query_filter_list ks" for ks
  by unfold_locales simp_all

interpretation condition_check: threaded_rendering
  "update_delete_condition_check pk rk toplevel" "condition_check_list pk rk toplevel" for pk rk toplevel
  by unfold_locales simp_all

lemma group_part_nonvoid:
  "\<forall>e\<in>set ps. nonvoid e \<Longrightarrow> group_part f ps = Some p \<Longrightarrow> nonvoid p"
  by (auto simp: group_part_def split: if_splits)

lemma key_part_nonvoid: "key_part ks e = Some p \<Longrightarrow> nonvoid p"
proof (induction e arbitrary: p)
  case (LogicalAnd f es)
  then have "\<forall>e\<in>set (opt_parts (map (key_part ks) es)). nonvoid e" by (auto simp: set_opt_parts)
  with LogicalAnd.prems show ?case by (auto intro: group_part_nonvoid)
qed (auto split: if_splits)

lemma filter_part_nonvoid: "wf_expr e \<Longrightarrow> filter_part ks e = Some p \<Longrightarrow> nonvoid p"
proof (induction e arbitrary: p)
  case (LogicalAnd f es)
  then have "\<forall>e\<in>set (opt_parts (map (filter_part ks) es)). nonvoid e" by (auto simp: set_opt_parts)
  with LogicalAnd.prems show ?case by (auto intro: group_part_nonvoid)
next
  case (LogicalOr f es)
  then show ?case using wf_nonvoid [OF LogicalOr.prems(1)] by simp
qed (auto split: if_splits)

lemma condition_part_nonvoid: "wf_expr e \<Longrightarrow> condition_part pk rk e = Some p \<Longrightarrow> nonvoid p"
proof (induction e arbitrary: p)
  case (LogicalAnd f es)
  then have "\<forall>e\<in>set (opt_parts (map (condition_part pk rk) es)). nonvoid e" by (auto simp: set_opt_parts)
  with LogicalAnd.prems show ?case by (auto intro: group_part_nonvoid)
next
  case (LogicalOr f es)
  then show ?case using wf_nonvoid [OF LogicalOr.prems(1)] by simp
qed (auto split: if_splits)

lemma leaf_key_condition_part:
  "leaf_key_condition ks f l st = (if key_leaf ks f l then leaf_serialize l st else ('''', st))"
  by (cases l) auto

lemma leaf_query_filter_part:
  "leaf_query_filter ks l st = (if filter_leaf ks l then leaf_serialize l st else ('''', st))"
  by (cases l) auto

lemma leaf_condition_check_part:
  "leaf_condition_check pk rk toplevel f l st =
     (if toplevel \<and> dropped_leaf pk rk f l then ('''', st) else leaf_serialize l st)"
  by (cases l) auto

lemma negated_nonempty_leaf:
  "leaf_serialize l st = (s, st') \<Longrightarrow> negated_nonempty f s = negated f s"
  using leaf_serialize_nonempty [of l st] by (simp add: negated_nonempty_def)

lemma negated_nonempty_Nil [simp]: "negated_nonempty f [] = []"
  by (simp add: negated_nonempty_def)

lemma key_condition_refines:
  "query_key_condition_expression ks e st = serialize_opt (key_part ks e) st"
proof (induction e arbitrary: st)
  case (Leaf f l)
  then show ?case
    by (auto simp: leaf_key_condition_part serialize_opt_def negated_nonempty_leaf split: prod.splits)
next
  case (LogicalAnd f es)
  then show ?case
    using key_condition.render_group [of es ks "key_part ks" st f] key_part_nonvoid by simp
qed (simp add: serialize_opt_def)

lemma serialize_or_nonempty:
  "wf_expr (LogicalOr f es) \<Longrightarrow> serialize_list es st = (ps, st') \<Longrightarrow>
     parens f (join_with '' OR '' ps) \<noteq> []"
  using serialize_nonempty(2) [of es st] serialize_list_Nil_iff [of es st]
  by (auto simp: join_with_eq_Nil wf_nonvoid)

lemma query_filter_refines:
  "wf_expr e \<Longrightarrow> query_filter_expression ks e st = serialize_opt (filter_part ks e) st"
proof (induction e arbitrary: st)
  case (Leaf f l)
  then show ?case
    by (auto simp: leaf_query_filter_part serialize_opt_def negated_nonempty_leaf split: prod.splits)
next
  case (LogicalAnd f es)
  show ?case
    by (simp only: query_filter_expression.simps filter_part.simps, rule query_filter.render_group)
      (use LogicalAnd filter_part_nonvoid in auto)
next
  case (LogicalOr f es)
  then show ?case using serialize_or_nonempty [OF LogicalOr.prems, of st]
    by (auto simp: serialize_opt_def negated_nonempty_def split: prod.splits)
qed

text \<open>Below the top level nothing is dropped: the condition check is the whole serialization.\<close>

lemma condition_check_nested:
  "wf_expr e \<Longrightarrow> update_delete_condition_check pk rk False e st = serialize e st"
proof (induction e arbitrary: st)
  case (Leaf f l)
  then show ?case by (auto simp: leaf_condition_check_part negated_nonempty_leaf split: prod.splits)
next
  case (LogicalAnd f es)
  then show ?case
    using condition_check.render_group [of es pk rk False Some st f]
    by (simp add: serialize_opt_def group_part_def wf_nonvoid)
next
  case (LogicalOr f es)
  obtain ps st' where ps: "serialize_list es st = (ps, st')" by fastforce
  have "nonempty (fst (condition_check_list pk rk False es st)) = ps"
    "snd (condition_check_list pk rk False es st) = st'"
    using condition_check.render_list_parts [of es pk rk False Some st] LogicalOr ps
    by (simp_all add: serialize_opt_def wf_nonvoid)
  then show ?case using serialize_or_nonempty [OF LogicalOr.prems ps] ps
    by (cases "condition_check_list pk rk False es st") (auto simp: negated_nonempty_def)
qed

lemma condition_check_refines:
  "wf_expr e \<Longrightarrow> update_delete_condition_check pk rk True e st = serialize_opt (condition_part pk rk e) st"
proof (induction e arbitrary: st)
  case (Leaf f l)
  then show ?case
    by (auto simp: leaf_condition_check_part serialize_opt_def negated_nonempty_leaf split: prod.splits)
next
  case (LogicalAnd f es)
  show ?case
    by (simp only: update_delete_condition_check.simps condition_part.simps, rule condition_check.render_group)
      (use LogicalAnd condition_part_nonvoid in auto)
next
  case (LogicalOr f es)
  then show ?case
    using condition_check_nested [OF LogicalOr.prems, of pk rk st] by (simp add: serialize_opt_def)
qed

section \<open>What the aliasing calls keep, every rendering keeps\<close>

locale alias_invariant =
  fixes P :: "symtab \<Rightarrow> bool"
  assumes attribute_kept: "P st \<Longrightarrow> P (snd (new_attribute n st))"
    and value_kept: "P st \<Longrightarrow> P (snd (new_value v st))"
begin

lemma alias_attribute_kept:
  "alias_attribute n st = (tok, st') \<Longrightarrow> pred_option P st \<Longrightarrow> pred_option P st'"
  using attribute_kept [of "the st" n]
  by (cases st; cases "new_attribute n (the st)") (auto simp: alias_attribute_def)

lemma alias_value_kept:
  "alias_value lit v st = (tok, st') \<Longrightarrow> pred_option P st \<Longrightarrow> pred_option P st'"
  using value_kept [of "the st" v]
  by (cases st; cases "new_value v (the st)") (auto simp: alias_value_def)

lemma alias_values_kept:
  "alias_values vs st = (toks, st') \<Longrightarrow> pred_option P st \<Longrightarrow> pred_option P st'"
  by (induction vs arbitrary: st toks) (auto split: prod.splits dest: alias_value_kept)

lemma leaf_serialize_kept:
  "leaf_serialize l st = (s, st') \<Longrightarrow> pred_option P st \<Longrightarrow> pred_option P st'"
  by (cases l) (auto split: prod.splits dest!: alias_attribute_kept alias_value_kept alias_values_kept)

lemma serialize_kept:
  "serialize e st = (s, st') \<Longrightarrow> pred_option P st \<Longrightarrow> pred_option P st'"
  "serialize_list es st = (ss, st') \<Longrightarrow> pred_option P st \<Longrightarrow> pred_option P st'"
  by (induction e st and es st arbitrary: s st' and ss st' rule: serialize_serialize_list.induct)
    (auto split: prod.splits dest: leaf_serialize_kept)

lemma key_condition_kept:
  "query_key_condition_expression ks e st = (s, st') \<Longrightarrow> pred_option P st \<Longrightarrow> pred_option P st'"
  by (auto simp: key_condition_refines serialize_opt_def split: option.splits dest: serialize_kept)

lemma query_filter_kept:
  "query_filter_expression ks e st = (s, st') \<Longrightarrow> pred_option P st \<Longrightarrow> pred_option P st'"
  "query_filter_list ks es st = (ss, st') \<Longrightarrow> pred_option P st \<Longrightarrow> pred_option P st'"
  by (induction ks e st and ks es st arbitrary: s st' and ss st'
      rule: query_filter_expression_query_filter_list.induct)
    (auto simp: leaf_query_filter_part split: prod.splits if_splits dest: leaf_serialize_kept serialize_kept)

lemma condition_check_kept:
  "update_delete_condition_check pk rk toplevel e st = (s, st') \<Longrightarrow> pred_option P st \<Longrightarrow> pred_option P st'"
  "condition_check_list pk rk toplevel es st = (ss, st') \<Longrightarrow> pred_option P st \<Longrightarrow> pred_option P st'"
  by (induction pk rk toplevel e st and pk rk toplevel es st arbitrary: s st' and ss st'
      rule: update_delete_condition_check_condition_check_list.induct)
    (auto simp: leaf_condition_check_part split: prod.splits if_splits dest: leaf_serialize_kept)

end

text \<open>
  The two instances: the table stays consistent, and from any starting table \<open>st0\<close> on it
  only grows, being reached by a run of aliasing calls.
\<close>

interpretation consistent: alias_invariant st_inv
  by unfold_locales (simp_all add: new_attribute_inv new_value_inv)

interpretation reached: alias_invariant "\<lambda>st. \<exists>ops. st = st_run ops st0" for st0
proof unfold_locales
  fix st n v
  assume "\<exists>ops. st = st_run ops st0"
  then obtain ops where ops: "st = st_run ops st0" by blast
  have "snd (new_attribute n st) = st_run (ops @ [NewAttribute n]) st0"
    "snd (new_value v st) = st_run (ops @ [NewValue v]) st0"
    using ops by (simp_all add: st_run_append) (simp_all add: st_run_def)
  then show "\<exists>ops. snd (new_attribute n st) = st_run ops st0" "\<exists>ops. snd (new_value v st) = st_run ops st0"
    by blast+
qed

end
