(* ===== verification/Where_Plan.thy ===== *)
theory Where_Plan
  imports Expr_Semantics
begin

text \<open>
  The WHERE clause as the planner sees it (\<^verbatim>\<open>src/expressions/where.hpp\<close>): the probes that
  choose between GetItem, Query and Scan and between a single conditional write and a bulk
  one, and what each choice guarantees about the meaning of the clause.
\<close>

section \<open>The probes\<close>

record query_key_plan =
  plan_pk :: "string list"
  plan_sk_prefix :: "string list"

definition can_getitem :: "lexpr \<Rightarrow> string list \<Rightarrow> string list \<Rightarrow> bool" where
  "can_getitem w pk rk =
     (case pk of
        [p] \<Rightarrow>
          (case rk of
             r # _ \<Rightarrow> count_nodes w = 2 \<and> count_gud_key p w = 1 \<and> count_gud_key r w = 1
           | [] \<Rightarrow> count_nodes w = 1 \<and> count_gud_key p w = 1)
      | _ \<Rightarrow> False)"

fun sort_prefix :: "lexpr \<Rightarrow> string list \<Rightarrow> string list \<Rightarrow> bool \<Rightarrow> string list option" where
  "sort_prefix w [] acc ended = Some acc"
| "sort_prefix w (s # rk) acc ended =
     (if count_lhs s w = 0 then sort_prefix w rk acc True
      else if ended then None
      else sort_prefix w rk (acc @ [s]) ended)"

definition plan_query :: "lexpr \<Rightarrow> string list \<Rightarrow> string list \<Rightarrow> query_key_plan option" where
  "plan_query w pk rk =
     (if \<exists>p\<in>set pk. \<not> (count_gud_key p w = 1 \<and> count_lhs p w = 1) then None
      else case sort_prefix w rk [] False of
        None \<Rightarrow> None
      | Some sks \<Rightarrow>
          (if \<exists>s\<in>set (butlast sks). \<not> (count_lhs s w = 1 \<and> count_gud_key s w = 1) then None
           else if \<not> query_safe \<lparr>ks_pk = pk, ks_sk = sks\<rparr> w then None
           else Some \<lparr>plan_pk = pk, plan_sk_prefix = sks\<rparr>))"

definition can_update_item :: "lexpr \<Rightarrow> string list \<Rightarrow> string list \<Rightarrow> bool" where
  "can_update_item w pk rk =
     (case pk of
        [p] \<Rightarrow>
          (case rk of
             r # _ \<Rightarrow> count_gud_key p w = 1 \<and> count_gud_key r w = 1
           | [] \<Rightarrow> count_gud_key p w = 1)
      | _ \<Rightarrow> False)"

definition can_delete_item :: "lexpr \<Rightarrow> string list \<Rightarrow> string list \<Rightarrow> bool" where
  "can_delete_item w pk rk = can_update_item w pk rk"

text \<open>\<open>xs.empty() ? std::string() : xs[0]\<close>\<close>

definition first_or_empty :: "string list \<Rightarrow> string" where
  "first_or_empty xs = (case xs of [] \<Rightarrow> '''' | x # _ \<Rightarrow> x)"

definition where_gud_key :: "lexpr \<Rightarrow> string list \<Rightarrow> string list \<Rightarrow> key_map" where
  "where_gud_key w pk rk = get_gud_key (first_or_empty pk) (first_or_empty rk) w"

definition plan_view :: "query_key_plan \<Rightarrow> key_schema_view" where
  "plan_view plan = \<lparr>ks_pk = plan_pk plan, ks_sk = plan_sk_prefix plan\<rparr>"

definition where_key_condition :: "lexpr \<Rightarrow> query_key_plan \<Rightarrow> symtab option \<Rightarrow> string \<times> symtab option" where
  "where_key_condition w plan st = query_key_condition_expression (plan_view plan) w st"

definition where_query_filter :: "lexpr \<Rightarrow> query_key_plan \<Rightarrow> symtab option \<Rightarrow> string \<times> symtab option" where
  "where_query_filter w plan st = query_filter_expression (plan_view plan) w st"

definition scan_filter_expression :: "lexpr \<Rightarrow> symtab option \<Rightarrow> string \<times> symtab option" where
  "scan_filter_expression w st = serialize w st"

definition where_condition_check :: "lexpr \<Rightarrow> string \<Rightarrow> string \<Rightarrow> symtab option \<Rightarrow> string \<times> symtab option" where
  "where_condition_check w pk rk st = update_delete_condition_check pk rk True w st"

section \<open>Leaves and the conjunctive spine\<close>

fun leaves :: "lexpr \<Rightarrow> leaf list" where
  "leaves (Leaf f l) = [l]"
| "leaves (LogicalAnd f es) = concat (map leaves es)"
| "leaves (LogicalOr f es) = concat (map leaves es)"

text \<open>
  The spine of a tree are the conjunctions reached from the root through conjunctions
  only.  \<open>positive_spine\<close>: none of them is negated; \<open>bare_spine\<close>: none is a
  parenthesised group.
\<close>

fun positive_spine :: "lexpr \<Rightarrow> bool" where
  "positive_spine (LogicalAnd f es) = (\<not> m_negate f \<and> (\<forall>e\<in>set es. positive_spine e))"
| "positive_spine e = True"

fun bare_spine :: "lexpr \<Rightarrow> bool" where
  "bare_spine (LogicalAnd f es) = (\<not> m_parens f \<and> (\<forall>e\<in>set es. bare_spine e))"
| "bare_spine e = True"

definition eval_opt :: "(leaf \<Rightarrow> bool) \<Rightarrow> lexpr option \<Rightarrow> bool" where
  "eval_opt sat p = (case p of None \<Rightarrow> True | Some e \<Rightarrow> eval sat e)"

definition opt_leaves :: "lexpr option \<Rightarrow> leaf list" where
  "opt_leaves p = (case p of None \<Rightarrow> [] | Some e \<Rightarrow> leaves e)"

lemma eval_opt_simps [simp]: "eval_opt sat None" "eval_opt sat (Some e) = eval sat e"
  by (simp_all add: eval_opt_def)

lemma opt_leaves_simps [simp]: "opt_leaves None = []" "opt_leaves (Some e) = leaves e"
  by (simp_all add: opt_leaves_def)

lemma opt_parts_Nil_iff: "opt_parts os = [] \<longleftrightarrow> (\<forall>p\<in>set os. p = None)"
proof -
  have "opt_parts os = [] \<longleftrightarrow> set (opt_parts os) = {}" by simp
  also have "\<dots> \<longleftrightarrow> (\<forall>p\<in>set os. p = None)" unfolding set_opt_parts by (auto intro: option.exhaust)
  finally show ?thesis .
qed

lemma eval_group_part:
  assumes "\<not> m_negate f"
  shows "eval_opt sat (group_part f (opt_parts os)) = (\<forall>p\<in>set os. eval_opt sat p)"
proof (cases "opt_parts os = [] \<and> \<not> m_parens f")
  case True
  then have "\<forall>p\<in>set os. p = None" by (simp add: opt_parts_Nil_iff)
  then show ?thesis using True by (auto simp: group_part_def)
next
  case False
  then have "eval_opt sat (group_part f (opt_parts os)) = (\<forall>e\<in>set (opt_parts os). eval sat e)"
    using assms by (auto simp: group_part_def)
  also have "\<dots> = (\<forall>p\<in>set os. eval_opt sat p)"
    unfolding set_opt_parts by (auto simp: eval_opt_def split: option.split)
  finally show ?thesis .
qed

lemma leaves_group_part: "opt_leaves (group_part f (opt_parts os)) = concat (map opt_leaves os)"
proof -
  have "concat (map leaves (opt_parts os)) = concat (map opt_leaves os)"
    by (induction os) (auto simp: opt_parts_def opt_leaves_def split: option.split)
  moreover have "opt_leaves (group_part f (opt_parts os)) = concat (map leaves (opt_parts os))"
    by (simp add: group_part_def)
  ultimately show ?thesis by simp
qed

lemma count_lhs_leaves: "0 < count_lhs k e \<longleftrightarrow> k \<in> leaf_lhs ` set (leaves e)"
  by (induction e) (auto simp: sum_list_eq_0_iff simp flip: neq0_conv)

lemma count_gud_le_lhs: "count_gud_key k e \<le> count_lhs k e"
proof (induction e)
  case (Leaf f l)
  then show ?case by (cases l) auto
next
  case (LogicalAnd f es)
  then show ?case by (auto intro: sum_list_mono)
qed simp

lemma count_lhs_le_nodes: "p \<noteq> r \<Longrightarrow> count_lhs p e + count_lhs r e \<le> count_nodes e"
proof (induction e)
  case (LogicalAnd f es)
  then have "sum_list (map (\<lambda>e. count_lhs p e + count_lhs r e) es) \<le> sum_list (map count_nodes es)"
    by (intro sum_list_mono) simp
  then show ?case by (simp add: sum_list_addf)
next
  case (LogicalOr f es)
  then have "sum_list (map (\<lambda>e. count_lhs p e + count_lhs r e) es) \<le> sum_list (map count_nodes es)"
    by (intro sum_list_mono) simp
  then show ?case by (simp add: sum_list_addf)
qed simp

lemma sum_list_pointwise:
  fixes g h :: "'a \<Rightarrow> nat"
  assumes "\<And>x. x \<in> set xs \<Longrightarrow> g x \<le> h x" and "sum_list (map g xs) = sum_list (map h xs)"
  shows "\<forall>x\<in>set xs. g x = h x"
  using assms
proof (induction xs)
  case (Cons x xs)
  have "sum_list (map g xs) \<le> sum_list (map h xs)" using Cons.prems(1) by (intro sum_list_mono) auto
  moreover have "g x \<le> h x" using Cons.prems(1) by simp
  ultimately have eq: "g x = h x" "sum_list (map g xs) = sum_list (map h xs)"
    using Cons.prems(2) unfolding list.map sum_list.Cons by linarith+
  have "\<forall>x\<in>set xs. g x = h x"
    by (rule Cons.IH) (simp_all add: Cons.prems(1) eq(2))
  then show ?case by (simp add: eq(1))
qed simp

section \<open>The query plan\<close>

lemma sort_prefix_ended:
  "sort_prefix w rk acc True = (if \<forall>s\<in>set rk. count_lhs s w = 0 then Some acc else None)"
  by (induction rk) auto

lemma sort_prefix_iff:
  "sort_prefix w rk acc False = Some sks \<longleftrightarrow>
     (\<exists>n\<le>length rk. sks = acc @ take n rk \<and> (\<forall>s\<in>set (take n rk). 0 < count_lhs s w) \<and>
        (\<forall>s\<in>set (drop n rk). count_lhs s w = 0))"
proof (induction rk arbitrary: acc)
  case (Cons s rk)
  show ?case
  proof (cases "count_lhs s w = 0")
    case True
    then have "(\<exists>n\<le>length (s # rk). sks = acc @ take n (s # rk) \<and>
        (\<forall>x\<in>set (take n (s # rk)). 0 < count_lhs x w) \<and> (\<forall>x\<in>set (drop n (s # rk)). count_lhs x w = 0)) \<longleftrightarrow>
        sks = acc \<and> (\<forall>x\<in>set rk. count_lhs x w = 0)"
      by (auto simp: take_Cons' drop_Cons' split: if_splits)
    then show ?thesis using True by (auto simp: sort_prefix_ended)
  next
    case False
    have "(\<exists>n\<le>length (s # rk). sks = acc @ take n (s # rk) \<and>
        (\<forall>x\<in>set (take n (s # rk)). 0 < count_lhs x w) \<and> (\<forall>x\<in>set (drop n (s # rk)). count_lhs x w = 0)) \<longleftrightarrow>
        (\<exists>n\<le>length rk. sks = (acc @ [s]) @ take n rk \<and>
        (\<forall>x\<in>set (take n rk). 0 < count_lhs x w) \<and> (\<forall>x\<in>set (drop n rk). count_lhs x w = 0))"
      (is "(\<exists>n\<le>_. ?L n) \<longleftrightarrow> (\<exists>n\<le>_. ?R n)")
    proof
      assume "\<exists>n\<le>length (s # rk). ?L n"
      then obtain n where n: "n \<le> length (s # rk)" "?L n" by blast
      with False obtain m where "n = Suc m" by (cases n) auto
      with n have "m \<le> length rk \<and> ?R m" by auto
      then show "\<exists>n\<le>length rk. ?R n" by blast
    next
      assume "\<exists>n\<le>length rk. ?R n"
      then obtain n where n: "n \<le> length rk" "?R n" by blast
      with False have "Suc n \<le> length (s # rk) \<and> ?L (Suc n)" by auto
      then show "\<exists>n\<le>length (s # rk). ?L n" by blast
    qed
    then show ?thesis using False Cons.IH [of "acc @ [s]"] by simp
  qed
qed auto

lemma plan_query_iff:
  "plan_query w pk rk = Some plan \<longleftrightarrow>
     (\<forall>p\<in>set pk. count_gud_key p w = 1 \<and> count_lhs p w = 1) \<and>
     (\<exists>n\<le>length rk.
        plan = \<lparr>plan_pk = pk, plan_sk_prefix = take n rk\<rparr> \<and>
        (\<forall>s\<in>set (take n rk). 0 < count_lhs s w) \<and> (\<forall>s\<in>set (drop n rk). count_lhs s w = 0) \<and>
        (\<forall>s\<in>set (butlast (take n rk)). count_lhs s w = 1 \<and> count_gud_key s w = 1) \<and>
        query_safe (plan_view plan) w)"
proof (cases "\<forall>p\<in>set pk. count_gud_key p w = 1 \<and> count_lhs p w = 1")
  case True
  show ?thesis
  proof (cases "sort_prefix w rk [] False")
    case None
    then have "\<not> (\<exists>n\<le>length rk. (\<forall>s\<in>set (take n rk). 0 < count_lhs s w) \<and>
        (\<forall>s\<in>set (drop n rk). count_lhs s w = 0))"
      using sort_prefix_iff [of w rk "[]"] by force
    then show ?thesis using None by (auto simp: plan_query_def)
  next
    case (Some sks)
    then obtain n where n: "n \<le> length rk" "sks = take n rk" "\<forall>s\<in>set (take n rk). 0 < count_lhs s w"
      "\<forall>s\<in>set (drop n rk). count_lhs s w = 0"
      using sort_prefix_iff [of w rk "[]" sks] by auto
    have uniq: "take m rk = sks" if "m \<le> length rk" "\<forall>s\<in>set (take m rk). 0 < count_lhs s w"
      "\<forall>s\<in>set (drop m rk). count_lhs s w = 0" for m
      using sort_prefix_iff [of w rk "[]" "take m rk"] that Some by auto
    show ?thesis
    proof
      assume "plan_query w pk rk = Some plan"
      then show "(\<forall>p\<in>set pk. count_gud_key p w = 1 \<and> count_lhs p w = 1) \<and>
         (\<exists>n\<le>length rk. plan = \<lparr>plan_pk = pk, plan_sk_prefix = take n rk\<rparr> \<and>
          (\<forall>s\<in>set (take n rk). 0 < count_lhs s w) \<and> (\<forall>s\<in>set (drop n rk). count_lhs s w = 0) \<and>
          (\<forall>s\<in>set (butlast (take n rk)). count_lhs s w = 1 \<and> count_gud_key s w = 1) \<and>
          query_safe (plan_view plan) w)"
        using True Some n by (auto simp: plan_query_def plan_view_def split: if_splits intro!: exI [of _ n])
    next
      assume R: "(\<forall>p\<in>set pk. count_gud_key p w = 1 \<and> count_lhs p w = 1) \<and>
         (\<exists>n\<le>length rk. plan = \<lparr>plan_pk = pk, plan_sk_prefix = take n rk\<rparr> \<and>
          (\<forall>s\<in>set (take n rk). 0 < count_lhs s w) \<and> (\<forall>s\<in>set (drop n rk). count_lhs s w = 0) \<and>
          (\<forall>s\<in>set (butlast (take n rk)). count_lhs s w = 1 \<and> count_gud_key s w = 1) \<and>
          query_safe (plan_view plan) w)"
      then obtain m where m: "m \<le> length rk" "plan = \<lparr>plan_pk = pk, plan_sk_prefix = take m rk\<rparr>"
        "\<forall>s\<in>set (take m rk). 0 < count_lhs s w" "\<forall>s\<in>set (drop m rk). count_lhs s w = 0"
        "\<forall>s\<in>set (butlast (take m rk)). count_lhs s w = 1 \<and> count_gud_key s w = 1"
        "query_safe (plan_view plan) w" by blast
      have "take m rk = sks" using uniq m by blast
      then show "plan_query w pk rk = Some plan"
        using True Some m by (auto simp: plan_query_def plan_view_def)
    qed
  qed
next
  case False
  then show ?thesis by (auto simp: plan_query_def)
qed

section \<open>Splitting a clause between key condition and filter\<close>

lemma split_sound:
  "query_safe ks e \<Longrightarrow> positive_spine e \<Longrightarrow>
     eval sat e = (eval_opt sat (key_part ks e) \<and> eval_opt sat (filter_part ks e))"
proof (induction e)
  case (Leaf f l)
  then show ?case by (cases l) (auto split: if_splits)
next
  case (LogicalAnd f es)
  then have "\<And>e. e \<in> set es \<Longrightarrow>
      eval sat e = (eval_opt sat (key_part ks e) \<and> eval_opt sat (filter_part ks e))" by simp
  then show ?case using LogicalAnd.prems(2) by (auto simp: eval_group_part)
qed simp

lemma key_part_leaves:
  "l \<in> set (opt_leaves (key_part ks e)) \<Longrightarrow> leaf_lhs l \<in> set (ks_pk ks) \<union> set (ks_sk ks)"
proof (induction e)
  case (Leaf f k)
  then show ?case by (cases k) (auto split: if_splits)
qed (auto simp: leaves_group_part)

lemma filter_part_leaves:
  "query_safe ks e \<Longrightarrow> l \<in> set (opt_leaves (filter_part ks e)) \<Longrightarrow>
     leaf_lhs l \<notin> set (ks_pk ks) \<union> set (ks_sk ks)"
proof (induction e)
  case (Leaf f k)
  then show ?case by (cases k) (auto split: if_splits)
next
  case (LogicalOr f es)
  have "count_lhs (leaf_lhs l) (LogicalOr f es) > 0"
    using LogicalOr.prems(2) by (subst count_lhs_leaves) simp
  then show ?case using LogicalOr.prems(1)
    by (auto simp del: count_lhs.simps split: if_splits)
qed (auto simp: leaves_group_part)

lemma group_part_wf:
  "\<not> m_parens f \<Longrightarrow> \<forall>e\<in>set ps. wf_expr e \<Longrightarrow> pred_option wf_expr (group_part f ps)"
  by (simp add: group_part_def)

lemma key_part_wf: "wf_expr e \<Longrightarrow> bare_spine e \<Longrightarrow> pred_option wf_expr (key_part ks e)"
proof (induction e)
  case (LogicalAnd f es)
  then show ?case by (auto simp: set_opt_parts intro!: group_part_wf) (metis option.pred_inject(2))
qed simp_all

lemma filter_part_wf: "wf_expr e \<Longrightarrow> bare_spine e \<Longrightarrow> pred_option wf_expr (filter_part ks e)"
proof (induction e)
  case (LogicalAnd f es)
  then show ?case by (auto simp: set_opt_parts intro!: group_part_wf) (metis option.pred_inject(2))
qed simp_all

lemma condition_part_wf: "wf_expr e \<Longrightarrow> bare_spine e \<Longrightarrow> pred_option wf_expr (condition_part pk rk e)"
proof (induction e)
  case (LogicalAnd f es)
  then show ?case by (auto simp: set_opt_parts intro!: group_part_wf) (metis option.pred_inject(2))
qed simp_all

section \<open>The key of a single item\<close>

text \<open>The key equalities of the spine, in the order the conjunction visits them.\<close>

fun gud_pairs :: "string \<Rightarrow> string \<Rightarrow> lexpr \<Rightarrow> (string \<times> value) list" where
  "gud_pairs p r (LogicalAnd f es) = concat (map (gud_pairs p r) es)"
| "gud_pairs p r (LogicalOr f es) = []"
| "gud_pairs p r (Leaf f l) = get_gud_key p r (Leaf f l)"

lemma foldl_insert_all:
  "smap_ok m \<Longrightarrow> smap_ok (foldl smap_insert_all m ms) \<and>
     map_of (foldl smap_insert_all m ms) = foldl (\<lambda>f n. map_of n ++ f) (map_of m) ms"
  by (induction ms arbitrary: m) (auto simp: smap_ok_insert_all map_of_smap_insert_all)

lemma foldl_map_add: "foldl (\<lambda>f n. map_of n ++ f) (map_of m) ms = map_of (m @ concat ms)"
proof (induction ms arbitrary: m)
  case (Cons n ms)
  have "map_of n ++ map_of m = map_of (m @ n)" by simp
  then have "foldl (\<lambda>f n. map_of n ++ f) (map_of m) (n # ms) = map_of ((m @ n) @ concat ms)"
    using Cons.IH [of "m @ n"] by simp
  then show ?case by simp
qed simp

lemma get_gud_key_ok: "smap_ok (get_gud_key p r e)"
proof (cases e)
  case (Leaf f l)
  then show ?thesis by (cases l) simp_all
next
  case (LogicalAnd f es)
  then show ?thesis using foldl_insert_all [of "[]" "map (get_gud_key p r) es"] by simp
qed simp

lemma get_gud_key_pairs: "map_of (get_gud_key p r e) = map_of (gud_pairs p r e)"
proof (induction e)
  case (LogicalAnd f es)
  have step: "map_of (concat (map (get_gud_key p r) xs)) = map_of (concat (map (gud_pairs p r) xs))"
    if "\<And>e. e \<in> set xs \<Longrightarrow> map_of (get_gud_key p r e) = map_of (gud_pairs p r e)" for xs
    using that by (induction xs) simp_all
  have "map_of (get_gud_key p r (LogicalAnd f es)) = map_of (concat (map (get_gud_key p r) es))"
    using foldl_insert_all [of "[]" "map (get_gud_key p r) es"] foldl_map_add [of "[]"] by simp
  then show ?case using step [of es] LogicalAnd by simp
qed simp_all

lemma set_get_gud_key: "fst ` set (get_gud_key p r e) = fst ` set (gud_pairs p r e)"
  by (metis dom_map_of_conv_image_fst get_gud_key_pairs)

lemma gud_pairs_lhs: "kv \<in> set (gud_pairs p r e) \<Longrightarrow> fst kv = p \<or> fst kv = r"
proof (induction e)
  case (Leaf f l)
  then show ?case by (cases l) (auto split: if_splits)
qed auto

lemma count_gud_pairs:
  "k = p \<or> k = r \<Longrightarrow> count_gud_key k e = length (filter (\<lambda>kv. fst kv = k) (gud_pairs p r e))"
proof (induction e)
  case (Leaf f l)
  then show ?case by (cases l) auto
next
  case (LogicalAnd f es)
  have "sum_list (map (count_gud_key k) xs) = length (filter (\<lambda>kv. fst kv = k) (concat (map (gud_pairs p r) xs)))"
    if "\<And>e. e \<in> set xs \<Longrightarrow> count_gud_key k e = length (filter (\<lambda>kv. fst kv = k) (gud_pairs p r e))" for xs
    using that by (induction xs) simp_all
  then show ?case using LogicalAnd by simp
qed simp

lemma unique_pair:
  assumes "length (filter (\<lambda>kv. fst kv = k) ps) = 1"
  obtains v where "map_of ps k = Some v" and "\<And>v'. (k, v') \<in> set ps \<longleftrightarrow> v' = v"
proof -
  obtain kv where kv: "filter (\<lambda>kv. fst kv = k) ps = [kv]"
    using assms by (metis One_nat_def length_0_conv length_Suc_conv)
  then have "kv \<in> set (filter (\<lambda>kv. fst kv = k) ps)" by simp
  then have k: "fst kv = k" "kv \<in> set ps" by simp_all
  have mem: "(k, v') \<in> set ps \<longleftrightarrow> v' = snd kv" for v'
  proof
    assume "(k, v') \<in> set ps"
    then have "(k, v') \<in> set (filter (\<lambda>kv. fst kv = k) ps)" by simp
    then show "v' = snd kv" using kv by auto
  next
    assume "v' = snd kv"
    then show "(k, v') \<in> set ps" using k by (metis prod.collapse)
  qed
  obtain v where v: "map_of ps k = Some v" using mem by (metis weak_map_of_SomeI)
  then have "v = snd kv" using mem map_of_SomeD by fastforce
  with v mem show ?thesis using that by blast
qed

text \<open>A clause all of whose leaves are key equalities says exactly that the key is that key.\<close>

lemma all_gud_eval:
  "p \<noteq> r \<Longrightarrow> wf_expr e \<Longrightarrow> positive_spine e \<Longrightarrow> count_gud_key p e + count_gud_key r e = count_nodes e \<Longrightarrow>
     eval sat e = (\<forall>kv\<in>set (gud_pairs p r e). sat (LogicalComparison (fst kv) ''='' (snd kv)))"
proof (induction e)
  case (Leaf f l)
  then show ?case by (cases l) (auto split: if_splits)
next
  case (LogicalAnd f es)
  have "sum_list (map (\<lambda>e. count_gud_key p e + count_gud_key r e) es) = sum_list (map count_nodes es)"
    using LogicalAnd.prems(4) by (simp add: sum_list_addf)
  moreover have "count_gud_key p e + count_gud_key r e \<le> count_nodes e" for e
    using count_gud_le_lhs [of p e] count_gud_le_lhs [of r e] count_lhs_le_nodes [OF LogicalAnd.prems(1), of e]
    by linarith
  ultimately have "\<forall>e\<in>set es. count_gud_key p e + count_gud_key r e = count_nodes e"
    by (intro sum_list_pointwise) auto
  then show ?case using LogicalAnd by auto
next
  case (LogicalOr f es)
  then have "count_nodes (LogicalOr f es) = 0" by (simp del: count_nodes.simps)
  then show ?case using count_nodes_pos [OF LogicalOr.prems(2)] by linarith
qed

text \<open>
  A write by key drops from its condition the predicates on key attributes that it takes to
  be the item key.  That is exact when those it meets on the spine are equalities.
\<close>

fun drops_equalities_only :: "string \<Rightarrow> string \<Rightarrow> lexpr \<Rightarrow> bool" where
  "drops_equalities_only p r (Leaf f l) =
     (dropped_leaf p r f l \<longrightarrow> (case l of LogicalComparison _ op _ \<Rightarrow> op = ''='' | _ \<Rightarrow> False))"
| "drops_equalities_only p r (LogicalAnd f es) = (\<forall>e\<in>set es. drops_equalities_only p r e)"
| "drops_equalities_only p r (LogicalOr f es) = True"

lemma condition_split_sound:
  "positive_spine e \<Longrightarrow> drops_equalities_only p r e \<Longrightarrow>
     eval sat e = ((\<forall>kv\<in>set (gud_pairs p r e). sat (LogicalComparison (fst kv) ''='' (snd kv))) \<and>
                   eval_opt sat (condition_part p r e))"
proof (induction e)
  case (Leaf f l)
  then show ?case by (cases l) (auto split: if_splits)
next
  case (LogicalAnd f es)
  then have "\<And>e. e \<in> set es \<Longrightarrow>
      eval sat e = ((\<forall>kv\<in>set (gud_pairs p r e). sat (LogicalComparison (fst kv) ''='' (snd kv))) \<and>
                   eval_opt sat (condition_part p r e))" by simp
  then show ?case using LogicalAnd.prems(1) by (auto simp: eval_group_part)
qed simp

text \<open>
  What a rendering for a single item leaves out without the item key saying it: the conjuncts of the spine that
  are dropped and are not the equalities the key is taken from.
\<close>

fun conjuncts :: "lexpr \<Rightarrow> (flags \<times> leaf) list" where
  "conjuncts (Leaf f l) = [(f, l)]"
| "conjuncts (LogicalAnd f es) = concat (map conjuncts es)"
| "conjuncts (LogicalOr f es) = []"

fun key_equality :: "string \<Rightarrow> string \<Rightarrow> flags \<times> leaf \<Rightarrow> bool" where
  "key_equality p r (f, LogicalComparison lhs op rhs) = ((lhs = p \<or> lhs = r) \<and> op = ''='' \<and> \<not> m_negate f)"
| "key_equality p r (f, l) = False"

definition says :: "(leaf \<Rightarrow> bool) \<Rightarrow> flags \<times> leaf \<Rightarrow> bool" where
  "says sat c = (if m_negate (fst c) then \<not> sat (snd c) else sat (snd c))"

definition lost_by_write :: "string \<Rightarrow> string \<Rightarrow> lexpr \<Rightarrow> (flags \<times> leaf) list" where
  "lost_by_write p r e = filter (\<lambda>c. dropped_leaf p r (fst c) (snd c) \<and> \<not> key_equality p r c) (conjuncts e)"

definition lost_by_filter :: "key_schema_view \<Rightarrow> string \<Rightarrow> string \<Rightarrow> lexpr \<Rightarrow> (flags \<times> leaf) list" where
  "lost_by_filter ks p r e = filter (\<lambda>c. \<not> filter_leaf ks (snd c) \<and> \<not> key_equality p r c) (conjuncts e)"

lemma lost_simps [simp]:
  "lost_by_write p r (LogicalAnd f es) = concat (map (lost_by_write p r) es)"
  "lost_by_write p r (LogicalOr f es) = []"
  "lost_by_filter ks p r (LogicalAnd f es) = concat (map (lost_by_filter ks p r) es)"
  "lost_by_filter ks p r (LogicalOr f es) = []"
  by (simp_all add: lost_by_write_def [abs_def] lost_by_filter_def [abs_def] filter_concat comp_def)

text \<open>The clause is what the key says, what is sent, and what is lost.\<close>

lemma condition_split_all:
  "positive_spine e \<Longrightarrow>
     eval sat e = ((\<forall>kv\<in>set (gud_pairs p r e). sat (LogicalComparison (fst kv) ''='' (snd kv))) \<and>
       eval_opt sat (condition_part p r e) \<and> (\<forall>c\<in>set (lost_by_write p r e). says sat c))"
proof (induction e)
  case (Leaf f l)
  then show ?case by (cases l) (auto simp: lost_by_write_def says_def)
next
  case (LogicalAnd f es)
  then have "\<And>e. e \<in> set es \<Longrightarrow>
      eval sat e = ((\<forall>kv\<in>set (gud_pairs p r e). sat (LogicalComparison (fst kv) ''='' (snd kv))) \<and>
        eval_opt sat (condition_part p r e) \<and> (\<forall>c\<in>set (lost_by_write p r e). says sat c))" by simp
  then show ?case using LogicalAnd.prems(1) by (auto simp: eval_group_part)
qed simp

lemma filter_split_all:
  "positive_spine e \<Longrightarrow> p \<in> set (ks_pk ks) \<Longrightarrow> r \<in> set (ks_sk ks) \<or> r \<notin> leaf_lhs ` set (leaves e) \<Longrightarrow>
     eval sat e = ((\<forall>kv\<in>set (gud_pairs p r e). sat (LogicalComparison (fst kv) ''='' (snd kv))) \<and>
       eval_opt sat (filter_part ks e) \<and> (\<forall>c\<in>set (lost_by_filter ks p r e). says sat c))"
proof (induction e)
  case (Leaf f l)
  then show ?case by (cases l) (auto simp: lost_by_filter_def says_def)
next
  case (LogicalAnd f es)
  then have "\<And>e. e \<in> set es \<Longrightarrow>
      eval sat e = ((\<forall>kv\<in>set (gud_pairs p r e). sat (LogicalComparison (fst kv) ''='' (snd kv))) \<and>
        eval_opt sat (filter_part ks e) \<and> (\<forall>c\<in>set (lost_by_filter ks p r e). says sat c))"
    by (fastforce simp: image_iff)
  then show ?case using LogicalAnd.prems(1) by (auto simp: eval_group_part)
qed simp

lemma drops_equalities_only_iff: "drops_equalities_only p r e \<longleftrightarrow> lost_by_write p r e = []"
proof (induction e)
  case (Leaf f l)
  then show ?case by (cases l) (auto simp: lost_by_write_def)
qed auto

lemma distinct_keys_by_count:
  "(\<And>k. length (filter (\<lambda>kv. fst kv = k) ps) \<le> 1) \<Longrightarrow> distinct (map fst ps)"
proof (induction ps)
  case (Cons x ps)
  have IH: "length (filter (\<lambda>kv. fst kv = k) ps) \<le> 1" for k
    using Cons.prems [of k] by (simp split: if_splits)
  have "length (filter (\<lambda>kv. fst kv = fst x) ps) = 0" using Cons.prems [of "fst x"] by simp
  then have "fst x \<notin> fst ` set ps" by (auto simp: filter_empty_conv)
  then show ?case using Cons.IH [OF IH] by simp
qed simp

lemma gud_key_set:
  assumes "count_gud_key p e \<le> 1" and "count_gud_key r e \<le> 1"
  shows "set (get_gud_key p r e) = set (gud_pairs p r e)"
proof -
  have "length (filter (\<lambda>kv. fst kv = k) (gud_pairs p r e)) \<le> 1" for k
  proof (cases "k = p \<or> k = r")
    case True
    then show ?thesis using assms count_gud_pairs [of k p r e] by auto
  next
    case False
    then have "filter (\<lambda>kv. fst kv = k) (gud_pairs p r e) = []"
      using gud_pairs_lhs [of _ p r e] by (auto simp: filter_empty_conv)
    then show ?thesis by simp
  qed
  then have "distinct (map fst (gud_pairs p r e))" by (rule distinct_keys_by_count)
  moreover have "distinct (map fst (get_gud_key p r e))"
    using get_gud_key_ok by (rule smap_ok_distinct)
  ultimately show ?thesis by (metis get_gud_key_pairs set_map_of_compr)
qed

lemma gud_key_dom:
  assumes "k = p \<or> k = r"
  shows "k \<in> dom (map_of (get_gud_key p r e)) \<longleftrightarrow> 0 < count_gud_key k e"
proof -
  have "k \<in> dom (map_of (get_gud_key p r e)) \<longleftrightarrow> k \<in> fst ` set (gud_pairs p r e)"
    by (simp add: dom_map_of_conv_image_fst set_get_gud_key)
  also have "\<dots> \<longleftrightarrow> 0 < length (filter (\<lambda>kv. fst kv = k) (gud_pairs p r e))"
    by (force simp: filter_empty_conv)
  finally show ?thesis using count_gud_pairs [OF assms, of e] by simp
qed

lemma gud_key_dom_sub: "dom (map_of (get_gud_key p r e)) \<subseteq> {p, r}"
  using gud_pairs_lhs [of _ p r e] by (auto simp: dom_map_of_conv_image_fst set_get_gud_key)

lemma count_gud_outside: "k \<notin> leaf_lhs ` set (leaves e) \<Longrightarrow> count_gud_key k e = 0"
  using count_gud_le_lhs [of k e] count_lhs_leaves [of k e] by linarith

lemma filter_part_sub: "set (opt_leaves (filter_part ks e)) \<subseteq> set (leaves e)"
proof (induction e)
  case (LogicalAnd f es)
  then show ?case by (auto simp: leaves_group_part)
qed auto

section \<open>What the probes guarantee\<close>

text \<open>C2: A clause is planned as a Query exactly when every partition key attribute is named
  by one single positive equality, the sort key attributes named by the clause are an initial
  segment of the schema's, all but the last of them are fixed by one single positive
  equality, and the whole clause is safe for that segment; the plan is then the partition key
  with that segment.\<close>

theorem plan_query_exact:
  "plan_query w pk rk = Some plan \<longleftrightarrow>
     (\<forall>p\<in>set pk. count_gud_key p w = 1 \<and> count_lhs p w = 1) \<and>
     (\<exists>n\<le>length rk.
        plan = \<lparr>plan_pk = pk, plan_sk_prefix = take n rk\<rparr> \<and>
        (\<forall>s\<in>set (take n rk). 0 < count_lhs s w) \<and> (\<forall>s\<in>set (drop n rk). count_lhs s w = 0) \<and>
        (\<forall>s\<in>set (butlast (take n rk)). count_lhs s w = 1 \<and> count_gud_key s w = 1) \<and>
        query_safe \<lparr>ks_pk = pk, ks_sk = take n rk\<rparr> w)"
  by (auto simp: plan_query_iff plan_view_def)

theorem plan_query_exact_witness:
  "plan_query (mk_comparison ''a'' ''='' (N ''1'')) [''a''] [''b''] =
     Some \<lparr>plan_pk = [''a''], plan_sk_prefix = []\<rparr>"
  by (subst plan_query_exact)
    (auto simp: mk_comparison_def no_flags_def intro!: exI [of _ "0::nat"])

text \<open>When a clause with no negated conjunction is planned as a Query, the key condition
  and the filter that are sent are the serializations of two trees that together mean exactly
  the clause; the key condition names attributes of the plan's key only, and the filter names
  no attribute of the key schema at all, as the service demands of it.\<close>

lemma query_split:
  assumes "wf_expr w" and "positive_spine w" and "plan_query w pk rk = Some plan"
  shows "where_key_condition w plan st = serialize_opt (key_part (plan_view plan) w) st \<and>
    where_query_filter w plan st = serialize_opt (filter_part (plan_view plan) w) st \<and>
    (eval sat w \<longleftrightarrow> eval_opt sat (key_part (plan_view plan) w) \<and>
                    eval_opt sat (filter_part (plan_view plan) w)) \<and>
    leaf_lhs ` set (opt_leaves (key_part (plan_view plan) w)) \<subseteq> set (plan_pk plan) \<union> set (plan_sk_prefix plan) \<and>
    leaf_lhs ` set (opt_leaves (filter_part (plan_view plan) w)) \<inter> (set pk \<union> set rk) = {}"
proof -
  obtain n where n: "plan = \<lparr>plan_pk = pk, plan_sk_prefix = take n rk\<rparr>"
    "\<forall>s\<in>set (drop n rk). count_lhs s w = 0" and safe: "query_safe (plan_view plan) w"
    using assms(3) by (auto simp: plan_query_iff)
  have rk: "set rk = set (take n rk) \<union> set (drop n rk)"
    by (metis append_take_drop_id set_append)
  have out: "leaf_lhs l \<notin> set pk \<union> set rk" if "l \<in> set (opt_leaves (filter_part (plan_view plan) w))" for l
  proof -
    have "leaf_lhs l \<notin> set pk \<union> set (take n rk)"
      using filter_part_leaves [OF safe that] n(1) by (simp add: plan_view_def)
    moreover have "l \<in> set (leaves w)" using filter_part_sub that by blast
    then have "0 < count_lhs (leaf_lhs l) w" by (simp add: count_lhs_leaves)
    then have "leaf_lhs l \<notin> set (drop n rk)" using n(2) by auto
    ultimately show ?thesis using rk by auto
  qed
  have ins: "leaf_lhs l \<in> set (plan_pk plan) \<union> set (plan_sk_prefix plan)"
    if "l \<in> set (opt_leaves (key_part (plan_view plan) w))" for l
    using key_part_leaves [OF that] by (simp add: plan_view_def)
  have "leaf_lhs ` set (opt_leaves (key_part (plan_view plan) w)) \<subseteq> set (plan_pk plan) \<union> set (plan_sk_prefix plan)"
    "leaf_lhs ` set (opt_leaves (filter_part (plan_view plan) w)) \<inter> (set pk \<union> set rk) = {}"
    using ins out by blast+
  then show ?thesis
    using split_sound [OF safe assms(2)] key_condition_refines query_filter_refines [OF assms(1)]
    by (simp add: where_key_condition_def where_query_filter_def)
qed

text \<open>If in addition no conjunction of the spine is a parenthesised group, neither string
  contains an empty group: each is the serialization of a well-formed tree or empty, and the
  key condition is not empty as soon as the table has a partition key.\<close>

theorem query_strings_well_formed:
  assumes "wf_expr w" and "bare_spine w" and "plan_query w (p # pk) rk = Some plan"
  shows "(\<exists>k. wf_expr k \<and> where_key_condition w plan st = serialize k st) \<and>
    (where_query_filter w plan st = ('''', st) \<or>
     (\<exists>k. wf_expr k \<and> where_query_filter w plan st = serialize k st))"
proof -
  have pk: "plan_pk plan = p # pk" and gud: "count_gud_key p w = 1" using assms(3) by (auto simp: plan_query_iff)
  have some: "p \<in> set (ks_pk ks) \<Longrightarrow> 0 < count_gud_key p e \<Longrightarrow> key_part ks e \<noteq> None" for ks e
  proof (induction e)
    case (Leaf f l)
    then show ?case by (cases l) (auto split: if_splits)
  next
    case (LogicalAnd f es)
    then obtain e where "e \<in> set es" "0 < count_gud_key p e" by (auto simp: sum_list_eq_0_iff simp flip: neq0_conv)
    then have "key_part ks e \<noteq> None" "key_part ks e \<in> set (map (key_part ks) es)" using LogicalAnd by auto
    then have "opt_parts (map (key_part ks) es) \<noteq> []" by (metis opt_parts_Nil_iff)
    then show ?case by (simp add: group_part_def)
  qed simp
  obtain k where k: "key_part (plan_view plan) w = Some k"
    using some [of "plan_view plan" w] gud pk by (auto simp: plan_view_def)
  have kw: "wf_expr k" using key_part_wf [OF assms(1,2), of "plan_view plan"] k by simp
  have fw: "pred_option wf_expr (filter_part (plan_view plan) w)" by (rule filter_part_wf [OF assms(1,2)])
  show ?thesis
    using k kw fw key_condition_refines [of "plan_view plan" w st] query_filter_refines [OF assms(1), of "plan_view plan" st]
    by (cases "filter_part (plan_view plan) w")
      (auto simp: where_key_condition_def where_query_filter_def serialize_opt_def)
qed

theorem query_strings_well_formed_witness:
  "\<exists>k. wf_expr k \<and> where_key_condition (mk_comparison ''a'' ''='' (N ''1'')) \<lparr>plan_pk = [''a''], plan_sk_prefix = []\<rparr> None
     = serialize k None"
  using query_strings_well_formed [of "mk_comparison ''a'' ''='' (N ''1'')" "''a''" "[]" "[]"
      "\<lparr>plan_pk = [''a''], plan_sk_prefix = []\<rparr>" None]
  by (simp add: mk_comparison_def no_flags_def plan_query_def plan_view_def)

text \<open>When a clause with no negated conjunction passes the GetItem probe, the key that is
  looked up has exactly the attributes of the primary key and the clause says exactly that
  these attributes have these values, so the read needs no filter.\<close>

lemma getitem_exact:
  assumes "wf_expr w" and "positive_spine w" and "first_or_empty rk \<noteq> p" and "can_getitem w [p] rk"
  shows "smap_ok (where_gud_key w [p] rk) \<and>
    dom (map_of (where_gud_key w [p] rk)) = set (p # take 1 rk) \<and>
    (eval sat w \<longleftrightarrow> (\<forall>kv\<in>set (where_gud_key w [p] rk). sat (LogicalComparison (fst kv) ''='' (snd kv))))"
proof -
  let ?r = "first_or_empty rk"
  have p: "count_gud_key p w = 1" using assms(4) by (auto simp: can_getitem_def split: list.splits)
  have le: "count_gud_key p w + count_gud_key ?r w \<le> count_nodes w"
    using count_gud_le_lhs [of p w] count_gud_le_lhs [of ?r w] count_lhs_le_nodes [OF assms(3) [symmetric], of w]
    by linarith
  have sum: "count_gud_key p w + count_gud_key ?r w = count_nodes w"
    and r: "count_gud_key ?r w = (if rk = [] then 0 else 1)"
    using le assms(4) p by (auto simp: can_getitem_def first_or_empty_def split: list.splits)
  have set_eq: "set (get_gud_key p ?r w) = set (gud_pairs p ?r w)"
    by (rule gud_key_set) (simp_all add: p r)
  have "dom (map_of (get_gud_key p ?r w)) = set (p # take 1 rk)"
    using gud_key_dom [of p p ?r w] gud_key_dom [of ?r p ?r w] gud_key_dom_sub [of p ?r w] p r
    by (cases rk) (auto simp: first_or_empty_def)
  moreover have "p \<noteq> ?r" using assms(3) by simp
  note all_gud_eval [OF this assms(1,2) sum, of sat]
  ultimately show ?thesis
    using get_gud_key_ok set_eq by (simp add: where_gud_key_def first_or_empty_def [of "[p]"])
qed

text \<open>The key of a clause that passes the probe for a single update or delete.\<close>

lemma write_key_exact:
  assumes "can_update_item w [p] rk" and "rk = [] \<Longrightarrow> '''' \<notin> leaf_lhs ` set (leaves w)"
  shows "dom (map_of (where_gud_key w [p] rk)) = set (p # take 1 rk)"
    and "set (where_gud_key w [p] rk) = set (gud_pairs p (first_or_empty rk) w)"
proof -
  let ?r = "first_or_empty rk"
  have p: "count_gud_key p w = 1" using assms(1) by (auto simp: can_update_item_def split: list.splits)
  have r: "count_gud_key ?r w = (if rk = [] then 0 else 1)"
    using assms count_gud_outside [of "''''" w]
    by (auto simp: can_update_item_def first_or_empty_def split: list.splits)
  show "set (where_gud_key w [p] rk) = set (gud_pairs p ?r w)"
    unfolding where_gud_key_def first_or_empty_def [of "[p]"] list.case by (rule gud_key_set) (simp_all add: p r)
  have "dom (map_of (get_gud_key p ?r w)) = set (p # take 1 rk)"
    using gud_key_dom [of p p ?r w] gud_key_dom [of ?r p ?r w] gud_key_dom_sub [of p ?r w] p r
    by (cases rk) (auto simp: first_or_empty_def)
  then show "dom (map_of (where_gud_key w [p] rk)) = set (p # take 1 rk)"
    by (simp add: where_gud_key_def first_or_empty_def [of "[p]"])
qed

text \<open>When a clause with no negated conjunction passes the probe for a single update or
  delete, and the key predicates left out of its condition are equalities, the clause means
  exactly that the item has the extracted key and satisfies the condition that is sent.\<close>

lemma single_write_exact:
  assumes "wf_expr w" and "positive_spine w" and "can_update_item w [p] rk"
    and "drops_equalities_only p (first_or_empty rk) w" and "rk = [] \<Longrightarrow> '''' \<notin> leaf_lhs ` set (leaves w)"
  shows "dom (map_of (where_gud_key w [p] rk)) = set (p # take 1 rk) \<and>
    where_condition_check w p (first_or_empty rk) st = serialize_opt (condition_part p (first_or_empty rk) w) st \<and>
    (eval sat w \<longleftrightarrow>
       (\<forall>kv\<in>set (where_gud_key w [p] rk). sat (LogicalComparison (fst kv) ''='' (snd kv))) \<and>
       eval_opt sat (condition_part p (first_or_empty rk) w))"
  using write_key_exact [OF assms(3,5)] condition_split_sound [OF assms(2,4), of sat]
    condition_check_refines [OF assms(1), of p "first_or_empty rk" st]
  by (simp add: where_condition_check_def)

text \<open>The flattening factories build the conjunction and the disjunction of their
  operands, except that two unparenthesised negated operands of the same kind are spliced under
  one negation, which turns the conjunction of two negated conjunctions into their disjunction
  and the other way round.\<close>

theorem make_and_make_or_meaning:
  "eval sat (make_and e1 e2) =
     (if splices_negated_and e1 e2 then eval sat e1 \<or> eval sat e2 else eval sat e1 \<and> eval sat e2) \<and>
   eval sat (make_or e1 e2) =
     (if splices_negated_or e1 e2 then eval sat e1 \<and> eval sat e2 else eval sat e1 \<or> eval sat e2)"
  by (simp add: eval_make_and eval_make_or)

section \<open>Where the probes and the renderings go astray\<close>

text \<open>C39: The negation of a conjunction is not seen by the GetItem probe: the item that is read is
  the one item the clause excludes.\<close>

lemma negated_key_reads_excluded_item:
  assumes "p \<noteq> r"
  shows "can_getitem (negate (make_and (mk_comparison p ''='' v) (mk_comparison r ''='' u))) [p] [r] \<and>
    set (where_gud_key (negate (make_and (mk_comparison p ''='' v) (mk_comparison r ''='' u))) [p] [r]) = {(p, v), (r, u)} \<and>
    (sat (LogicalComparison p ''='' v) \<and> sat (LogicalComparison r ''='' u) \<longrightarrow>
       \<not> eval sat (negate (make_and (mk_comparison p ''='' v) (mk_comparison r ''='' u))))"
proof -
  let ?w = "negate (make_and (mk_comparison p ''='' v) (mk_comparison r ''='' u))"
  have "set (get_gud_key p r ?w) = set (gud_pairs p r ?w)"
    by (rule gud_key_set) (use assms in \<open>simp_all add: mk_comparison_def no_flags_def negate_def is_negated_def\<close>)
  also have "\<dots> = {(p, v), (r, u)}"
    by (simp add: mk_comparison_def no_flags_def negate_def is_negated_def)
  finally show ?thesis using assms
    by (simp add: mk_comparison_def no_flags_def negate_def is_negated_def can_getitem_def
        where_gud_key_def first_or_empty_def)
qed

theorem negated_key_reads_excluded_item_witness:
  "can_getitem (negate (make_and (mk_comparison ''p'' ''='' (N ''1'')) (mk_comparison ''r'' ''='' (N ''2'')))) [''p''] [''r''] \<and>
   \<not> eval (\<lambda>_. True) (negate (make_and (mk_comparison ''p'' ''='' (N ''1'')) (mk_comparison ''r'' ''='' (N ''2''))))"
  using negated_key_reads_excluded_item [of "''p''" "''r''" "N ''1''" "N ''2''" "\<lambda>_. True"] by simp

text \<open>C40: What a write by key does not say.  Take a clause with no negated conjunction that fixes the whole primary
  key, so that it is run as one DeleteItem or UpdateItem.  The key has exactly the attributes of the primary key,
  the condition is the clause without the conjuncts it drops, and the clause is key, condition and the lost
  conjuncts together: the comparisons other than equality, the BETWEEN and the begins_with on a key attribute
  that stand un-negated in the conjunction.  So an item that has the key and meets the condition, but for which a
  lost conjunct is false, is written although the clause excludes it; and nothing is lost exactly if all
  conjuncts that are dropped are equalities.\<close>

theorem key_range_dropped_from_condition:
  assumes "wf_expr w" and "positive_spine w" and "can_delete_item w [p] rk"
    and "rk = [] \<Longrightarrow> '''' \<notin> leaf_lhs ` set (leaves w)"
  shows "dom (map_of (where_gud_key w [p] rk)) = set (p # take 1 rk) \<and>
    where_condition_check w p (first_or_empty rk) st = serialize_opt (condition_part p (first_or_empty rk) w) st \<and>
    (\<forall>sat. eval sat w \<longleftrightarrow>
       (\<forall>kv\<in>set (where_gud_key w [p] rk). sat (LogicalComparison (fst kv) ''='' (snd kv))) \<and>
       eval_opt sat (condition_part p (first_or_empty rk) w) \<and>
       (\<forall>c\<in>set (lost_by_write p (first_or_empty rk) w). says sat c)) \<and>
    (lost_by_write p (first_or_empty rk) w = [] \<longleftrightarrow> drops_equalities_only p (first_or_empty rk) w)"
  using write_key_exact [OF assms(3) [unfolded can_delete_item_def] assms(4)]
    condition_split_all [OF assms(2), of _ p "first_or_empty rk"]
    condition_check_refines [OF assms(1), of p "first_or_empty rk" st] drops_equalities_only_iff
  by (simp add: where_condition_check_def)

text \<open>Of \<open>p = v AND p < u\<close> the range is lost, and no condition is sent.\<close>

theorem key_range_dropped_from_condition_witness:
  "\<exists>w. can_delete_item w [''p''] [] \<and> where_condition_check w ''p'' '''' None = ('''', None) \<and>
     (\<forall>sat. eval sat w \<longleftrightarrow> sat (LogicalComparison ''p'' ''='' (N ''7'')) \<and> sat (LogicalComparison ''p'' ''<'' (N ''3'')))"
proof (intro exI conjI)
  let ?w = "make_and (mk_comparison ''p'' ''='' (N ''7'')) (mk_comparison ''p'' ''<'' (N ''3''))"
  show by_key: "can_delete_item ?w [''p''] []"
    by (simp add: can_delete_item_def can_update_item_def mk_comparison_def no_flags_def)
  note all = key_range_dropped_from_condition [of ?w "''p''" "[]" None, OF _ _ by_key]
  show "where_condition_check ?w ''p'' '''' None = ('''', None)"
    "\<forall>sat. eval sat ?w \<longleftrightarrow> sat (LogicalComparison ''p'' ''='' (N ''7'')) \<and> sat (LogicalComparison ''p'' ''<'' (N ''3''))"
    using all by (simp_all add: mk_comparison_def no_flags_def first_or_empty_def where_gud_key_def lost_by_write_def
        says_def serialize_opt_def group_part_def opt_parts_def smap_insert_all_def)
qed

text \<open>A parenthesised conjunction without a key predicate leaves an empty group in the key
  condition.\<close>

lemma empty_group_in_key_condition:
  "fst (where_key_condition
     (make_and (mk_comparison ''pk'' ''='' (N ''1''))
       (set_paren_group (make_and (mk_comparison ''a'' ''='' (N ''2'')) (mk_comparison ''b'' ''='' (N ''3'')))))
     \<lparr>plan_pk = [''pk''], plan_sk_prefix = []\<rparr> None) = ''pk = '' @ serialize_attribute (N ''1'') @ '' AND ()''"
  by code_simp

text \<open>Two negated \<open>IS NOT NULL\<close> tests joined by AND are satisfied when only one of them is.\<close>

lemma negated_is_not_null_conjunction:
  "eval sat (make_and (negate (mk_is_not_null a)) (negate (mk_is_not_null b))) \<longleftrightarrow>
     eval sat (negate (mk_is_not_null a)) \<or> eval sat (negate (mk_is_not_null b))"
  by (subst eval_make_and)
    (simp add: mk_is_not_null_def mk_comparison_def mk_attribute_exists_def no_flags_def negate_def is_negated_def)

end
