(* ===== verification/Table_Schema.thy ===== *)
theory Table_Schema
  imports Values
begin

text \<open>
  The table-definition value types the parser and the client seam share
  (\<^verbatim>\<open>include/ddbsh/table_schema.hpp\<close>).  A struct is a record with a field prefix of its own,
  an enum a datatype; \<^verbatim>\<open>long long\<close> figures are passed through unchanged by the program and
  are integers here.
\<close>

datatype scalar_type = Scalar_n | Scalar_s | Scalar_b

record attribute_def =
  ad_name :: string
  ad_type :: scalar_type

record key_schema =
  ks_hash :: "string list"
  ks_range :: "string list"

definition add_key_role :: "key_schema \<Rightarrow> bool \<Rightarrow> string list \<Rightarrow> key_schema" where
  "add_key_role ks is_hash attrs =
     (if is_hash then ks\<lparr>ks_hash := ks_hash ks @ attrs\<rparr> else ks\<lparr>ks_range := ks_range ks @ attrs\<rparr>)"

datatype billing_mode = Pay_per_request | Provisioned

record on_demand_throughput =
  od_max_read_request_units :: "int option"
  od_max_write_request_units :: "int option"

record billing_mode_and_throughput =
  bm_mode :: billing_mode
  bm_rcu :: int
  bm_wcu :: int
  bm_od :: on_demand_throughput

record warm_throughput =
  wt_read_units_per_second :: int
  wt_write_units_per_second :: int

datatype projection_type = Projection_all | Projection_keys_only | Projection_include

record projection =
  pj_type :: projection_type
  pj_non_key_attributes :: "string list"

record gsi =
  gsi_name :: string
  gsi_key_schema :: key_schema
  gsi_projection :: projection
  gsi_billing :: "billing_mode_and_throughput option"
  gsi_warm :: "warm_throughput option"

datatype gsi_action = Gsi_create | Gsi_update | Gsi_drop

record gsi_update =
  gu_action :: gsi_action
  gu_index_name :: string
  gu_key_schema :: "key_schema option"
  gu_projection :: "projection option"
  gu_billing :: "billing_mode_and_throughput option"
  gu_warm :: "warm_throughput option"

record lsi =
  lsi_name :: string
  lsi_key_schema :: key_schema
  lsi_projection :: projection

datatype vector_distance = Cosine | Euclidean | Dot_product

datatype search_schema_kind = Search_hash | Inline_filter

record search_schema_elem =
  se_attr :: string
  se_kind :: search_schema_kind

record vector_index_def =
  vd_index_name :: string
  vd_vector_attr :: string
  vd_dimensions :: int
  vd_distance :: vector_distance
  vd_search_schema :: "search_schema_elem list"
  vd_projection :: projection

record vector_index_update_def =
  vu_create :: "vector_index_def option"
  vu_drop :: "string option"

datatype stream_view_type = Stream_keys_only | New_image | Old_image | New_and_old_images

record stream_spec =
  ss_enabled :: bool
  ss_view_type :: stream_view_type

datatype sse_type = Kms | Aes256

record sse_spec =
  sse_enabled :: bool
  sse_kms_master_key_id :: "string option"
  sse_sse_type :: "sse_type option"

datatype table_class = Standard | Standard_infrequent_access

record tag =
  tag_key :: string
  tag_value :: string

record provisioned_throughput_override =
  po_read_capacity_units :: int

record replica_gsi =
  rg_index_name :: string
  rg_throughput_override :: provisioned_throughput_override

datatype replica_action = Replica_add | Replica_drop | Replica_update

record replica_update =
  ru_action :: replica_action
  ru_region :: string
  ru_table_class :: "table_class option"
  ru_throughput_override :: "provisioned_throughput_override option"
  ru_replica_gsis :: "replica_gsi list"

lemma add_key_role_other:
  "ks_range (add_key_role ks True attrs) = ks_range ks"
  "ks_hash (add_key_role ks False attrs) = ks_hash ks"
  by (simp_all add: add_key_role_def)

lemma add_key_role_append:
  "add_key_role (add_key_role ks b xs) b ys = add_key_role ks b (xs @ ys)"
  by (simp add: add_key_role_def)

text \<open>A hash group and a range group give one schema, whichever is written first.\<close>

lemma add_key_role_commute:
  "add_key_role (add_key_role ks True hs) False rs = add_key_role (add_key_role ks False rs) True hs"
  by (simp add: add_key_role_def)

end
