(* ===== verification/Client_Seam.thy ===== *)
theory Client_Seam
  imports Table_Schema Complex_Main
begin

text \<open>
  The seam to DynamoDB (\<^verbatim>\<open>include/ddbsh/iddbclient.hpp\<close>): the request and response structs and
  the abstract client.  The client is code outside the engine, so it is a parameter of every
  definition that calls it: a record of functions over a world of its own, each of which
  answers a request with a result and a new world.  Capacity figures (\<^verbatim>\<open>double\<close>) are reals.
\<close>

section \<open>Requests and responses\<close>

type_synonym item_row = value_map

type_synonym attribute_names = "(string \<times> string) list"

datatype return_consumed_capacity = Rcc_none | Rcc_total | Rcc_indexes

datatype return_value = Rv_none | Rv_all_old | Rv_all_new | Rv_updated_old | Rv_updated_new

record consumed_capacity =
  cc_table_name :: "string option"
  cc_capacity_units :: "real option"
  cc_read_capacity_units :: "real option"
  cc_write_capacity_units :: "real option"

record get_item_in =
  gi_table_name :: string
  gi_key :: value_map
  gi_projection_expression :: "string option"
  gi_expression_attribute_names :: attribute_names
  gi_consistent_read :: bool
  gi_return_consumed_capacity :: return_consumed_capacity

record get_item_out =
  go_item :: "item_row option"
  go_consumed_capacity :: "consumed_capacity option"

record query_in =
  qi_table_name :: string
  qi_index_name :: "string option"
  qi_key_condition_expression :: string
  qi_filter_expression :: "string option"
  qi_projection_expression :: "string option"
  qi_expression_attribute_names :: attribute_names
  qi_expression_attribute_values :: value_map
  qi_consistent_read :: bool
  qi_return_consumed_capacity :: return_consumed_capacity
  qi_exclusive_start_key :: "value_map option"

record scan_in =
  si_table_name :: string
  si_index_name :: "string option"
  si_filter_expression :: "string option"
  si_projection_expression :: "string option"
  si_expression_attribute_names :: attribute_names
  si_expression_attribute_values :: value_map
  si_consistent_read :: bool
  si_return_consumed_capacity :: return_consumed_capacity
  si_exclusive_start_key :: "value_map option"

text \<open>\<^verbatim>\<open>QueryOut\<close> and \<^verbatim>\<open>ScanOut\<close> have the same members.\<close>

record page_out =
  po_items :: "item_row list"
  po_last_evaluated_key :: "value_map option"
  po_consumed_capacity :: "consumed_capacity option"

record put_item_in =
  pi_table_name :: string
  pi_item :: value_map
  pi_condition_expression :: "string option"
  pi_expression_attribute_names :: attribute_names
  pi_expression_attribute_values :: value_map
  pi_return_values :: return_value
  pi_return_consumed_capacity :: return_consumed_capacity

text \<open>\<^verbatim>\<open>PutItemOut\<close>, \<^verbatim>\<open>UpdateItemOut\<close> and \<^verbatim>\<open>DeleteItemOut\<close> have the same members.\<close>

record write_out =
  wo_attributes :: "item_row option"
  wo_consumed_capacity :: "consumed_capacity option"

record update_item_in =
  ui_table_name :: string
  ui_key :: value_map
  ui_update_expression :: string
  ui_condition_expression :: "string option"
  ui_expression_attribute_names :: attribute_names
  ui_expression_attribute_values :: value_map
  ui_return_values :: return_value
  ui_return_consumed_capacity :: return_consumed_capacity

record delete_item_in =
  di_table_name :: string
  di_key :: value_map
  di_condition_expression :: "string option"
  di_expression_attribute_names :: attribute_names
  di_expression_attribute_values :: value_map
  di_return_values :: return_value
  di_return_consumed_capacity :: return_consumed_capacity

record create_table_in =
  ct_table_name :: string
  ct_attribute_definitions :: "attribute_def list"
  ct_key_schema :: key_schema
  ct_billing :: "billing_mode_and_throughput option"
  ct_warm :: "warm_throughput option"
  ct_gsis :: "gsi list"
  ct_lsis :: "lsi list"
  ct_vector_indexes :: "vector_index_def list"
  ct_stream :: "stream_spec option"
  ct_sse :: "sse_spec option"
  ct_table_class :: table_class
  ct_deletion_protection :: bool
  ct_tags :: "tag list"

record update_table_in =
  ut_table_name :: string
  ut_billing :: "billing_mode_and_throughput option"
  ut_warm :: "warm_throughput option"
  ut_sse :: "sse_spec option"
  ut_stream :: "stream_spec option"
  ut_table_class :: "table_class option"
  ut_deletion_protection :: "bool option"
  ut_attribute_definitions :: "attribute_def list"
  ut_gsi_updates :: "gsi_update list"
  ut_vector_index_updates :: "vector_index_update_def list"
  ut_replica :: "replica_update option"

record update_time_to_live_in =
  ttl_table_name :: string
  ttl_enabled :: bool
  ttl_attribute_name :: string

record update_continuous_backups_in =
  ucb_table_name :: string
  ucb_enabled :: bool

record create_backup_in =
  cb_table_name :: string
  cb_backup_name :: string

record backup_key_schema_element =
  bk_key_type :: string
  bk_attribute_name :: string

record describe_backup_out =
  db_source_table_name :: string
  db_source_table_id :: string
  db_source_table_arn :: string
  db_table_size_bytes :: int
  db_item_count :: int
  db_key_schema :: "backup_key_schema_element list"
  db_table_creation_datetime :: string
  db_billing_mode :: "string option"
  db_provisioned :: "(int \<times> int) option"
  db_backup_name :: string
  db_backup_arn :: string
  db_backup_size_bytes :: int
  db_backup_status :: string
  db_backup_type :: string
  db_backup_creation_datetime :: string
  db_backup_expiry_datetime :: string

record restore_from_backup_in =
  rb_target_table_name :: string
  rb_backup_arn :: string

record restore_to_pitr_in =
  rp_source_table_name :: string
  rp_target_table_name :: string
  rp_restore_datetime :: string

record describe_limits_out =
  dl_account_max_rcu :: int
  dl_account_max_wcu :: int
  dl_table_max_rcu :: int
  dl_table_max_wcu :: int

record list_backups_in =
  lb_table_name :: "string option"
  lb_backup_type :: "string option"
  lb_limit :: int
  lb_exclusive_start_backup_arn :: "string option"

record backup_summary_row =
  bs_table_name :: string
  bs_backup_name :: string
  bs_backup_status :: string
  bs_backup_arn :: string
  bs_creation_datetime :: string
  bs_expiry_datetime :: string

record list_backups_out =
  lbo_summaries :: "backup_summary_row list"
  lbo_last_evaluated_backup_arn :: "string option"

record table_key_schema =
  hash_keys :: "string list"
  range_keys :: "string list"

record warm_throughput_description =
  wd_read_units_per_second :: int
  wd_write_units_per_second :: int
  wd_status :: string

record secondary_index_schema =
  ix_index_name :: string
  ix_key_schema :: table_key_schema
  ix_projection :: projection
  ix_projection_set :: bool
  ix_index_status :: string
  ix_backfilling :: bool
  ix_provisioned_read_capacity_units :: int
  ix_provisioned_write_capacity_units :: int
  ix_on_demand_throughput_set :: bool
  ix_on_demand_max_read_request_units :: int
  ix_on_demand_max_write_request_units :: int
  ix_warm_throughput :: "warm_throughput_description option"

record vector_index_schema =
  vi_index_name :: string
  vi_vector_attr :: string
  vi_dimensions :: int
  vi_distance :: vector_distance
  vi_search_schema :: "search_schema_elem list"
  vi_projection :: projection
  vi_projection_set :: bool
  vi_index_status :: string

record describe_table_out =
  dt_table_name :: string
  dt_key_schema :: table_key_schema
  dt_local_secondary_indexes :: "secondary_index_schema list"
  dt_global_secondary_indexes :: "secondary_index_schema list"
  dt_vector_indexes :: "vector_index_schema list"
  dt_table_status :: string
  dt_table_id :: string
  dt_table_arn :: string
  dt_billing_mode_summary :: "string option"
  dt_provisioned_throughput_set :: bool
  dt_table_class_summary :: "string option"
  dt_attribute_definitions :: "attribute_def list"
  dt_creation_date_time :: string
  dt_table_size_bytes :: int
  dt_item_count :: int
  dt_deletion_protection_enabled :: bool
  dt_provisioned_read_capacity_units :: int
  dt_provisioned_write_capacity_units :: int
  dt_on_demand_throughput_set :: bool
  dt_on_demand_max_read_request_units :: int
  dt_on_demand_max_write_request_units :: int
  dt_warm_throughput :: "warm_throughput_description option"
  dt_stream_view_type :: "string option"
  dt_stream_specification_set :: bool
  dt_sse_status :: "string option"

record time_to_live_out =
  tl_status :: string
  tl_attribute_name :: string

record continuous_backups_out =
  pitr_status :: string
  earliest_restorable_date_time :: string
  latest_restorable_date_time :: string

record replica_auto_scaling_description =
  ra_region_name :: string
  ra_replica_status :: string

record transact_get =
  tg_table_name :: string
  tg_key :: value_map
  tg_projection_expression :: "string option"
  tg_expression_attribute_names :: attribute_names

record transact_put =
  tp_table_name :: string
  tp_item :: value_map
  tp_condition_expression :: "string option"
  tp_expression_attribute_names :: attribute_names
  tp_expression_attribute_values :: value_map

record transact_update =
  tu_table_name :: string
  tu_key :: value_map
  tu_update_expression :: string
  tu_condition_expression :: "string option"
  tu_expression_attribute_names :: attribute_names
  tu_expression_attribute_values :: value_map

record transact_delete =
  td_table_name :: string
  td_key :: value_map
  td_condition_expression :: "string option"
  td_expression_attribute_names :: attribute_names
  td_expression_attribute_values :: value_map

record transact_condition_check =
  tc_table_name :: string
  tc_key :: value_map
  tc_condition_expression :: string
  tc_expression_attribute_names :: attribute_names
  tc_expression_attribute_values :: value_map

datatype transact_write_item =
    TransactPut transact_put
  | TransactUpdate transact_update
  | TransactDelete transact_delete
  | TransactConditionCheck transact_condition_check

record vector_consumed_capacity =
  vc_vector_search_request_bytes :: "real option"
  vc_vector_write_request_bytes :: "real option"

record search_vectors_in =
  sv_table_name :: string
  sv_index_name :: string
  sv_search_vector :: "value list"
  sv_topk :: int
  sv_search_condition_expression :: "string option"
  sv_projection_expression :: "string option"
  sv_expression_attribute_names :: attribute_names
  sv_expression_attribute_values :: value_map
  sv_return_consumed_capacity :: return_consumed_capacity

record search_vectors_out =
  svo_results :: "(item_row \<times> real) list"
  svo_vector_capacity :: "vector_consumed_capacity option"

text \<open>What EXPLAIN can serialize; a request that is only a table name or an ARN is a string.\<close>

datatype explain_request =
    ExplainGetItem get_item_in
  | ExplainQuery query_in
  | ExplainScan scan_in
  | ExplainPutItem put_item_in
  | ExplainCreateTable create_table_in
  | ExplainUpdateTable update_table_in
  | ExplainUpdateTimeToLive update_time_to_live_in
  | ExplainUpdateContinuousBackups update_continuous_backups_in
  | ExplainDeleteTable string
  | ExplainDescribeTable string
  | ExplainDescribeTimeToLive string
  | ExplainDescribeContinuousBackups string
  | ExplainDescribeTableReplicaAutoScaling string
  | ExplainUpdateItem update_item_in
  | ExplainDeleteItem delete_item_in
  | ExplainTransactGetItems "transact_get list"
  | ExplainTransactWriteItems "transact_write_item list"
  | ExplainCreateBackup create_backup_in
  | ExplainDeleteBackup string
  | ExplainDescribeBackup string
  | ExplainRestoreFromBackup restore_from_backup_in
  | ExplainRestoreToPitr restore_to_pitr_in
  | ExplainSearchVectors search_vectors_in

section \<open>The client\<close>

type_synonym ('w, 'a) client_call = "'w \<Rightarrow> 'a result \<times> 'w"

record 'w iddb_client =
  connect :: "string \<Rightarrow> string \<Rightarrow> ('w, unit) client_call"
  get_item :: "get_item_in \<Rightarrow> ('w, get_item_out) client_call"
  query :: "query_in \<Rightarrow> ('w, page_out) client_call"
  scan :: "scan_in \<Rightarrow> ('w, page_out) client_call"
  search_vectors :: "search_vectors_in \<Rightarrow> ('w, search_vectors_out) client_call"
  put_item :: "put_item_in \<Rightarrow> ('w, write_out) client_call"
  create_table :: "create_table_in \<Rightarrow> ('w, unit) client_call"
  update_table :: "update_table_in \<Rightarrow> ('w, unit) client_call"
  update_time_to_live :: "update_time_to_live_in \<Rightarrow> ('w, unit) client_call"
  update_continuous_backups :: "update_continuous_backups_in \<Rightarrow> ('w, unit) client_call"
  create_backup :: "create_backup_in \<Rightarrow> ('w, unit) client_call"
  delete_backup :: "string \<Rightarrow> ('w, unit) client_call"
  describe_backup :: "string \<Rightarrow> ('w, describe_backup_out) client_call"
  restore_table_from_backup :: "restore_from_backup_in \<Rightarrow> ('w, unit) client_call"
  restore_table_to_point_in_time :: "restore_to_pitr_in \<Rightarrow> ('w, unit) client_call"
  describe_limits :: "('w, describe_limits_out) client_call"
  list_backups :: "list_backups_in \<Rightarrow> ('w, list_backups_out) client_call"
  delete_table :: "string \<Rightarrow> ('w, unit) client_call"
  list_tables :: "('w, string list) client_call"
  describe_table :: "string \<Rightarrow> ('w, describe_table_out) client_call"
  update_item :: "update_item_in \<Rightarrow> ('w, write_out) client_call"
  delete_item :: "delete_item_in \<Rightarrow> ('w, write_out) client_call"
  transact_get_items :: "transact_get list \<Rightarrow> ('w, item_row option list) client_call"
  transact_write_items :: "transact_write_item list \<Rightarrow> ('w, unit) client_call"
  describe_time_to_live :: "string \<Rightarrow> ('w, time_to_live_out) client_call"
  describe_continuous_backups :: "string \<Rightarrow> ('w, continuous_backups_out) client_call"
  describe_table_replica_auto_scaling :: "string \<Rightarrow> ('w, replica_auto_scaling_description list) client_call"
  wait_for_table_active :: "string \<Rightarrow> ('w, unit) client_call"
  wait_for_table_gone :: "string \<Rightarrow> ('w, unit) client_call"
  explain_of :: "explain_request \<Rightarrow> ('w, string) client_call"

text \<open>The two operations the interface implements itself.\<close>

definition default_connect :: "string \<Rightarrow> string \<Rightarrow> ('w, unit) client_call" where
  "default_connect region endpoint w = (Inr (), w)"

definition default_search_vectors :: "search_vectors_in \<Rightarrow> ('w, search_vectors_out) client_call" where
  "default_search_vectors r w =
     (fail_with service_error ''SearchVectors is not supported by this client'', w)"

end
