(* ===== verification/Commands.thy ===== *)
theory Commands
  imports Logical_Expr Client_Seam
begin

text \<open>
  The parsed command model (\<^verbatim>\<open>src/parser/ast.hpp\<close>) and the statement kinds
  (\<^verbatim>\<open>include/ddbsh/statement.hpp\<close>).  A command struct is a record, the variant
  \<^verbatim>\<open>CommandNode\<close> a datatype.  The parser's own \<^verbatim>\<open>ReturnConsumedCapacity\<close> and
  \<^verbatim>\<open>ReturnValue\<close> enums are kept apart from the client's, as in the code.
\<close>

section \<open>Lexeme helpers\<close>

definition unquote :: "string \<Rightarrow> string" where
  "unquote s = (if 2 \<le> length s \<and> hd s = CHR 0x22 \<and> last s = CHR 0x22 then butlast (tl s) else s)"

section \<open>Command nodes\<close>

datatype help_topic =
    Help_general | Help_explain | Help_begin | Help_commit | Help_rollback | Help_connect | Help_drop
  | Help_drop_table | Help_describe | Help_show | Help_show_tables | Help_create | Help_create_table
  | Help_alter_table | Help_show_limits | Help_show_backups | Help_describe_backup | Help_drop_backup
  | Help_backup | Help_restore | Help_select_statement | Help_insert | Help_replace | Help_update
  | Help_upsert | Help_del | Help_show_version | Help_show_create_table

record connect_cmd =
  cn_region :: string
  cn_endpoint :: string

record show_tables_cmd =
  sh_brief :: bool
  sh_like :: string

record drop_table_cmd =
  dr_table :: string
  dr_if_exists :: bool
  dr_nowait :: bool

record create_table_cmd =
  cr_table_name :: string
  cr_if_not_exists :: bool
  cr_nowait :: bool
  cr_attribute_definitions :: "attribute_def list"
  cr_key_schema :: key_schema
  cr_billing :: "billing_mode_and_throughput option"
  cr_warm :: "warm_throughput option"
  cr_gsis :: "gsi list"
  cr_lsis :: "lsi list"
  cr_vector_indexes :: "vector_index_def list"
  cr_stream :: "stream_spec option"
  cr_sse :: "sse_spec option"
  cr_table_class :: table_class
  cr_deletion_protection :: bool
  cr_tags :: "tag list"

record rate_limit =
  rl_rcu :: real
  rl_wcu :: real

datatype ast_return_value = Ast_rv_none | Ast_rv_all_old | Ast_rv_all_new | Ast_rv_updated_old | Ast_rv_updated_new

record insert_cmd =
  in_table_name :: string
  in_columns :: "string list"
  in_rows :: "value list list"
  in_insert :: bool
  in_ratelimit :: "rate_limit option"
  in_return_value :: ast_return_value

datatype exists_mode = Exists_none | Exists_exists | Exists_not_exists

datatype ast_return_consumed_capacity = Ast_rcc_none | Ast_rcc_total | Ast_rcc_indexes

record select_cmd =
  sel_consistent :: bool
  sel_projection :: "string list"
  sel_table :: string
  sel_index :: "string option"
  sel_where :: "lexpr option"
  sel_rcc :: ast_return_consumed_capacity
  sel_ratelimit :: "rate_limit option"
  sel_exists_mode :: exists_mode
  sel_search_vector :: "value option"
  sel_topk :: "int option"

record update_set_element =
  us_lhs :: string
  us_op :: string
  us_rhs_value :: "value option"
  us_rhs_attribute :: string
  us_if_not_exists_lhs :: string
  us_if_not_exists_value :: "value option"

datatype mutation = Mutation_set | Mutation_remove

record update_cmd =
  up_table :: string
  up_index :: "string option"
  up_mutation :: mutation
  up_set :: "update_set_element list"
  up_remove :: "string list"
  up_where :: "lexpr option"
  up_upsert :: bool
  up_ratelimit :: "rate_limit option"
  up_return_value :: ast_return_value

record delete_cmd =
  de_table :: string
  de_index :: "string option"
  de_where :: "lexpr option"
  de_ratelimit :: "rate_limit option"
  de_return_value :: ast_return_value

record alter_table_cmd =
  al_table :: string
  al_billing :: "billing_mode_and_throughput option"
  al_warm :: "warm_throughput option"
  al_sse :: "sse_spec option"
  al_stream :: "stream_spec option"
  al_table_class :: "table_class option"
  al_deletion_protection :: "bool option"
  al_attribute_definitions :: "attribute_def list"
  al_gsi_updates :: "gsi_update list"
  al_vector_index_updates :: "vector_index_update_def list"
  al_ignored_gsi_on_demand :: bool

record alter_ttl_cmd =
  at_table :: string
  at_enabled :: bool
  at_attribute :: string

record alter_pitr_cmd =
  ap_table :: string
  ap_enabled :: bool

record alter_replica_cmd =
  ar_table :: string
  ar_replica :: replica_update

record create_backup_cmd =
  bc_table :: string
  bc_backup_name :: string

datatype restore_kind = From_backup | To_pitr

record restore_cmd =
  re_kind :: restore_kind
  re_target :: string
  re_source :: string
  re_timestamp :: string

record show_backups_cmd =
  sb_backup_type :: string
  sb_table :: string

record show_create_table_cmd =
  sc_if_not_exists :: bool
  sc_nowait :: bool
  sc_table :: string

datatype access = Access_read | Access_write

datatype command_node =
    EmptyCmd
  | QuitCmd
  | ShowVersionCmd
  | ConnectCmd connect_cmd
  | ShowTablesCmd show_tables_cmd
  | DescribeCmd string
  | DropTableCmd drop_table_cmd
  | CreateTableCmd create_table_cmd
  | AlterTableCmd alter_table_cmd
  | AlterTtlCmd alter_ttl_cmd
  | AlterPitrCmd alter_pitr_cmd
  | AlterReplicaCmd alter_replica_cmd
  | InsertCmd insert_cmd
  | SelectCmd select_cmd
  | UpdateCmd update_cmd
  | DeleteCmd delete_cmd
  | HelpCmd help_topic
  | TransactCmd access bool "command_node list"
  | CreateBackupCmd create_backup_cmd
  | DropBackupCmd string
  | DescribeBackupCmd string
  | RestoreCmd restore_cmd
  | ShowBackupsCmd show_backups_cmd
  | ShowLimitsCmd
  | ShowCreateTableCmd show_create_table_cmd

datatype statement_kind =
    Kind_empty | Kind_show_version | Kind_quit | Kind_connect | Kind_show_tables | Kind_describe
  | Kind_drop_table | Kind_create_table | Kind_alter_table | Kind_insert | Kind_select_statement
  | Kind_update_statement | Kind_del | Kind_help | Kind_transaction | Kind_create_backup
  | Kind_drop_backup | Kind_describe_backup | Kind_restore | Kind_show_backups | Kind_show_limits
  | Kind_show_create_table

fun kind_of :: "command_node \<Rightarrow> statement_kind" where
  "kind_of EmptyCmd = Kind_empty"
| "kind_of QuitCmd = Kind_quit"
| "kind_of ShowVersionCmd = Kind_show_version"
| "kind_of (ConnectCmd c) = Kind_connect"
| "kind_of (ShowTablesCmd c) = Kind_show_tables"
| "kind_of (DescribeCmd t) = Kind_describe"
| "kind_of (DropTableCmd c) = Kind_drop_table"
| "kind_of (CreateTableCmd c) = Kind_create_table"
| "kind_of (AlterTableCmd c) = Kind_alter_table"
| "kind_of (AlterTtlCmd c) = Kind_alter_table"
| "kind_of (AlterPitrCmd c) = Kind_alter_table"
| "kind_of (AlterReplicaCmd c) = Kind_alter_table"
| "kind_of (InsertCmd c) = Kind_insert"
| "kind_of (SelectCmd c) = Kind_select_statement"
| "kind_of (UpdateCmd c) = Kind_update_statement"
| "kind_of (DeleteCmd c) = Kind_del"
| "kind_of (HelpCmd t) = Kind_help"
| "kind_of (TransactCmd a rb items) = Kind_transaction"
| "kind_of (CreateBackupCmd c) = Kind_create_backup"
| "kind_of (DropBackupCmd arn) = Kind_drop_backup"
| "kind_of (DescribeBackupCmd arn) = Kind_describe_backup"
| "kind_of (RestoreCmd c) = Kind_restore"
| "kind_of (ShowBackupsCmd c) = Kind_show_backups"
| "kind_of ShowLimitsCmd = Kind_show_limits"
| "kind_of (ShowCreateTableCmd c) = Kind_show_create_table"

record parsed_statement =
  ps_command :: command_node
  ps_explain :: bool

section \<open>Outcomes\<close>

text \<open>What executing a statement hands to the renderer (\<^verbatim>\<open>include/ddbsh/exec_outcome.hpp\<close>).\<close>

datatype explain_format = Pretty | Compact

record explain_block =
  eb_api_name :: string
  eb_body :: string
  eb_format :: explain_format

datatype verb = Verb_update | Verb_upsert | Verb_del

record select_outcome =
  so_items :: "item_row list"
  so_consumed_capacity :: "consumed_capacity option"

record bulk_write_outcome =
  bw_verb :: verb
  bw_read :: nat
  bw_modified :: nat
  bw_ccf :: nat
  bw_consumed_capacity :: "consumed_capacity option"
  bw_returned_items :: "item_row list"

datatype exec_outcome =
    StatusOutcome string "string list"
  | ReportOutcome "string list"
  | EmptyOutcome
  | SelectOutcome select_outcome
  | WriteOutcome "string list" "item_row option list"
  | ExplainOutcome "explain_block list" "string option"
  | BulkWriteOutcome bulk_write_outcome
  | TransactOutcome string "string list"
  | TransactReadOutcome "item_row list"
  | VectorSearchOutcome "(item_row \<times> real) list" "vector_consumed_capacity option"
  | MultiOutcome "exec_outcome list"

end
