(* ===== verification/Exec_Monad.thy ===== *)
theory Exec_Monad
  imports Commands "HOL-Library.Word"
begin

text \<open>
  How the executors run.  The state of a run holds the client's world, the state of the host
  (clock and sleep), the session's alias prefix counter and what has been emitted to the
  outcome sink.  A step may not return (\<open>None\<close>), return an \<open>error\<close> or return a value; the
  state at that moment is always kept, so that what was emitted or written before an error
  stays visible.
\<close>

section \<open>State and steps\<close>

record ('w, 'h) exec_state =
  world :: 'w
  host :: 'h
  alias_prefix_counter :: "64 word"
  emitted :: "exec_outcome list"

type_synonym ('w, 'h, 'a) exec =
  "('w, 'h) exec_state \<Rightarrow> ('a result \<times> ('w, 'h) exec_state) option"

definition return_e :: "'a \<Rightarrow> ('w, 'h, 'a) exec" where
  "return_e x s = Some (Inr x, s)"

definition throw_e :: "error \<Rightarrow> ('w, 'h, 'a) exec" where
  "throw_e e s = Some (Inl e, s)"

definition bind_e :: "('w, 'h, 'a) exec \<Rightarrow> ('a \<Rightarrow> ('w, 'h, 'b) exec) \<Rightarrow> ('w, 'h, 'b) exec" where
  "bind_e m k s =
     (case m s of
        None \<Rightarrow> None
      | Some (r, s') \<Rightarrow> (case r of Inl e \<Rightarrow> Some (Inl e, s') | Inr x \<Rightarrow> k x s'))"

definition lift_e :: "'a result \<Rightarrow> ('w, 'h, 'a) exec" where
  "lift_e r = (case r of Inl e \<Rightarrow> throw_e e | Inr x \<Rightarrow> return_e x)"

text \<open>A client call whose result the caller inspects, and one whose error it passes on.\<close>

definition attempt :: "('w, 'a) client_call \<Rightarrow> ('w, 'h, 'a result) exec" where
  "attempt op s = (let (r, w) = op (world s) in Some (Inr r, s\<lparr>world := w\<rparr>))"

definition call :: "('w, 'a) client_call \<Rightarrow> ('w, 'h, 'a) exec" where
  "call op = bind_e (attempt op) lift_e"

text \<open>A host action that touches nothing but the host, and may not return.\<close>

definition on_host :: "('h \<Rightarrow> ('a \<times> 'h) option) \<Rightarrow> ('w, 'h, 'a) exec" where
  "on_host f s = (case f (host s) of None \<Rightarrow> None | Some (x, h) \<Rightarrow> Some (Inr x, s\<lparr>host := h\<rparr>))"

definition emit :: "exec_outcome \<Rightarrow> ('w, 'h, unit) exec" where
  "emit fragment s = Some (Inr (), s\<lparr>emitted := emitted s @ [fragment]\<rparr>)"

definition next_alias_prefix :: "('w, 'h, string) exec" where
  "next_alias_prefix s =
     Some (Inr (unique_prefix (unat (alias_prefix_counter s))),
       s\<lparr>alias_prefix_counter := alias_prefix_counter s + 1\<rparr>)"

section \<open>Laws\<close>

named_theorems exec_simps \<open>evaluation of the steps\<close>

lemma bind_return [simp]: "bind_e (return_e x) k = k x"
  by (rule ext) (simp add: bind_e_def return_e_def)

lemma bind_throw [simp]: "bind_e (throw_e e) k = throw_e e"
  by (rule ext) (simp add: bind_e_def throw_e_def)

lemma bind_right_return [simp]: "bind_e m return_e = m"
  by (rule ext) (simp add: bind_e_def return_e_def split: option.split sum.split)

lemma bind_assoc: "bind_e (bind_e m k) j = bind_e m (\<lambda>x. bind_e (k x) j)"
  by (rule ext) (simp add: bind_e_def split: option.split sum.split)

lemma lift_simps [simp]: "lift_e (Inl e) = throw_e e" "lift_e (Inr x) = return_e x"
  by (simp_all add: lift_e_def)

lemma return_e_apply [exec_simps]: "return_e x s = Some (Inr x, s)"
  by (simp add: return_e_def)

lemma throw_e_apply [exec_simps]: "throw_e e s = Some (Inl e, s)"
  by (simp add: throw_e_def)

lemma attempt_apply [exec_simps]:
  "op (world s) = (r, w) \<Longrightarrow> attempt op s = Some (Inr r, s\<lparr>world := w\<rparr>)"
  by (simp add: attempt_def)

lemma call_apply [exec_simps]:
  "op (world s) = (r, w) \<Longrightarrow> call op s = Some (r, s\<lparr>world := w\<rparr>)"
  by (cases r) (simp_all add: call_def bind_e_def attempt_def return_e_def throw_e_def)

lemma emit_apply [exec_simps]: "emit x s = Some (Inr (), s\<lparr>emitted := emitted s @ [x]\<rparr>)"
  by (simp add: emit_def)

lemma bind_value [exec_simps]: "m s = Some (Inr x, s') \<Longrightarrow> bind_e m k s = k x s'"
  by (simp add: bind_e_def)

lemma bind_error [exec_simps]: "m s = Some (Inl e, s') \<Longrightarrow> bind_e m k s = Some (Inl e, s')"
  by (simp add: bind_e_def)

lemma bind_diverge [exec_simps]: "m s = None \<Longrightarrow> bind_e m k s = None"
  by (simp add: bind_e_def)

lemma bind_Some_iff:
  "bind_e m k s = Some (r, t) \<longleftrightarrow>
     (\<exists>e. m s = Some (Inl e, t) \<and> r = Inl e) \<or>
     (\<exists>x u. m s = Some (Inr x, u) \<and> k x u = Some (r, t))"
  by (auto simp: bind_e_def split: option.splits sum.splits)

lemma bind_e_mono [partial_function_mono]:
  fixes m :: "('x \<Rightarrow> 'y option) \<Rightarrow> ('w, 'h, 'a) exec"
    and k :: "('x \<Rightarrow> 'y option) \<Rightarrow> 'a \<Rightarrow> ('w, 'h, 'b) exec"
  assumes "\<And>s. mono_option (\<lambda>f. m f s)" and "\<And>x s. mono_option (\<lambda>f. k f x s)"
  shows "mono_option (\<lambda>f. bind_e (m f) (k f) s)"
proof (rule monotoneI)
  fix f g :: "'x \<Rightarrow> 'y option"
  assume fg: "fun_ord option_ord f g"
  then have m: "option_ord (m f s) (m g s)" using assms(1) [of s] by (auto dest: monotoneD)
  show "option_ord (bind_e (m f) (k f) s) (bind_e (m g) (k g) s)"
  proof (cases "m f s")
    case None
    then show ?thesis by (simp add: bind_e_def flat_ord_def)
  next
    case (Some q)
    obtain r s' where q: "q = (r, s')" by fastforce
    have eq: "m g s = Some (r, s')" using m Some q by (simp add: flat_ord_def)
    show ?thesis
    proof (cases r)
      case (Inl e)
      then show ?thesis using Some q eq by (simp add: bind_e_def flat_ord_def)
    next
      case (Inr x)
      have "option_ord (k f x s') (k g x s')" using assms(2) [of x s'] fg by (auto dest: monotoneD)
      then show ?thesis using Inr Some q eq by (simp add: bind_e_def)
    qed
  qed
qed

section \<open>What a run keeps\<close>

text \<open>
  A property of the state that every step of a program keeps, whether it returns a value or
  an error.
\<close>

definition keeps :: "(('w, 'h) exec_state \<Rightarrow> bool) \<Rightarrow> ('w, 'h, 'a) exec \<Rightarrow> bool" where
  "keeps P m = (\<forall>s r t. P s \<longrightarrow> m s = Some (r, t) \<longrightarrow> P t)"

lemma keepsD: "keeps P m \<Longrightarrow> P s \<Longrightarrow> m s = Some (r, t) \<Longrightarrow> P t"
  by (auto simp: keeps_def)

lemma keeps_return [simp, intro]: "keeps P (return_e x)" "keeps P (throw_e e)"
  by (simp_all add: keeps_def return_e_def throw_e_def)

lemma keeps_lift [simp, intro]: "keeps P (lift_e r)"
  by (simp add: lift_e_def split: sum.split)

lemma keeps_bind [intro]: "keeps P m \<Longrightarrow> (\<And>x. keeps P (k x)) \<Longrightarrow> keeps P (bind_e m k)"
  unfolding keeps_def bind_Some_iff by blast

lemma keeps_call: "keeps P (attempt op) \<Longrightarrow> keeps P (call op)"
  by (auto simp: call_def)

text \<open>Invariants of the client's world, and the steps that leave the world alone.\<close>

abbreviation world_keeps :: "('w \<Rightarrow> bool) \<Rightarrow> ('w, 'h, 'a) exec \<Rightarrow> bool" where
  "world_keeps P m \<equiv> keeps (\<lambda>s. P (world s)) m"

lemma world_keeps_attempt [intro]: "(\<And>w. P w \<Longrightarrow> P (snd (op w))) \<Longrightarrow> world_keeps P (attempt op)"
  by (auto simp: keeps_def attempt_def split: prod.splits) (metis snd_conv)

lemma world_keeps_call [intro]: "(\<And>w. P w \<Longrightarrow> P (snd (op w))) \<Longrightarrow> world_keeps P (call op)"
  by (rule keeps_call) (rule world_keeps_attempt)

lemma world_keeps_local [simp, intro]:
  "world_keeps P (emit x)" "world_keeps P next_alias_prefix" "world_keeps P (on_host f)"
  by (auto simp: keeps_def emit_def next_alias_prefix_def on_host_def split: option.splits)

lemma keeps_if [intro]: "(b \<Longrightarrow> keeps P m) \<Longrightarrow> (\<not> b \<Longrightarrow> keeps P n) \<Longrightarrow> keeps P (if b then m else n)"
  by simp

end
