(* ===== verification/Select_Planner.thy ===== *)
theory Select_Planner
  imports Where_Plan Exec_Monad
begin

text \<open>
  Planning a SELECT (\<^verbatim>\<open>src/planner/get_key_schema.cpp\<close>, \<^verbatim>\<open>src/planner/select_planner.cpp\<close>):
  the key schema is resolved through the client, then one of GetItem, Query, Scan and
  SearchVectors is chosen and its request built, every name and value aliased through one
  symbol table.
\<close>

section \<open>The key schema\<close>

record resolved_key_schema =
  rks_pk :: "string list"
  rks_rk :: "string list"

definition from_table_key :: "table_key_schema \<Rightarrow> resolved_key_schema" where
  "from_table_key ks = \<lparr>rks_pk = hash_keys ks, rks_rk = range_keys ks\<rparr>"

fun find_index :: "string \<Rightarrow> secondary_index_schema list \<Rightarrow> resolved_key_schema option" where
  "find_index index [] = None"
| "find_index index (ix # ixs) =
     (if ix_index_name ix = index then Some (from_table_key (ix_key_schema ix)) else find_index index ixs)"

definition key_schema_in :: "describe_table_out \<Rightarrow> string \<Rightarrow> string \<Rightarrow> resolved_key_schema result" where
  "key_schema_in desc table index =
     (if index = [] then Inr (from_table_key (dt_key_schema desc))
      else case find_index index (dt_local_secondary_indexes desc) of
        Some ks \<Rightarrow> Inr ks
      | None \<Rightarrow>
          (case find_index index (dt_global_secondary_indexes desc) of
             Some ks \<Rightarrow> Inr ks
           | None \<Rightarrow> fail_with no_such_table (''Unable to find primary key for '' @ table @ ''.'' @ index)))"

definition get_key_schema :: "'w iddb_client \<Rightarrow> string \<Rightarrow> string \<Rightarrow> ('w, 'h, resolved_key_schema) exec" where
  "get_key_schema client table index =
     bind_e (call (describe_table client table)) (\<lambda>desc. lift_e (key_schema_in desc table index))"

section \<open>Request pieces\<close>

fun to_client_rcc :: "ast_return_consumed_capacity \<Rightarrow> return_consumed_capacity" where
  "to_client_rcc Ast_rcc_total = Rcc_total"
| "to_client_rcc Ast_rcc_indexes = Rcc_indexes"
| "to_client_rcc Ast_rcc_none = Rcc_none"

fun projection_loop :: "string list \<Rightarrow> string \<Rightarrow> symtab \<Rightarrow> string \<times> symtab" where
  "projection_loop [] out st = (out, st)"
| "projection_loop (attr # attrs) out st =
     (let (tok, st') = new_attribute attr st
      in projection_loop attrs (if out = [] then tok else out @ '', '' @ tok) st')"

definition serialize_projection :: "string list \<Rightarrow> symtab \<Rightarrow> string \<times> symtab" where
  "serialize_projection attrs st = projection_loop attrs '''' st"

text \<open>\<open>if (!projection.empty()) r.projection_expression = serialize_projection(projection, st)\<close>\<close>

definition plan_projection :: "string list \<Rightarrow> symtab \<Rightarrow> string option \<times> symtab" where
  "plan_projection attrs st =
     (if attrs = [] then (None, st) else (let (s, st') = serialize_projection attrs st in (Some s, st')))"

definition names_of :: "symtab \<Rightarrow> attribute_names" where
  "names_of st = get_names st"

definition values_of :: "symtab \<Rightarrow> value_map" where
  "values_of st = get_values st"

definition key_of :: "key_map \<Rightarrow> value_map" where
  "key_of key = key"

text \<open>A rendering called with \<open>&st\<close>, and the assignment of its string when it is not empty.\<close>

definition with_table :: "(symtab option \<Rightarrow> string \<times> symtab option) \<Rightarrow> symtab \<Rightarrow> string \<times> symtab" where
  "with_table render st = (let (s, st') = render (Some st) in (s, the st'))"

definition unless_empty :: "string \<Rightarrow> string option" where
  "unless_empty s = (if s = [] then None else Some s)"

section \<open>The plan\<close>

text \<open>\<^verbatim>\<open>SelectPlan\<close>: the \<^verbatim>\<open>api\<close> tag and the one request it selects.\<close>

datatype select_plan =
    PlanGetItem get_item_in
  | PlanQuery query_in
  | PlanScan scan_in
  | PlanSearchVectors search_vectors_in

definition plan_rcc :: "select_cmd \<Rightarrow> return_consumed_capacity" where
  "plan_rcc cmd = (if sel_ratelimit cmd \<noteq> None then Rcc_total else to_client_rcc (sel_rcc cmd))"

definition all_numbers :: "value list \<Rightarrow> bool" where
  "all_numbers vs = (\<forall>e\<in>set vs. type_of e = TN)"

definition search_vectors_request ::
    "select_cmd \<Rightarrow> string \<Rightarrow> value list \<Rightarrow> int \<Rightarrow> string \<Rightarrow> search_vectors_in" where
  "search_vectors_request cmd index qv topk alias_prefix =
     (let st = new_symtab alias_prefix;
          (proj, st1) = plan_projection (sel_projection cmd) st;
          (filt, st2) = (case sel_where cmd of
             None \<Rightarrow> ('''', st1) | Some w \<Rightarrow> with_table (scan_filter_expression w) st1)
      in \<lparr>sv_table_name = sel_table cmd, sv_index_name = index, sv_search_vector = qv, sv_topk = topk,
          sv_search_condition_expression = unless_empty filt, sv_projection_expression = proj,
          sv_expression_attribute_names = names_of st2, sv_expression_attribute_values = values_of st2,
          sv_return_consumed_capacity = plan_rcc cmd\<rparr>)"

definition plan_search_vectors :: "select_cmd \<Rightarrow> vector_index_schema \<Rightarrow> string \<Rightarrow> select_plan result" where
  "plan_search_vectors cmd vi alias_prefix =
     (case sel_search_vector cmd of
        None \<Rightarrow> fail_with invalid_argument
          (''A SELECT on vector index '' @ vi_index_name vi @ '' requires a NEAREST <n> TO [ ... ] clause.'')
      | Some qv \<Rightarrow>
          (let topk = (case sel_topk cmd of None \<Rightarrow> 0 | Some k \<Rightarrow> k)
           in if sel_consistent cmd
              then fail_with invalid_argument ''CONSISTENT is not supported with vector search.''
              else if topk \<le> 0
              then fail_with invalid_argument ''Vector search TopK must be a positive integer.''
              else case qv of
                L vs \<Rightarrow>
                  (if \<not> all_numbers vs
                   then fail_with invalid_argument ''The NEAREST search vector must contain only numbers.''
                   else if 0 < vi_dimensions vi \<and> int (length vs) \<noteq> vi_dimensions vi
                   then fail_with invalid_argument
                     (''The search vector has '' @ to_string (length vs) @ '' values; vector index '' @
                      vi_index_name vi @ '' expects '' @ to_string (nat (vi_dimensions vi)) @ ''.'')
                   else Inr (PlanSearchVectors
                     (search_vectors_request cmd (the (sel_index cmd)) vs topk alias_prefix)))
              | _ \<Rightarrow> fail_with invalid_argument ''The NEAREST search vector must be a numeric list.''))"

definition get_item_request :: "select_cmd \<Rightarrow> lexpr \<Rightarrow> resolved_key_schema \<Rightarrow> string \<Rightarrow> get_item_in" where
  "get_item_request cmd w ks alias_prefix =
     (let (proj, st) = plan_projection (sel_projection cmd) (new_symtab alias_prefix)
      in \<lparr>gi_table_name = sel_table cmd, gi_key = key_of (where_gud_key w (rks_pk ks) (rks_rk ks)),
          gi_projection_expression = proj, gi_expression_attribute_names = names_of st,
          gi_consistent_read = sel_consistent cmd,
          gi_return_consumed_capacity = to_client_rcc (sel_rcc cmd)\<rparr>)"

definition query_request :: "select_cmd \<Rightarrow> lexpr \<Rightarrow> query_key_plan \<Rightarrow> string \<Rightarrow> query_in" where
  "query_request cmd w qplan alias_prefix =
     (let (proj, st1) = plan_projection (sel_projection cmd) (new_symtab alias_prefix);
          (kce, st2) = with_table (where_key_condition w qplan) st1;
          (filt, st3) = with_table (where_query_filter w qplan) st2
      in \<lparr>qi_table_name = sel_table cmd, qi_index_name = sel_index cmd,
          qi_key_condition_expression = kce, qi_filter_expression = unless_empty filt,
          qi_projection_expression = proj,
          qi_expression_attribute_names = names_of st3, qi_expression_attribute_values = values_of st3,
          qi_consistent_read = sel_consistent cmd, qi_return_consumed_capacity = plan_rcc cmd,
          qi_exclusive_start_key = None\<rparr>)"

definition scan_request :: "select_cmd \<Rightarrow> string \<Rightarrow> scan_in" where
  "scan_request cmd alias_prefix =
     (let (proj, st1) = plan_projection (sel_projection cmd) (new_symtab alias_prefix);
          (filt, st2) = (case sel_where cmd of
             None \<Rightarrow> ('''', st1) | Some w \<Rightarrow> with_table (scan_filter_expression w) st1)
      in \<lparr>si_table_name = sel_table cmd, si_index_name = sel_index cmd,
          si_filter_expression = unless_empty filt, si_projection_expression = proj,
          si_expression_attribute_names = names_of st2, si_expression_attribute_values = values_of st2,
          si_consistent_read = sel_consistent cmd, si_return_consumed_capacity = plan_rcc cmd,
          si_exclusive_start_key = None\<rparr>)"

text \<open>The choice between the three classic access patterns, once the key schema is known.\<close>

definition choose_plan :: "select_cmd \<Rightarrow> resolved_key_schema \<Rightarrow> string \<Rightarrow> select_plan" where
  "choose_plan cmd ks alias_prefix =
     (case sel_where cmd of
        None \<Rightarrow> PlanScan (scan_request cmd alias_prefix)
      | Some w \<Rightarrow>
          (if sel_index cmd = None \<and> can_getitem w (rks_pk ks) (rks_rk ks)
           then PlanGetItem (get_item_request cmd w ks alias_prefix)
           else case plan_query w (rks_pk ks) (rks_rk ks) of
             Some qplan \<Rightarrow> PlanQuery (query_request cmd w qplan alias_prefix)
           | None \<Rightarrow> PlanScan (scan_request cmd alias_prefix)))"

definition nearest_error :: "select_cmd \<Rightarrow> string" where
  "nearest_error cmd =
     (case sel_index cmd of
        Some ix \<Rightarrow> ix @ '' is not a vector index; NEAREST requires a vector index.''
      | None \<Rightarrow> ''Vector search (NEAREST) requires a vector index (table.vectorindex).'')"

definition plan_classic :: "'w iddb_client \<Rightarrow> select_cmd \<Rightarrow> string \<Rightarrow> ('w, 'h, select_plan) exec" where
  "plan_classic client cmd alias_prefix =
     (if sel_search_vector cmd \<noteq> None then lift_e (fail_with invalid_argument (nearest_error cmd))
      else bind_e (get_key_schema client (sel_table cmd) (case sel_index cmd of None \<Rightarrow> '''' | Some ix \<Rightarrow> ix))
        (\<lambda>ks. return_e (choose_plan cmd ks alias_prefix)))"

definition plan_select :: "'w iddb_client \<Rightarrow> select_cmd \<Rightarrow> string \<Rightarrow> ('w, 'h, select_plan) exec" where
  "plan_select client cmd alias_prefix =
     (case sel_index cmd of
        Some ix \<Rightarrow>
          bind_e (call (describe_table client (sel_table cmd)))
            (\<lambda>desc. case List.find (\<lambda>vi. vi_index_name vi = ix) (dt_vector_indexes desc) of
               Some vi \<Rightarrow> lift_e (plan_search_vectors cmd vi alias_prefix)
             | None \<Rightarrow> plan_classic client cmd alias_prefix)
      | None \<Rightarrow> plan_classic client cmd alias_prefix)"

section \<open>The symbol table of a plan\<close>

text \<open>A rendering into a table gives a table, and one reached by aliasing calls only.\<close>

lemma alias_some:
  "\<exists>tok t'. alias_attribute n (Some t) = (tok, Some t')"
  "\<exists>tok t'. alias_value lit v (Some t) = (tok, Some t')"
  by (simp_all add: alias_attribute_def alias_value_def split: prod.splits)

lemma alias_values_some: "\<exists>toks t'. alias_values vs (Some t) = (toks, Some t')"
proof (induction vs arbitrary: t)
  case (Cons v vs)
  obtain tok t1 where "alias_value (serialize_attribute v) v (Some t) = (tok, Some t1)"
    using alias_some(2) by blast
  moreover obtain toks t2 where "alias_values vs (Some t1) = (toks, Some t2)" using Cons by blast
  ultimately show ?case by simp
qed simp

lemma alias_someD:
  "alias_attribute n st = (tok, st') \<Longrightarrow> st \<noteq> None \<Longrightarrow> st' \<noteq> None"
  "alias_value lit v st = (tok, st') \<Longrightarrow> st \<noteq> None \<Longrightarrow> st' \<noteq> None"
  "alias_values vs st = (toks, st') \<Longrightarrow> st \<noteq> None \<Longrightarrow> st' \<noteq> None"
  using alias_some(1) [of n "the st"] alias_some(2) [of lit v "the st"] alias_values_some [of vs "the st"]
  by (auto simp del: not_None_eq)

lemma leaf_serialize_some: "leaf_serialize l st = (s, st') \<Longrightarrow> st \<noteq> None \<Longrightarrow> st' \<noteq> None"
  by (cases l) (auto simp del: not_None_eq split: prod.splits dest!: alias_someD)

lemma serialize_some:
  "serialize e st = (s, st') \<Longrightarrow> st \<noteq> None \<Longrightarrow> st' \<noteq> None"
  "serialize_list es st = (ss, st') \<Longrightarrow> st \<noteq> None \<Longrightarrow> st' \<noteq> None"
  by (induction e st and es st arbitrary: s st' and ss st' rule: serialize_serialize_list.induct)
    (auto simp del: not_None_eq split: prod.splits dest: leaf_serialize_some)

lemma serialize_opt_some: "serialize_opt p st = (s, st') \<Longrightarrow> st \<noteq> None \<Longrightarrow> st' \<noteq> None"
  by (auto simp: serialize_opt_def simp del: not_None_eq split: option.splits dest: serialize_some)

text \<open>\<open>reaches st st'\<close>: the table \<open>st'\<close> comes from \<open>st\<close> by aliasing calls.\<close>

definition reaches :: "symtab \<Rightarrow> symtab \<Rightarrow> bool" where
  "reaches st st' \<longleftrightarrow> (\<exists>ops. st' = st_run ops st)"

lemma reaches_refl [simp, intro]: "reaches st st"
  unfolding reaches_def st_run_def by (rule exI [of _ "[]"]) simp

lemma reaches_trans [trans]: "reaches a b \<Longrightarrow> reaches b c \<Longrightarrow> reaches a c"
  unfolding reaches_def by (metis st_run_append)

lemma reaches_inv: "st_inv st \<Longrightarrow> reaches st st' \<Longrightarrow> st_inv st' \<and> st_le st st'"
  unfolding reaches_def using st_run_inv_le by blast

lemma serialize_opt_table:
  assumes "render (Some st) = serialize_opt p (Some st)"
  obtains s st' where "with_table render st = (s, st')" and "serialize_opt p (Some st) = (s, Some st')"
    and "reaches st st'"
proof -
  obtain s o' where s: "serialize_opt p (Some st) = (s, o')" by fastforce
  then obtain st' where st': "o' = Some st'" using serialize_opt_some by blast
  have "pred_option (reaches st) o'"
  proof (cases p)
    case None
    then show ?thesis using s by (auto simp: serialize_opt_def)
  next
    case (Some e)
    then have "serialize e (Some st) = (s, o')" using s by (simp add: serialize_opt_def)
    from reached.serialize_kept(1) [OF this, of st] show ?thesis
      using reaches_refl [of st] by (simp add: reaches_def [abs_def])
  qed
  then show ?thesis using that s st' assms by (simp add: with_table_def)
qed

lemma new_attribute_reaches: "reaches st (snd (new_attribute n st))"
  unfolding reaches_def st_run_def by (rule exI [of _ "[NewAttribute n]"]) simp

lemma projection_loop_reaches: "reaches st (snd (projection_loop attrs out st))"
proof (induction attrs arbitrary: out st)
  case (Cons a attrs)
  obtain tok st1 where "new_attribute a st = (tok, st1)" by fastforce
  then show ?case using Cons new_attribute_reaches [of st a] by (auto intro: reaches_trans)
qed simp

lemma plan_projection_reaches: "plan_projection attrs st = (p, st') \<Longrightarrow> reaches st st'"
  using projection_loop_reaches [of st attrs "''''"]
  by (auto simp: plan_projection_def serialize_projection_def split: if_splits prod.splits)

lemma scan_serialize_opt: "scan_filter_expression w (Some st) = serialize_opt (Some w) (Some st)"
  by (simp add: scan_filter_expression_def serialize_opt_def)

section \<open>Whatever is chosen, the request says what the clause says\<close>

definition request_tables :: "string \<Rightarrow> symtab \<Rightarrow> attribute_names \<Rightarrow> value_map \<Rightarrow> bool" where
  "request_tables prefix st names vals \<longleftrightarrow>
     reaches (new_symtab prefix) st \<and> names = get_names st \<and> vals = get_values st"

definition get_item_means :: "resolved_key_schema \<Rightarrow> lexpr \<Rightarrow> get_item_in \<Rightarrow> bool" where
  "get_item_means ks w r \<longleftrightarrow>
     dom (map_of (gi_key r)) = set (rks_pk ks @ take 1 (rks_rk ks)) \<and> smap_ok (gi_key r) \<and>
     (\<forall>sat. eval sat w \<longleftrightarrow> (\<forall>kv\<in>set (gi_key r). sat (LogicalComparison (fst kv) ''='' (snd kv))))"

definition query_means :: "string \<Rightarrow> resolved_key_schema \<Rightarrow> lexpr \<Rightarrow> query_in \<Rightarrow> bool" where
  "query_means prefix ks w r \<longleftrightarrow>
     (\<exists>kp fp fs st1 st2 st3.
        reaches (new_symtab prefix) st1 \<and> reaches st1 st2 \<and>
        serialize_opt kp (Some st1) = (qi_key_condition_expression r, Some st2) \<and>
        serialize_opt fp (Some st2) = (fs, Some st3) \<and> qi_filter_expression r = unless_empty fs \<and>
        request_tables prefix st3 (qi_expression_attribute_names r) (qi_expression_attribute_values r) \<and>
        leaf_lhs ` set (opt_leaves kp) \<subseteq> set (rks_pk ks) \<union> set (rks_rk ks) \<and>
        leaf_lhs ` set (opt_leaves fp) \<inter> (set (rks_pk ks) \<union> set (rks_rk ks)) = {} \<and>
        (\<forall>sat. eval sat w \<longleftrightarrow> eval_opt sat kp \<and> eval_opt sat fp))"

definition scan_means :: "string \<Rightarrow> lexpr \<Rightarrow> scan_in \<Rightarrow> bool" where
  "scan_means prefix w r \<longleftrightarrow>
     (\<exists>fs st1 st2. reaches (new_symtab prefix) st1 \<and> serialize w (Some st1) = (fs, Some st2) \<and>
        si_filter_expression r = Some fs \<and>
        request_tables prefix st2 (si_expression_attribute_names r) (si_expression_attribute_values r))"

lemma query_request_means:
  assumes "wf_expr w" and "positive_spine w" and "plan_query w (rks_pk ks) (rks_rk ks) = Some qplan"
  shows "query_means prefix ks w (query_request cmd w qplan prefix)"
proof -
  let ?kp = "key_part (plan_view qplan) w" and ?fp = "filter_part (plan_view qplan) w"
  note split = query_split [OF assms]
  obtain pr st1 where proj: "plan_projection (sel_projection cmd) (new_symtab prefix) = (pr, st1)" by fastforce
  obtain s1 st2 where k: "with_table (where_key_condition w qplan) st1 = (s1, st2)"
    "serialize_opt ?kp (Some st1) = (s1, Some st2)" "reaches st1 st2"
    using split serialize_opt_table [of "where_key_condition w qplan" st1 ?kp] by metis
  obtain s2 st3 where f: "with_table (where_query_filter w qplan) st2 = (s2, st3)"
    "serialize_opt ?fp (Some st2) = (s2, Some st3)" "reaches st2 st3"
    using split serialize_opt_table [of "where_query_filter w qplan" st2 ?fp] by metis
  have r1: "reaches (new_symtab prefix) st1" using proj by (rule plan_projection_reaches)
  have pl: "set (plan_pk qplan) \<union> set (plan_sk_prefix qplan) \<subseteq> set (rks_pk ks) \<union> set (rks_rk ks)"
    using assms(3) by (auto simp: plan_query_iff dest: in_set_takeD)
  have tables: "request_tables prefix st3 (names_of st3) (values_of st3)"
    using r1 k(3) f(3) by (auto simp: request_tables_def names_of_def values_of_def intro: reaches_trans)
  have lhs: "leaf_lhs ` set (opt_leaves ?kp) \<subseteq> set (rks_pk ks) \<union> set (rks_rk ks)"
    "leaf_lhs ` set (opt_leaves ?fp) \<inter> (set (rks_pk ks) \<union> set (rks_rk ks)) = {}"
    using split pl by blast+
  have sem: "\<forall>sat. eval sat w \<longleftrightarrow> eval_opt sat ?kp \<and> eval_opt sat ?fp" using split by blast
  have fields: "qi_key_condition_expression (query_request cmd w qplan prefix) = s1"
    "qi_filter_expression (query_request cmd w qplan prefix) = unless_empty s2"
    "qi_expression_attribute_names (query_request cmd w qplan prefix) = names_of st3"
    "qi_expression_attribute_values (query_request cmd w qplan prefix) = values_of st3"
    using proj k(1) f(1) by (simp_all add: query_request_def)
  show ?thesis
    unfolding query_means_def fields using r1 k(2,3) f(2) tables lhs sem by blast
qed

lemma get_item_request_means:
  assumes "wf_expr w" and "positive_spine w" and "distinct (rks_pk ks @ rks_rk ks)" and "'''' \<notin> set (rks_pk ks)"
    and "can_getitem w (rks_pk ks) (rks_rk ks)"
  shows "get_item_means ks w (get_item_request cmd w ks prefix)"
proof -
  obtain p where pk: "rks_pk ks = [p]" using assms(5) by (auto simp: can_getitem_def split: list.splits)
  have "first_or_empty (rks_rk ks) \<noteq> p"
    using assms(3,4) pk by (auto simp: first_or_empty_def split: list.splits)
  from getitem_exact [OF assms(1,2) this] assms(5) pk show ?thesis
    by (simp add: get_item_means_def get_item_request_def key_of_def split: prod.splits)
qed

lemma scan_request_means:
  assumes "wf_expr w" and "sel_where cmd = Some w"
  shows "scan_means prefix w (scan_request cmd prefix)"
proof -
  obtain pr st1 where proj: "plan_projection (sel_projection cmd) (new_symtab prefix) = (pr, st1)" by fastforce
  obtain s st2 where s: "with_table (scan_filter_expression w) st1 = (s, st2)"
    "serialize_opt (Some w) (Some st1) = (s, Some st2)" "reaches st1 st2"
    using serialize_opt_table [of "scan_filter_expression w" st1 "Some w"] scan_serialize_opt by metis
  have r1: "reaches (new_symtab prefix) st1" using proj by (rule plan_projection_reaches)
  have "s \<noteq> []" using serialize_nonempty(1) [OF wf_nonvoid [OF assms(1)], of "Some st1"] s(2)
    by (simp add: serialize_opt_def)
  moreover have "request_tables prefix st2 (names_of st2) (values_of st2)"
    using r1 s(3) by (auto simp: request_tables_def names_of_def values_of_def intro: reaches_trans)
  ultimately show ?thesis
    unfolding scan_means_def
    by (intro exI [of _ s] exI [of _ st1] exI [of _ st2])
      (use proj s r1 assms(2) in \<open>auto simp: scan_request_def serialize_opt_def unless_empty_def\<close>)
qed

text \<open>C1: Whatever access pattern the planner chooses for a clause with no negated
  conjunction, on a table or index whose key attributes are distinct and not nameless, the request says exactly
  what the clause says.  A GetItem names exactly the
  primary key, on the base table only, and the clause is the conjunction of its key
  equalities.  A Query sends a key condition over key attributes and a filter without any,
  both serialized through one symbol table, whose conjunction is the clause.  A Scan sends the
  whole clause.  The names and values sent are those of that symbol table.\<close>

theorem choose_plan_sound:
  assumes "sel_where cmd = Some w" and "wf_expr w" and "positive_spine w"
    and "distinct (rks_pk ks @ rks_rk ks)" and "'''' \<notin> set (rks_pk ks)"
  shows "case choose_plan cmd ks prefix of
      PlanGetItem r \<Rightarrow> sel_index cmd = None \<and> get_item_means ks w r
    | PlanQuery r \<Rightarrow> query_means prefix ks w r
    | PlanScan r \<Rightarrow> scan_means prefix w r
    | PlanSearchVectors r \<Rightarrow> False"
  using assms get_item_request_means query_request_means scan_request_means
  by (auto simp: choose_plan_def split: option.splits)

theorem choose_plan_sound_witness:
  "\<exists>r. choose_plan \<lparr>sel_consistent = False, sel_projection = [], sel_table = ''t'', sel_index = None,
      sel_where = Some (make_and (mk_comparison ''a'' ''='' (N ''1'')) (mk_comparison ''b'' ''='' (S ''x''))),
      sel_rcc = Ast_rcc_none, sel_ratelimit = None, sel_exists_mode = Exists_none,
      sel_search_vector = None, sel_topk = None\<rparr> \<lparr>rks_pk = [''a''], rks_rk = [''b'']\<rparr> ''aaa'' = PlanGetItem r \<and>
    get_item_means \<lparr>rks_pk = [''a''], rks_rk = [''b'']\<rparr>
      (make_and (mk_comparison ''a'' ''='' (N ''1'')) (mk_comparison ''b'' ''='' (S ''x''))) r"
proof -
  let ?w = "make_and (mk_comparison ''a'' ''='' (N ''1'')) (mk_comparison ''b'' ''='' (S ''x''))"
  let ?cmd = "\<lparr>sel_consistent = False, sel_projection = [], sel_table = ''t'', sel_index = None,
      sel_where = Some ?w, sel_rcc = Ast_rcc_none, sel_ratelimit = None, sel_exists_mode = Exists_none,
      sel_search_vector = None, sel_topk = None\<rparr>"
  let ?ks = "\<lparr>rks_pk = [''a''], rks_rk = [''b'']\<rparr>"
  have g: "can_getitem ?w [''a''] [''b'']" by (simp add: can_getitem_def mk_comparison_def no_flags_def)
  then have c: "choose_plan ?cmd ?ks ''aaa'' = PlanGetItem (get_item_request ?cmd ?w ?ks ''aaa'')"
    by (simp add: choose_plan_def del: make_and.simps)
  have wf: "wf_expr ?w" "positive_spine ?w" by (simp_all add: mk_comparison_def no_flags_def)
  show ?thesis using choose_plan_sound [of ?cmd ?w ?ks "''aaa''"] c wf by simp
qed

text \<open>A vector search is accepted exactly when its NEAREST clause is a list of numbers
  whose length is the index's dimension (if the index states one), its TopK is positive and
  the read is not CONSISTENT; the request then carries that vector, that TopK and the index.\<close>

theorem vector_search_accepts:
  "(\<exists>r. plan_search_vectors cmd vi prefix = Inr (PlanSearchVectors r) \<and>
      sv_search_vector r = vs \<and> sv_topk r = k \<and> sv_index_name r = the (sel_index cmd)) \<longleftrightarrow>
   sel_search_vector cmd = Some (L vs) \<and> all_numbers vs \<and> sel_topk cmd = Some k \<and> 0 < k \<and>
   \<not> sel_consistent cmd \<and> (vi_dimensions vi \<le> 0 \<or> int (length vs) = vi_dimensions vi)"
  by (auto simp: plan_search_vectors_def search_vectors_request_def fail_with_def Let_def
      split: option.splits "value.splits" if_splits prod.splits)

section \<open>Planning reads metadata only\<close>

text \<open>
  What a client's DescribeTable and its EXPLAIN serialization keep of its world, planning
  keeps.
\<close>

locale describe_invariant =
  fixes client :: "'w iddb_client" and P :: "'w \<Rightarrow> bool"
  assumes describe_kept: "P w \<Longrightarrow> P (snd (describe_table client t w))"
    and explain_kept: "P w \<Longrightarrow> P (snd (explain_of client r w))"
begin

lemma get_key_schema_keeps [intro]: "world_keeps P (get_key_schema client t ix)"
  unfolding get_key_schema_def by (intro keeps_bind world_keeps_call describe_kept keeps_lift)

lemma plan_classic_keeps [intro]: "world_keeps P (plan_classic client cmd prefix)"
  unfolding plan_classic_def by (intro keeps_if keeps_bind get_key_schema_keeps keeps_lift keeps_return)

lemma plan_select_keeps [intro]: "world_keeps P (plan_select client cmd prefix)"
  unfolding plan_select_def
  by (cases "sel_index cmd")
    (auto intro!: keeps_bind world_keeps_call describe_kept plan_classic_keeps split: option.split)

lemma explain_keeps [intro]: "world_keeps P (call (explain_of client r))"
  by (intro world_keeps_call explain_kept)

end

end
