(* ===== verification/Rate_Limiter.thy ===== *)
theory Rate_Limiter
  imports Exec_Monad
begin

text \<open>
  The token-bucket rate limiter (\<^verbatim>\<open>src/execute/rate_limiter.cpp\<close>).  Clock and sleep are
  injected, so they are a parameter: two operations on the state of the host.  Doubles are
  reals.  The waiting loop is a partial function; that it returns is proved from what a
  steady clock and a sleep promise, as the locale \<open>steady_host\<close>.
\<close>

section \<open>The limiter\<close>

record 'h host_ops =
  clock :: "'h \<Rightarrow> real \<times> 'h"
  sleep :: "real \<Rightarrow> 'h \<Rightarrow> 'h"

record rate_limiter =
  rcu :: real
  wcu :: real
  read_tokens :: real
  write_tokens :: real
  last_refresh :: real

text \<open>
  Two hosts.  The default is the steady clock and the thread's sleep in the ideal case: nothing but a sleep takes
  time, and a sleep takes no longer than it was asked for.  The slow one takes \<open>lag\<close> seconds more after each
  reading of the clock and for each sleep: the calls that the program makes between two readings.  The properties
  are stated over every host that keeps the contract \<open>steady_host\<close> below; these two are its instances.
\<close>

definition default_host :: "real host_ops" where
  "default_host = \<lparr>clock = (\<lambda>now. (now, now)), sleep = (\<lambda>d now. now + max d 0)\<rparr>"

definition slow_host :: "real \<Rightarrow> real host_ops" where
  "slow_host lag = \<lparr>clock = (\<lambda>now. (now, now + max lag 0)), sleep = (\<lambda>d now. now + max d 0 + max lag 0)\<rparr>"

definition make_limiter :: "'h host_ops \<Rightarrow> real \<Rightarrow> real \<Rightarrow> 'h \<Rightarrow> rate_limiter \<times> 'h" where
  "make_limiter ops r w h =
     (let (now, h') = clock ops h
      in (\<lparr>rcu = r, wcu = w, read_tokens = 0, write_tokens = 0, last_refresh = now\<rparr>, h'))"

definition units_of :: "consumed_capacity option \<Rightarrow> real" where
  "units_of cc = (case cc of None \<Rightarrow> 0 | Some c \<Rightarrow> (case cc_capacity_units c of None \<Rightarrow> 0 | Some u \<Rightarrow> u))"

definition consume_reads :: "consumed_capacity option \<Rightarrow> rate_limiter \<Rightarrow> rate_limiter" where
  "consume_reads cc l = (if cc = None then l else l\<lparr>read_tokens := read_tokens l - units_of cc\<rparr>)"

definition consume_writes :: "consumed_capacity option \<Rightarrow> rate_limiter \<Rightarrow> rate_limiter" where
  "consume_writes cc l = (if cc = None then l else l\<lparr>write_tokens := write_tokens l - units_of cc\<rparr>)"

definition refresh :: "'h host_ops \<Rightarrow> rate_limiter \<Rightarrow> 'h \<Rightarrow> rate_limiter \<times> 'h" where
  "refresh ops l h =
     (let (now, h') = clock ops h; elapsed = now - last_refresh l
      in (l\<lparr>read_tokens := min (read_tokens l + elapsed * rcu l) (rcu l),
            write_tokens := min (write_tokens l + elapsed * wcu l) (wcu l),
            last_refresh := now\<rparr>, h'))"

text \<open>The loop, for one of the buckets: \<open>tokens\<close> and \<open>rate\<close> select it.\<close>

partial_function (option) limit_loop ::
    "'h host_ops \<Rightarrow> (rate_limiter \<Rightarrow> real) \<Rightarrow> (rate_limiter \<Rightarrow> real) \<Rightarrow>
     rate_limiter \<Rightarrow> 'h \<Rightarrow> (rate_limiter \<times> 'h) option" where
  "limit_loop ops tokens rate l h =
     (let h1 = (if tokens l < 0 then sleep ops (- tokens l / rate l) h else h);
          (l', h') = refresh ops l h1
      in if tokens l' < 0 then limit_loop ops tokens rate l' h' else Some (l', h'))"

definition bucket_limit ::
    "'h host_ops \<Rightarrow> (rate_limiter \<Rightarrow> real) \<Rightarrow> (rate_limiter \<Rightarrow> real) \<Rightarrow>
     rate_limiter \<Rightarrow> 'h \<Rightarrow> (rate_limiter \<times> 'h) option" where
  "bucket_limit ops tokens rate l h =
     (let (l', h') = refresh ops l h
      in if rate l' = 0 \<or> tokens l' \<ge> 0 then Some (l', h') else limit_loop ops tokens rate l' h')"

definition readlimit :: "'h host_ops \<Rightarrow> rate_limiter \<Rightarrow> 'h \<Rightarrow> (rate_limiter \<times> 'h) option" where
  "readlimit ops l h = bucket_limit ops read_tokens rcu l h"

definition writelimit :: "'h host_ops \<Rightarrow> rate_limiter \<Rightarrow> 'h \<Rightarrow> (rate_limiter \<times> 'h) option" where
  "writelimit ops l h = bucket_limit ops write_tokens wcu l h"

section \<open>Operations in sequence\<close>

datatype limiter_op =
    ConsumeReads "consumed_capacity option"
  | ConsumeWrites "consumed_capacity option"
  | Readlimit
  | Writelimit

fun limiter_step :: "'h host_ops \<Rightarrow> limiter_op \<Rightarrow> rate_limiter \<times> 'h \<Rightarrow> (rate_limiter \<times> 'h) option" where
  "limiter_step ops (ConsumeReads cc) (l, h) = Some (consume_reads cc l, h)"
| "limiter_step ops (ConsumeWrites cc) (l, h) = Some (consume_writes cc l, h)"
| "limiter_step ops Readlimit (l, h) = readlimit ops l h"
| "limiter_step ops Writelimit (l, h) = writelimit ops l h"

fun limiter_run :: "'h host_ops \<Rightarrow> limiter_op list \<Rightarrow> rate_limiter \<times> 'h \<Rightarrow> (rate_limiter \<times> 'h) option" where
  "limiter_run ops [] lh = Some lh"
| "limiter_run ops (x # xs) lh =
     (case limiter_step ops x lh of None \<Rightarrow> None | Some lh' \<Rightarrow> limiter_run ops xs lh')"

fun reads_consumed :: "limiter_op list \<Rightarrow> real" where
  "reads_consumed [] = 0"
| "reads_consumed (ConsumeReads cc # xs) = units_of cc + reads_consumed xs"
| "reads_consumed (x # xs) = reads_consumed xs"

fun writes_consumed :: "limiter_op list \<Rightarrow> real" where
  "writes_consumed [] = 0"
| "writes_consumed (ConsumeWrites cc # xs) = units_of cc + writes_consumed xs"
| "writes_consumed (x # xs) = writes_consumed xs"

section \<open>What the loop keeps and gives\<close>

lemma refresh_simps [simp]:
  "rcu (fst (refresh ops l h)) = rcu l"
  "wcu (fst (refresh ops l h)) = wcu l"
  "last_refresh (fst (refresh ops l h)) = fst (clock ops h)"
  "snd (refresh ops l h) = snd (clock ops h)"
  "read_tokens (fst (refresh ops l h)) =
     min (read_tokens l + (fst (clock ops h) - last_refresh l) * rcu l) (rcu l)"
  "write_tokens (fst (refresh ops l h)) =
     min (write_tokens l + (fst (clock ops h) - last_refresh l) * wcu l) (wcu l)"
  by (simp_all add: refresh_def Let_def split: prod.splits)

text \<open>What a refresh keeps, the loop keeps; and it stops with a bucket that is not in debt.\<close>

lemma limit_loop_kept:
  assumes "limit_loop ops tokens rate l h = Some lh"
    and "\<And>l h. P l \<Longrightarrow> P (fst (refresh ops l h))" and "P l"
  shows "P (fst lh) \<and> \<not> tokens (fst lh) < 0"
proof -
  have "(\<forall>l h. P l \<longrightarrow> P (fst (refresh ops l h))) \<longrightarrow> P l \<longrightarrow> P (fst lh) \<and> \<not> tokens (fst lh) < 0"
  proof (rule limit_loop.raw_induct [where P = "\<lambda>ops tokens rate l h lh.
      (\<forall>l h. P l \<longrightarrow> P (fst (refresh ops l h))) \<longrightarrow> P l \<longrightarrow> P (fst lh) \<and> \<not> tokens (fst lh) < 0", OF _ assms(1)])
    fix rec ops tokens rate l and h :: 'a and y
    assume IH: "\<And>ops tokens rate l h y. rec ops tokens rate l h = Some y \<Longrightarrow>
        (\<forall>l h. P l \<longrightarrow> P (fst (refresh ops l h))) \<longrightarrow> P l \<longrightarrow> P (fst y) \<and> \<not> tokens (fst y) < 0"
      and step: "(let h1 = if tokens l < 0 then sleep ops (- tokens l / rate l) h else h;
          (l', h') = refresh ops l h1
          in if tokens l' < 0 then rec ops tokens rate l' h' else Some (l', h')) = Some y"
    define h1 where "h1 = (if tokens l < 0 then sleep ops (- tokens l / rate l) h else h)"
    obtain l' h' where r: "refresh ops l h1 = (l', h')" by fastforce
    have body: "(if tokens l' < 0 then rec ops tokens rate l' h' else Some (l', h')) = Some y"
      using step by (simp only: Let_def r prod.case flip: h1_def)
    show "(\<forall>l h. P l \<longrightarrow> P (fst (refresh ops l h))) \<longrightarrow> P l \<longrightarrow> P (fst y) \<and> \<not> tokens (fst y) < 0"
    proof (intro impI)
      assume kept: "\<forall>l h. P l \<longrightarrow> P (fst (refresh ops l h))" and "P l"
      then have P: "P l'" using r by (metis fst_conv)
      show "P (fst y) \<and> \<not> tokens (fst y) < 0"
        using body IH [of ops tokens rate l' h' y] kept P by (cases "tokens l' < 0") auto
    qed
  qed
  then show ?thesis using assms(2,3) by blast
qed

lemma bucket_limit_kept:
  assumes "bucket_limit ops tokens rate l h = Some lh"
    and "\<And>l h. P l \<Longrightarrow> P (fst (refresh ops l h))" and "P l"
    and "\<And>l h. rate (fst (refresh ops l h)) = rate l"
  shows "P (fst lh) \<and> (rate l = 0 \<or> \<not> tokens (fst lh) < 0)"
proof -
  obtain l' h' where r: "refresh ops l h = (l', h')" by fastforce
  have P: "P l'" and "rate l' = rate l" using assms(2-4) r by (metis fst_conv)+
  show ?thesis
  proof (cases "rate l' = 0 \<or> tokens l' \<ge> 0")
    case True
    then have "lh = (l', h')" using assms(1) r by (simp add: bucket_limit_def)
    then show ?thesis using True P \<open>rate l' = rate l\<close> by auto
  next
    case False
    then have "limit_loop ops tokens rate l' h' = Some lh" using assms(1) r by (simp add: bucket_limit_def)
    from limit_loop_kept [OF this assms(2) P] show ?thesis by blast
  qed
qed

text \<open>
  The ledger of a bucket: what it holds plus what was taken out is at most what it held
  before plus the rate times the time that has passed.
\<close>

definition ledger :: "rate_limiter \<Rightarrow> real \<Rightarrow> real \<Rightarrow> rate_limiter \<Rightarrow> bool" where
  "ledger l reads writes l' \<longleftrightarrow> rcu l' = rcu l \<and> wcu l' = wcu l \<and>
     read_tokens l' + reads \<le> read_tokens l + rcu l * (last_refresh l' - last_refresh l) \<and>
     write_tokens l' + writes \<le> write_tokens l + wcu l * (last_refresh l' - last_refresh l)"

lemma ledger_refl [simp]: "ledger l 0 0 l"
  by (simp add: ledger_def)

lemma ledger_trans: "ledger l r w l' \<Longrightarrow> ledger l' r' w' l'' \<Longrightarrow> ledger l (r + r') (w + w') l''"
  by (auto simp: ledger_def algebra_simps)

lemma ledger_refresh: "ledger l r w l' \<Longrightarrow> ledger l r w (fst (refresh ops l' h))"
  by (auto simp: ledger_def algebra_simps min_def)

lemma limiter_step_ledger:
  assumes "limiter_step ops x (l, h) = Some (l', h')"
  shows "ledger l (reads_consumed [x]) (writes_consumed [x]) l'"
proof (cases x)
  case (ConsumeReads cc)
  then show ?thesis using assms by (cases cc) (auto simp: ledger_def consume_reads_def units_of_def)
next
  case (ConsumeWrites cc)
  then show ?thesis using assms by (cases cc) (auto simp: ledger_def consume_writes_def units_of_def)
next
  case Readlimit
  then have "bucket_limit ops read_tokens rcu l h = Some (l', h')" using assms by (simp add: readlimit_def)
  from bucket_limit_kept [OF this, of "ledger l 0 0"] show ?thesis using Readlimit by (simp add: ledger_refresh)
next
  case Writelimit
  then have "bucket_limit ops write_tokens wcu l h = Some (l', h')" using assms by (simp add: writelimit_def)
  from bucket_limit_kept [OF this, of "ledger l 0 0"] show ?thesis using Writelimit by (simp add: ledger_refresh)
qed

lemma consumed_Cons:
  "reads_consumed (x # xs) = reads_consumed [x] + reads_consumed xs"
  "writes_consumed (x # xs) = writes_consumed [x] + writes_consumed xs"
  by (cases x; simp)+

lemma consumed_append:
  "reads_consumed (xs @ ys) = reads_consumed xs + reads_consumed ys"
  "writes_consumed (xs @ ys) = writes_consumed xs + writes_consumed ys"
  by (induction xs rule: reads_consumed.induct, simp_all)

lemma limiter_run_ledger:
  "limiter_run ops xs (l, h) = Some (l', h') \<Longrightarrow> ledger l (reads_consumed xs) (writes_consumed xs) l'"
proof (induction xs arbitrary: l h)
  case (Cons x xs)
  then obtain l1 h1 where x: "limiter_step ops x (l, h) = Some (l1, h1)"
    and xs: "limiter_run ops xs (l1, h1) = Some (l', h')" by (auto split: option.splits)
  from ledger_trans [OF limiter_step_ledger [OF x] Cons.IH [OF xs]] show ?case
    by (simp only: consumed_Cons [of x xs])
qed simp

lemma limiter_run_append:
  "limiter_run ops (xs @ ys) lh =
     (case limiter_run ops xs lh of None \<Rightarrow> None | Some lh' \<Rightarrow> limiter_run ops ys lh')"
  by (induction xs arbitrary: lh) (auto split: option.split)

text \<open>
  A bucket that is not above its rate stays so: refreshing caps it, and what is taken out is not negative.  So
  within any window no more than one bucket of credit comes on top of the rate.
\<close>

fun takes_nothing_back :: "limiter_op \<Rightarrow> bool" where
  "takes_nothing_back (ConsumeReads cc) = (0 \<le> units_of cc)"
| "takes_nothing_back (ConsumeWrites cc) = (0 \<le> units_of cc)"
| "takes_nothing_back lop = True"

definition capped :: "rate_limiter \<Rightarrow> bool" where
  "capped l \<longleftrightarrow> (0 < rcu l \<longrightarrow> read_tokens l \<le> rcu l) \<and> (0 < wcu l \<longrightarrow> write_tokens l \<le> wcu l)"

lemma capped_refresh [simp]: "capped (fst (refresh ops l h))"
  by (simp add: capped_def)

lemma limiter_step_capped:
  assumes step: "limiter_step ops x (l, h) = Some (l', h')" and "takes_nothing_back x" and "capped l"
  shows "capped l'"
proof (cases x)
  case (ConsumeReads cc)
  then show ?thesis using assms by (auto simp: capped_def consume_reads_def)
next
  case (ConsumeWrites cc)
  then show ?thesis using assms by (auto simp: capped_def consume_writes_def)
next
  case Readlimit
  then have "bucket_limit ops read_tokens rcu l h = Some (l', h')" using step by (simp add: readlimit_def)
  from bucket_limit_kept [OF this, of capped] show ?thesis using assms(3) by simp
next
  case Writelimit
  then have "bucket_limit ops write_tokens wcu l h = Some (l', h')" using step by (simp add: writelimit_def)
  from bucket_limit_kept [OF this, of capped] show ?thesis using assms(3) by simp
qed

lemma limiter_run_capped:
  "limiter_run ops xs (l, h) = Some (l', h') \<Longrightarrow> \<forall>x\<in>set xs. takes_nothing_back x \<Longrightarrow> capped l \<Longrightarrow> capped l'"
proof (induction xs arbitrary: l h)
  case (Cons x xs)
  then obtain l1 h1 where x: "limiter_step ops x (l, h) = Some (l1, h1)"
    and xs: "limiter_run ops xs (l1, h1) = Some (l', h')" by (auto split: option.splits)
  have "capped l1" using limiter_step_capped [OF x] Cons.prems by simp
  then show ?case using Cons.IH [OF xs] Cons.prems by simp
qed simp

text \<open>What a window admits, once the wait at its end has returned.\<close>

lemma window_bound:
  assumes start: "capped l1" and run: "limiter_run ops (ys @ [x]) (l1, h2) = Some (l, h)"
    and nothing_back: "\<forall>y\<in>set ys. takes_nothing_back y"
  shows "x = Readlimit \<Longrightarrow> 0 < rcu l1 \<Longrightarrow>
      reads_consumed ys \<le> rcu l1 + rcu l1 * (last_refresh l - last_refresh l1) \<and> 0 \<le> read_tokens l \<and> read_tokens l \<le> rcu l1"
    and "x = Writelimit \<Longrightarrow> 0 < wcu l1 \<Longrightarrow>
      writes_consumed ys \<le> wcu l1 + wcu l1 * (last_refresh l - last_refresh l1) \<and> 0 \<le> write_tokens l \<and> write_tokens l \<le> wcu l1"
proof -
  obtain l' h' where ys: "limiter_run ops ys (l1, h2) = Some (l', h')" and x: "limiter_step ops x (l', h') = Some (l, h)"
    using run by (auto simp: limiter_run_append split: option.splits)
  note all = limiter_run_ledger [OF run, unfolded ledger_def consumed_append]
  have rates: "rcu l' = rcu l1" "wcu l' = wcu l1" using limiter_run_ledger [OF ys] by (simp_all add: ledger_def)
  { assume x': "x = Readlimit" and pos: "0 < rcu l1"
    have "capped l" using limiter_run_capped [OF run _ start] nothing_back x' by simp
    moreover have "bucket_limit ops read_tokens rcu l' h' = Some (l, h)" using x x' by (simp add: readlimit_def)
    from bucket_limit_kept [OF this, of "\<lambda>_. True"] have "0 \<le> read_tokens l" using rates pos by simp
    ultimately show "reads_consumed ys \<le> rcu l1 + rcu l1 * (last_refresh l - last_refresh l1) \<and>
        0 \<le> read_tokens l \<and> read_tokens l \<le> rcu l1"
      using all start pos x' by (auto simp: capped_def) }
  { assume x': "x = Writelimit" and pos: "0 < wcu l1"
    have "capped l" using limiter_run_capped [OF run _ start] nothing_back x' by simp
    moreover have "bucket_limit ops write_tokens wcu l' h' = Some (l, h)" using x x' by (simp add: writelimit_def)
    from bucket_limit_kept [OF this, of "\<lambda>_. True"] have "0 \<le> write_tokens l" using rates pos by simp
    ultimately show "writes_consumed ys \<le> wcu l1 + wcu l1 * (last_refresh l - last_refresh l1) \<and>
        0 \<le> write_tokens l \<and> write_tokens l \<le> wcu l1"
      using all start pos x' by (auto simp: capped_def) }
qed

section \<open>The wait ends\<close>

text \<open>What a steady clock and a sleep promise: time does not go back, and a sleep takes at least as long as asked.\<close>

locale steady_host =
  fixes ops :: "'h host_ops"
  assumes clock_steady: "fst (clock ops h) \<le> fst (clock ops (snd (clock ops h)))"
    and sleep_advances: "0 \<le> d \<Longrightarrow> fst (clock ops h) + d \<le> fst (clock ops (sleep ops d (snd (clock ops h))))"
begin

lemma bucket_limit_returns:
  assumes tokens: "\<And>l h. tokens (fst (refresh ops l h)) =
      min (tokens l + (fst (clock ops h) - last_refresh l) * rate l) (rate l)"
    and rate: "\<And>l h. rate (fst (refresh ops l h)) = rate l" and "0 \<le> rate l"
  shows "\<exists>lh. bucket_limit ops tokens rate l h = Some lh"
proof -
  obtain l' h' where r: "refresh ops l h = (l', h')" by fastforce
  have last: "last_refresh l' = fst (clock ops h)" and h': "h' = snd (clock ops h)" and rl: "rate l' = rate l"
    using refresh_simps(3,4) [of ops l h] rate [of l h] r by simp_all
  show ?thesis
  proof (cases "rate l' = 0 \<or> tokens l' \<ge> 0")
    case True
    then show ?thesis using r by (simp add: bucket_limit_def)
  next
    case False
    then have pos: "0 < rate l'" and debt: "tokens l' < 0" using assms(3) rl by auto
    let ?h = "sleep ops (- tokens l' / rate l') h'"
    obtain l'' h'' where r2: "refresh ops l' ?h = (l'', h'')" by fastforce
    have "fst (clock ops h) + - tokens l' / rate l' \<le> fst (clock ops ?h)"
      unfolding h' using pos debt by (intro sleep_advances) (simp add: divide_nonpos_pos)
    then have "- tokens l' / rate l' \<le> fst (clock ops ?h) - last_refresh l'" using last by simp
    then have "- tokens l' \<le> (fst (clock ops ?h) - last_refresh l') * rate l'"
      using pos by (simp only: pos_divide_le_eq)
    moreover have "tokens l'' = min (tokens l' + (fst (clock ops ?h) - last_refresh l') * rate l') (rate l')"
      using tokens [of l' ?h] r2 by simp
    ultimately have "\<not> tokens l'' < 0" using pos by simp
    then have "limit_loop ops tokens rate l' h' = Some (l'', h'')"
      using debt r2 by (subst limit_loop.simps) (simp add: Let_def)
    then show ?thesis using False r by (simp add: bucket_limit_def)
  qed
qed

lemma readlimit_returns: "0 \<le> rcu l \<Longrightarrow> \<exists>lh. readlimit ops l h = Some lh"
  unfolding readlimit_def by (rule bucket_limit_returns) simp_all

lemma writelimit_returns: "0 \<le> wcu l \<Longrightarrow> \<exists>lh. writelimit ops l h = Some lh"
  unfolding writelimit_def by (rule bucket_limit_returns) simp_all

lemma limiter_step_returns: "0 \<le> rcu l \<Longrightarrow> 0 \<le> wcu l \<Longrightarrow> \<exists>lh. limiter_step ops x (l, h) = Some lh"
  using readlimit_returns [of l h] writelimit_returns [of l h] by (cases x) auto

lemma limiter_run_returns: "0 \<le> rcu l \<Longrightarrow> 0 \<le> wcu l \<Longrightarrow> \<exists>lh. limiter_run ops xs (l, h) = Some lh"
proof (induction xs arbitrary: l h)
  case (Cons x xs)
  obtain l' h' where x: "limiter_step ops x (l, h) = Some (l', h')"
    using limiter_step_returns [OF Cons.prems] by fastforce
  then have "rcu l' = rcu l" "wcu l' = wcu l" using limiter_step_ledger [OF x] by (auto simp: ledger_def)
  then show ?case using Cons x by simp
qed simp

end

interpretation default_steady: steady_host default_host
  by unfold_locales (simp_all add: default_host_def)

interpretation slow_steady: steady_host "slow_host lag" for lag
  by unfold_locales (simp_all add: slow_host_def)

section \<open>Properties\<close>

text \<open>C34: The limiter admits the rate and one bucket.  Take any history of consumptions and waits since the
  limiter was made, with no negative consumption and with positive rates, and any window of operations after it
  that ends with a wait on the read bucket.  When that wait returns, the read units consumed in the window are
  at most the read rate, which is the size of the bucket, plus the rate times the time between the last refresh
  before the window and the last one in it; the bucket is not in debt and holds at most one second of credit.
  Since the limiter was made, not even the bucket comes on top, for it starts empty.  The same holds for
  writes, and whatever clock and sleep do.\<close>

theorem rate_bound:
  assumes "make_limiter ops r w h0 = (l0, h1)" and "limiter_run ops xs (l0, h1) = Some (l1, h2)"
    and "\<forall>x\<in>set (xs @ ys). takes_nothing_back x"
  shows "(0 < r \<and> limiter_run ops (ys @ [Readlimit]) (l1, h2) = Some (l, h) \<longrightarrow>
      reads_consumed ys \<le> r + r * (last_refresh l - last_refresh l1) \<and>
      reads_consumed (xs @ ys) \<le> r * (last_refresh l - last_refresh l0) \<and> 0 \<le> read_tokens l \<and> read_tokens l \<le> r) \<and>
    (0 < w \<and> limiter_run ops (ys @ [Writelimit]) (l1, h2) = Some (l, h) \<longrightarrow>
      writes_consumed ys \<le> w + w * (last_refresh l - last_refresh l1) \<and>
      writes_consumed (xs @ ys) \<le> w * (last_refresh l - last_refresh l0) \<and> 0 \<le> write_tokens l \<and> write_tokens l \<le> w)"
proof -
  have l0: "rcu l0 = r" "wcu l0 = w" "read_tokens l0 = 0" "write_tokens l0 = 0"
    using assms(1) by (auto simp: make_limiter_def split: prod.splits)
  have l1: "rcu l1 = r" "wcu l1 = w" using limiter_run_ledger [OF assms(2)] l0 by (simp_all add: ledger_def)
  have "capped l0" using l0 by (simp add: capped_def)
  then have capped: "capped l1" using limiter_run_capped [OF assms(2)] assms(3) by simp
  have all: "limiter_run ops (ys @ [x]) (l1, h2) = Some (l, h) \<Longrightarrow>
      ledger l0 (reads_consumed (xs @ ys @ [x])) (writes_consumed (xs @ ys @ [x])) l" for x
    using limiter_run_ledger [of ops "xs @ ys @ [x]" l0 h1 l h] assms(2) by (simp add: limiter_run_append)
  have nothing_back: "\<forall>y\<in>set ys. takes_nothing_back y" using assms(3) by simp
  show ?thesis
    using window_bound(1) [OF capped _ nothing_back, of ops Readlimit h2 l h]
      window_bound(2) [OF capped _ nothing_back, of ops Writelimit h2 l h] all [of Readlimit] all [of Writelimit]
    by (auto simp: l0 l1 ledger_def consumed_append)
qed

text \<open>Six units are read at once, then two more: the waits last until the rate of 2 has covered them.\<close>

definition sample_capacity :: "real \<Rightarrow> consumed_capacity option" where
  "sample_capacity u = Some \<lparr>cc_table_name = None, cc_capacity_units = Some u, cc_read_capacity_units = None, cc_write_capacity_units = None\<rparr>"

theorem rate_bound_witness:
  "reads_consumed [ConsumeReads (sample_capacity 2)] \<le> 2 + 2 * (4 - (3::real)) \<and>
   reads_consumed [ConsumeReads (sample_capacity 6), Readlimit, ConsumeReads (sample_capacity 2)] \<le> 2 * (4 - (0::real))"
proof -
  let ?l = "\<lambda>t now. \<lparr>rcu = 2, wcu = 0, read_tokens = t, write_tokens = 0, last_refresh = now\<rparr>"
  have make: "make_limiter default_host 2 0 0 = (?l 0 0, 0)"
    by (simp add: make_limiter_def default_host_def)
  have "limit_loop default_host read_tokens rcu (?l (- 6) 0) 0 = Some (?l 0 3, 3)"
    "limit_loop default_host read_tokens rcu (?l (- 2) 3) 3 = Some (?l 0 4, 4)"
    by (subst limit_loop.simps, simp add: default_host_def refresh_def)+
  then have "limiter_run default_host [ConsumeReads (sample_capacity 6), Readlimit] (?l 0 0, 0) = Some (?l 0 3, 3)"
    "limiter_run default_host ([ConsumeReads (sample_capacity 2)] @ [Readlimit]) (?l 0 3, 3) = Some (?l 0 4, 4)"
    by (simp_all add: readlimit_def bucket_limit_def consume_reads_def units_of_def refresh_def sample_capacity_def)
      (simp_all add: default_host_def)
  from rate_bound [OF make this(1), of "[ConsumeReads (sample_capacity 2)]" "?l 0 4" 4] this(2) show ?thesis
    by (simp add: sample_capacity_def units_of_def)
qed

text \<open>A bucket is never filled above its rate, so one with a negative rate stays in debt, whatever the host.\<close>

lemma negative_rate_hangs:
  assumes "rate l < 0" and rate: "\<And>l h. rate (fst (refresh ops l h)) = rate l"
    and tokens: "\<And>l h. tokens (fst (refresh ops l h)) \<le> rate l"
  shows "bucket_limit ops tokens rate l h = None"
proof (cases "bucket_limit ops tokens rate l h")
  case (Some lh)
  obtain l' h' where r: "refresh ops l h = (l', h')" by fastforce
  have l': "rate l' = rate l" "tokens l' \<le> rate l" using rate [of l h] tokens [of l h] r by simp_all
  then have run: "limit_loop ops tokens rate l' h' = Some lh" using Some r assms(1) by (simp add: bucket_limit_def)
  have "rate (fst (refresh ops x h)) = rate l \<and> tokens (fst (refresh ops x h)) \<le> rate l"
    if "rate x = rate l \<and> tokens x \<le> rate l" for x h using that rate [of x h] tokens [of x h] by simp
  note kept = limit_loop_kept [where P = "\<lambda>x. rate x = rate l \<and> tokens x \<le> rate l", OF run this]
  have "tokens (fst lh) \<le> rate l \<and> \<not> tokens (fst lh) < 0" using kept l' by simp
  then show ?thesis using assms(1) by simp
qed

text \<open>C35: On any host whose clock does not go back and whose sleep takes at least the time asked for, and with
  non-negative rates, every sequence of limiter operations returns: no wait is endless.  A wait on a bucket
  returns exactly if its rate is not negative; a negative rate, which a statement may give, makes it loop for
  ever.\<close>

theorem limiter_returns_exactly:
  assumes "steady_host ops"
  shows "(0 \<le> rcu l \<and> 0 \<le> wcu l \<longrightarrow> (\<exists>lh. limiter_run ops xs (l, h) = Some lh)) \<and>
   ((\<exists>lh. readlimit ops l h = Some lh) \<longleftrightarrow> 0 \<le> rcu l) \<and>
   ((\<exists>lh. writelimit ops l h = Some lh) \<longleftrightarrow> 0 \<le> wcu l)"
proof -
  have "readlimit ops l h = None" if "rcu l < 0"
    unfolding readlimit_def by (rule negative_rate_hangs) (simp_all add: that)
  moreover have "writelimit ops l h = None" if "wcu l < 0"
    unfolding writelimit_def by (rule negative_rate_hangs) (simp_all add: that)
  ultimately show ?thesis
    using steady_host.limiter_run_returns [OF assms] steady_host.readlimit_returns [OF assms]
      steady_host.writelimit_returns [OF assms]
    by (metis not_le option.distinct(1))
qed

theorem limiter_returns_exactly_witness:
  "(\<exists>lh. limiter_run default_host [Readlimit, Writelimit]
     (\<lparr>rcu = 5, wcu = 0, read_tokens = - 7, write_tokens = 0, last_refresh = 0\<rparr>, 1) = Some lh) \<and>
   (\<nexists>lh. readlimit (slow_host (1 / 2)) \<lparr>rcu = - 1, wcu = 0, read_tokens = 0, write_tokens = 0, last_refresh = 0\<rparr> 1 = Some lh)"
  using limiter_returns_exactly [OF default_steady.steady_host_axioms, of
      "\<lparr>rcu = 5, wcu = 0, read_tokens = - 7, write_tokens = 0, last_refresh = 0\<rparr>" "[Readlimit, Writelimit]" 1]
    limiter_returns_exactly [OF slow_steady.steady_host_axioms, of
      "\<lparr>rcu = - 1, wcu = 0, read_tokens = 0, write_tokens = 0, last_refresh = 0\<rparr>" "1 / 2" "[]" 1]
  by simp

end
