(* ===== verification/Memory_Client.thy ===== *)
theory Memory_Client
  imports Client_Seam "HOL-Library.Char_ord" "HOL-Library.List_Lexorder"
begin

text \<open>
  The in-memory client (\<^verbatim>\<open>include/ddbsh/testing/memory_client.hpp\<close>): a client whose world is a
  set of tables.  A table keeps its items and, parallel to them, the key strings it finds
  them by.  It is the one implementation of the client seam that is part of the sources, and
  the instance on which the contracts about clients are interpreted.
\<close>

section \<open>Tables\<close>

record mtable =
  mt_name :: string
  mt_schema :: table_key_schema
  mt_items :: "item_row list"
  mt_keys :: "string list"

type_synonym memory = "(string, mtable) smap"

fun find_row :: "string \<Rightarrow> string list \<Rightarrow> item_row list \<Rightarrow> item_row option" where
  "find_row key (k # ks) (i # is) = (if k = key then Some i else find_row key ks is)"
| "find_row key _ _ = None"

fun put_row :: "string \<Rightarrow> item_row \<Rightarrow> string list \<Rightarrow> item_row list \<Rightarrow> string list \<times> item_row list" where
  "put_row key item (k # ks) (i # is) =
     (if k = key then (k # ks, item # is)
      else (let (ks', is') = put_row key item ks is in (k # ks', i # is')))"
| "put_row key item ks is = (ks @ [key], is @ [item])"

fun erase_row :: "string \<Rightarrow> string list \<Rightarrow> item_row list \<Rightarrow> string list \<times> item_row list" where
  "erase_row key (k # ks) (i # is) =
     (if k = key then (ks, is) else (let (ks', is') = erase_row key ks is in (k # ks', i # is')))"
| "erase_row key ks is = (ks, is)"

definition mt_find :: "string \<Rightarrow> mtable \<Rightarrow> item_row option" where
  "mt_find key t = find_row key (mt_keys t) (mt_items t)"

definition mt_put :: "string \<Rightarrow> item_row \<Rightarrow> mtable \<Rightarrow> mtable" where
  "mt_put key item t = (let (ks, is) = put_row key item (mt_keys t) (mt_items t) in t\<lparr>mt_items := is, mt_keys := ks\<rparr>)"

definition mt_erase :: "string \<Rightarrow> mtable \<Rightarrow> mtable" where
  "mt_erase key t = (let (ks, is) = erase_row key (mt_keys t) (mt_items t) in t\<lparr>mt_items := is, mt_keys := ks\<rparr>)"

definition find_table :: "string \<Rightarrow> memory \<Rightarrow> mtable option" where
  "find_table name m = map_of m name"

text \<open>Writing through the pointer \<^verbatim>\<open>find_table\<close> returned.\<close>

definition set_table :: "string \<Rightarrow> mtable \<Rightarrow> memory \<Rightarrow> memory" where
  "set_table name t m = map (\<lambda>(k, u). (k, if k = name then t else u)) m"

section \<open>Keys and conditions\<close>

fun value_key :: "value \<Rightarrow> string" where
  "value_key (S s) = ''S:'' @ s"
| "value_key (N s) = ''N:'' @ s"
| "value_key (B s) = ''B:'' @ s"
| "value_key (BOOL b) = (if b then ''BOOL:1'' else ''BOOL:0'')"
| "value_key NUL = ''NUL:''"
| "value_key _ = ''?:''"

definition add_key :: "item_row \<Rightarrow> string \<Rightarrow> value_map" where
  "add_key item attr = (case map_of item attr of None \<Rightarrow> [] | Some v \<Rightarrow> [(attr, v)])"

definition extract_key :: "item_row \<Rightarrow> table_key_schema \<Rightarrow> value_map" where
  "extract_key item schema = concat (map (add_key item) (hash_keys schema @ range_keys schema))"

definition key_string :: "value_map \<Rightarrow> string" where
  "key_string key = concat (map (\<lambda>(name, v). name @ ''='' @ value_key v @ [CHR 0x1F]) key)"

fun has_substring :: "string \<Rightarrow> string \<Rightarrow> bool" where
  "has_substring needle [] = (needle = [])"
| "has_substring needle (c # cs) = (take (length needle) (c # cs) = needle \<or> has_substring needle cs)"

definition ccf_error :: error where
  "ccf_error = \<lparr>err_code = conditional_check_failed, err_message = ''The conditional request failed'',
     service_error_name = None, request_id = None\<rparr>"

definition check_condition :: "string option \<Rightarrow> bool \<Rightarrow> error option" where
  "check_condition cond key_exists =
     (case cond of
        None \<Rightarrow> None
      | Some c \<Rightarrow>
          (let wants_absent = has_substring ''attribute_not_exists'' c;
               wants_present = (\<not> wants_absent \<and> has_substring ''attribute_exists'' c)
           in if wants_absent \<and> key_exists then Some ccf_error
              else if wants_present \<and> \<not> key_exists then Some ccf_error
              else None))"

section \<open>Tokens, projections, predicates\<close>

function tokens :: "(char \<Rightarrow> bool) \<Rightarrow> string \<Rightarrow> string list" where
  "tokens sep s =
     (let s' = dropWhile sep s
      in if s' = [] then []
         else takeWhile (\<lambda>c. \<not> sep c) s' # tokens sep (dropWhile (\<lambda>c. \<not> sep c) s'))"
  by pat_completeness auto
termination
proof (relation "measure (\<lambda>(sep, s). length s)", goal_cases)
  case (2 sep s s')
  then have ne: "dropWhile sep s \<noteq> []" and s': "s' = dropWhile sep s" by blast+
  then have "\<not> sep (hd (dropWhile sep s))" by (simp add: hd_dropWhile)
  then have "length (dropWhile (\<lambda>c. \<not> sep c) (dropWhile sep s)) < length (dropWhile sep s)"
    using ne by (cases "dropWhile sep s") (simp_all add: length_dropWhile_le le_imp_less_Suc)
  then show ?case using s' length_dropWhile_le [of sep s] by simp
qed simp

declare tokens.simps [simp del]

definition resolve_name :: "attribute_names \<Rightarrow> string \<Rightarrow> string" where
  "resolve_name names tok =
     (case map_of names tok of
        Some n \<Rightarrow> n
      | None \<Rightarrow> (if tok = [] \<or> hd tok \<noteq> CHR ''#'' then tok else tl tok))"

definition resolve_value :: "value_map \<Rightarrow> string \<Rightarrow> value" where
  "resolve_value vals tok = (case map_of vals tok of Some v \<Rightarrow> v | None \<Rightarrow> null_value)"

definition project :: "item_row \<Rightarrow> string option \<Rightarrow> attribute_names \<Rightarrow> item_row" where
  "project item projection names =
     (case projection of
        None \<Rightarrow> item
      | Some p \<Rightarrow>
          (if p = [] then item
           else (let wanted = map (resolve_name names) (tokens (\<lambda>c. c = CHR '' '' \<or> c = CHR '','') p)
                 in filter (\<lambda>kv. fst kv \<in> set wanted) item)))"

definition upper :: "string \<Rightarrow> string" where
  "upper s = map (\<lambda>c. if CHR ''a'' \<le> c \<and> c \<le> CHR ''z'' then char_of (of_char c - (32::nat)) else c) s"

record predicate =
  pr_attr :: string
  pr_op :: string
  pr_v1 :: "value"
  pr_v2 :: "value"

definition mk_pred :: "string \<Rightarrow> string \<Rightarrow> value \<Rightarrow> value \<Rightarrow> predicate" where
  "mk_pred op attr v1 v2 = \<lparr>pr_attr = attr, pr_op = op, pr_v1 = v1, pr_v2 = v2\<rparr>"

text \<open>A default-constructed \<^verbatim>\<open>Value\<close> is the null value.\<close>

function key_predicates :: "attribute_names \<Rightarrow> value_map \<Rightarrow> string list \<Rightarrow> predicate list" where
  "key_predicates names vals [] = []"
| "key_predicates names vals (tok # rest) =
     (if upper tok = ''AND'' then key_predicates names vals rest
      else if tok = ''begins_with'' \<and> 2 \<le> length rest then
        mk_pred ''begins_with'' (resolve_name names (rest ! 0)) (resolve_value vals (rest ! 1)) null_value
          # key_predicates names vals (drop 2 rest)
      else if rest = [] then []
      else if upper (rest ! 0) = ''BETWEEN'' \<and> 4 \<le> length rest then
        mk_pred ''between'' (resolve_name names tok) (resolve_value vals (rest ! 1)) (resolve_value vals (rest ! 3))
          # key_predicates names vals (drop 4 rest)
      else if 2 \<le> length rest then
        mk_pred (rest ! 0) (resolve_name names tok) (resolve_value vals (rest ! 1)) null_value
          # key_predicates names vals (drop 2 rest)
      else key_predicates names vals rest)"
  by pat_completeness auto
termination
  by (relation "measure (\<lambda>(names, vals, toks). length toks)") auto

definition parse_key_condition :: "string \<Rightarrow> attribute_names \<Rightarrow> value_map \<Rightarrow> predicate list" where
  "parse_key_condition expr names vals =
     key_predicates names vals
       (tokens (\<lambda>c. c = CHR '' '')
         (map (\<lambda>c. if c = CHR ''('' \<or> c = CHR '')'' \<or> c = CHR '','' then CHR '' '' else c) expr))"

section \<open>Comparing and matching\<close>

text \<open>
  \<^verbatim>\<open>std::stod\<close> on decimal notation, as the lexer's numbers have it: leading blanks, a sign,
  digits with an optional fraction, an optional exponent; what follows is ignored, and no
  digits at all is the exception the caller catches.  Doubles are reals.
\<close>

definition is_digit :: "char \<Rightarrow> bool" where
  "is_digit c \<longleftrightarrow> CHR ''0'' \<le> c \<and> c \<le> CHR ''9''"

definition digits_value :: "string \<Rightarrow> nat" where
  "digits_value ds = foldl (\<lambda>n c. 10 * n + (of_char c - 48)) 0 ds"

definition take_sign :: "string \<Rightarrow> bool \<times> string" where
  "take_sign s = (case s of [] \<Rightarrow> (False, []) | c # cs \<Rightarrow>
     (if c = CHR ''-'' then (True, cs) else if c = CHR ''+'' then (False, cs) else (False, s)))"

definition exponent_of :: "string \<Rightarrow> int" where
  "exponent_of s =
     (case s of
        [] \<Rightarrow> 0
      | c # cs \<Rightarrow>
          (if c = CHR ''e'' \<or> c = CHR ''E'' then
             (let (neg, r) = take_sign cs; ds = takeWhile is_digit r; n = int (digits_value ds)
              in if ds = [] then 0 else if neg then - n else n)
           else 0))"

definition stod :: "string \<Rightarrow> real option" where
  "stod s =
     (let (neg, r) = take_sign (dropWhile (\<lambda>c. c = CHR '' '') s);
          ip = takeWhile is_digit r; r1 = dropWhile is_digit r;
          frac = (r1 \<noteq> [] \<and> hd r1 = CHR ''.'');
          fp = (if frac then takeWhile is_digit (tl r1) else []);
          r2 = (if frac then dropWhile is_digit (tl r1) else r1);
          e = exponent_of r2 - int (length fp);
          m = real (digits_value (ip @ fp));
          x = (if 0 \<le> e then m * 10 ^ nat e else m / 10 ^ nat (- e))
      in if ip = [] \<and> fp = [] then None else Some (if neg then - x else x))"

definition compare_strings :: "string \<Rightarrow> string \<Rightarrow> int" where
  "compare_strings a b = (if a < b then - 1 else if b < a then 1 else 0)"

definition compare :: "value \<Rightarrow> value \<Rightarrow> int" where
  "compare a b =
     (if type_of a = TN \<and> type_of b = TN
      then (case (stod (val_s a), stod (val_s b)) of
              (Some x, Some y) \<Rightarrow> (if x < y then - 1 else if y < x then 1 else 0)
            | _ \<Rightarrow> compare_strings (val_s a) (val_s b))
      else compare_strings (val_s a) (val_s b))"

definition pred_matches :: "value \<Rightarrow> predicate \<Rightarrow> bool" where
  "pred_matches v p =
     (if pr_op p = ''='' then compare v (pr_v1 p) = 0
      else if pr_op p = ''<'' then compare v (pr_v1 p) < 0
      else if pr_op p = ''<='' then compare v (pr_v1 p) \<le> 0
      else if pr_op p = ''>'' then compare v (pr_v1 p) > 0
      else if pr_op p = ''>='' then compare v (pr_v1 p) \<ge> 0
      else if pr_op p = ''begins_with'' then take (length (val_s (pr_v1 p))) (val_s v) = val_s (pr_v1 p)
      else if pr_op p = ''between'' then compare v (pr_v1 p) \<ge> 0 \<and> compare v (pr_v2 p) \<le> 0
      else False)"

definition matches_all :: "item_row \<Rightarrow> predicate list \<Rightarrow> bool" where
  "matches_all item preds =
     (\<forall>p\<in>set preds. case map_of item (pr_attr p) of None \<Rightarrow> False | Some v \<Rightarrow> pred_matches v p)"

section \<open>Updates\<close>

fun set_attr :: "string \<Rightarrow> value \<Rightarrow> item_row \<Rightarrow> item_row" where
  "set_attr attr v [] = [(attr, v)]"
| "set_attr attr v ((name, u) # item) = (if name = attr then (name, v) # item else (name, u) # set_attr attr v item)"

fun remove_attr :: "string \<Rightarrow> item_row \<Rightarrow> item_row" where
  "remove_attr attr [] = []"
| "remove_attr attr ((name, u) # item) = (if name = attr then item else (name, u) # remove_attr attr item)"

datatype update_mode = Mode_none | Mode_set | Mode_remove

fun update_loop ::
    "attribute_names \<Rightarrow> value_map \<Rightarrow> update_mode \<Rightarrow> string list \<Rightarrow> item_row \<Rightarrow> item_row" where
  "update_loop names vals mode [] item = item"
| "update_loop names vals mode (tok # rest) item =
     (if upper tok = ''SET'' then update_loop names vals Mode_set rest item
      else if upper tok = ''REMOVE'' then update_loop names vals Mode_remove rest item
      else if mode = Mode_set \<and> 2 \<le> length rest \<and> rest ! 0 = ''='' then
        update_loop names vals mode (drop 2 rest)
          (set_attr (resolve_name names tok) (resolve_value vals (rest ! 1)) item)
      else if mode = Mode_remove then
        update_loop names vals mode rest (remove_attr (resolve_name names tok) item)
      else update_loop names vals mode rest item)"

definition apply_update :: "string \<Rightarrow> attribute_names \<Rightarrow> value_map \<Rightarrow> item_row \<Rightarrow> item_row" where
  "apply_update expr names vals item =
     update_loop names vals Mode_none
       (tokens (\<lambda>c. c = CHR '' '') (map (\<lambda>c. if c = CHR '','' then CHR '' '' else c) expr)) item"

section \<open>The operations\<close>

definition not_found :: "string \<Rightarrow> 'a result" where
  "not_found table = fail_with no_such_table (''Table: '' @ table @ '' not found'')"

definition not_impl :: "string \<Rightarrow> ('w, 'a) client_call" where
  "not_impl op w = (fail_with not_implemented (''MemoryClient does not implement '' @ op), w)"

definition m_get_item :: "get_item_in \<Rightarrow> (memory, get_item_out) client_call" where
  "m_get_item r m =
     (case find_table (gi_table_name r) m of
        None \<Rightarrow> (not_found (gi_table_name r), m)
      | Some t \<Rightarrow> (Inr \<lparr>go_item = mt_find (key_string (gi_key r)) t, go_consumed_capacity = None\<rparr>, m))"

definition m_query :: "query_in \<Rightarrow> (memory, page_out) client_call" where
  "m_query r m =
     (case find_table (qi_table_name r) m of
        None \<Rightarrow> (not_found (qi_table_name r), m)
      | Some t \<Rightarrow>
          (let preds = parse_key_condition (qi_key_condition_expression r) (qi_expression_attribute_names r)
                 (qi_expression_attribute_values r)
           in (Inr \<lparr>po_items = map (\<lambda>item. project item (qi_projection_expression r) (qi_expression_attribute_names r))
                  (filter (\<lambda>item. matches_all item preds) (mt_items t)),
                po_last_evaluated_key = None, po_consumed_capacity = None\<rparr>, m)))"

definition m_scan :: "scan_in \<Rightarrow> (memory, page_out) client_call" where
  "m_scan r m =
     (case find_table (si_table_name r) m of
        None \<Rightarrow> (not_found (si_table_name r), m)
      | Some t \<Rightarrow>
          (Inr \<lparr>po_items = map (\<lambda>item. project item (si_projection_expression r) (si_expression_attribute_names r))
                  (mt_items t),
                po_last_evaluated_key = None, po_consumed_capacity = None\<rparr>, m))"

definition m_put_item :: "put_item_in \<Rightarrow> (memory, write_out) client_call" where
  "m_put_item r m =
     (case find_table (pi_table_name r) m of
        None \<Rightarrow> (not_found (pi_table_name r), m)
      | Some t \<Rightarrow>
          (let k = key_string (extract_key (pi_item r) (mt_schema t))
           in case check_condition (pi_condition_expression r) (mt_find k t \<noteq> None) of
             Some e \<Rightarrow> (Inl e, m)
           | None \<Rightarrow>
               (Inr \<lparr>wo_attributes = (if pi_return_values r = Rv_all_old then mt_find k t else None),
                  wo_consumed_capacity = None\<rparr>,
                set_table (pi_table_name r) (mt_put k (pi_item r) t) m)))"

definition m_update_item :: "update_item_in \<Rightarrow> (memory, write_out) client_call" where
  "m_update_item r m =
     (case find_table (ui_table_name r) m of
        None \<Rightarrow> (not_found (ui_table_name r), m)
      | Some t \<Rightarrow>
          (let k = key_string (ui_key r)
           in case check_condition (ui_condition_expression r) (mt_find k t \<noteq> None) of
             Some e \<Rightarrow> (Inl e, m)
           | None \<Rightarrow>
               (let item = apply_update (ui_update_expression r) (ui_expression_attribute_names r)
                      (ui_expression_attribute_values r)
                      (case mt_find k t of Some cur \<Rightarrow> cur | None \<Rightarrow> ui_key r)
                in (Inr \<lparr>wo_attributes =
                      (if ui_return_values r = Rv_all_new \<or> ui_return_values r = Rv_updated_new
                       then Some item else None), wo_consumed_capacity = None\<rparr>,
                    set_table (ui_table_name r) (mt_put k item t) m))))"

definition m_delete_item :: "delete_item_in \<Rightarrow> (memory, write_out) client_call" where
  "m_delete_item r m =
     (case find_table (di_table_name r) m of
        None \<Rightarrow> (not_found (di_table_name r), m)
      | Some t \<Rightarrow>
          (let k = key_string (di_key r)
           in case check_condition (di_condition_expression r) (mt_find k t \<noteq> None) of
             Some e \<Rightarrow> (Inl e, m)
           | None \<Rightarrow>
               (Inr \<lparr>wo_attributes = (if di_return_values r = Rv_all_old then mt_find k t else None),
                  wo_consumed_capacity = None\<rparr>,
                set_table (di_table_name r) (mt_erase k t) m)))"

definition m_create_table :: "create_table_in \<Rightarrow> (memory, unit) client_call" where
  "m_create_table r m =
     (if find_table (ct_table_name r) m \<noteq> None
      then (fail_with table_already_exists (''Table already exists: '' @ ct_table_name r), m)
      else (Inr (), smap_emplace (ct_table_name r)
        \<lparr>mt_name = ct_table_name r,
         mt_schema = \<lparr>hash_keys = ks_hash (ct_key_schema r), range_keys = ks_range (ct_key_schema r)\<rparr>,
         mt_items = [], mt_keys = []\<rparr> m))"

definition m_delete_table :: "string \<Rightarrow> (memory, unit) client_call" where
  "m_delete_table name m =
     (if find_table name m = None then (not_found name, m) else (Inr (), filter (\<lambda>(k, t). k \<noteq> name) m))"

definition m_list_tables :: "(memory, string list) client_call" where
  "m_list_tables m = (Inr (map fst m), m)"

definition described :: "mtable \<Rightarrow> describe_table_out" where
  "described t =
     \<lparr>dt_table_name = mt_name t, dt_key_schema = mt_schema t, dt_local_secondary_indexes = [],
      dt_global_secondary_indexes = [], dt_vector_indexes = [], dt_table_status = '''', dt_table_id = '''',
      dt_table_arn = '''', dt_billing_mode_summary = None, dt_provisioned_throughput_set = False,
      dt_table_class_summary = None, dt_attribute_definitions = [], dt_creation_date_time = '''',
      dt_table_size_bytes = 0, dt_item_count = 0, dt_deletion_protection_enabled = False,
      dt_provisioned_read_capacity_units = 0, dt_provisioned_write_capacity_units = 0,
      dt_on_demand_throughput_set = False, dt_on_demand_max_read_request_units = - 1,
      dt_on_demand_max_write_request_units = - 1, dt_warm_throughput = None, dt_stream_view_type = None,
      dt_stream_specification_set = False, dt_sse_status = None\<rparr>"

definition m_describe_table :: "string \<Rightarrow> (memory, describe_table_out) client_call" where
  "m_describe_table name m =
     (case find_table name m of None \<Rightarrow> (not_found name, m) | Some t \<Rightarrow> (Inr (described t), m))"

definition memory_client :: "memory iddb_client" where
  "memory_client =
     \<lparr>connect = default_connect, get_item = m_get_item, query = m_query, scan = m_scan,
      search_vectors = default_search_vectors, put_item = m_put_item, create_table = m_create_table,
      update_table = (\<lambda>r m. (Inr (), m)), update_time_to_live = (\<lambda>r m. (Inr (), m)),
      update_continuous_backups = (\<lambda>r m. (Inr (), m)), create_backup = (\<lambda>r. not_impl ''CreateBackup''),
      delete_backup = (\<lambda>r. not_impl ''DeleteBackup''), describe_backup = (\<lambda>r. not_impl ''DescribeBackup''),
      restore_table_from_backup = (\<lambda>r. not_impl ''RestoreTableFromBackup''),
      restore_table_to_point_in_time = (\<lambda>r. not_impl ''RestoreTableToPointInTime''),
      describe_limits = (\<lambda>m. (Inr \<lparr>dl_account_max_rcu = 0, dl_account_max_wcu = 0, dl_table_max_rcu = 0,
        dl_table_max_wcu = 0\<rparr>, m)),
      list_backups = (\<lambda>r m. (Inr \<lparr>lbo_summaries = [], lbo_last_evaluated_backup_arn = None\<rparr>, m)),
      delete_table = m_delete_table, list_tables = m_list_tables, describe_table = m_describe_table,
      update_item = m_update_item, delete_item = m_delete_item,
      transact_get_items = (\<lambda>r. not_impl ''TransactGetItems''),
      transact_write_items = (\<lambda>r. not_impl ''TransactWriteItems''),
      describe_time_to_live = (\<lambda>t m. (Inr \<lparr>tl_status = ''DISABLED'', tl_attribute_name = ''''\<rparr>, m)),
      describe_continuous_backups = (\<lambda>t m. (Inr \<lparr>pitr_status = ''DISABLED'',
        earliest_restorable_date_time = '''', latest_restorable_date_time = ''''\<rparr>, m)),
      describe_table_replica_auto_scaling = (\<lambda>t m. (Inr [], m)),
      wait_for_table_active = (\<lambda>t m. (Inr (), m)), wait_for_table_gone = (\<lambda>t m. (Inr (), m)),
      explain_of = (\<lambda>r. not_impl ''explain_request'')\<rparr>"

section \<open>The table as a finite map\<close>

text \<open>What a keyed store promises its clients.\<close>

locale keyed_store =
  fixes find :: "'k \<Rightarrow> 's \<Rightarrow> 'v option" and put :: "'k \<Rightarrow> 'v \<Rightarrow> 's \<Rightarrow> 's" and erase :: "'k \<Rightarrow> 's \<Rightarrow> 's"
    and ok :: "'s \<Rightarrow> bool"
  assumes find_put: "ok s \<Longrightarrow> find k' (put k v s) = (if k' = k then Some v else find k' s)"
    and find_erase: "ok s \<Longrightarrow> find k' (erase k s) = (if k' = k then None else find k' s)"
    and ok_put: "ok s \<Longrightarrow> ok (put k v s)"
    and ok_erase: "ok s \<Longrightarrow> ok (erase k s)"
begin

lemma find_put_same: "ok s \<Longrightarrow> find k (put k v s) = Some v"
  by (simp add: find_put)

lemma put_put: "ok s \<Longrightarrow> find k' (put k v (put k u s)) = find k' (put k v s)"
  by (simp add: find_put ok_put)

lemma erase_put: "ok s \<Longrightarrow> find k' (erase k (put k v s)) = find k' (erase k s)"
  by (simp add: find_put find_erase ok_put)

lemma updates_commute: "ok s \<Longrightarrow> k1 \<noteq> k2 \<Longrightarrow> find k' (put k1 v1 (put k2 v2 s)) = find k' (put k2 v2 (put k1 v1 s))"
  by (auto simp: find_put ok_put)

end

definition table_ok :: "mtable \<Rightarrow> bool" where
  "table_ok t \<longleftrightarrow> length (mt_keys t) = length (mt_items t) \<and> distinct (mt_keys t)"

lemma find_row_map_of: "find_row key ks is = map_of (zip ks is) key"
  by (induction key ks "is" rule: find_row.induct) auto

lemma put_row_shape:
  "length ks = length is \<Longrightarrow> put_row key item ks is = (ks', is') \<Longrightarrow>
     length ks' = length is' \<and> set ks' = insert key (set ks) \<and> (distinct ks \<longrightarrow> distinct ks')"
proof (induction key item ks "is" arbitrary: ks' is' rule: put_row.induct)
  case (1 key item k ks i "is")
  show ?case
  proof (cases "k = key")
    case False
    obtain ks1 is1 where r: "put_row key item ks is = (ks1, is1)" by fastforce
    then have "length ks1 = length is1 \<and> set ks1 = insert key (set ks) \<and> (distinct ks \<longrightarrow> distinct ks1)"
      using 1(1) [OF False _ r] "1.prems"(1) by simp
    moreover have "ks' = k # ks1" "is' = i # is1" using False "1.prems"(2) r by simp_all
    ultimately show ?thesis using False by (simp add: insert_commute)
  qed (use "1.prems" in auto)
qed auto

lemma find_put_row:
  "length ks = length is \<Longrightarrow> put_row key item ks is = (ks', is') \<Longrightarrow>
     find_row key' ks' is' = (if key' = key then Some item else find_row key' ks is)"
proof (induction key item ks "is" arbitrary: ks' is' rule: put_row.induct)
  case (1 key item k ks i "is")
  show ?case
  proof (cases "k = key")
    case False
    obtain ks1 is1 where r: "put_row key item ks is = (ks1, is1)" by fastforce
    then have "find_row key' ks1 is1 = (if key' = key then Some item else find_row key' ks is)"
      using 1(1) [OF False _ r] "1.prems"(1) by simp
    then show ?thesis using False "1.prems"(2) r by auto
  qed (use "1.prems" in auto)
qed auto

lemma erase_row_shape:
  "length ks = length is \<Longrightarrow> erase_row key ks is = (ks', is') \<Longrightarrow>
     length ks' = length is' \<and> set ks' \<subseteq> set ks \<and> (distinct ks \<longrightarrow> distinct ks' \<and> key \<notin> set ks')"
proof (induction key ks "is" arbitrary: ks' is' rule: erase_row.induct)
  case (1 key k ks i "is")
  show ?case
  proof (cases "k = key")
    case False
    obtain ks1 is1 where r: "erase_row key ks is = (ks1, is1)" by fastforce
    then have "length ks1 = length is1 \<and> set ks1 \<subseteq> set ks \<and> (distinct ks \<longrightarrow> distinct ks1 \<and> key \<notin> set ks1)"
      using 1(1) [OF False _ r] "1.prems"(1) by simp
    then show ?thesis using False "1.prems"(2) r by auto
  qed (use "1.prems" in auto)
qed auto

lemma find_row_None: "length ks = length is \<Longrightarrow> find_row key ks is = None \<longleftrightarrow> key \<notin> set ks"
  by (simp add: find_row_map_of map_of_zip_is_None)

lemma find_erase_row:
  "length ks = length is \<Longrightarrow> distinct ks \<Longrightarrow> erase_row key ks is = (ks', is') \<Longrightarrow>
     find_row key' ks' is' = (if key' = key then None else find_row key' ks is)"
proof (induction key ks "is" arbitrary: ks' is' rule: erase_row.induct)
  case (1 key k ks i "is")
  show ?case
  proof (cases "k = key")
    case True
    then show ?thesis using "1.prems" by (auto simp: find_row_None)
  next
    case False
    obtain ks1 is1 where r: "erase_row key ks is = (ks1, is1)" by fastforce
    then have "find_row key' ks1 is1 = (if key' = key then None else find_row key' ks is)"
      using 1(1) [OF False _ _ r] "1.prems"(1,2) by simp
    then show ?thesis using False "1.prems"(3) r by auto
  qed
qed auto

interpretation mstore: keyed_store mt_find mt_put mt_erase table_ok
proof unfold_locales
  fix t :: mtable and k k' :: string and v :: item_row
  assume ok: "table_ok t"
  obtain ks "is" where p: "put_row k v (mt_keys t) (mt_items t) = (ks, is)" by fastforce
  obtain ks2 is2 where e: "erase_row k (mt_keys t) (mt_items t) = (ks2, is2)" by fastforce
  show "mt_find k' (mt_put k v t) = (if k' = k then Some v else mt_find k' t)"
    using find_put_row [OF _ p] ok p by (simp add: mt_find_def mt_put_def table_ok_def)
  show "mt_find k' (mt_erase k t) = (if k' = k then None else mt_find k' t)"
    using find_erase_row [OF _ _ e] ok e by (simp add: mt_find_def mt_erase_def table_ok_def)
  show "table_ok (mt_put k v t)"
    using put_row_shape [OF _ p] ok p by (simp add: mt_put_def table_ok_def)
  show "table_ok (mt_erase k t)"
    using erase_row_shape [OF _ e] ok e by (simp add: mt_erase_def table_ok_def)
qed

section \<open>The tables of the client\<close>

definition mem_ok :: "memory \<Rightarrow> bool" where
  "mem_ok m \<longleftrightarrow> smap_ok m \<and> (\<forall>nt\<in>set m. mt_name (snd nt) = fst nt \<and> table_ok (snd nt))"

lemma find_table_ok: "mem_ok m \<Longrightarrow> find_table name m = Some t \<Longrightarrow> mt_name t = name \<and> table_ok t"
  using map_of_SomeD [of m name t] by (force simp: mem_ok_def find_table_def)

lemma map_fst_set_table [simp]: "map fst (set_table name t m) = map fst m"
  by (induction m) (auto simp: set_table_def)

lemma find_set_table:
  "find_table name' (set_table name t m) =
     (if name' = name \<and> find_table name m \<noteq> None then Some t else find_table name' m)"
  by (induction m) (auto simp: set_table_def find_table_def)

lemma mem_ok_set_table:
  assumes "mem_ok m" and "mt_name t = name" and "table_ok t"
  shows "mem_ok (set_table name t m)"
proof -
  have "smap_ok (set_table name t m)" using assms(1) unfolding map_fst_set_table mem_ok_def by blast
  moreover have "\<forall>nt\<in>set (set_table name t m). mt_name (snd nt) = fst nt \<and> table_ok (snd nt)"
    using assms by (auto simp: mem_ok_def set_table_def)
  ultimately show ?thesis by (simp add: mem_ok_def)
qed

lemma mt_name_rows [simp]: "mt_name (mt_put k i t) = mt_name t" "mt_name (mt_erase k t) = mt_name t"
  "mt_schema (mt_put k i t) = mt_schema t" "mt_schema (mt_erase k t) = mt_schema t"
  by (simp_all add: mt_put_def mt_erase_def split: prod.splits)

text \<open>The requests that can change the tables, and what they make of them.\<close>

datatype mem_op =
    MPut put_item_in
  | MUpdate update_item_in
  | MDelete delete_item_in
  | MCreate create_table_in
  | MDrop string

fun mem_apply :: "mem_op \<Rightarrow> memory \<Rightarrow> memory" where
  "mem_apply (MPut r) m = snd (put_item memory_client r m)"
| "mem_apply (MUpdate r) m = snd (update_item memory_client r m)"
| "mem_apply (MDelete r) m = snd (delete_item memory_client r m)"
| "mem_apply (MCreate r) m = snd (create_table memory_client r m)"
| "mem_apply (MDrop t) m = snd (delete_table memory_client t m)"

lemma memory_client_simps [simp]:
  "put_item memory_client = m_put_item" "update_item memory_client = m_update_item"
  "delete_item memory_client = m_delete_item" "create_table memory_client = m_create_table"
  "delete_table memory_client = m_delete_table" "get_item memory_client = m_get_item"
  "query memory_client = m_query" "scan memory_client = m_scan" "describe_table memory_client = m_describe_table"
  "search_vectors memory_client = default_search_vectors" "list_tables memory_client = m_list_tables"
  by (simp_all add: memory_client_def)

lemma set_smap_emplaceD: "x \<in> set (smap_emplace k v m) \<Longrightarrow> x = (k, v) \<or> x \<in> set m"
  by (induction k v m rule: smap_emplace.induct) (auto split: if_splits)

lemma mem_ok_create: "mem_ok m \<Longrightarrow> mem_ok (snd (m_create_table r m))"
  by (auto simp: m_create_table_def mem_ok_def table_ok_def smap_ok_emplace dest!: set_smap_emplaceD)

lemma mem_ok_drop: "mem_ok m \<Longrightarrow> mem_ok (snd (m_delete_table n m))"
proof -
  assume ok: "mem_ok m"
  have "sorted_wrt (<) (map fst (filter (\<lambda>(k, t). k \<noteq> n) m))"
    using ok sorted_wrt_filter [of "\<lambda>a b. fst a < fst b" m "\<lambda>(k, t). k \<noteq> n"]
    by (simp add: mem_ok_def sorted_wrt_map)
  then show ?thesis using ok by (auto simp: m_delete_table_def mem_ok_def)
qed

lemma mem_apply_ok: "mem_ok m \<Longrightarrow> mem_ok (mem_apply op m)"
  by (cases op)
    (auto simp: m_put_item_def m_update_item_def m_delete_item_def Let_def mem_ok_create mem_ok_drop
      find_table_ok mstore.ok_put mstore.ok_erase intro!: mem_ok_set_table split: option.split)

text \<open>Whatever sequence of puts, updates, deletes, table creations and drops is issued to
  the in-memory client, its tables stay in order: names are unique and sorted, every table
  sits under its own name, and every table has one key string per item, no two the same.\<close>

theorem memory_always_ok: "mem_ok (fold mem_apply ops [])"
proof -
  have "mem_ok m \<Longrightarrow> mem_ok (fold mem_apply ops m)" for m
    by (induction ops arbitrary: m) (simp_all add: mem_apply_ok)
  moreover have "mem_ok []" by (simp add: mem_ok_def)
  ultimately show ?thesis by blast
qed

section \<open>Writing and reading back\<close>

lemma check_condition_none [simp]: "check_condition None b = None"
  by (simp add: check_condition_def)

text \<open>C38: In a memory whose tables are well formed, after a put that succeeds, a get on its table whose key has the
  key string of the put item returns that item, and every other get on any table returns what it returned
  before.  A get finds the key string in the order of its own key, the put made it in the order of the schema.\<close>

theorem put_then_get:
  assumes "mem_ok m" and "m_put_item r m = (Inr out, m')" and "find_table (pi_table_name r) m = Some t"
  shows "fst (m_get_item g m') =
    (if gi_table_name g = pi_table_name r \<and>
        key_string (gi_key g) = key_string (extract_key (pi_item r) (mt_schema t))
     then Inr \<lparr>go_item = Some (pi_item r), go_consumed_capacity = None\<rparr>
     else fst (m_get_item g m))"
proof -
  let ?k = "key_string (extract_key (pi_item r) (mt_schema t))"
  have m': "m' = set_table (pi_table_name r) (mt_put ?k (pi_item r) t) m"
    using assms(2,3) by (auto simp: m_put_item_def Let_def split: option.splits)
  have "table_ok t" using find_table_ok [OF assms(1,3)] by simp
  then show ?thesis using assms(3)
    by (auto simp: m' m_get_item_def find_set_table mstore.find_put split: option.splits)
qed

theorem put_then_get_witness:
  "fst (m_get_item \<lparr>gi_table_name = ''t'', gi_key = [(''a'', S ''x'')], gi_projection_expression = None,
       gi_expression_attribute_names = [], gi_consistent_read = False, gi_return_consumed_capacity = Rcc_none\<rparr>
     (snd (m_put_item \<lparr>pi_table_name = ''t'', pi_item = [(''v'', N ''7''), (''a'', S ''x'')],
         pi_condition_expression = None, pi_expression_attribute_names = [], pi_expression_attribute_values = [],
         pi_return_values = Rv_none, pi_return_consumed_capacity = Rcc_none\<rparr>
       [(''t'', \<lparr>mt_name = ''t'', mt_schema = \<lparr>hash_keys = [''a''], range_keys = []\<rparr>, mt_items = [], mt_keys = []\<rparr>)])))
   = Inr \<lparr>go_item = Some [(''v'', N ''7''), (''a'', S ''x'')], go_consumed_capacity = None\<rparr>"
proof -
  let ?t = "\<lparr>mt_name = ''t'', mt_schema = \<lparr>hash_keys = [''a''], range_keys = []\<rparr>, mt_items = [], mt_keys = []\<rparr>"
  let ?g = "\<lparr>gi_table_name = ''t'', gi_key = [(''a'', S ''x'')], gi_projection_expression = None,
       gi_expression_attribute_names = [], gi_consistent_read = False, gi_return_consumed_capacity = Rcc_none\<rparr>"
  let ?r = "\<lparr>pi_table_name = ''t'', pi_item = [(''v'', N ''7''), (''a'', S ''x'')],
         pi_condition_expression = None, pi_expression_attribute_names = [], pi_expression_attribute_values = [],
         pi_return_values = Rv_none, pi_return_consumed_capacity = Rcc_none\<rparr>"
  have ok: "mem_ok [(''t'', ?t)]" by (simp add: mem_ok_def table_ok_def)
  have f: "find_table ''t'' [(''t'', ?t)] = Some ?t" by (simp add: find_table_def)
  obtain out m' where p: "m_put_item ?r [(''t'', ?t)] = (Inr out, m')"
    using f by (simp add: m_put_item_def Let_def)
  show ?thesis using put_then_get [OF ok p, of ?t ?g] f p by (simp add: extract_key_def add_key_def)
qed

text \<open>
  The key the engine sends is sorted by attribute name, the key string of a put item follows
  the key schema.  On a table whose sort key is named before its partition key an item can
  be put and never be found.
\<close>

lemma sorted_key_not_found:
  "fst (m_get_item \<lparr>gi_table_name = ''t'', gi_key = [(''a'', S ''y''), (''p'', S ''x'')],
       gi_projection_expression = None, gi_expression_attribute_names = [], gi_consistent_read = False,
       gi_return_consumed_capacity = Rcc_none\<rparr>
     (snd (m_put_item \<lparr>pi_table_name = ''t'', pi_item = [(''p'', S ''x''), (''a'', S ''y'')],
         pi_condition_expression = None, pi_expression_attribute_names = [], pi_expression_attribute_values = [],
         pi_return_values = Rv_none, pi_return_consumed_capacity = Rcc_none\<rparr>
       [(''t'', \<lparr>mt_name = ''t'', mt_schema = \<lparr>hash_keys = [''p''], range_keys = [''a'']\<rparr>, mt_items = [], mt_keys = []\<rparr>)])))
   = Inr \<lparr>go_item = None, go_consumed_capacity = None\<rparr>"
  by code_simp

text \<open>An INSERT's put (whose condition demands that the key is absent) fails with the
  conditional check error and changes nothing when the key is present, and succeeds when it is
  not; an UPDATE or DELETE guarded by the existence of the key does the opposite.\<close>

theorem conditions_guard_writes:
  assumes "find_table (pi_table_name p) m = Some t" and "pi_condition_expression p = Some (''attribute_not_exists('' @ tok @ '')'')"
    and "find_table (di_table_name d) m = Some u" and "di_condition_expression d = Some (''attribute_exists('' @ tok @ '')'')"
    and "\<not> has_substring ''attribute_not_exists'' (''attribute_exists('' @ tok @ '')'')"
  shows "(if mt_find (key_string (extract_key (pi_item p) (mt_schema t))) t = None
      then \<exists>out. m_put_item p m = (Inr out, snd (m_put_item p m)) else m_put_item p m = (Inl ccf_error, m)) \<and>
    (if mt_find (key_string (di_key d)) u = None
      then m_delete_item d m = (Inl ccf_error, m) else \<exists>out. m_delete_item d m = (Inr out, snd (m_delete_item d m)))"
proof -
  have "has_substring ''attribute_not_exists'' (''attribute_not_exists('' @ tok @ '')'')"
    "has_substring ''attribute_exists'' (''attribute_exists('' @ tok @ '')'')" by simp_all
  then have "check_condition (pi_condition_expression p) b = (if b then Some ccf_error else None)"
    "check_condition (di_condition_expression d) b = (if b then None else Some ccf_error)" for b
    using assms(2,4,5) by (simp_all only: check_condition_def Let_def option.case simp_thms if_True if_False split: if_split)
      auto
  then show ?thesis using assms(1,3) by (simp add: m_put_item_def m_delete_item_def Let_def)
qed

theorem conditions_guard_writes_witness:
  "m_put_item \<lparr>pi_table_name = ''t'', pi_item = [(''a'', S ''x'')],
       pi_condition_expression = Some (''attribute_not_exists('' @ ''#aaaa1'' @ '')''),
       pi_expression_attribute_names = [(''#aaaa1'', ''a'')], pi_expression_attribute_values = [],
       pi_return_values = Rv_none, pi_return_consumed_capacity = Rcc_none\<rparr>
     [(''t'', \<lparr>mt_name = ''t'', mt_schema = \<lparr>hash_keys = [''a''], range_keys = []\<rparr>, mt_items = [[(''a'', S ''x'')]],
       mt_keys = [''a=S:x'' @ [CHR 0x1F]]\<rparr>)]
   = (Inl ccf_error, [(''t'', \<lparr>mt_name = ''t'', mt_schema = \<lparr>hash_keys = [''a''], range_keys = []\<rparr>,
       mt_items = [[(''a'', S ''x'')]], mt_keys = [''a=S:x'' @ [CHR 0x1F]]\<rparr>)])"
proof -
  let ?t = "\<lparr>mt_name = ''t'', mt_schema = \<lparr>hash_keys = [''a''], range_keys = []\<rparr>, mt_items = [[(''a'', S ''x'')]],
       mt_keys = [''a=S:x'' @ [CHR 0x1F]]\<rparr>"
  let ?p = "\<lparr>pi_table_name = ''t'', pi_item = [(''a'', S ''x'')],
       pi_condition_expression = Some (''attribute_not_exists('' @ ''#aaaa1'' @ '')''),
       pi_expression_attribute_names = [(''#aaaa1'', ''a'')], pi_expression_attribute_values = [],
       pi_return_values = Rv_none, pi_return_consumed_capacity = Rcc_none\<rparr>"
  let ?d = "\<lparr>di_table_name = ''t'', di_key = [(''a'', S ''x'')],
       di_condition_expression = Some (''attribute_exists('' @ ''#aaaa1'' @ '')''),
       di_expression_attribute_names = [(''#aaaa1'', ''a'')], di_expression_attribute_values = [],
       di_return_values = Rv_none, di_return_consumed_capacity = Rcc_none\<rparr>"
  have f: "find_table ''t'' [(''t'', ?t)] = Some ?t" by (simp add: find_table_def)
  have present: "mt_find (key_string (extract_key [(''a'', S ''x'')] (mt_schema ?t))) ?t = Some [(''a'', S ''x'')]" by code_simp
  have clean: "\<not> has_substring ''attribute_not_exists'' (''attribute_exists('' @ ''#aaaa1'' @ '')'')" by code_simp
  show ?thesis
    using conditions_guard_writes [of ?p "[(''t'', ?t)]" ?t "''#aaaa1''" ?d ?t] f present clean by simp
qed

section \<open>Key strings\<close>

fun key_scalar :: "value \<Rightarrow> bool" where
  "key_scalar (S s) = (CHR 0x1F \<notin> set s)"
| "key_scalar (N s) = (CHR 0x1F \<notin> set s)"
| "key_scalar (B s) = (CHR 0x1F \<notin> set s)"
| "key_scalar _ = False"

lemma value_key_clean: "key_scalar v \<Longrightarrow> CHR 0x1F \<notin> set (value_key v)"
  by (cases v) auto

lemma value_key_inject: "key_scalar v \<Longrightarrow> key_scalar u \<Longrightarrow> value_key v = value_key u \<Longrightarrow> v = u"
  by (cases v; cases u) auto

lemma separated_append_inject:
  "c \<notin> set a \<Longrightarrow> c \<notin> set b \<Longrightarrow> a @ c # x = b @ c # y \<Longrightarrow> a = b \<and> x = y"
proof (induction a arbitrary: b)
  case Nil
  then show ?case by (cases b) auto
next
  case (Cons z a)
  then show ?case by (cases b) auto
qed

text \<open>Two keys over the same attributes, all of whose values are strings, numbers or
  binaries without the separator character, have the same key string only if they are the same
  key, so no two items of a table are taken for one another.\<close>

theorem key_string_injective:
  assumes "map fst k1 = map fst k2" and "\<forall>kv\<in>set k1 \<union> set k2. key_scalar (snd kv)"
    and "key_string k1 = key_string k2"
  shows "k1 = k2"
  using assms
proof (induction k1 arbitrary: k2)
  case (Cons kv k1)
  then obtain u k2' where k2: "k2 = (fst kv, u) # k2'" by (cases k2) auto
  obtain n v where kv: "kv = (n, v)" by fastforce
  have "value_key v @ CHR 0x1F # key_string k1 = value_key u @ CHR 0x1F # key_string k2'"
    using Cons.prems(3) k2 kv by (simp add: key_string_def)
  moreover have "key_scalar v" "key_scalar u" using Cons.prems(2) k2 kv by auto
  ultimately have "value_key v = value_key u \<and> key_string k1 = key_string k2'" and scalar: "key_scalar v" "key_scalar u"
    using separated_append_inject [of "CHR 0x1F" "value_key v" "value_key u"] value_key_clean by blast+
  then have "v = u" "key_string k1 = key_string k2'" using value_key_inject by blast+
  moreover have "k1 = k2'"
    by (rule Cons.IH) (use Cons.prems(1,2) k2 calculation(2) in auto)
  ultimately show ?case using k2 kv by simp
qed simp

theorem key_string_injective_witness:
  "[(''a'', S ''x'')] = [(''a'', S ''x'')] \<and> key_string [(''a'', S ''x'')] = key_string [(''a'', S ''x'')]"
  using key_string_injective [of "[(''a'', S ''x'')]" "[(''a'', S ''x'')]"] by simp

end
