(* ===== verification/Select_Exec.thy ===== *)
theory Select_Exec
  imports Select_Planner Rate_Limiter Memory_Client
begin

text \<open>
  Executing a SELECT (\<^verbatim>\<open>src/execute/select_executor.cpp\<close>): the planned request is issued, a
  Query or Scan is paged to its end, the pages' items and capacity are collected and, under a
  rate limit, reads are metered between pages.  Paging is a partial function: the service may
  go on returning cursors for ever.  The relation \<open>pages\<close> is what the service answers when
  asked page after page; the loop is shown to return exactly what \<open>pages\<close> gives.
\<close>

section \<open>The totalizer\<close>

record totalizer =
  tz_seen :: bool
  tz_total :: consumed_capacity

definition new_totalizer :: totalizer where
  "new_totalizer = \<lparr>tz_seen = False, tz_total = \<lparr>cc_table_name = None, cc_capacity_units = None,
     cc_read_capacity_units = None, cc_write_capacity_units = None\<rparr>\<rparr>"

definition accumulate :: "real option \<Rightarrow> real option \<Rightarrow> real option" where
  "accumulate sink v = (case v of None \<Rightarrow> sink | Some x \<Rightarrow> Some ((case sink of None \<Rightarrow> 0 | Some y \<Rightarrow> y) + x))"

definition totalizer_add :: "totalizer \<Rightarrow> consumed_capacity option \<Rightarrow> totalizer" where
  "totalizer_add tz cc =
     (case cc of
        None \<Rightarrow> tz
      | Some c \<Rightarrow>
          (let t = tz_total tz
           in \<lparr>tz_seen = True,
               tz_total = \<lparr>cc_table_name = (if cc_table_name t = None then cc_table_name c else cc_table_name t),
                 cc_capacity_units = accumulate (cc_capacity_units t) (cc_capacity_units c),
                 cc_read_capacity_units = accumulate (cc_read_capacity_units t) (cc_read_capacity_units c),
                 cc_write_capacity_units = accumulate (cc_write_capacity_units t) (cc_write_capacity_units c)\<rparr>\<rparr>))"

definition totalizer_get :: "totalizer \<Rightarrow> consumed_capacity option" where
  "totalizer_get tz = (if tz_seen tz then Some (tz_total tz) else None)"

section \<open>The optional limiter\<close>

text \<open>\<open>std::optional<RateLimiter> limiter\<close> and its guarded uses.\<close>

definition lim_make :: "'h host_ops \<Rightarrow> rate_limit option \<Rightarrow> ('w, 'h, rate_limiter option) exec" where
  "lim_make ops rl =
     (case rl of
        None \<Rightarrow> return_e None
      | Some r \<Rightarrow> on_host (\<lambda>h. let (l, h') = make_limiter ops (rl_rcu r) (rl_wcu r) h in Some (Some l, h')))"

definition lim_wait ::
    "('h host_ops \<Rightarrow> rate_limiter \<Rightarrow> 'h \<Rightarrow> (rate_limiter \<times> 'h) option) \<Rightarrow> 'h host_ops \<Rightarrow>
     rate_limiter option \<Rightarrow> ('w, 'h, rate_limiter option) exec" where
  "lim_wait limit ops lmt =
     (case lmt of
        None \<Rightarrow> return_e None
      | Some l \<Rightarrow> on_host (\<lambda>h. case limit ops l h of None \<Rightarrow> None | Some (l', h') \<Rightarrow> Some (Some l', h')))"

section \<open>Paging\<close>

text \<open>
  The loop over pages, for Query and Scan alike: \<open>fetch\<close> issues the request with the given
  exclusive start key.
\<close>

partial_function (option) page_loop ::
    "'h host_ops \<Rightarrow> (value_map option \<Rightarrow> ('w, page_out) client_call) \<Rightarrow> value_map option \<Rightarrow>
     item_row list \<Rightarrow> totalizer \<Rightarrow> rate_limiter option \<Rightarrow> ('w, 'h, item_row list \<times> totalizer) exec" where
  "page_loop ops fetch start items tz lmt s =
     bind_e (call (fetch start))
       (\<lambda>out s. let items' = items @ po_items out;
                   tz' = totalizer_add tz (po_consumed_capacity out);
                   lmt' = map_option (consume_reads (po_consumed_capacity out)) lmt
         in if po_last_evaluated_key out = None \<or> po_last_evaluated_key out = Some []
            then return_e (items', tz') s
            else bind_e (lim_wait readlimit ops lmt')
              (\<lambda>lmt'' s. page_loop ops fetch (po_last_evaluated_key out) items' tz' lmt'' s) s) s"

section \<open>The executor\<close>

definition query_fetch :: "'w iddb_client \<Rightarrow> query_in \<Rightarrow> value_map option \<Rightarrow> ('w, page_out) client_call" where
  "query_fetch client r start = query client (r\<lparr>qi_exclusive_start_key := start\<rparr>)"

definition scan_fetch :: "'w iddb_client \<Rightarrow> scan_in \<Rightarrow> value_map option \<Rightarrow> ('w, page_out) client_call" where
  "scan_fetch client r start = scan client (r\<lparr>si_exclusive_start_key := start\<rparr>)"

definition select_finish :: "select_cmd \<Rightarrow> item_row list \<times> totalizer \<Rightarrow> exec_outcome" where
  "select_finish cmd res =
     SelectOutcome \<lparr>so_items = fst res,
       so_consumed_capacity = (if sel_rcc cmd \<noteq> Ast_rcc_none then totalizer_get (snd res) else None)\<rparr>"

definition run_get_item :: "'w iddb_client \<Rightarrow> get_item_in \<Rightarrow> ('w, 'h, item_row list \<times> totalizer) exec" where
  "run_get_item client r =
     bind_e (call (get_item client r))
       (\<lambda>out. return_e (case go_item out of None \<Rightarrow> [] | Some item \<Rightarrow> [item],
          totalizer_add new_totalizer (go_consumed_capacity out)))"

definition execute_select ::
    "'h host_ops \<Rightarrow> 'w iddb_client \<Rightarrow> select_cmd \<Rightarrow> string \<Rightarrow> ('w, 'h, exec_outcome) exec" where
  "execute_select ops client cmd alias_prefix =
     bind_e (plan_select client cmd alias_prefix)
       (\<lambda>plan. case plan of
          PlanSearchVectors r \<Rightarrow>
            bind_e (call (search_vectors client r))
              (\<lambda>out. return_e (VectorSearchOutcome (svo_results out)
                 (if sel_rcc cmd \<noteq> Ast_rcc_none then svo_vector_capacity out else None)))
        | PlanGetItem r \<Rightarrow>
            bind_e (lim_make ops (sel_ratelimit cmd))
              (\<lambda>_. bind_e (run_get_item client r) (\<lambda>res. return_e (select_finish cmd res)))
        | PlanQuery r \<Rightarrow>
            bind_e (lim_make ops (sel_ratelimit cmd))
              (\<lambda>lmt. bind_e (page_loop ops (query_fetch client r) None [] new_totalizer lmt)
                 (\<lambda>res. return_e (select_finish cmd res)))
        | PlanScan r \<Rightarrow>
            bind_e (lim_make ops (sel_ratelimit cmd))
              (\<lambda>lmt. bind_e (page_loop ops (scan_fetch client r) None [] new_totalizer lmt)
                 (\<lambda>res. return_e (select_finish cmd res))))"

definition explain_single :: "string \<Rightarrow> string \<Rightarrow> exec_outcome" where
  "explain_single api body = ExplainOutcome [\<lparr>eb_api_name = api, eb_body = body, eb_format = Pretty\<rparr>] None"

fun plan_explain :: "select_plan \<Rightarrow> string \<times> explain_request" where
  "plan_explain (PlanGetItem r) = (''GetItem'', ExplainGetItem r)"
| "plan_explain (PlanQuery r) = (''Query'', ExplainQuery r)"
| "plan_explain (PlanScan r) = (''Scan'', ExplainScan r)"
| "plan_explain (PlanSearchVectors r) = (''SearchVectors'', ExplainSearchVectors r)"

definition execute_select_explain ::
    "'w iddb_client \<Rightarrow> select_cmd \<Rightarrow> string \<Rightarrow> ('w, 'h, exec_outcome) exec" where
  "execute_select_explain client cmd alias_prefix =
     bind_e (plan_select client cmd alias_prefix)
       (\<lambda>plan. let (api_name, request) = plan_explain plan
         in bind_e (call (explain_of client request)) (\<lambda>body. return_e (explain_single api_name body)))"

section \<open>What the service answers, page after page\<close>

definition final_page :: "page_out \<Rightarrow> bool" where
  "final_page out \<longleftrightarrow> po_last_evaluated_key out = None \<or> po_last_evaluated_key out = Some []"

inductive pages ::
    "(value_map option \<Rightarrow> ('w, page_out) client_call) \<Rightarrow> value_map option \<Rightarrow> 'w \<Rightarrow>
     page_out list \<Rightarrow> error option \<Rightarrow> 'w \<Rightarrow> bool" for fetch where
  failed_page: "fetch start w = (Inl e, w') \<Longrightarrow> pages fetch start w [] (Some e) w'"
| last_page: "fetch start w = (Inr out, w') \<Longrightarrow> final_page out \<Longrightarrow> pages fetch start w [out] None w'"
| next_page: "fetch start w = (Inr out, w') \<Longrightarrow> \<not> final_page out \<Longrightarrow>
    pages fetch (po_last_evaluated_key out) w' outs err w'' \<Longrightarrow> pages fetch start w (out # outs) err w''"

inductive_cases pagesE: "pages fetch start w outs err w'"

lemma pages_deterministic:
  "pages fetch start w outs err w' \<Longrightarrow> pages fetch start w outs' err' w'' \<Longrightarrow>
     outs' = outs \<and> err' = err \<and> w'' = w'"
proof (induction arbitrary: outs' err' w'' rule: pages.induct)
  case (failed_page start w e w')
  from failed_page.prems failed_page.hyps show ?case by (cases rule: pagesE) auto
next
  case (last_page start w out w')
  from last_page.prems last_page.hyps show ?case by (cases rule: pagesE) auto
next
  case (next_page start w out w1 outs err w2)
  from next_page.prems next_page.hyps(1,2) obtain outs1 where "outs' = out # outs1"
    and "pages fetch (po_last_evaluated_key out) w1 outs1 err' w''"
    by (cases rule: pagesE) auto
  then show ?case using next_page.IH by blast
qed

definition pages_result ::
    "item_row list \<Rightarrow> totalizer \<Rightarrow> page_out list \<Rightarrow> error option \<Rightarrow> (item_row list \<times> totalizer) result" where
  "pages_result items tz outs err =
     (case err of
        Some e \<Rightarrow> Inl e
      | None \<Rightarrow> Inr (items @ concat (map po_items outs), foldl totalizer_add tz (map po_consumed_capacity outs)))"

lemma pages_result_Cons:
  "pages_result items tz (out # outs) err =
     pages_result (items @ po_items out) (totalizer_add tz (po_consumed_capacity out)) outs err"
  by (simp add: pages_result_def split: option.split)

section \<open>The loop returns what the service answers\<close>

text \<open>A wait changes the limiter and the host, nothing else.\<close>

lemma lim_wait_result:
  assumes "lim_wait limit ops lmt s = Some (r, t)"
  obtains lmt' h where "r = Inr lmt'" and "t = s\<lparr>host := h\<rparr>"
  using assms that [of _ "host s"]
  by (cases lmt) (auto simp: lim_wait_def return_e_def on_host_def intro: that split: option.splits prod.splits)

lemma page_loop_sound:
  assumes "page_loop ops fetch start items tz lmt s = Some (r, t)"
  shows "\<exists>outs err w h. pages fetch start (world s) outs err w \<and>
    t = s\<lparr>world := w, host := h\<rparr> \<and> r = pages_result items tz outs err"
proof -
  let ?Q = "\<lambda>ops fetch start items tz lmt s (rt :: _ \<times> ('a, 'b) exec_state). \<exists>outs err w h.
    pages fetch start (world s) outs err w \<and> snd rt = s\<lparr>world := w, host := h\<rparr> \<and>
    fst rt = pages_result items tz outs err"
  have "?Q ops fetch start items tz lmt s (r, t)"
  proof (rule page_loop.raw_induct [where P = ?Q, OF _ assms])
    fix rec ops fetch start items tz lmt s rt
    assume IH: "\<And>ops fetch start items tz lmt s rt. rec ops fetch start items tz lmt s = Some rt \<Longrightarrow>
        ?Q ops fetch start items tz lmt s rt"
      and step: "bind_e (call (fetch start))
       (\<lambda>out s. let items' = items @ po_items out;
                   tz' = totalizer_add tz (po_consumed_capacity out);
                   lmt' = map_option (consume_reads (po_consumed_capacity out)) lmt
         in if po_last_evaluated_key out = None \<or> po_last_evaluated_key out = Some []
            then return_e (items', tz') s
            else bind_e (lim_wait readlimit ops lmt')
              (\<lambda>lmt'' s. rec ops fetch (po_last_evaluated_key out) items' tz' lmt'' s) s) s = Some rt"
    obtain res w where f: "fetch start (world s) = (res, w)" by fastforce
    show "?Q ops fetch start items tz lmt s rt"
    proof (cases res)
      case (Inl e)
      then have "rt = (Inl e, s\<lparr>world := w\<rparr>)" using step f by (simp add: exec_simps)
      then show ?thesis using Inl f failed_page [of fetch start "world s" e w]
        by (intro exI [of _ "[]"] exI [of _ "Some e"] exI [of _ w] exI [of _ "host s"])
          (simp add: pages_result_def)
    next
      case (Inr out)
      let ?items = "items @ po_items out" and ?tz = "totalizer_add tz (po_consumed_capacity out)"
      show ?thesis
      proof (cases "final_page out")
        case True
        then have "rt = (Inr (?items, ?tz), s\<lparr>world := w\<rparr>)"
          using step f Inr by (simp add: exec_simps final_page_def)
        then show ?thesis using Inr f True last_page [of fetch start "world s" out w]
          by (intro exI [of _ "[out]"] exI [of _ None] exI [of _ w] exI [of _ "host s"])
            (simp add: pages_result_def)
      next
        case False
        obtain r' t' where rt: "rt = (r', t')" by fastforce
        have "bind_e (lim_wait readlimit ops (map_option (consume_reads (po_consumed_capacity out)) lmt))
            (\<lambda>lmt'' s. rec ops fetch (po_last_evaluated_key out) ?items ?tz lmt'' s) (s\<lparr>world := w\<rparr>) = Some (r', t')"
          using step f Inr False rt by (auto simp: exec_simps final_page_def Let_def)
        then obtain lmt2 h where "rec ops fetch (po_last_evaluated_key out) ?items ?tz lmt2 (s\<lparr>world := w, host := h\<rparr>)
            = Some (r', t')"
          by (auto simp: bind_Some_iff elim!: lim_wait_result)
        from IH [OF this] obtain outs err w2 h2 where
          "pages fetch (po_last_evaluated_key out) w outs err w2"
          "t' = s\<lparr>world := w2, host := h2\<rparr>" "r' = pages_result ?items ?tz outs err" by auto
        then show ?thesis using next_page [OF _ False] f Inr rt
          by (intro exI [of _ "out # outs"] exI [of _ err] exI [of _ w2] exI [of _ h2])
            (simp add: pages_result_Cons)
      qed
    qed
  qed
  then show ?thesis by simp
qed

text \<open>
  With a steady host no wait is endless, so the loop returns as soon as the service's pages
  come to an end, and a rate limit changes nothing but the state of the host.
\<close>

definition sound_limiter :: "rate_limiter option \<Rightarrow> bool" where
  "sound_limiter lmt = (case lmt of None \<Rightarrow> True | Some l \<Rightarrow> 0 \<le> rcu l \<and> 0 \<le> wcu l)"

lemma sound_consume [simp]:
  "sound_limiter (map_option (consume_reads cc) lmt) = sound_limiter lmt"
  "sound_limiter (map_option (consume_writes cc) lmt) = sound_limiter lmt"
  by (cases lmt; simp add: sound_limiter_def consume_reads_def consume_writes_def)+

lemma bucket_limit_rates:
  assumes "readlimit ops l h = Some (l', h') \<or> writelimit ops l h = Some (l', h')"
  shows "rcu l' = rcu l \<and> wcu l' = wcu l"
  using assms limiter_step_ledger [of ops Readlimit l h l' h'] limiter_step_ledger [of ops Writelimit l h l' h']
  by (auto simp: ledger_def)

context steady_host
begin

lemma lim_wait_returns:
  assumes "sound_limiter lmt" and "limit = readlimit \<or> limit = writelimit"
  obtains lmt' h where "lim_wait limit ops lmt s = Some (Inr lmt', s\<lparr>host := h\<rparr>)" and "sound_limiter lmt'"
proof (cases lmt)
  case None
  then show ?thesis using that [of None "host s"] by (simp add: lim_wait_def return_e_def sound_limiter_def)
next
  case (Some l)
  then obtain l' h where "limit ops l (host s) = Some (l', h)"
    using assms readlimit_returns [of l "host s"] writelimit_returns [of l "host s"]
    by (force simp: sound_limiter_def)
  moreover from this have "sound_limiter (Some l')"
    using bucket_limit_rates [of ops l "host s" l' h] assms Some by (auto simp: sound_limiter_def)
  ultimately show ?thesis using that Some by (simp add: lim_wait_def on_host_def)
qed

lemma page_loop_complete:
  assumes "pages fetch start w outs err w'" and "sound_limiter lmt" and "world s = w"
  shows "\<exists>h. page_loop ops fetch start items tz lmt s =
    Some (pages_result items tz outs err, s\<lparr>world := w', host := h\<rparr>)"
  using assms
proof (induction arbitrary: items tz lmt s rule: pages.induct)
  case (failed_page start w e w')
  then have "page_loop ops fetch start items tz lmt s = Some (Inl e, s\<lparr>world := w'\<rparr>)"
    by (subst page_loop.simps) (simp add: exec_simps)
  then show ?case by (intro exI [of _ "host s"]) (simp add: pages_result_def)
next
  case (last_page start w out w')
  then have "page_loop ops fetch start items tz lmt s =
      Some (Inr (items @ po_items out, totalizer_add tz (po_consumed_capacity out)), s\<lparr>world := w'\<rparr>)"
    by (subst page_loop.simps) (simp add: exec_simps final_page_def)
  then show ?case by (intro exI [of _ "host s"]) (simp add: pages_result_def)
next
  case (next_page start w out w1 outs err w2)
  let ?items = "items @ po_items out" and ?tz = "totalizer_add tz (po_consumed_capacity out)"
  obtain lmt' h where wait: "lim_wait readlimit ops (map_option (consume_reads (po_consumed_capacity out)) lmt)
      (s\<lparr>world := w1\<rparr>) = Some (Inr lmt', s\<lparr>world := w1, host := h\<rparr>)" and "sound_limiter lmt'"
    using lim_wait_returns [of "map_option (consume_reads (po_consumed_capacity out)) lmt" readlimit "s\<lparr>world := w1\<rparr>"]
      next_page.prems by auto
  then obtain h' where "page_loop ops fetch (po_last_evaluated_key out) ?items ?tz lmt' (s\<lparr>world := w1, host := h\<rparr>)
      = Some (pages_result ?items ?tz outs err, s\<lparr>world := w2, host := h'\<rparr>)"
    using next_page.IH [of lmt' "s\<lparr>world := w1, host := h\<rparr>" ?items ?tz] by auto
  moreover have "call (fetch start) s = Some (Inr out, s\<lparr>world := w1\<rparr>)"
    using next_page.hyps(1) next_page.prems by (simp add: exec_simps)
  ultimately have "page_loop ops fetch start items tz lmt s =
      Some (pages_result ?items ?tz outs err, s\<lparr>world := w2, host := h'\<rparr>)"
    using next_page.hyps(2) wait by (subst page_loop.simps) (auto simp: exec_simps final_page_def Let_def)
  then show ?case unfolding pages_result_Cons by blast
qed

lemma page_loop_iff:
  assumes "sound_limiter lmt"
  shows "(\<exists>h. page_loop ops fetch start items tz lmt s = Some (r, s\<lparr>world := w, host := h\<rparr>)) \<longleftrightarrow>
    (\<exists>outs err. pages fetch start (world s) outs err w \<and> r = pages_result items tz outs err)"
proof
  assume "\<exists>h. page_loop ops fetch start items tz lmt s = Some (r, s\<lparr>world := w, host := h\<rparr>)"
  then obtain h where "page_loop ops fetch start items tz lmt s = Some (r, s\<lparr>world := w, host := h\<rparr>)" by blast
  from page_loop_sound [OF this] obtain outs err w' h' where
    p: "pages fetch start (world s) outs err w'" "s\<lparr>world := w, host := h\<rparr> = s\<lparr>world := w', host := h'\<rparr>"
    "r = pages_result items tz outs err" by blast
  then have "w = w'" by (metis exec_state.select_convs(1) exec_state.surjective exec_state.update_convs(1,2))
  then show "\<exists>outs err. pages fetch start (world s) outs err w \<and> r = pages_result items tz outs err"
    using p by blast
next
  assume "\<exists>outs err. pages fetch start (world s) outs err w \<and> r = pages_result items tz outs err"
  then obtain outs err where "pages fetch start (world s) outs err w" "r = pages_result items tz outs err" by blast
  then show "\<exists>h. page_loop ops fetch start items tz lmt s = Some (r, s\<lparr>world := w, host := h\<rparr>)"
    using page_loop_complete [OF _ assms, of fetch start "world s" outs err w s] by simp
qed

end

section \<open>Totals\<close>

definition present_sum :: "real option list \<Rightarrow> real option" where
  "present_sum os = (if \<forall>v\<in>set os. v = None then None
     else Some (sum_list (map (\<lambda>v. case v of None \<Rightarrow> 0 | Some x \<Rightarrow> x) os)))"

fun first_present :: "'a option list \<Rightarrow> 'a option" where
  "first_present [] = None"
| "first_present (v # os) = (case v of None \<Rightarrow> first_present os | Some x \<Rightarrow> Some x)"

definition reported :: "consumed_capacity option list \<Rightarrow> consumed_capacity list" where
  "reported ccs = concat (map (\<lambda>cc. case cc of None \<Rightarrow> [] | Some c \<Rightarrow> [c]) ccs)"

lemma absent_sum: "\<forall>v\<in>set os. v = None \<Longrightarrow> sum_list (map (\<lambda>v. case v of None \<Rightarrow> 0 | Some x \<Rightarrow> x) os) = (0::real)"
  by (induction os) auto

lemma accumulate_present_sum: "accumulate (present_sum os) v = present_sum (os @ [v])"
  by (cases v) (auto simp: absent_sum accumulate_def present_sum_def split: option.splits)

lemma first_present_snoc:
  "first_present (os @ [v]) = (case first_present os of None \<Rightarrow> v | Some x \<Rightarrow> Some x)"
  by (induction os) (auto split: option.splits)

definition capacity_of :: "consumed_capacity list \<Rightarrow> consumed_capacity" where
  "capacity_of cs = \<lparr>cc_table_name = first_present (map cc_table_name cs),
     cc_capacity_units = present_sum (map cc_capacity_units cs),
     cc_read_capacity_units = present_sum (map cc_read_capacity_units cs),
     cc_write_capacity_units = present_sum (map cc_write_capacity_units cs)\<rparr>"

lemma totalizer_fold:
  "foldl totalizer_add new_totalizer ccs = \<lparr>tz_seen = reported ccs \<noteq> [], tz_total = capacity_of (reported ccs)\<rparr>"
proof (induction ccs rule: rev_induct)
  case Nil
  then show ?case by (simp add: new_totalizer_def reported_def capacity_of_def present_sum_def)
next
  case (snoc cc ccs)
  then show ?case
    by (cases cc)
      (auto simp: totalizer_add_def reported_def capacity_of_def Let_def accumulate_present_sum
        first_present_snoc split: option.splits)
qed

section \<open>Properties of SELECT\<close>

text \<open>
  The fetch function of a paged plan; the outcome of a SELECT from the pages the service
  gives.
\<close>

fun plan_fetch :: "'w iddb_client \<Rightarrow> select_plan \<Rightarrow> (value_map option \<Rightarrow> ('w, page_out) client_call) option" where
  "plan_fetch client (PlanQuery r) = Some (query_fetch client r)"
| "plan_fetch client (PlanScan r) = Some (scan_fetch client r)"
| "plan_fetch client _ = None"

definition pages_outcome :: "select_cmd \<Rightarrow> page_out list \<Rightarrow> error option \<Rightarrow> exec_outcome result" where
  "pages_outcome cmd outs err =
     (case err of
        Some e \<Rightarrow> Inl e
      | None \<Rightarrow> (let ccs = reported (map po_consumed_capacity outs)
          in Inr (SelectOutcome \<lparr>so_items = concat (map po_items outs),
               so_consumed_capacity =
                 (if sel_rcc cmd \<noteq> Ast_rcc_none \<and> ccs \<noteq> [] then Some (capacity_of ccs) else None)\<rparr>)))"

definition sound_rates :: "rate_limit option \<Rightarrow> bool" where
  "sound_rates rl = (case rl of None \<Rightarrow> True | Some r \<Rightarrow> 0 \<le> rl_rcu r \<and> 0 \<le> rl_wcu r)"

lemma lim_make_result:
  obtains lmt h where "lim_make ops rl s = Some (Inr lmt, s\<lparr>host := h\<rparr>)"
    and "sound_rates rl \<Longrightarrow> sound_limiter lmt"
proof (cases rl)
  case None
  then show ?thesis using that [of None "host s"] by (simp add: lim_make_def return_e_def sound_limiter_def)
next
  case (Some r)
  obtain l h where "make_limiter ops (rl_rcu r) (rl_wcu r) (host s) = (l, h)" by fastforce
  then show ?thesis using that [of "Some l" h] Some
    by (auto simp: lim_make_def on_host_def sound_limiter_def sound_rates_def make_limiter_def split: prod.splits)
qed

lemma bind_return_Some:
  "bind_e m (\<lambda>x. return_e (g x)) t = Some (r, u) \<longleftrightarrow> (\<exists>q. m t = Some (q, u) \<and> r = map_sum id g q)"
proof -
  have "bind_e m (\<lambda>x. return_e (g x)) t = map_option (\<lambda>(q, u). (map_sum id g q, u)) (m t)"
    by (auto simp: bind_e_def return_e_def split: option.split sum.split)
  then show ?thesis by auto
qed

lemma execute_select_paged:
  assumes "plan_select client cmd prefix s = Some (Inr plan, s1)" and "plan_fetch client plan = Some fetch"
    and "lim_make ops (sel_ratelimit cmd) s1 = Some (Inr lmt, s2)"
  shows "execute_select ops client cmd prefix s =
    bind_e (page_loop ops fetch None [] new_totalizer lmt) (\<lambda>res. return_e (select_finish cmd res)) s2"
  using assms by (cases plan) (auto simp: execute_select_def exec_simps)

lemma finish_pages:
  "map_sum id (select_finish cmd) (pages_result [] new_totalizer outs err) =
     pages_outcome cmd outs err"
  by (auto simp: pages_result_def pages_outcome_def select_finish_def totalizer_fold totalizer_get_def Let_def
      split: option.split)

context steady_host
begin

lemma execute_select_pages:
  assumes "plan_select client cmd prefix s = Some (Inr plan, s1)" and "plan_fetch client plan = Some fetch"
    and "sound_rates (sel_ratelimit cmd)"
  shows "(\<exists>h. execute_select ops client cmd prefix s = Some (r, s1\<lparr>world := w, host := h\<rparr>)) \<longleftrightarrow>
    (\<exists>outs err. pages fetch None (world s1) outs err w \<and> r = pages_outcome cmd outs err)"
proof -
  obtain lmt h0 where lm: "lim_make ops (sel_ratelimit cmd) s1 = Some (Inr lmt, s1\<lparr>host := h0\<rparr>)"
    and sl: "sound_limiter lmt"
    using lim_make_result [of ops "sel_ratelimit cmd" s1] assms(3) by metis
  note run = execute_select_paged [OF assms(1,2) lm]
  have "(\<exists>h. execute_select ops client cmd prefix s = Some (r, s1\<lparr>world := w, host := h\<rparr>)) \<longleftrightarrow>
    (\<exists>q. (\<exists>h. page_loop ops fetch None [] new_totalizer lmt (s1\<lparr>host := h0\<rparr>) =
        Some (q, s1\<lparr>host := h0, world := w, host := h\<rparr>)) \<and>
      r = map_sum id (select_finish cmd) q)"
    unfolding run bind_return_Some by auto
  also have "\<dots> \<longleftrightarrow> (\<exists>q. (\<exists>outs err. pages fetch None (world s1) outs err w \<and> q = pages_result [] new_totalizer outs err) \<and>
      r = map_sum id (select_finish cmd) q)"
    using page_loop_iff [OF sl, of fetch None "[]" new_totalizer "s1\<lparr>host := h0\<rparr>"] by simp
  also have "\<dots> \<longleftrightarrow> (\<exists>outs err. pages fetch None (world s1) outs err w \<and> r = pages_outcome cmd outs err)"
    by (auto simp flip: finish_pages)
  finally show ?thesis .
qed

end

section \<open>Reads leave the world as the client leaves it\<close>

locale read_invariant = describe_invariant +
  assumes get_kept: "P w \<Longrightarrow> P (snd (get_item client gr w))"
    and query_kept: "P w \<Longrightarrow> P (snd (query client qr w))"
    and scan_kept: "P w \<Longrightarrow> P (snd (scan client sr w))"
    and search_kept: "P w \<Longrightarrow> P (snd (search_vectors client vr w))"
begin

lemma fetch_kept:
  "P w \<Longrightarrow> P (snd (query_fetch client qr start w))" "P w \<Longrightarrow> P (snd (scan_fetch client sr start w))"
  by (simp_all add: query_fetch_def scan_fetch_def query_kept scan_kept)

lemma pages_kept:
  "pages fetch start w outs err w' \<Longrightarrow> (\<And>start w. P w \<Longrightarrow> P (snd (fetch start w))) \<Longrightarrow> P w \<Longrightarrow> P w'"
  by (induction rule: pages.induct) (metis snd_conv)+

lemma page_loop_keeps:
  assumes "\<And>start w. P w \<Longrightarrow> P (snd (fetch start w))"
  shows "world_keeps P (page_loop ops fetch start items tz lmt)"
  unfolding keeps_def
proof (intro allI impI)
  fix s r t
  assume "P (world s)" and "page_loop ops fetch start items tz lmt s = Some (r, t)"
  from page_loop_sound [OF this(2)] obtain outs err w h where
    "pages fetch start (world s) outs err w" "t = s\<lparr>world := w, host := h\<rparr>" by blast
  then show "P (world t)" using pages_kept [OF _ assms] \<open>P (world s)\<close> by simp
qed

lemma lim_make_keeps: "world_keeps P (lim_make ops rl)"
  by (auto simp: lim_make_def split: option.split)

lemma execute_select_keeps: "world_keeps P (execute_select ops client cmd prefix)"
  unfolding execute_select_def run_get_item_def
  by (intro keeps_bind plan_select_keeps)
    (auto intro!: keeps_bind lim_make_keeps page_loop_keeps world_keeps_call
      simp: fetch_kept get_kept search_kept split: select_plan.split)

lemma execute_select_explain_keeps: "world_keeps P (execute_select_explain client cmd prefix)"
  unfolding execute_select_explain_def
  by (intro keeps_bind plan_select_keeps) (auto intro!: keeps_bind explain_keeps split: prod.split)

end

interpretation memory_reads: read_invariant memory_client "\<lambda>m. m = m0" for m0
  by unfold_locales
    (auto simp: m_describe_table_def m_get_item_def m_query_def m_scan_def default_search_vectors_def
      memory_client_def not_impl_def Let_def split: option.split)

text \<open>A SELECT, and an EXPLAIN SELECT, on the in-memory client changes no table, whatever
  access pattern it takes and whether or not it succeeds.\<close>

theorem select_changes_nothing:
  assumes "execute_select ops memory_client cmd prefix s = Some (r, t) \<or>
    execute_select_explain memory_client cmd prefix s = Some (r, t)"
  shows "world t = world s"
  using assms keepsD [OF memory_reads.execute_select_keeps, of s "world s" ops cmd prefix r t]
    keepsD [OF memory_reads.execute_select_explain_keeps, of s "world s" cmd prefix r t] by blast

definition sample_select :: "lexpr option \<Rightarrow> select_cmd" where
  "sample_select w = \<lparr>sel_consistent = False, sel_projection = [], sel_table = ''t'', sel_index = None,
     sel_where = w, sel_rcc = Ast_rcc_none, sel_ratelimit = None, sel_exists_mode = Exists_none,
     sel_search_vector = None, sel_topk = None\<rparr>"

definition sample_memory :: memory where
  "sample_memory = [(''t'', \<lparr>mt_name = ''t'', mt_schema = \<lparr>hash_keys = [''a''], range_keys = []\<rparr>,
     mt_items = [[(''a'', S ''x''), (''v'', N ''1'')], [(''a'', S ''y'')]],
     mt_keys = [''a=S:x'' @ [CHR 0x1F], ''a=S:y'' @ [CHR 0x1F]]\<rparr>)]"

definition sample_state :: "(memory, real) exec_state" where
  "sample_state = \<lparr>world = sample_memory, host = 0, alias_prefix_counter = 0, emitted = []\<rparr>"

lemma sample_plan:
  "plan_select memory_client (sample_select None) ''aaa'' sample_state =
     Some (Inr (PlanScan (scan_request (sample_select None) ''aaa'')), sample_state)"
  by (simp add: plan_select_def plan_classic_def sample_select_def get_key_schema_def choose_plan_def
      sample_state_def sample_memory_def exec_simps m_describe_table_def find_table_def key_schema_in_def
      described_def)

lemma sample_pages:
  "pages (scan_fetch memory_client (scan_request (sample_select None) ''aaa'')) None sample_memory
     [\<lparr>po_items = [[(''a'', S ''x''), (''v'', N ''1'')], [(''a'', S ''y'')]], po_last_evaluated_key = None,
       po_consumed_capacity = None\<rparr>] None sample_memory"
  by (rule last_page)
    (simp_all add: scan_fetch_def m_scan_def find_table_def sample_memory_def scan_request_def plan_projection_def
      sample_select_def project_def final_page_def)

text \<open>C29: A SELECT planned as a Query or Scan, with no rate limit or one whose rates are not negative, returns
  exactly what the service's pages give: all their items in order with the sum of the capacities they report (if
  the user asked for it), or the error of the page that failed; and it returns whenever the pages come to an end.
  This holds on any host whose clock does not go back and whose sleep takes at least the time asked for.  A rate
  limit with such rates changes nothing but the state of the host.\<close>

theorem select_returns_all_pages:
  assumes "steady_host ops"
    and "plan_select client cmd prefix s = Some (Inr plan, s1)" and "plan_fetch client plan = Some fetch"
    and "sound_rates (sel_ratelimit cmd)"
  shows "(\<exists>h. execute_select ops client cmd prefix s = Some (r, s1\<lparr>world := w, host := h\<rparr>)) \<longleftrightarrow>
    (\<exists>outs err. pages fetch None (world s1) outs err w \<and> r = pages_outcome cmd outs err)"
  using assms(2-4) by (rule steady_host.execute_select_pages [OF assms(1)])

theorem select_returns_all_pages_witness:
  "\<exists>h. execute_select default_host memory_client (sample_select None) ''aaa'' sample_state =
     Some (Inr (SelectOutcome \<lparr>so_items = [[(''a'', S ''x''), (''v'', N ''1'')], [(''a'', S ''y'')]],
       so_consumed_capacity = None\<rparr>), sample_state\<lparr>world := sample_memory, host := h\<rparr>)"
proof -
  have w: "world sample_state = sample_memory" by (simp add: sample_state_def)
  have "\<exists>h. execute_select default_host memory_client (sample_select None) ''aaa'' sample_state =
     Some (pages_outcome (sample_select None)
       [\<lparr>po_items = [[(''a'', S ''x''), (''v'', N ''1'')], [(''a'', S ''y'')]], po_last_evaluated_key = None,
         po_consumed_capacity = None\<rparr>] None, sample_state\<lparr>world := sample_memory, host := h\<rparr>)"
    by (subst select_returns_all_pages [OF default_steady.steady_host_axioms sample_plan])
      (use sample_pages w in \<open>auto simp: sound_rates_def sample_select_def\<close>)
  then show ?thesis by (simp add: pages_outcome_def reported_def sample_select_def)
qed

theorem select_changes_nothing_witness:
  "\<exists>r t. execute_select default_host memory_client (sample_select None) ''aaa'' sample_state = Some (r, t) \<and>
     world t = sample_memory"
proof -
  have "\<exists>h. execute_select default_host memory_client (sample_select None) ''aaa'' sample_state =
     Some (pages_outcome (sample_select None)
       [\<lparr>po_items = [[(''a'', S ''x''), (''v'', N ''1'')], [(''a'', S ''y'')]], po_last_evaluated_key = None,
         po_consumed_capacity = None\<rparr>] None, sample_state\<lparr>world := sample_memory, host := h\<rparr>)"
    by (subst default_steady.execute_select_pages [OF sample_plan])
      (use sample_pages in \<open>auto simp: sound_rates_def sample_select_def sample_state_def\<close>)
  then obtain r t where rt: "execute_select default_host memory_client (sample_select None) ''aaa'' sample_state = Some (r, t)"
    by blast
  from select_changes_nothing [OF disjI1, OF this] have "world t = sample_memory" by (simp add: sample_state_def)
  with rt show ?thesis by blast
qed

end
