(* ===== verification/Write_Exec.thy ===== *)
theory Write_Exec
  imports Select_Exec
begin

text \<open>
  INSERT/REPLACE, UPDATE/UPSERT and DELETE (\<^verbatim>\<open>src/execute/write_common.hpp\<close>,
  \<^verbatim>\<open>insert_executor.cpp\<close>, \<^verbatim>\<open>update_executor.cpp\<close>, \<^verbatim>\<open>delete_executor.cpp\<close>).  An update or
  delete whose clause fixes the full key is one conditional wr; any other one enumerates
  the keys with a Query or Scan and writes item by item.  What the two executors share is a
  definition of its own here: the single wr, the loop over a page's items, the loop over
  pages, and the EXPLAIN counterparts of these loops.
\<close>

section \<open>Shared pieces\<close>

fun to_client_return_value :: "ast_return_value \<Rightarrow> return_value" where
  "to_client_return_value Ast_rv_all_old = Rv_all_old"
| "to_client_return_value Ast_rv_all_new = Rv_all_new"
| "to_client_return_value Ast_rv_updated_old = Rv_updated_old"
| "to_client_return_value Ast_rv_updated_new = Rv_updated_new"
| "to_client_return_value Ast_rv_none = Rv_none"

datatype write_read_plan = WriteQuery query_in | WriteScan scan_in

definition project_base_keys :: "string \<Rightarrow> string \<Rightarrow> symtab \<Rightarrow> string \<times> symtab" where
  "project_base_keys base_pk base_rk st =
     (let (p, st1) = new_attribute base_pk st
      in if base_rk = [] then (p, st1)
         else (let (r, st2) = new_attribute base_rk st1 in (p @ '', '' @ r, st2)))"

definition build_write_read ::
    "string \<Rightarrow> string option \<Rightarrow> lexpr option \<Rightarrow> query_key_plan option \<Rightarrow> string \<Rightarrow> string \<Rightarrow> bool \<Rightarrow>
     symtab \<Rightarrow> write_read_plan" where
  "build_write_read table index wher qplan base_pk base_rk ratelimit st =
     (let rcc = (if ratelimit then Rcc_total else Rcc_none);
          (proj, st1) = project_base_keys base_pk base_rk st
      in case (qplan, wher) of
        (Some q, Some w) \<Rightarrow>
          (let (kce, st2) = with_table (where_key_condition w q) st1;
               (filt, st3) = with_table (where_query_filter w q) st2
           in WriteQuery \<lparr>qi_table_name = table, qi_index_name = index, qi_key_condition_expression = kce,
                qi_filter_expression = unless_empty filt, qi_projection_expression = Some proj,
                qi_expression_attribute_names = names_of st3, qi_expression_attribute_values = values_of st3,
                qi_consistent_read = False, qi_return_consumed_capacity = rcc, qi_exclusive_start_key = None\<rparr>)
      | _ \<Rightarrow>
          (let (filt, st2) = (case wher of
                 None \<Rightarrow> ('''', st1) | Some w \<Rightarrow> with_table (scan_filter_expression w) st1)
           in WriteScan \<lparr>si_table_name = table, si_index_name = index, si_filter_expression = unless_empty filt,
                si_projection_expression = Some proj, si_expression_attribute_names = names_of st2,
                si_expression_attribute_values = values_of st2, si_consistent_read = False,
                si_return_consumed_capacity = rcc, si_exclusive_start_key = None\<rparr>))"

definition row_key :: "item_row \<Rightarrow> value_map" where
  "row_key item = key_of (smap_insert_all [] item)"

fun read_fetch :: "'w iddb_client \<Rightarrow> write_read_plan \<Rightarrow> value_map option \<Rightarrow> ('w, page_out) client_call" where
  "read_fetch client (WriteQuery r) = query_fetch client r"
| "read_fetch client (WriteScan r) = scan_fetch client r"

fun read_explain :: "write_read_plan \<Rightarrow> value_map option \<Rightarrow> string \<times> explain_request" where
  "read_explain (WriteQuery r) start = (''Query'', ExplainQuery (r\<lparr>qi_exclusive_start_key := start\<rparr>))"
| "read_explain (WriteScan r) start = (''Scan'', ExplainScan (r\<lparr>si_exclusive_start_key := start\<rparr>))"

definition explain_block_of :: "string \<Rightarrow> string \<Rightarrow> explain_block" where
  "explain_block_of api body = \<lparr>eb_api_name = api, eb_body = body, eb_format = Pretty\<rparr>"

definition empty_acct :: "verb \<Rightarrow> bulk_write_outcome" where
  "empty_acct v = \<lparr>bw_verb = v, bw_read = 0, bw_modified = 0, bw_ccf = 0, bw_consumed_capacity = None,
     bw_returned_items = []\<rparr>"

text \<open>\<open>result->attributes.value_or(ItemRow{})\<close>, and the counters after one write has been answered.\<close>

definition returned_of :: "write_out \<Rightarrow> item_row" where
  "returned_of out = (case wo_attributes out of None \<Rightarrow> [] | Some item \<Rightarrow> item)"

definition count_modified :: "bool \<Rightarrow> write_out \<Rightarrow> bulk_write_outcome \<Rightarrow> bulk_write_outcome" where
  "count_modified want_rv out acct =
     acct\<lparr>bw_modified := bw_modified acct + 1,
       bw_returned_items := bw_returned_items acct @
         (if want_rv then [returned_of out] else [])\<rparr>"

definition count_ccf :: "bulk_write_outcome \<Rightarrow> bulk_write_outcome" where
  "count_ccf acct = acct\<lparr>bw_ccf := bw_ccf acct + 1\<rparr>"

text \<open>One write: wait, write, account; an error other than the failed condition is passed on.\<close>

definition write_one ::
    "'h host_ops \<Rightarrow> ('w, write_out) client_call \<Rightarrow> bool \<Rightarrow> bulk_write_outcome \<Rightarrow> rate_limiter option \<Rightarrow>
     ('w, 'h, bulk_write_outcome \<times> rate_limiter option) exec" where
  "write_one ops wr want_rv acct lmt =
     bind_e (lim_wait writelimit ops lmt)
       (\<lambda>lmt'. bind_e (attempt wr)
         (\<lambda>r. case r of
            Inr out \<Rightarrow> return_e (count_modified want_rv out acct,
              map_option (consume_writes (wo_consumed_capacity out)) lmt')
          | Inl e \<Rightarrow> (if err_code e = conditional_check_failed then return_e (count_ccf acct, lmt')
              else throw_e e)))"

fun bulk_items ::
    "'h host_ops \<Rightarrow> (value_map \<Rightarrow> ('w, write_out) client_call) \<Rightarrow> bool \<Rightarrow> item_row list \<Rightarrow>
     bulk_write_outcome \<Rightarrow> rate_limiter option \<Rightarrow> ('w, 'h, bulk_write_outcome \<times> rate_limiter option) exec" where
  "bulk_items ops wr want_rv [] acct lmt = return_e (acct, lmt)"
| "bulk_items ops wr want_rv (item # items) acct lmt =
     bind_e (write_one ops (wr (row_key item)) want_rv (acct\<lparr>bw_read := bw_read acct + 1\<rparr>) lmt)
       (\<lambda>(acct', lmt'). bulk_items ops wr want_rv items acct' lmt')"

partial_function (option) bulk_pages ::
    "'h host_ops \<Rightarrow> (value_map option \<Rightarrow> ('w, page_out) client_call) \<Rightarrow> (value_map \<Rightarrow> ('w, write_out) client_call) \<Rightarrow>
     bool \<Rightarrow> value_map option \<Rightarrow> bulk_write_outcome \<Rightarrow> rate_limiter option \<Rightarrow> ('w, 'h, bulk_write_outcome) exec" where
  "bulk_pages ops fetch wr want_rv start acct lmt s =
     bind_e (call (fetch start))
       (\<lambda>out. bind_e (bulk_items ops wr want_rv (po_items out) acct
                (map_option (consume_reads (po_consumed_capacity out)) lmt))
          (\<lambda>al s. if po_last_evaluated_key out = None \<or> po_last_evaluated_key out = Some []
             then return_e (fst al) s
             else bind_e (lim_wait readlimit ops (snd al))
               (\<lambda>lmt' s. bulk_pages ops fetch wr want_rv (po_last_evaluated_key out) (fst al) lmt' s) s)) s"

text \<open>The same loops under EXPLAIN: the reads are issued, the writes only serialized.\<close>

fun explain_items ::
    "'w iddb_client \<Rightarrow> string \<Rightarrow> (value_map \<Rightarrow> explain_request) \<Rightarrow> item_row list \<Rightarrow> explain_block list \<Rightarrow>
     ('w, 'h, explain_block list) exec" where
  "explain_items client api req [] blocks = return_e blocks"
| "explain_items client api req (item # items) blocks =
     bind_e (call (explain_of client (req (row_key item))))
       (\<lambda>body. explain_items client api req items (blocks @ [explain_block_of api body]))"

text \<open>\<open>announce\<close>: whether each page's read is serialized too (UPDATE) or not (DELETE).\<close>

definition announce_read ::
    "'w iddb_client \<Rightarrow> bool \<Rightarrow> write_read_plan \<Rightarrow> value_map option \<Rightarrow> explain_block list \<Rightarrow>
     ('w, 'h, explain_block list) exec" where
  "announce_read client announce plan start blocks =
     (if announce
      then (let (api, req) = read_explain plan start
            in bind_e (call (explain_of client req)) (\<lambda>body. return_e (blocks @ [explain_block_of api body])))
      else return_e blocks)"

partial_function (option) explain_pages ::
    "'w iddb_client \<Rightarrow> bool \<Rightarrow> write_read_plan \<Rightarrow> string \<Rightarrow> (value_map \<Rightarrow> explain_request) \<Rightarrow>
     value_map option \<Rightarrow> explain_block list \<Rightarrow> ('w, 'h, explain_block list) exec" where
  "explain_pages client announce plan api req start blocks s =
     bind_e (announce_read client announce plan start blocks)
       (\<lambda>blocks1. bind_e (call (read_fetch client plan start))
         (\<lambda>out. bind_e (explain_items client api req (po_items out) blocks1)
           (\<lambda>blocks2 s. if po_last_evaluated_key out = None \<or> po_last_evaluated_key out = Some []
              then return_e blocks2 s
              else explain_pages client announce plan api req (po_last_evaluated_key out) blocks2 s))) s"

text \<open>The write by full key.\<close>

definition single_write ::
    "'h host_ops \<Rightarrow> 'w iddb_client \<Rightarrow> bool \<Rightarrow> string \<Rightarrow> explain_request \<Rightarrow> ('w, write_out) client_call \<Rightarrow>
     verb \<Rightarrow> bool \<Rightarrow> rate_limiter option \<Rightarrow> ('w, 'h, unit) exec" where
  "single_write ops client explain api req wr v want_rv lmt =
     (if explain
      then bind_e (call (explain_of client req)) (\<lambda>body. emit (explain_single api body))
      else bind_e (write_one ops wr want_rv (empty_acct v) lmt) (\<lambda>al. emit (BulkWriteOutcome (fst al))))"

text \<open>The Query plan of an enumeration: against the index if one is named, else the base table.\<close>

definition enumeration_plan ::
    "'w iddb_client \<Rightarrow> string \<Rightarrow> string option \<Rightarrow> lexpr option \<Rightarrow> resolved_key_schema \<Rightarrow>
     ('w, 'h, query_key_plan option) exec" where
  "enumeration_plan client table index wher base =
     bind_e (case index of None \<Rightarrow> return_e base | Some ix \<Rightarrow> get_key_schema client table ix)
       (\<lambda>ks. return_e (case wher of None \<Rightarrow> None | Some w \<Rightarrow> plan_query w (rks_pk ks) (rks_rk ks)))"

section \<open>INSERT and REPLACE\<close>

fun validate_rows :: "nat \<Rightarrow> string list \<Rightarrow> value list list \<Rightarrow> unit result" where
  "validate_rows row columns [] = Inr ()"
| "validate_rows row columns (r # rows) =
     (if length r \<noteq> length columns
      then fail_with invalid_argument
        (''Unequal number of column names ('' @ to_string (length columns) @ '') and values ('' @
         to_string (length r) @ '') in tuple '' @ to_string (row + 1))
      else validate_rows (row + 1) columns rows)"

definition validate_insert_rows :: "insert_cmd \<Rightarrow> unit result" where
  "validate_insert_rows cmd = validate_rows 0 (in_columns cmd) (in_rows cmd)"

definition put_request :: "insert_cmd \<Rightarrow> value list \<Rightarrow> string option \<Rightarrow> attribute_names \<Rightarrow> put_item_in" where
  "put_request cmd row cond names =
     \<lparr>pi_table_name = in_table_name cmd, pi_item = zip (in_columns cmd) row, pi_condition_expression = cond,
      pi_expression_attribute_names = names, pi_expression_attribute_values = [],
      pi_return_values = to_client_return_value (in_return_value cmd),
      pi_return_consumed_capacity = (if in_ratelimit cmd \<noteq> None then Rcc_total else Rcc_none)\<rparr>"

definition make_put_request :: "insert_cmd \<Rightarrow> value list \<Rightarrow> string \<Rightarrow> ('w, 'h, put_item_in) exec" where
  "make_put_request cmd row pk =
     (if in_insert cmd
      then bind_e next_alias_prefix
        (\<lambda>prefix. let (tok, st) = new_attribute pk (new_symtab prefix)
           in return_e (put_request cmd row (Some (''attribute_not_exists('' @ tok @ '')'')) (get_names st)))
      else return_e (put_request cmd row None []))"

definition row_outcome :: "insert_cmd \<Rightarrow> write_out \<Rightarrow> exec_outcome" where
  "row_outcome cmd out =
     WriteOutcome [if in_insert cmd then ''INSERT'' else ''REPLACE'']
       (if in_return_value cmd \<noteq> Ast_rv_none then [Some (returned_of out)] else [])"

fun insert_loop ::
    "'h host_ops \<Rightarrow> 'w iddb_client \<Rightarrow> insert_cmd \<Rightarrow> string \<Rightarrow> value list list \<Rightarrow> rate_limiter option \<Rightarrow>
     ('w, 'h, unit) exec" where
  "insert_loop ops client cmd pk [] lmt = return_e ()"
| "insert_loop ops client cmd pk (row # rows) lmt =
     bind_e (make_put_request cmd row pk)
       (\<lambda>request. bind_e (call (put_item client request))
         (\<lambda>out. bind_e (emit (row_outcome cmd out))
           (\<lambda>_. bind_e (lim_wait writelimit ops (map_option (consume_writes (wo_consumed_capacity out)) lmt))
             (\<lambda>lmt'. insert_loop ops client cmd pk rows lmt'))))"

definition execute_insert_streaming :: "'h host_ops \<Rightarrow> 'w iddb_client \<Rightarrow> insert_cmd \<Rightarrow> ('w, 'h, unit) exec" where
  "execute_insert_streaming ops client cmd =
     bind_e (get_key_schema client (in_table_name cmd) '''')
       (\<lambda>schema. bind_e (lift_e (validate_insert_rows cmd))
         (\<lambda>_. bind_e (lim_make ops (in_ratelimit cmd))
           (\<lambda>lmt. insert_loop ops client cmd (first_or_empty (rks_pk schema)) (in_rows cmd) lmt)))"

fun explain_insert_loop ::
    "'w iddb_client \<Rightarrow> insert_cmd \<Rightarrow> string \<Rightarrow> value list list \<Rightarrow> explain_block list \<Rightarrow>
     ('w, 'h, explain_block list) exec" where
  "explain_insert_loop client cmd pk [] blocks = return_e blocks"
| "explain_insert_loop client cmd pk (row # rows) blocks =
     bind_e (make_put_request cmd row pk)
       (\<lambda>request. bind_e (call (explain_of client (ExplainPutItem request)))
         (\<lambda>body. explain_insert_loop client cmd pk rows (blocks @ [explain_block_of ''PutItem'' body])))"

definition execute_insert_explain :: "'w iddb_client \<Rightarrow> insert_cmd \<Rightarrow> ('w, 'h, exec_outcome) exec" where
  "execute_insert_explain client cmd =
     bind_e (get_key_schema client (in_table_name cmd) '''')
       (\<lambda>schema. bind_e (lift_e (validate_insert_rows cmd))
         (\<lambda>_. bind_e (explain_insert_loop client cmd (first_or_empty (rks_pk schema)) (in_rows cmd) [])
           (\<lambda>blocks. return_e (ExplainOutcome blocks None))))"

section \<open>UPDATE and UPSERT\<close>

text \<open>
  A SET element; \<open>if_not_exists\<close> always comes with its value, which the code dereferences
  unchecked.
\<close>

definition serialize_set_element :: "update_set_element \<Rightarrow> symtab \<Rightarrow> string \<times> symtab" where
  "serialize_set_element elem st =
     (let (lhs, st1) = new_attribute (us_lhs elem) st;
          rv = lhs @ '' = '';
          (rv, st2) =
            (if us_rhs_attribute elem \<noteq> [] then
               (let (a, st') = new_attribute (us_rhs_attribute elem) st1 in (rv @ a, st'))
             else if us_if_not_exists_lhs elem \<noteq> [] then
               (let (a, st') = new_attribute (us_if_not_exists_lhs elem) st1;
                    (v, st'') = new_value (the (us_if_not_exists_value elem)) st'
                in (rv @ ''if_not_exists('' @ a @ '','' @ v @ '')'', st''))
             else (rv, st1));
          rv = rv @ us_op elem
      in case us_rhs_value elem of
           None \<Rightarrow> (rv, st2)
         | Some val \<Rightarrow> (let (v, st3) = new_value val st2 in (rv @ v, st3)))"

fun serialize_each :: "('a \<Rightarrow> symtab \<Rightarrow> string \<times> symtab) \<Rightarrow> 'a list \<Rightarrow> symtab \<Rightarrow> string list \<times> symtab" where
  "serialize_each f [] st = ([], st)"
| "serialize_each f (x # xs) st =
     (let (s, st1) = f x st; (ss, st2) = serialize_each f xs st1 in (s # ss, st2))"

definition update_expression_of :: "update_cmd \<Rightarrow> symtab \<Rightarrow> string \<times> symtab" where
  "update_expression_of cmd st =
     (if up_mutation cmd = Mutation_set
      then (let (ss, st') = serialize_each serialize_set_element (up_set cmd) st
            in (''SET '' @ join_with '', '' ss, st'))
      else (let (ss, st') = serialize_each new_attribute (up_remove cmd) st
            in (''REMOVE '' @ join_with '', '' ss, st')))"

definition make_update_request :: "update_cmd \<Rightarrow> string \<Rightarrow> string \<Rightarrow> symtab \<Rightarrow> update_item_in" where
  "make_update_request cmd pk rk st =
     (let (expr, st1) = update_expression_of cmd st;
          (cond, st2) = (if up_upsert cmd then ('''', st1)
             else (let (tok, st') = new_attribute pk st1 in (''attribute_exists('' @ tok @ '')'', st')));
          (cond, st3) =
            (case up_where cmd of
               None \<Rightarrow> (cond, st2)
             | Some w \<Rightarrow>
                 (let (qf, st') = with_table (where_condition_check w pk rk) st2
                  in (if qf = [] then cond else if cond = [] then qf else cond @ '' AND '' @ qf, st')))
      in \<lparr>ui_table_name = up_table cmd, ui_key = [], ui_update_expression = expr,
          ui_condition_expression = unless_empty cond, ui_expression_attribute_names = names_of st3,
          ui_expression_attribute_values = values_of st3,
          ui_return_values = to_client_return_value (up_return_value cmd),
          ui_return_consumed_capacity = (if up_ratelimit cmd \<noteq> None then Rcc_total else Rcc_none)\<rparr>)"

definition update_with_key :: "update_item_in \<Rightarrow> value_map \<Rightarrow> update_item_in" where
  "update_with_key r key = r\<lparr>ui_key := key\<rparr>"

definition update_verb :: "update_cmd \<Rightarrow> verb" where
  "update_verb cmd = (if up_upsert cmd then Verb_upsert else Verb_update)"

definition update_bulk ::
    "'h host_ops \<Rightarrow> 'w iddb_client \<Rightarrow> update_cmd \<Rightarrow> bool \<Rightarrow> resolved_key_schema \<Rightarrow> update_item_in \<Rightarrow>
     rate_limiter option \<Rightarrow> ('w, 'h, unit) exec" where
  "update_bulk ops client cmd explain base template lmt =
     bind_e (enumeration_plan client (up_table cmd) (up_index cmd) (up_where cmd) base)
       (\<lambda>qplan. bind_e next_alias_prefix
         (\<lambda>prefix. let plan = build_write_read (up_table cmd) (up_index cmd) (up_where cmd) qplan
                (first_or_empty (rks_pk base)) (first_or_empty (rks_rk base)) (up_ratelimit cmd \<noteq> None)
                (new_symtab prefix)
           in if explain
              then bind_e (explain_pages client True plan ''UpdateItem''
                     (\<lambda>key. ExplainUpdateItem (update_with_key template key)) None [])
                   (\<lambda>blocks. emit (ExplainOutcome blocks None))
              else bind_e (bulk_pages ops (read_fetch client plan)
                     (\<lambda>key. update_item client (update_with_key template key))
                     (up_return_value cmd \<noteq> Ast_rv_none) None
                     (empty_acct (update_verb cmd)) lmt)
                   (\<lambda>acct. emit (BulkWriteOutcome acct))))"

definition execute_update :: "'h host_ops \<Rightarrow> 'w iddb_client \<Rightarrow> update_cmd \<Rightarrow> bool \<Rightarrow> ('w, 'h, unit) exec" where
  "execute_update ops client cmd explain =
     bind_e (get_key_schema client (up_table cmd) '''')
       (\<lambda>base. bind_e next_alias_prefix
         (\<lambda>prefix. let template = make_update_request cmd (first_or_empty (rks_pk base))
                (first_or_empty (rks_rk base)) (new_symtab prefix)
           in bind_e (if explain then return_e None else lim_make ops (up_ratelimit cmd))
             (\<lambda>lmt. case up_where cmd of
                Some w \<Rightarrow>
                  (if can_update_item w (rks_pk base) (rks_rk base)
                   then (let request = update_with_key template (key_of (where_gud_key w (rks_pk base) (rks_rk base)))
                         in single_write ops client explain ''UpdateItem'' (ExplainUpdateItem request)
                              (update_item client request)
                              (update_verb cmd)
                              (up_return_value cmd \<noteq> Ast_rv_none) lmt)
                   else update_bulk ops client cmd explain base template lmt)
              | None \<Rightarrow> update_bulk ops client cmd explain base template lmt)))"

section \<open>DELETE\<close>

definition make_delete_request :: "delete_cmd \<Rightarrow> string \<Rightarrow> string \<Rightarrow> symtab \<Rightarrow> delete_item_in" where
  "make_delete_request cmd pk rk st =
     (let (cond, st1) = (case de_where cmd of
            None \<Rightarrow> ('''', st) | Some w \<Rightarrow> with_table (where_condition_check w pk rk) st)
      in \<lparr>di_table_name = de_table cmd, di_key = [], di_condition_expression = unless_empty cond,
          di_expression_attribute_names = names_of st1, di_expression_attribute_values = values_of st1,
          di_return_values = to_client_return_value (de_return_value cmd),
          di_return_consumed_capacity = (if de_ratelimit cmd \<noteq> None then Rcc_total else Rcc_none)\<rparr>)"

definition delete_with_key :: "delete_item_in \<Rightarrow> value_map \<Rightarrow> delete_item_in" where
  "delete_with_key r key = r\<lparr>di_key := key\<rparr>"

text \<open>EXPLAIN DELETE: the read once, then, for a Scan only, the writes of what it returns.\<close>

definition explain_delete_bulk ::
    "'w iddb_client \<Rightarrow> write_read_plan \<Rightarrow> delete_item_in \<Rightarrow> ('w, 'h, unit) exec" where
  "explain_delete_bulk client plan template =
     bind_e (announce_read client True plan None [])
       (\<lambda>blocks. case plan of
          WriteQuery r \<Rightarrow> emit (ExplainOutcome blocks None)
        | WriteScan r \<Rightarrow>
            bind_e (explain_pages client False plan ''DeleteItem''
                (\<lambda>key. ExplainDeleteItem (delete_with_key template key)) None blocks)
              (\<lambda>blocks'. emit (ExplainOutcome blocks' None)))"

definition delete_bulk ::
    "'h host_ops \<Rightarrow> 'w iddb_client \<Rightarrow> delete_cmd \<Rightarrow> bool \<Rightarrow> resolved_key_schema \<Rightarrow> delete_item_in \<Rightarrow>
     rate_limiter option \<Rightarrow> ('w, 'h, unit) exec" where
  "delete_bulk ops client cmd explain base template lmt =
     bind_e (enumeration_plan client (de_table cmd) (de_index cmd) (de_where cmd) base)
       (\<lambda>qplan. bind_e next_alias_prefix
         (\<lambda>prefix. let plan = build_write_read (de_table cmd) (de_index cmd) (de_where cmd) qplan
                (first_or_empty (rks_pk base)) (first_or_empty (rks_rk base)) (de_ratelimit cmd \<noteq> None)
                (new_symtab prefix)
           in if explain then explain_delete_bulk client plan template
              else bind_e (bulk_pages ops (read_fetch client plan)
                     (\<lambda>key. delete_item client (delete_with_key template key))
                     (de_return_value cmd \<noteq> Ast_rv_none) None (empty_acct Verb_del) lmt)
                   (\<lambda>acct. emit (BulkWriteOutcome acct))))"

definition execute_delete :: "'h host_ops \<Rightarrow> 'w iddb_client \<Rightarrow> delete_cmd \<Rightarrow> bool \<Rightarrow> ('w, 'h, unit) exec" where
  "execute_delete ops client cmd explain =
     bind_e (get_key_schema client (de_table cmd) '''')
       (\<lambda>base. bind_e next_alias_prefix
         (\<lambda>prefix. let template = make_delete_request cmd (first_or_empty (rks_pk base))
                (first_or_empty (rks_rk base)) (new_symtab prefix)
           in bind_e (if explain then return_e None else lim_make ops (de_ratelimit cmd))
             (\<lambda>lmt. case de_where cmd of
                Some w \<Rightarrow>
                  (if can_delete_item w (rks_pk base) (rks_rk base)
                   then (let request = delete_with_key template (key_of (where_gud_key w (rks_pk base) (rks_rk base)))
                         in single_write ops client explain ''DeleteItem'' (ExplainDeleteItem request)
                              (delete_item client request) Verb_del (de_return_value cmd \<noteq> Ast_rv_none) lmt)
                   else delete_bulk ops client cmd explain base template lmt)
              | None \<Rightarrow> delete_bulk ops client cmd explain base template lmt)))"

section \<open>A page of writes\<close>

text \<open>
  What the client answers to the writes of a list of items: per item the response, or
  \<open>None\<close> for a failed condition, up to the first other error.
\<close>

fun write_all ::
    "(value_map \<Rightarrow> ('w, write_out) client_call) \<Rightarrow> item_row list \<Rightarrow> 'w \<Rightarrow> write_out option list \<times> error option \<times> 'w" where
  "write_all wr [] w = ([], None, w)"
| "write_all wr (item # items) w =
     (case wr (row_key item) w of
        (Inr out, w1) \<Rightarrow> (let (rs, err, w2) = write_all wr items w1 in (Some out # rs, err, w2))
      | (Inl e, w1) \<Rightarrow>
          (if err_code e = conditional_check_failed
           then (let (rs, err, w2) = write_all wr items w1 in (None # rs, err, w2))
           else ([], Some e, w1)))"

definition successes :: "write_out option list \<Rightarrow> write_out list" where
  "successes rs = concat (map (\<lambda>r. case r of None \<Rightarrow> [] | Some out \<Rightarrow> [out]) rs)"

definition acct_add :: "bool \<Rightarrow> write_out option list \<Rightarrow> bulk_write_outcome \<Rightarrow> bulk_write_outcome" where
  "acct_add want_rv rs acct =
     acct\<lparr>bw_read := bw_read acct + length rs,
       bw_modified := bw_modified acct + length (successes rs),
       bw_ccf := bw_ccf acct + length (filter (\<lambda>r. r = None) rs),
       bw_returned_items := bw_returned_items acct @ (if want_rv then map returned_of (successes rs) else [])\<rparr>"

lemma successes_simps [simp]:
  "successes [] = []" "successes (None # rs) = successes rs" "successes (Some out # rs) = out # successes rs"
  "successes (rs @ rs') = successes rs @ successes rs'"
  by (simp_all add: successes_def)

lemma successes_and_ccf: "length (successes rs) + length (filter (\<lambda>r. r = None) rs) = length rs"
  by (induction rs) (auto split: option.splits simp: successes_def)

lemma acct_add_simps [simp]:
  "acct_add want_rv [] acct = acct"
  "acct_add want_rv (rs @ rs') acct = acct_add want_rv rs' (acct_add want_rv rs acct)"
  by (simp_all add: acct_add_def)

lemma acct_add_Cons:
  "acct_add want_rv (Some out # rs) acct =
     acct_add want_rv rs (count_modified want_rv out (acct\<lparr>bw_read := bw_read acct + 1\<rparr>))"
  "acct_add want_rv (None # rs) acct =
     acct_add want_rv rs (count_ccf (acct\<lparr>bw_read := bw_read acct + 1\<rparr>))"
  by (simp_all add: acct_add_def count_modified_def count_ccf_def returned_of_def)

lemma write_one_sound:
  assumes "write_one ops wr want_rv acct lmt s = Some (r, t)"
  shows "\<exists>res w h lmt'. wr (world s) = (res, w) \<and> t = s\<lparr>world := w, host := h\<rparr> \<and>
    r = (case res of
           Inr out \<Rightarrow> Inr (count_modified want_rv out acct, lmt')
         | Inl e \<Rightarrow> if err_code e = conditional_check_failed then Inr (count_ccf acct, lmt') else Inl e)"
proof -
  obtain lmt1 h where "bind_e (attempt wr)
       (\<lambda>r. case r of
            Inr out \<Rightarrow> return_e (count_modified want_rv out acct,
              map_option (consume_writes (wo_consumed_capacity out)) lmt1)
          | Inl e \<Rightarrow> (if err_code e = conditional_check_failed then return_e (count_ccf acct, lmt1)
              else throw_e e)) (s\<lparr>host := h\<rparr>) = Some (r, t)"
    using assms unfolding write_one_def bind_Some_iff [of "lim_wait writelimit ops lmt"]
    by (auto elim!: lim_wait_result)
  moreover obtain res w where w: "wr (world s) = (res, w)" by fastforce
  ultimately show ?thesis
    by (cases res) (auto simp: exec_simps split: if_splits intro!: exI [of _ h])
qed

lemma bulk_items_sound:
  "bulk_items ops wr want_rv items acct lmt s = Some (r, t) \<Longrightarrow>
     \<exists>rs err w h lmt'. write_all wr items (world s) = (rs, err, w) \<and> t = s\<lparr>world := w, host := h\<rparr> \<and>
       r = (case err of None \<Rightarrow> Inr (acct_add want_rv rs acct, lmt') | Some e \<Rightarrow> Inl e)"
proof (induction items arbitrary: acct lmt s)
  case Nil
  then show ?case by (auto simp: return_e_def intro!: exI [of _ "host s"])
next
  case (Cons item items)
  let ?acct = "acct\<lparr>bw_read := bw_read acct + 1\<rparr>"
  from Cons.prems consider
    e where "write_one ops (wr (row_key item)) want_rv ?acct lmt s = Some (Inl e, t)" "r = Inl e"
  | acct' lmt' u where "write_one ops (wr (row_key item)) want_rv ?acct lmt s = Some (Inr (acct', lmt'), u)"
      "bulk_items ops wr want_rv items acct' lmt' u = Some (r, t)"
    by (auto simp: bind_Some_iff split: prod.splits)
  then show ?case
  proof cases
    case 1
    from write_one_sound [OF 1(1)] 1(2) show ?thesis
      by (auto split: sum.splits if_splits)
  next
    case 2
    from write_one_sound [OF 2(1)] obtain res w h lmt3 where w: "wr (row_key item) (world s) = (res, w)"
      "u = s\<lparr>world := w, host := h\<rparr>"
      and a: "Inr (acct', lmt') = (case res of
           Inr out \<Rightarrow> Inr (count_modified want_rv out ?acct, lmt3)
         | Inl e \<Rightarrow> if err_code e = conditional_check_failed then Inr (count_ccf ?acct, lmt3) else Inl e)"
      by blast
    from Cons.IH [OF 2(2)] obtain rs err w2 h2 lmt2 where
      IH: "write_all wr items (world u) = (rs, err, w2)" "t = u\<lparr>world := w2, host := h2\<rparr>"
      "r = (case err of None \<Rightarrow> Inr (acct_add want_rv rs acct', lmt2) | Some e \<Rightarrow> Inl e)" by blast
    show ?thesis using w a IH
      by (cases res; cases err) (auto simp: acct_add_Cons split: if_splits intro!: exI [of _ h2])
  qed
qed

section \<open>Enumerate and write\<close>

text \<open>The pages the service returns and the writes of their items, in turn.\<close>

inductive bulk_run ::
    "(value_map option \<Rightarrow> ('w, page_out) client_call) \<Rightarrow> (value_map \<Rightarrow> ('w, write_out) client_call) \<Rightarrow>
     value_map option \<Rightarrow> 'w \<Rightarrow> write_out option list \<Rightarrow> error option \<Rightarrow> 'w \<Rightarrow> bool"
  for fetch :: "value_map option \<Rightarrow> ('w, page_out) client_call"
    and wr :: "value_map \<Rightarrow> ('w, write_out) client_call" where
  read_failed: "fetch start w = (Inl e, w') \<Longrightarrow> bulk_run fetch wr start w [] (Some e) w'"
| write_failed: "fetch start w = (Inr out, w1) \<Longrightarrow> write_all wr (po_items out) w1 = (rs, Some e, w2) \<Longrightarrow>
    bulk_run fetch wr start w rs (Some e) w2"
| last_written: "fetch start w = (Inr out, w1) \<Longrightarrow> write_all wr (po_items out) w1 = (rs, None, w2) \<Longrightarrow>
    final_page out \<Longrightarrow> bulk_run fetch wr start w rs None w2"
| page_written: "fetch start w = (Inr out, w1) \<Longrightarrow> write_all wr (po_items out) w1 = (rs, None, w2) \<Longrightarrow>
    \<not> final_page out \<Longrightarrow> bulk_run fetch wr (po_last_evaluated_key out) w2 rs' err w3 \<Longrightarrow>
    bulk_run fetch wr start w (rs @ rs') err w3"

definition bulk_result :: "bool \<Rightarrow> bulk_write_outcome \<Rightarrow> write_out option list \<Rightarrow> error option \<Rightarrow> bulk_write_outcome result" where
  "bulk_result want_rv acct rs err = (case err of Some e \<Rightarrow> Inl e | None \<Rightarrow> Inr (acct_add want_rv rs acct))"

lemma bulk_pages_sound:
  assumes "bulk_pages ops fetch wr want_rv start acct lmt s = Some (r, t)"
  shows "\<exists>rs err w h. bulk_run fetch wr start (world s) rs err w \<and>
    t = s\<lparr>world := w, host := h\<rparr> \<and> r = bulk_result want_rv acct rs err"
proof -
  let ?Q = "\<lambda>ops fetch wr want_rv start acct lmt s (rt :: _ \<times> ('a, 'b) exec_state). \<exists>rs err w h.
    bulk_run fetch wr start (world s) rs err w \<and> snd rt = s\<lparr>world := w, host := h\<rparr> \<and>
    fst rt = bulk_result want_rv acct rs err"
  have "?Q ops fetch wr want_rv start acct lmt s (r, t)"
  proof (rule bulk_pages.raw_induct [where P = ?Q, OF _ assms])
    fix rec ops fetch wr want_rv start acct lmt s rt
    assume IH: "\<And>ops fetch wr want_rv start acct lmt s rt.
        rec ops fetch wr want_rv start acct lmt s = Some rt \<Longrightarrow> ?Q ops fetch wr want_rv start acct lmt s rt"
      and step: "bind_e (call (fetch start))
       (\<lambda>out. bind_e (bulk_items ops wr want_rv (po_items out) acct
                (map_option (consume_reads (po_consumed_capacity out)) lmt))
          (\<lambda>al s. if po_last_evaluated_key out = None \<or> po_last_evaluated_key out = Some []
             then return_e (fst al) s
             else bind_e (lim_wait readlimit ops (snd al))
               (\<lambda>lmt' s. rec ops fetch wr want_rv (po_last_evaluated_key out) (fst al) lmt' s) s)) s = Some rt"
    obtain r t where rt: "rt = (r, t)" by fastforce
    obtain res w where f: "fetch start (world s) = (res, w)" by fastforce
    show "?Q ops fetch wr want_rv start acct lmt s rt"
    proof (cases res)
      case (Inl e)
      then have "rt = (Inl e, s\<lparr>world := w\<rparr>)" using step f by (simp add: exec_simps)
      then show ?thesis using Inl f read_failed [of fetch start "world s" e w wr]
        by (intro exI [of _ "[]"] exI [of _ "Some e"] exI [of _ w] exI [of _ "host s"])
          (simp add: bulk_result_def)
    next
      case (Inr out)
      let ?lmt = "map_option (consume_reads (po_consumed_capacity out)) lmt"
      from step f Inr rt have "bind_e (bulk_items ops wr want_rv (po_items out) acct ?lmt)
          (\<lambda>al s. if final_page out then return_e (fst al) s
             else bind_e (lim_wait readlimit ops (snd al))
               (\<lambda>lmt' s. rec ops fetch wr want_rv (po_last_evaluated_key out) (fst al) lmt' s) s)
          (s\<lparr>world := w\<rparr>) = Some (r, t)"
        by (simp add: exec_simps final_page_def)
      then consider
        e where "bulk_items ops wr want_rv (po_items out) acct ?lmt (s\<lparr>world := w\<rparr>) = Some (Inl e, t)" "r = Inl e"
      | al u where "bulk_items ops wr want_rv (po_items out) acct ?lmt (s\<lparr>world := w\<rparr>) = Some (Inr al, u)"
          "final_page out" "r = Inr (fst al)" "t = u"
      | al u where "bulk_items ops wr want_rv (po_items out) acct ?lmt (s\<lparr>world := w\<rparr>) = Some (Inr al, u)"
          "\<not> final_page out" "bind_e (lim_wait readlimit ops (snd al))
             (\<lambda>lmt' s. rec ops fetch wr want_rv (po_last_evaluated_key out) (fst al) lmt' s) u = Some (r, t)"
        by (cases "final_page out")
          (auto simp: bind_Some_iff [of "bulk_items ops wr want_rv (po_items out) acct ?lmt"] return_e_def)
      then show ?thesis
      proof cases
        case 1
        from bulk_items_sound [OF 1(1)] 1(2) f Inr rt show ?thesis
          by (auto simp: bulk_result_def split: option.splits intro!: exI write_failed)
      next
        case 2
        from bulk_items_sound [OF 2(1)] 2(2-4) f Inr rt show ?thesis
          by (auto simp: bulk_result_def split: option.splits intro!: exI last_written)
      next
        case 3
        from bulk_items_sound [OF 3(1)] obtain rs w2 h where
          rs: "write_all wr (po_items out) w = (rs, None, w2)" "fst al = acct_add want_rv rs acct"
          "u = s\<lparr>world := w2, host := h\<rparr>"
          by (auto split: option.splits)
        from 3(3) obtain lmt2 h2 where
          "rec ops fetch wr want_rv (po_last_evaluated_key out) (fst al) lmt2 (u\<lparr>host := h2\<rparr>) = Some (r, t)"
          by (auto simp: bind_Some_iff elim!: lim_wait_result)
        from IH [OF this] obtain rs' err w3 h3 where
          "bulk_run fetch wr (po_last_evaluated_key out) w2 rs' err w3"
          "t = s\<lparr>world := w3, host := h3\<rparr>" "r = bulk_result want_rv (acct_add want_rv rs acct) rs' err"
          using rs by auto
        then show ?thesis using page_written [OF _ rs(1) 3(2)] f Inr rt
          by (intro exI [of _ "rs @ rs'"] exI [of _ err] exI [of _ w3] exI [of _ h3])
            (auto simp: bulk_result_def split: option.split)
      qed
    qed
  qed
  then show ?thesis by simp
qed

context steady_host
begin

lemma write_one_complete:
  assumes "wr (world s) = (res, w)" and "sound_limiter lmt"
  obtains h lmt' where "sound_limiter lmt'"
    and "write_one ops wr want_rv acct lmt s = Some (case res of
           Inr out \<Rightarrow> Inr (count_modified want_rv out acct, lmt')
         | Inl e \<Rightarrow> if err_code e = conditional_check_failed then Inr (count_ccf acct, lmt') else Inl e,
         s\<lparr>world := w, host := h\<rparr>)"
proof -
  obtain lmt1 h where w1: "lim_wait writelimit ops lmt s = Some (Inr lmt1, s\<lparr>host := h\<rparr>)" "sound_limiter lmt1"
    using lim_wait_returns [OF assms(2), of writelimit s] by auto
  have "attempt wr (s\<lparr>host := h\<rparr>) = Some (Inr res, s\<lparr>world := w, host := h\<rparr>)"
    using assms(1) by (simp add: exec_simps)
  then show ?thesis
    using that [of "case res of Inr out \<Rightarrow> map_option (consume_writes (wo_consumed_capacity out)) lmt1 | Inl e \<Rightarrow> lmt1" h] w1
    by (cases res) (auto simp: write_one_def exec_simps)
qed

lemma bulk_items_complete:
  assumes "write_all wr items w = (rs, err, w')" and "sound_limiter lmt" and "world s = w"
  shows "\<exists>h lmt'. sound_limiter lmt' \<and> bulk_items ops wr want_rv items acct lmt s =
    Some (case err of None \<Rightarrow> Inr (acct_add want_rv rs acct, lmt') | Some e \<Rightarrow> Inl e, s\<lparr>world := w', host := h\<rparr>)"
  using assms
proof (induction items arbitrary: w rs acct lmt s)
  case Nil
  then show ?case by (auto simp: return_e_def intro!: exI [of _ "host s"])
next
  case (Cons item items)
  let ?acct = "acct\<lparr>bw_read := bw_read acct + 1\<rparr>"
  obtain res w1 where f: "wr (row_key item) (world s) = (res, w1)" by fastforce
  obtain h lmt1 where one: "sound_limiter lmt1" "write_one ops (wr (row_key item)) want_rv ?acct lmt s = Some (case res of
           Inr out \<Rightarrow> Inr (count_modified want_rv out ?acct, lmt1)
         | Inl e \<Rightarrow> if err_code e = conditional_check_failed then Inr (count_ccf ?acct, lmt1) else Inl e,
         s\<lparr>world := w1, host := h\<rparr>)"
    using f Cons.prems(2) by (rule write_one_complete)
  show ?case
  proof (cases "\<exists>e. res = Inl e \<and> err_code e \<noteq> conditional_check_failed")
    case True
    then show ?thesis using Cons.prems f one by (auto simp: exec_simps intro!: exI [of _ h] exI [of _ lmt1])
  next
    case False
    obtain rs1 where rs1: "write_all wr items w1 = (rs1, err, w')"
      and rs: "rs = (case res of Inr out \<Rightarrow> Some out | Inl e \<Rightarrow> None) # rs1"
      using Cons.prems f False by (auto split: sum.splits prod.splits if_splits)
    define acct1 where "acct1 = (case res of Inr out \<Rightarrow> count_modified want_rv out ?acct | Inl e \<Rightarrow> count_ccf ?acct)"
    have "write_one ops (wr (row_key item)) want_rv ?acct lmt s = Some (Inr (acct1, lmt1), s\<lparr>world := w1, host := h\<rparr>)"
      using one False by (cases res) (auto simp: acct1_def)
    moreover have "acct_add want_rv rs acct = acct_add want_rv rs1 acct1"
      using rs by (cases res) (simp_all add: acct1_def acct_add_Cons)
    moreover obtain h2 lmt2 where "sound_limiter lmt2" "bulk_items ops wr want_rv items acct1 lmt1 (s\<lparr>world := w1, host := h\<rparr>) =
        Some (case err of None \<Rightarrow> Inr (acct_add want_rv rs1 acct1, lmt2) | Some e \<Rightarrow> Inl e, s\<lparr>world := w', host := h2\<rparr>)"
      using Cons.IH [OF rs1 one(1), of "s\<lparr>world := w1, host := h\<rparr>" acct1] by auto
    ultimately show ?thesis by (intro exI [of _ h2] exI [of _ lmt2]) (simp add: exec_simps split: option.split)
  qed
qed

lemma bulk_pages_complete:
  assumes "bulk_run fetch wr start w rs err w'" and "sound_limiter lmt" and "world s = w"
  shows "\<exists>h. bulk_pages ops fetch wr want_rv start acct lmt s =
    Some (bulk_result want_rv acct rs err, s\<lparr>world := w', host := h\<rparr>)"
  using assms
proof (induction arbitrary: acct lmt s rule: bulk_run.induct)
  case (read_failed start w e w')
  then have "bulk_pages ops fetch wr want_rv start acct lmt s = Some (Inl e, s\<lparr>world := w'\<rparr>)"
    by (subst bulk_pages.simps) (simp add: exec_simps)
  then show ?case by (intro exI [of _ "host s"]) (simp add: bulk_result_def)
next
  case (write_failed start w out w1 rs e w2)
  then obtain h where "bulk_items ops wr want_rv (po_items out) acct
      (map_option (consume_reads (po_consumed_capacity out)) lmt) (s\<lparr>world := w1\<rparr>) =
      Some (Inl e, s\<lparr>world := w2, host := h\<rparr>)"
    using bulk_items_complete [OF write_failed.hyps(2), of "map_option (consume_reads (po_consumed_capacity out)) lmt"
        "s\<lparr>world := w1\<rparr>" want_rv acct] by auto
  then have "bulk_pages ops fetch wr want_rv start acct lmt s = Some (Inl e, s\<lparr>world := w2, host := h\<rparr>)"
    using write_failed.hyps(1) write_failed.prems by (subst bulk_pages.simps) (simp add: exec_simps)
  then show ?case by (auto simp: bulk_result_def)
next
  case (last_written start w out w1 rs w2)
  then obtain h lmt1 where "bulk_items ops wr want_rv (po_items out) acct
      (map_option (consume_reads (po_consumed_capacity out)) lmt) (s\<lparr>world := w1\<rparr>) =
      Some (Inr (acct_add want_rv rs acct, lmt1), s\<lparr>world := w2, host := h\<rparr>)"
    using bulk_items_complete [OF last_written.hyps(2), of "map_option (consume_reads (po_consumed_capacity out)) lmt"
        "s\<lparr>world := w1\<rparr>" want_rv acct] by auto
  then have "bulk_pages ops fetch wr want_rv start acct lmt s =
      Some (Inr (acct_add want_rv rs acct), s\<lparr>world := w2, host := h\<rparr>)"
    using last_written.hyps(1,3) last_written.prems
    by (subst bulk_pages.simps) (simp add: exec_simps final_page_def)
  then show ?case by (auto simp: bulk_result_def)
next
  case (page_written start w out w1 rs w2 rs' err w3)
  then obtain h lmt1 where items: "bulk_items ops wr want_rv (po_items out) acct
      (map_option (consume_reads (po_consumed_capacity out)) lmt) (s\<lparr>world := w1\<rparr>) =
      Some (Inr (acct_add want_rv rs acct, lmt1), s\<lparr>world := w2, host := h\<rparr>)" "sound_limiter lmt1"
    using bulk_items_complete [OF page_written.hyps(2), of "map_option (consume_reads (po_consumed_capacity out)) lmt"
        "s\<lparr>world := w1\<rparr>" want_rv acct] by auto
  obtain lmt2 h2 where wait: "lim_wait readlimit ops lmt1 (s\<lparr>world := w2, host := h\<rparr>) =
      Some (Inr lmt2, s\<lparr>world := w2, host := h2\<rparr>)" "sound_limiter lmt2"
    using lim_wait_returns [OF items(2), of readlimit "s\<lparr>world := w2, host := h\<rparr>"] by auto
  obtain h3 where rec: "bulk_pages ops fetch wr want_rv (po_last_evaluated_key out) (acct_add want_rv rs acct) lmt2
      (s\<lparr>world := w2, host := h2\<rparr>) =
      Some (bulk_result want_rv (acct_add want_rv rs acct) rs' err, s\<lparr>world := w3, host := h3\<rparr>)"
    using page_written.IH [OF wait(2), of "s\<lparr>world := w2, host := h2\<rparr>" "acct_add want_rv rs acct"] by auto
  have "call (fetch start) s = Some (Inr out, s\<lparr>world := w1\<rparr>)"
    using page_written.hyps(1) page_written.prems by (simp add: exec_simps)
  then have "bulk_pages ops fetch wr want_rv start acct lmt s =
      Some (bulk_result want_rv (acct_add want_rv rs acct) rs' err, s\<lparr>world := w3, host := h3\<rparr>)"
    using items(1) wait(1) rec page_written.hyps(3)
    by (subst bulk_pages.simps) (auto simp: exec_simps final_page_def)
  moreover have "bulk_result want_rv (acct_add want_rv rs acct) rs' err = bulk_result want_rv acct (rs @ rs') err"
    by (simp add: bulk_result_def split: option.split)
  ultimately show ?case by auto
qed

end

section \<open>What is emitted\<close>

text \<open>Every step but \<open>emit\<close> leaves the sink alone.\<close>

abbreviation silent :: "('w, 'h, 'a) exec \<Rightarrow> bool" where
  "silent m \<equiv> (\<forall>E. keeps (\<lambda>s. emitted s = E) m)"

lemma silentD: "silent m \<Longrightarrow> m s = Some (r, t) \<Longrightarrow> emitted t = emitted s"
  by (auto simp: keeps_def)

lemma silent_bind [intro]: "silent m \<Longrightarrow> (\<And>x. silent (k x)) \<Longrightarrow> silent (bind_e m k)"
  by (intro allI keeps_bind) auto

lemma silent_attempt [simp, intro]: "silent (attempt op)"
  by (auto simp: keeps_def attempt_def split: prod.splits)

lemma silent_call [simp, intro]: "silent (call op)"
  by (intro allI keeps_call) simp

lemma silent_simps [simp, intro]:
  "silent (return_e x)" "silent (throw_e e)" "silent (lift_e q)" "silent next_alias_prefix" "silent (on_host f)"
  by (auto simp: keeps_def next_alias_prefix_def on_host_def return_e_def throw_e_def lift_e_def
      split: option.splits sum.splits)

lemma silent_get_key_schema [simp, intro]: "silent (get_key_schema client t ix)"
  unfolding get_key_schema_def by (intro silent_bind silent_simps silent_call)

lemma silent_lim [simp, intro]: "silent (lim_make ops rl)" "silent (lim_wait limit ops lmt)"
  unfolding lim_make_def lim_wait_def by (cases rl; simp) (cases lmt; simp)

lemma silent_enumeration_plan [simp, intro]: "silent (enumeration_plan client t ix w base)"
  unfolding enumeration_plan_def by (cases ix) (auto intro!: silent_bind)

lemma silent_write_one [simp, intro]: "silent (write_one ops wr want_rv acct lmt)"
  using write_one_sound [of ops wr want_rv acct lmt] by (fastforce simp: keeps_def)

lemma silent_bulk_pages [simp, intro]: "silent (bulk_pages ops fetch wr want_rv start acct lmt)"
  using bulk_pages_sound [of ops fetch wr want_rv start acct lmt] by (fastforce simp: keeps_def)

text \<open>The accounts of a single write and of a bulk one.\<close>

definition acct_ok :: "verb \<Rightarrow> bool \<Rightarrow> bulk_write_outcome \<Rightarrow> bool" where
  "acct_ok v want_rv acct \<longleftrightarrow> bw_verb acct = v \<and>
     (bw_read acct = bw_modified acct + bw_ccf acct \<or> bw_read acct = 0 \<and> bw_modified acct + bw_ccf acct = 1) \<and>
     length (bw_returned_items acct) = (if want_rv then bw_modified acct else 0)"

lemma acct_ok_bulk: "acct_ok v want_rv (acct_add want_rv rs (empty_acct v))"
  using successes_and_ccf [of rs] by (auto simp: acct_ok_def acct_add_def empty_acct_def)

lemma acct_ok_single:
  "acct_ok v want_rv (count_modified want_rv out (empty_acct v))" "acct_ok v want_rv (count_ccf (empty_acct v))"
  by (simp_all add: acct_ok_def count_modified_def count_ccf_def empty_acct_def)

text \<open>
  What a write emits: exactly one sound account when it succeeds, nothing when it fails.
\<close>

definition emits_account :: "verb \<Rightarrow> bool \<Rightarrow> ('w, 'h, unit) exec \<Rightarrow> bool" where
  "emits_account v want_rv m \<longleftrightarrow>
     (\<forall>s r t. m s = Some (r, t) \<longrightarrow>
        (case r of
           Inl e \<Rightarrow> emitted t = emitted s
         | Inr _ \<Rightarrow> \<exists>acct. emitted t = emitted s @ [BulkWriteOutcome acct] \<and> acct_ok v want_rv acct))"

lemma emits_bind:
  assumes "silent m" and "\<And>x. emits_account v want_rv (k x)"
  shows "emits_account v want_rv (bind_e m k)"
  unfolding emits_account_def
proof (intro allI impI)
  fix s r t
  assume "bind_e m k s = Some (r, t)"
  then consider e where "m s = Some (Inl e, t)" "r = Inl e" | x u where "m s = Some (Inr x, u)" "k x u = Some (r, t)"
    by (auto simp: bind_Some_iff)
  then show "case r of Inl e \<Rightarrow> emitted t = emitted s
      | Inr _ \<Rightarrow> \<exists>acct. emitted t = emitted s @ [BulkWriteOutcome acct] \<and> acct_ok v want_rv acct"
  proof cases
    case 1
    then show ?thesis using silentD [OF assms(1) 1(1)] by simp
  next
    case 2
    have "emitted u = emitted s" using assms(1) 2(1) by (rule silentD)
    then show ?thesis using assms(2) [of x, unfolded emits_account_def, rule_format, OF 2(2)]
      by (cases r) simp_all
  qed
qed

lemma single_write_emits: "emits_account v want_rv (single_write ops client False api req wr v want_rv lmt)"
  unfolding emits_account_def
proof (intro allI impI)
  fix s r t
  assume "single_write ops client False api req wr v want_rv lmt s = Some (r, t)"
  then consider e where "write_one ops wr want_rv (empty_acct v) lmt s = Some (Inl e, t)" "r = Inl e"
    | acct l u where "write_one ops wr want_rv (empty_acct v) lmt s = Some (Inr (acct, l), u)"
        "r = Inr ()" "t = u\<lparr>emitted := emitted u @ [BulkWriteOutcome acct]\<rparr>"
    by (auto simp: single_write_def bind_Some_iff emit_apply)
  then show "case r of Inl e \<Rightarrow> emitted t = emitted s
      | Inr _ \<Rightarrow> \<exists>acct. emitted t = emitted s @ [BulkWriteOutcome acct] \<and> acct_ok v want_rv acct"
  proof cases
    case 1
    then show ?thesis using silentD [OF silent_write_one 1(1)] by simp
  next
    case 2
    have "acct_ok v want_rv acct"
      using write_one_sound [OF 2(1)] acct_ok_single by (fastforce split: sum.splits if_splits)
    then show ?thesis using 2 silentD [OF silent_write_one 2(1)] by simp
  qed
qed

lemma bulk_emits:
  "emits_account v want_rv
     (bind_e (bulk_pages ops fetch wr want_rv None (empty_acct v) lmt) (\<lambda>acct. emit (BulkWriteOutcome acct)))"
  unfolding emits_account_def
proof (intro allI impI)
  fix s r t
  assume "bind_e (bulk_pages ops fetch wr want_rv None (empty_acct v) lmt) (\<lambda>acct. emit (BulkWriteOutcome acct)) s = Some (r, t)"
  then consider e where "bulk_pages ops fetch wr want_rv None (empty_acct v) lmt s = Some (Inl e, t)" "r = Inl e"
    | acct u where "bulk_pages ops fetch wr want_rv None (empty_acct v) lmt s = Some (Inr acct, u)"
        "r = Inr ()" "t = u\<lparr>emitted := emitted u @ [BulkWriteOutcome acct]\<rparr>"
    by (auto simp: bind_Some_iff emit_apply)
  then show "case r of Inl e \<Rightarrow> emitted t = emitted s
      | Inr _ \<Rightarrow> \<exists>acct. emitted t = emitted s @ [BulkWriteOutcome acct] \<and> acct_ok v want_rv acct"
  proof cases
    case 1
    then show ?thesis using silentD [OF silent_bulk_pages 1(1)] by simp
  next
    case 2
    have "acct_ok v want_rv acct"
      using bulk_pages_sound [OF 2(1)] acct_ok_bulk by (auto simp: bulk_result_def split: option.splits)
    then show ?thesis using 2 silentD [OF silent_bulk_pages 2(1)] by simp
  qed
qed

lemma update_bulk_emits:
  "emits_account (update_verb cmd) (up_return_value cmd \<noteq> Ast_rv_none)
     (update_bulk ops client cmd False base template lmt)"
  unfolding update_bulk_def Let_def if_False by (intro emits_bind bulk_emits silent_enumeration_plan silent_simps)

lemma delete_bulk_emits:
  "emits_account Verb_del (de_return_value cmd \<noteq> Ast_rv_none) (delete_bulk ops client cmd False base template lmt)"
  unfolding delete_bulk_def Let_def if_False by (intro emits_bind bulk_emits silent_enumeration_plan silent_simps)

lemma update_emits:
  "emits_account (update_verb cmd) (up_return_value cmd \<noteq> Ast_rv_none)
     (execute_update ops client cmd False)"
  unfolding execute_update_def Let_def if_False
  by (intro emits_bind silent_get_key_schema silent_simps silent_lim)
    (auto simp: single_write_emits update_bulk_emits split: option.split)

lemma delete_emits:
  "emits_account Verb_del (de_return_value cmd \<noteq> Ast_rv_none) (execute_delete ops client cmd False)"
  unfolding execute_delete_def Let_def if_False
  by (intro emits_bind silent_get_key_schema silent_simps silent_lim)
    (auto simp: single_write_emits delete_bulk_emits split: option.split)

section \<open>EXPLAIN writes nothing; writes keep what the client keeps\<close>

context read_invariant
begin

lemma lim_wait_keeps: "world_keeps P (lim_wait limit ops lmt)"
  by (cases lmt) (auto simp: lim_wait_def)

lemma read_fetch_kept: "P w \<Longrightarrow> P (snd (read_fetch client plan start w))"
  by (cases plan) (simp_all add: fetch_kept)

lemma enumeration_plan_keeps: "world_keeps P (enumeration_plan client t ix wh base)"
  unfolding enumeration_plan_def
  by (cases ix) (auto intro!: keeps_bind get_key_schema_keeps)

lemma explain_items_keeps: "world_keeps P (explain_items client api req items blocks)"
  by (induction items arbitrary: blocks) (auto intro!: keeps_bind explain_keeps)

lemma announce_read_keeps: "world_keeps P (announce_read client announce plan start blocks)"
  unfolding announce_read_def by (auto intro!: keeps_bind explain_keeps split: prod.split)

lemma explain_pages_keeps: "world_keeps P (explain_pages client announce plan api req start blocks)"
  unfolding keeps_def
proof (intro allI impI)
  fix s r t
  assume P: "P (world s)" and run: "explain_pages client announce plan api req start blocks s = Some (r, t)"
  let ?Q = "\<lambda>c announce plan api req start blocks s (rt :: _ \<times> ('a, 'c) exec_state).
    c = client \<longrightarrow> P (world s) \<longrightarrow> P (world (snd rt))"
  have "?Q client announce plan api req start blocks s (r, t)"
  proof (rule explain_pages.raw_induct [where P = ?Q, OF _ run])
    fix rec c announce plan api req start blocks s rt
    assume IH: "\<And>c announce plan api req start blocks s rt.
        rec c announce plan api req start blocks s = Some rt \<Longrightarrow> ?Q c announce plan api req start blocks s rt"
      and step: "bind_e (announce_read c announce plan start blocks)
       (\<lambda>blocks1. bind_e (call (read_fetch c plan start))
         (\<lambda>out. bind_e (explain_items c api req (po_items out) blocks1)
           (\<lambda>blocks2 s. if po_last_evaluated_key out = None \<or> po_last_evaluated_key out = Some []
              then return_e blocks2 s
              else rec c announce plan api req (po_last_evaluated_key out) blocks2 s))) s = Some rt"
    show "?Q c announce plan api req start blocks s rt"
    proof (intro impI)
      assume c: "c = client" and "P (world s)"
      have "world_keeps P (\<lambda>s. if b then return_e blocks2 s
          else rec c announce plan api req k blocks2 s)" for b k blocks2
        using IH c by (fastforce simp: keeps_def return_e_def split: if_splits)
      then have "world_keeps P (bind_e (announce_read c announce plan start blocks)
       (\<lambda>blocks1. bind_e (call (read_fetch c plan start))
         (\<lambda>out. bind_e (explain_items c api req (po_items out) blocks1)
           (\<lambda>blocks2 s. if po_last_evaluated_key out = None \<or> po_last_evaluated_key out = Some []
              then return_e blocks2 s
              else rec c announce plan api req (po_last_evaluated_key out) blocks2 s))))"
        unfolding c by (intro keeps_bind announce_read_keeps explain_items_keeps world_keeps_call read_fetch_kept)
      from keepsD [OF this \<open>P (world s)\<close>] step show "P (world (snd rt))" by (metis prod.collapse)
    qed
  qed
  then show "P (world t)" using P by simp
qed

lemma single_explain_keeps: "world_keeps P (single_write ops client True api req wr v want_rv lmt)"
  unfolding single_write_def by (auto intro!: keeps_bind explain_keeps)

lemma update_explain_keeps: "world_keeps P (execute_update ops client cmd True)"
proof -
  have "world_keeps P (update_bulk ops client cmd True base template lmt)"
    for base template lmt
    unfolding update_bulk_def Let_def if_True
    by (intro keeps_bind enumeration_plan_keeps explain_pages_keeps world_keeps_local)
  then show ?thesis
    unfolding execute_update_def Let_def if_True
    by (intro keeps_bind get_key_schema_keeps world_keeps_local keeps_return)
      (auto simp: single_explain_keeps split: option.split)
qed

lemma delete_explain_keeps: "world_keeps P (execute_delete ops client cmd True)"
proof -
  have "world_keeps P (explain_delete_bulk client plan template)" for plan template
    unfolding explain_delete_bulk_def
    by (cases plan) (auto intro!: keeps_bind announce_read_keeps explain_pages_keeps)
  then have "world_keeps P (delete_bulk ops client cmd True base template lmt)"
    for base template lmt
    unfolding delete_bulk_def Let_def if_True
    by (intro keeps_bind enumeration_plan_keeps world_keeps_local)
  then show ?thesis
    unfolding execute_delete_def Let_def if_True
    by (intro keeps_bind get_key_schema_keeps world_keeps_local keeps_return)
      (auto simp: single_explain_keeps split: option.split)
qed

lemma make_put_request_keeps: "world_keeps P (make_put_request cmd row pk)"
  unfolding make_put_request_def by (auto intro!: keeps_bind split: prod.split)

lemma insert_explain_keeps: "world_keeps P (execute_insert_explain client cmd)"
proof -
  have "world_keeps P (explain_insert_loop client cmd pk rows blocks)" for pk rows blocks
    by (induction rows arbitrary: blocks) (auto intro!: keeps_bind make_put_request_keeps explain_keeps)
  then show ?thesis
    unfolding execute_insert_explain_def
    by (intro keeps_bind get_key_schema_keeps keeps_lift keeps_return)
qed

end

locale write_invariant = read_invariant +
  assumes put_kept: "P w \<Longrightarrow> P (snd (put_item client pr w))"
    and update_kept: "P w \<Longrightarrow> P (snd (update_item client ur w))"
    and delete_kept: "P w \<Longrightarrow> P (snd (delete_item client dr w))"
begin

lemma write_one_keeps:
  assumes "\<And>w. P w \<Longrightarrow> P (snd (wr w))"
  shows "world_keeps P (write_one ops wr want_rv acct lmt)"
  unfolding write_one_def
  by (intro keeps_bind lim_wait_keeps world_keeps_attempt assms)
    (auto split: sum.split)

lemma bulk_items_keeps:
  assumes "\<And>key w. P w \<Longrightarrow> P (snd (wr key w))"
  shows "world_keeps P (bulk_items ops wr want_rv items acct lmt)"
  using assms by (induction items arbitrary: acct lmt) (auto intro!: keeps_bind write_one_keeps)

lemma write_all_kept:
  assumes "\<And>key w. P w \<Longrightarrow> P (snd (wr key w))"
  shows "P w \<Longrightarrow> P (snd (snd (write_all wr items w)))"
proof (induction items arbitrary: w)
  case (Cons item items)
  obtain res w1 where "wr (row_key item) w = (res, w1)" by fastforce
  moreover from this have "P w1" using assms [OF Cons.prems, of "row_key item"] by simp
  ultimately show ?case using Cons.IH [of w1] Cons.prems by (auto split: sum.split prod.splits)
qed simp

lemma bulk_run_kept:
  assumes "bulk_run fetch wr start w rs err w'" and "\<And>start w. P w \<Longrightarrow> P (snd (fetch start w))"
    and "\<And>key w. P w \<Longrightarrow> P (snd (wr key w))" and "P w"
  shows "P w'"
proof -
  have fetched: "P w \<Longrightarrow> fetch start w = (res, w1) \<Longrightarrow> P w1" for start w res w1
    using assms(2) [of w start] by simp
  have written: "P w \<Longrightarrow> write_all wr items w = (rs, err, w1) \<Longrightarrow> P w1" for items w rs err w1
    using write_all_kept [of wr w items] assms(3) by simp
  show ?thesis using assms(1,4)
    by (induction rule: bulk_run.induct) (blast dest: fetched written)+
qed

lemma bulk_pages_keeps:
  assumes "\<And>start w. P w \<Longrightarrow> P (snd (fetch start w))" and "\<And>key w. P w \<Longrightarrow> P (snd (wr key w))"
  shows "world_keeps P (bulk_pages ops fetch wr want_rv start acct lmt)"
  unfolding keeps_def
proof (intro allI impI)
  fix s r t
  assume "P (world s)" and "bulk_pages ops fetch wr want_rv start acct lmt s = Some (r, t)"
  from bulk_pages_sound [OF this(2)] bulk_run_kept [OF _ assms \<open>P (world s)\<close>]
  show "P (world t)" by auto
qed

lemma single_keeps:
  "(\<And>w. P w \<Longrightarrow> P (snd (wr w))) \<Longrightarrow> world_keeps P (single_write ops client explain api req wr v want_rv lmt)"
  unfolding single_write_def by (auto intro!: keeps_bind explain_keeps write_one_keeps)

lemma execute_update_keeps: "world_keeps P (execute_update ops client cmd explain)"
proof (cases explain)
  case False
  then have ex: "explain = False" by simp
  have "world_keeps P (update_bulk ops client cmd False base template lmt)"
    for base template lmt
    unfolding update_bulk_def Let_def if_False
    by (intro keeps_bind enumeration_plan_keeps bulk_pages_keeps world_keeps_local read_fetch_kept update_kept)
  then show ?thesis
    unfolding execute_update_def Let_def ex if_False
    by (intro keeps_bind get_key_schema_keeps world_keeps_local lim_make_keeps)
      (auto simp: single_keeps update_kept split: option.split)
qed (simp add: update_explain_keeps)

lemma execute_delete_keeps: "world_keeps P (execute_delete ops client cmd explain)"
proof (cases explain)
  case False
  then have ex: "explain = False" by simp
  have "world_keeps P (delete_bulk ops client cmd False base template lmt)"
    for base template lmt
    unfolding delete_bulk_def Let_def if_False
    by (intro keeps_bind enumeration_plan_keeps bulk_pages_keeps world_keeps_local read_fetch_kept delete_kept)
  then show ?thesis
    unfolding execute_delete_def Let_def ex if_False
    by (intro keeps_bind get_key_schema_keeps world_keeps_local lim_make_keeps)
      (auto simp: single_keeps delete_kept split: option.split)
qed (simp add: delete_explain_keeps)

lemma execute_insert_keeps: "world_keeps P (execute_insert_streaming ops client cmd)"
proof -
  have "world_keeps P (insert_loop ops client cmd pk rows lmt)" for pk rows lmt
    by (induction rows arbitrary: lmt)
      (auto intro!: keeps_bind make_put_request_keeps world_keeps_call lim_wait_keeps simp: put_kept)
  then show ?thesis
    unfolding execute_insert_streaming_def
    by (intro keeps_bind get_key_schema_keeps keeps_lift lim_make_keeps)
qed

end

section \<open>INSERT, row by row\<close>

text \<open>The requests of the rows, given the prefix counter the first of them finds.\<close>

definition row_request :: "insert_cmd \<Rightarrow> string \<Rightarrow> 64 word \<Rightarrow> value list \<Rightarrow> put_item_in" where
  "row_request cmd pk c row =
     (if in_insert cmd
      then (let (tok, st) = new_attribute pk (new_symtab (unique_prefix (unat c)))
            in put_request cmd row (Some (''attribute_not_exists('' @ tok @ '')'')) (get_names st))
      else put_request cmd row None [])"

definition prefixes_used :: "insert_cmd \<Rightarrow> nat \<Rightarrow> 64 word" where
  "prefixes_used cmd n = (if in_insert cmd then of_nat n else 0)"

fun insert_requests :: "insert_cmd \<Rightarrow> string \<Rightarrow> 64 word \<Rightarrow> value list list \<Rightarrow> put_item_in list" where
  "insert_requests cmd pk c [] = []"
| "insert_requests cmd pk c (row # rows) =
     row_request cmd pk c row # insert_requests cmd pk (c + prefixes_used cmd 1) rows"

text \<open>The puts up to the first that fails.\<close>

fun put_until :: "'w iddb_client \<Rightarrow> put_item_in list \<Rightarrow> 'w \<Rightarrow> write_out list \<times> error option \<times> 'w" where
  "put_until client [] w = ([], None, w)"
| "put_until client (r # rs) w =
     (case put_item client r w of
        (Inl e, w1) \<Rightarrow> ([], Some e, w1)
      | (Inr out, w1) \<Rightarrow> (let (outs, err, w2) = put_until client rs w1 in (out # outs, err, w2)))"

definition attempted :: "write_out list \<Rightarrow> error option \<Rightarrow> nat" where
  "attempted outs err = length outs + (if err = None then 0 else 1)"

lemma make_put_request_apply:
  "make_put_request cmd row pk s =
     Some (Inr (row_request cmd pk (alias_prefix_counter s) row),
       s\<lparr>alias_prefix_counter := alias_prefix_counter s + prefixes_used cmd 1\<rparr>)"
  by (simp add: make_put_request_def row_request_def prefixes_used_def exec_simps next_alias_prefix_def bind_e_def
      return_e_def Let_def split: prod.split)

lemma prefixes_used_Suc: "prefixes_used cmd (Suc n) = prefixes_used cmd 1 + prefixes_used cmd n"
  by (simp add: prefixes_used_def)

context steady_host
begin

lemma insert_loop_exact:
  assumes "put_until client (insert_requests cmd pk (alias_prefix_counter s) rows) (world s) = (outs, err, w)"
    and "sound_limiter lmt"
  shows "\<exists>h. insert_loop ops client cmd pk rows lmt s =
    Some (case err of None \<Rightarrow> Inr () | Some e \<Rightarrow> Inl e,
      s\<lparr>world := w, host := h,
        alias_prefix_counter := alias_prefix_counter s + prefixes_used cmd (attempted outs err),
        emitted := emitted s @ map (row_outcome cmd) outs\<rparr>)"
  using assms
proof (induction rows arbitrary: s outs lmt)
  case Nil
  then show ?case
    by (intro exI [of _ "host s"]) (auto simp: return_e_def attempted_def prefixes_used_def)
next
  case (Cons row rows)
  let ?c = "alias_prefix_counter s + prefixes_used cmd 1"
  obtain res w1 where put: "put_item client (row_request cmd pk (alias_prefix_counter s) row) (world s) = (res, w1)"
    by fastforce
  note make = make_put_request_apply [of cmd row pk s]
  show ?case
  proof (cases res)
    case (Inl e)
    then have "outs = []" "err = Some e" "w = w1" using Cons.prems(1) put by simp_all
    then show ?thesis using make put Inl
      by (intro exI [of _ "host s"]) (simp add: exec_simps attempted_def)
  next
    case (Inr out)
    obtain outs1 where outs1: "put_until client (insert_requests cmd pk ?c rows) w1 = (outs1, err, w)" "outs = out # outs1"
      using Cons.prems(1) put Inr by (auto split: prod.splits)
    let ?s = "s\<lparr>alias_prefix_counter := ?c, world := w1, emitted := emitted s @ [row_outcome cmd out]\<rparr>"
    obtain lmt1 h1 where wait: "lim_wait writelimit ops (map_option (consume_writes (wo_consumed_capacity out)) lmt) ?s =
        Some (Inr lmt1, ?s\<lparr>host := h1\<rparr>)" "sound_limiter lmt1"
      using lim_wait_returns [of "map_option (consume_writes (wo_consumed_capacity out)) lmt" writelimit ?s] Cons.prems(2)
      by auto
    obtain h where IH: "insert_loop ops client cmd pk rows lmt1 (?s\<lparr>host := h1\<rparr>) =
        Some (case err of None \<Rightarrow> Inr () | Some e \<Rightarrow> Inl e,
          ?s\<lparr>world := w, host := h, alias_prefix_counter := ?c + prefixes_used cmd (attempted outs1 err),
            emitted := (emitted s @ [row_outcome cmd out]) @ map (row_outcome cmd) outs1\<rparr>)"
      using Cons.IH [of "?s\<lparr>host := h1\<rparr>" outs1 lmt1] outs1(1) wait(2) by auto
    have "insert_loop ops client cmd pk (row # rows) lmt s = insert_loop ops client cmd pk rows lmt1 (?s\<lparr>host := h1\<rparr>)"
      using make put Inr wait(1) by (simp add: exec_simps)
    moreover have "?s\<lparr>world := w, host := h, alias_prefix_counter := ?c + prefixes_used cmd (attempted outs1 err),
            emitted := (emitted s @ [row_outcome cmd out]) @ map (row_outcome cmd) outs1\<rparr> =
        s\<lparr>world := w, host := h,
          alias_prefix_counter := alias_prefix_counter s + prefixes_used cmd (attempted outs err),
          emitted := emitted s @ map (row_outcome cmd) outs\<rparr>"
      using prefixes_used_Suc [of cmd "attempted outs1 err"] outs1(2)
      by (cases s) (simp add: attempted_def add.assoc)
    ultimately show ?thesis using IH by metis
  qed
qed

lemma execute_insert_exact:
  assumes "get_key_schema client (in_table_name cmd) '''' s = Some (Inr ks, s1)"
    and "validate_insert_rows cmd = Inr ()" and "sound_rates (in_ratelimit cmd)"
    and "put_until client (insert_requests cmd (first_or_empty (rks_pk ks)) (alias_prefix_counter s1) (in_rows cmd))
      (world s1) = (outs, err, w)"
  shows "\<exists>h. execute_insert_streaming ops client cmd s =
    Some (case err of None \<Rightarrow> Inr () | Some e \<Rightarrow> Inl e,
      s1\<lparr>world := w, host := h,
        alias_prefix_counter := alias_prefix_counter s1 + prefixes_used cmd (attempted outs err),
        emitted := emitted s1 @ map (row_outcome cmd) outs\<rparr>)"
proof -
  obtain lmt h where lm: "lim_make ops (in_ratelimit cmd) s1 = Some (Inr lmt, s1\<lparr>host := h\<rparr>)" "sound_limiter lmt"
    using lim_make_result [of ops "in_ratelimit cmd" s1] assms(3) by metis
  then have "execute_insert_streaming ops client cmd s =
      insert_loop ops client cmd (first_or_empty (rks_pk ks)) (in_rows cmd) lmt (s1\<lparr>host := h\<rparr>)"
    using assms(1,2) by (simp add: execute_insert_streaming_def exec_simps)
  then show ?thesis
    using insert_loop_exact [of client cmd "first_or_empty (rks_pk ks)" "s1\<lparr>host := h\<rparr>" "in_rows cmd" outs err w lmt]
      assms(4) lm(2) by auto
qed

end

end
