(* ===== verification/Write_Props.thy ===== *)
theory Write_Props
  imports Write_Exec
begin

text \<open>
  What the writes guarantee: the contracts of \<open>read_invariant\<close> and \<open>write_invariant\<close> met by
  the in-memory client, the accounts UPDATE and DELETE give, the row-by-row behaviour of
  INSERT, the meaning of a write by key, and that every write returns.
\<close>

section \<open>The in-memory client meets the contracts\<close>

interpretation memory_writes: write_invariant memory_client mem_ok
proof unfold_locales
  fix m pr ur dr
  assume ok: "mem_ok m"
  show "mem_ok (snd (put_item memory_client pr m))" using mem_apply_ok [OF ok, of "MPut pr"] by simp
  show "mem_ok (snd (update_item memory_client ur m))" using mem_apply_ok [OF ok, of "MUpdate ur"] by simp
  show "mem_ok (snd (delete_item memory_client dr m))" using mem_apply_ok [OF ok, of "MDelete dr"] by simp
qed (auto simp: m_describe_table_def m_get_item_def m_query_def m_scan_def default_search_vectors_def
      memory_client_def not_impl_def Let_def split: option.split)

text \<open>Whatever INSERT, REPLACE, UPDATE, UPSERT or DELETE is run on the in-memory client, and
  whether it succeeds or fails, its tables stay in order.\<close>

theorem writes_keep_memory_ok:
  assumes "mem_ok (world s)"
    and "execute_insert_streaming ops memory_client ins s = Some (r, t) \<or>
      execute_update ops memory_client upd explain s = Some (r, t) \<or>
      execute_delete ops memory_client del explain s = Some (r, t)"
  shows "mem_ok (world t)"
  using assms keepsD [OF memory_writes.execute_insert_keeps, of s ops ins r t]
    keepsD [OF memory_writes.execute_update_keeps, of s ops upd explain r t]
    keepsD [OF memory_writes.execute_delete_keeps, of s ops del explain r t] by blast

text \<open>EXPLAIN of an INSERT, UPDATE or DELETE changes no table, even where it runs the
  enumeration read to list the writes.\<close>

theorem explain_changes_nothing:
  assumes "execute_insert_explain memory_client ins s = Some (q, t) \<or>
    execute_update ops memory_client upd True s = Some (r, t) \<or>
    execute_delete ops memory_client del True s = Some (r, t)"
  shows "world t = world s"
  using assms keepsD [OF memory_reads.insert_explain_keeps, of s "world s" ins q t]
    keepsD [OF memory_reads.update_explain_keeps, of s "world s" ops upd r t]
    keepsD [OF memory_reads.delete_explain_keeps, of s "world s" ops del r t] by blast

section \<open>Accounts\<close>

text \<open>C33: An UPDATE, UPSERT or DELETE that succeeds emits exactly one account, and one that
  fails emits nothing, on any client and host.  In the account every item read was either
  modified or refused by its condition (a write by key reads none and does one of the two),
  and if return values were asked for there is one returned item per modification.\<close>

theorem writes_emit_one_account:
  "(execute_update ops client upd False s = Some (r, t) \<longrightarrow>
     (case r of
        Inl e \<Rightarrow> emitted t = emitted s
      | Inr _ \<Rightarrow> \<exists>acct. emitted t = emitted s @ [BulkWriteOutcome acct] \<and>
          acct_ok (update_verb upd) (up_return_value upd \<noteq> Ast_rv_none) acct)) \<and>
   (execute_delete ops client del False s = Some (r, t) \<longrightarrow>
     (case r of
        Inl e \<Rightarrow> emitted t = emitted s
      | Inr _ \<Rightarrow> \<exists>acct. emitted t = emitted s @ [BulkWriteOutcome acct] \<and>
          acct_ok Verb_del (de_return_value del \<noteq> Ast_rv_none) acct))"
  using update_emits [of upd ops client] delete_emits [of del ops client] by (auto simp: emits_account_def)

section \<open>INSERT\<close>

text \<open>C30: INSERT and REPLACE, once the table's key schema is known and the rows are validated, and with no rate
  limit or one whose rates are not negative, put the rows in order until one fails.  For each row put, its
  outcome is emitted before anything else happens; the error of the failing row comes last and
  the rows after it are not tried.  INSERT uses one alias prefix per row tried, REPLACE none.
  This holds on any host whose clock does not go back and whose sleep takes at least the time asked for; such a
  rate limit changes nothing but the state of the host.\<close>

theorem insert_row_by_row:
  assumes "steady_host ops" and "get_key_schema client (in_table_name cmd) '''' s = Some (Inr ks, s1)"
    and "validate_insert_rows cmd = Inr ()" and "sound_rates (in_ratelimit cmd)"
    and "put_until client (insert_requests cmd (first_or_empty (rks_pk ks)) (alias_prefix_counter s1) (in_rows cmd))
      (world s1) = (outs, err, w)"
  shows "\<exists>h. execute_insert_streaming ops client cmd s =
    Some (case err of None \<Rightarrow> Inr () | Some e \<Rightarrow> Inl e,
      s1\<lparr>world := w, host := h,
        alias_prefix_counter := alias_prefix_counter s1 + prefixes_used cmd (attempted outs err),
        emitted := emitted s1 @ map (row_outcome cmd) outs\<rparr>)"
  using assms(2-5) by (rule steady_host.execute_insert_exact [OF assms(1)])

definition sample_insert :: "value list list \<Rightarrow> insert_cmd" where
  "sample_insert rows = \<lparr>in_table_name = ''t'', in_columns = [''a''], in_rows = rows, in_insert = False,
     in_ratelimit = None, in_return_value = Ast_rv_none\<rparr>"

lemma sample_schema:
  "get_key_schema memory_client ''t'' '''' sample_state =
     Some (Inr \<lparr>rks_pk = [''a''], rks_rk = []\<rparr>, sample_state)"
  by (simp add: get_key_schema_def sample_state_def sample_memory_def exec_simps m_describe_table_def
      find_table_def key_schema_in_def described_def from_table_key_def)

lemma sample_puts:
  "put_until memory_client (insert_requests (sample_insert [[S ''z'']]) ''a'' 0 [[S ''z'']]) sample_memory =
     ([\<lparr>wo_attributes = None, wo_consumed_capacity = None\<rparr>], None,
      set_table ''t'' (mt_put (''a=S:z'' @ [CHR 0x1F]) [(''a'', S ''z'')] (the (find_table ''t'' sample_memory))) sample_memory)"
  by (simp add: sample_insert_def row_request_def put_request_def m_put_item_def find_table_def sample_memory_def
      extract_key_def add_key_def key_string_def)

theorem insert_row_by_row_witness:
  "\<exists>t. execute_insert_streaming default_host memory_client (sample_insert [[S ''z'']]) sample_state = Some (Inr (), t) \<and>
     emitted t = [WriteOutcome [''REPLACE''] []] \<and> alias_prefix_counter t = 0"
proof -
  have v: "validate_insert_rows (sample_insert [[S ''z'']]) = Inr ()"
    and r: "sound_rates (in_ratelimit (sample_insert [[S ''z'']]))"
    by (simp_all add: validate_insert_rows_def sample_insert_def sound_rates_def)
  have g: "get_key_schema memory_client (in_table_name (sample_insert [[S ''z'']])) '''' sample_state =
      Some (Inr \<lparr>rks_pk = [''a''], rks_rk = []\<rparr>, sample_state)"
    using sample_schema by (simp add: sample_insert_def)
  have p: "put_until memory_client
      (insert_requests (sample_insert [[S ''z'']]) (first_or_empty (rks_pk \<lparr>rks_pk = [''a''], rks_rk = []\<rparr>))
        (alias_prefix_counter sample_state) (in_rows (sample_insert [[S ''z'']]))) (world sample_state) =
      ([\<lparr>wo_attributes = None, wo_consumed_capacity = None\<rparr>], None,
      set_table ''t'' (mt_put (''a=S:z'' @ [CHR 0x1F]) [(''a'', S ''z'')] (the (find_table ''t'' sample_memory))) sample_memory)"
    using sample_puts by (simp add: first_or_empty_def sample_insert_def sample_state_def)
  from insert_row_by_row [OF default_steady.steady_host_axioms g v r p] show ?thesis
    by (auto simp: row_outcome_def sample_insert_def prefixes_used_def sample_state_def)
qed

theorem writes_keep_memory_ok_witness:
  "\<exists>t. execute_insert_streaming default_host memory_client (sample_insert []) sample_state = Some (Inr (), t) \<and>
     mem_ok (world t)"
proof -
  have e: "execute_insert_streaming default_host memory_client (sample_insert []) sample_state = Some (Inr (), sample_state)"
    using sample_schema
    by (simp add: execute_insert_streaming_def sample_insert_def validate_insert_rows_def lim_make_def exec_simps)
  have "mem_ok (world sample_state)"
    by (simp add: sample_state_def sample_memory_def mem_ok_def table_ok_def)
  then show ?thesis using writes_keep_memory_ok [of sample_state default_host "sample_insert []"] e by blast
qed

theorem explain_changes_nothing_witness:
  "\<exists>q t. execute_insert_explain memory_client (sample_insert []) sample_state = Some (q, t) \<and>
     world t = sample_memory"
proof -
  have e: "execute_insert_explain memory_client (sample_insert []) sample_state =
      Some (Inr (ExplainOutcome [] None), sample_state)"
    using sample_schema
    by (simp add: execute_insert_explain_def sample_insert_def validate_insert_rows_def exec_simps)
  then show ?thesis using explain_changes_nothing [of "sample_insert []" sample_state] by (auto simp: sample_state_def)
qed

section \<open>Writes by key\<close>

context steady_host
begin

lemma single_write_complete:
  assumes "wr (world s) = (res, w)" and "sound_limiter lmt"
  shows "\<exists>h. single_write ops client False api req wr v want_rv lmt s =
    (case res of
       Inr out \<Rightarrow> Some (Inr (), s\<lparr>world := w, host := h,
         emitted := emitted s @ [BulkWriteOutcome (count_modified want_rv out (empty_acct v))]\<rparr>)
     | Inl e \<Rightarrow> if err_code e = conditional_check_failed
         then Some (Inr (), s\<lparr>world := w, host := h, emitted := emitted s @ [BulkWriteOutcome (count_ccf (empty_acct v))]\<rparr>)
         else Some (Inl e, s\<lparr>world := w, host := h\<rparr>))"
proof -
  obtain h lmt' where "write_one ops wr want_rv (empty_acct v) lmt s = Some (case res of
           Inr out \<Rightarrow> Inr (count_modified want_rv out (empty_acct v), lmt')
         | Inl e \<Rightarrow> if err_code e = conditional_check_failed then Inr (count_ccf (empty_acct v), lmt') else Inl e,
         s\<lparr>world := w, host := h\<rparr>)"
    using write_one_complete [of wr s res w lmt want_rv "empty_acct v"] assms by metis
  then show ?thesis
    by (intro exI [of _ h]) (auto simp: single_write_def exec_simps split: sum.split)
qed

end

text \<open>The outcome of one write answered with \<open>res\<close>: the account, or the error.\<close>

definition write_answer :: "verb \<Rightarrow> bool \<Rightarrow> write_out result \<Rightarrow> bulk_write_outcome result" where
  "write_answer v want_rv res =
     (case res of
        Inr out \<Rightarrow> Inr (count_modified want_rv out (empty_acct v))
      | Inl e \<Rightarrow> if err_code e = conditional_check_failed then Inr (count_ccf (empty_acct v)) else Inl e)"

definition answered ::
    "bulk_write_outcome result \<Rightarrow> 'w \<Rightarrow> 'h \<Rightarrow> ('w, 'h) exec_state \<Rightarrow> unit result \<times> ('w, 'h) exec_state" where
  "answered ans w h s =
     (case ans of
        Inr acct \<Rightarrow> (Inr (), s\<lparr>world := w, host := h, emitted := emitted s @ [BulkWriteOutcome acct]\<rparr>)
      | Inl e \<Rightarrow> (Inl e, s\<lparr>world := w, host := h\<rparr>))"

text \<open>
  What a write by key says: the key has exactly the attributes of the primary key, the
  condition is \<open>guard\<close> followed by the serialization of a tree, and the clause means that the
  item has that key and satisfies that tree; the names and values are those of the table the
  strings were serialized through.
\<close>

definition guarded :: "string \<Rightarrow> string \<Rightarrow> string" where
  "guarded guard cond = (if cond = [] then guard else if guard = [] then cond else guard @ '' AND '' @ cond)"

definition write_means ::
    "string \<Rightarrow> string \<Rightarrow> string list \<Rightarrow> lexpr \<Rightarrow> string \<Rightarrow> value_map \<Rightarrow> string option \<Rightarrow> attribute_names \<Rightarrow> value_map \<Rightarrow> bool" where
  "write_means prefix p rk w guard key cond names vals \<longleftrightarrow>
     dom (map_of key) = set (p # take 1 rk) \<and>
     (\<exists>part cs st1 st2. reaches (new_symtab prefix) st1 \<and> serialize_opt part (Some st1) = (cs, Some st2) \<and>
        cond = unless_empty (guarded guard cs) \<and> request_tables prefix st2 names vals \<and>
        (\<forall>sat. eval sat w \<longleftrightarrow>
           (\<forall>kv\<in>set key. sat (LogicalComparison (fst kv) ''='' (snd kv))) \<and> eval_opt sat part))"

definition key_write_clause :: "string \<Rightarrow> string list \<Rightarrow> lexpr \<Rightarrow> bool" where
  "key_write_clause p rk w \<longleftrightarrow> wf_expr w \<and> positive_spine w \<and> can_update_item w [p] rk \<and>
     drops_equalities_only p (first_or_empty rk) w \<and> (rk = [] \<longrightarrow> '''' \<notin> leaf_lhs ` set (leaves w))"

lemma key_write_parts:
  assumes "key_write_clause p rk w"
  shows "dom (map_of (where_gud_key w [p] rk)) = set (p # take 1 rk)"
    and "where_condition_check w p (first_or_empty rk) st = serialize_opt (condition_part p (first_or_empty rk) w) st"
    and "eval sat w \<longleftrightarrow> (\<forall>kv\<in>set (where_gud_key w [p] rk). sat (LogicalComparison (fst kv) ''='' (snd kv))) \<and>
       eval_opt sat (condition_part p (first_or_empty rk) w)"
  using single_write_exact [of w p rk] assms unfolding key_write_clause_def by blast+

lemma write_means_by_key:
  assumes "key_write_clause p rk w" and "reaches (new_symtab prefix) st"
    and "with_table (where_condition_check w p (first_or_empty rk)) st = (cs, st')"
  shows "write_means prefix p rk w guard (key_of (where_gud_key w [p] rk)) (unless_empty (guarded guard cs))
    (names_of st') (values_of st')"
proof -
  let ?part = "condition_part p (first_or_empty rk) w"
  note kp = key_write_parts [OF assms(1)]
  obtain s st'' where "with_table (where_condition_check w p (first_or_empty rk)) st = (s, st'')"
    "serialize_opt ?part (Some st) = (s, Some st'')" "reaches st st''"
    by (rule serialize_opt_table [of "where_condition_check w p (first_or_empty rk)" st ?part, OF kp(2)])
  then have c: "serialize_opt ?part (Some st) = (cs, Some st')" "reaches st st'" using assms(3) by simp_all
  then have "request_tables prefix st' (names_of st') (values_of st')"
    using assms(2) by (auto simp: request_tables_def names_of_def values_of_def intro: reaches_trans)
  then show ?thesis
    unfolding write_means_def key_of_def using c assms(2) kp(1,3) by blast
qed

lemma write_means_delete:
  assumes "key_write_clause p rk w" and "de_where cmd = Some w"
    and "req = delete_with_key (make_delete_request cmd p (first_or_empty rk) (new_symtab prefix)) (key_of (where_gud_key w [p] rk))"
  shows "write_means prefix p rk w '''' (di_key req) (di_condition_expression req)
    (di_expression_attribute_names req) (di_expression_attribute_values req)"
proof -
  obtain cs st' where c: "with_table (where_condition_check w p (first_or_empty rk)) (new_symtab prefix) = (cs, st')"
    by fastforce
  from write_means_by_key [OF assms(1) reaches_refl c, of "''''"] show ?thesis
    using c assms(2,3) by (simp add: make_delete_request_def delete_with_key_def guarded_def split: if_splits)
qed

lemma serialize_each_reaches:
  assumes "\<And>x st. reaches st (snd (f x st))"
  shows "reaches st (snd (serialize_each f xs st))"
proof (induction xs arbitrary: st)
  case (Cons x xs)
  obtain a st1 where "f x st = (a, st1)" by fastforce
  then show ?case using assms [of st x] Cons.IH [of st1] by (auto intro: reaches_trans split: prod.split)
qed simp

lemma new_value_reaches: "reaches st (snd (new_value v st))"
  unfolding reaches_def st_run_def by (rule exI [of _ "[NewValue v]"]) simp

lemma serialize_set_element_reaches: "reaches st (snd (serialize_set_element elem st))"
proof -
  obtain lhs st1 where 1: "new_attribute (us_lhs elem) st = (lhs, st1)" by fastforce
  obtain a st2 where 2: "new_attribute (us_rhs_attribute elem) st1 = (a, st2)" by fastforce
  obtain b st3 where 3: "new_attribute (us_if_not_exists_lhs elem) st1 = (b, st3)" by fastforce
  obtain c st4 where 4: "new_value (the (us_if_not_exists_value elem)) st3 = (c, st4)" by fastforce
  note steps = new_attribute_reaches [of st "us_lhs elem"] new_attribute_reaches [of st1 "us_rhs_attribute elem"]
    new_attribute_reaches [of st1 "us_if_not_exists_lhs elem"]
    new_value_reaches [of st3 "the (us_if_not_exists_value elem)"]
  have r: "reaches st st1" "reaches st st2" "reaches st st3" "reaches st st4"
    using steps 1 2 3 4 by (auto intro: reaches_trans)
  have last: "reaches st (snd (new_value v t))" if "reaches st t" for v t
    using that new_value_reaches reaches_trans by blast
  have last': "new_value v t = (x, t') \<Longrightarrow> reaches st t \<Longrightarrow> reaches st t'" for v t x t'
    using last [of t v] by simp
  show ?thesis
    using r by (auto simp: serialize_set_element_def 1 2 3 4 Let_def split: option.split prod.split intro: last')
qed

lemma update_expression_reaches:
  assumes "update_expression_of cmd st = (e, st')"
  shows "reaches st st'"
  using assms serialize_each_reaches [of serialize_set_element st "up_set cmd", OF serialize_set_element_reaches]
    serialize_each_reaches [of new_attribute st "up_remove cmd"] new_attribute_reaches
  by (auto simp: update_expression_of_def split: if_splits prod.splits)

text \<open>The guard of an UPDATE: the partition key must exist; an UPSERT has none.\<close>

definition update_guard :: "bool \<Rightarrow> string \<Rightarrow> attribute_names \<Rightarrow> string \<Rightarrow> bool" where
  "update_guard upsert p names guard \<longleftrightarrow>
     (if upsert then guard = ''''
      else \<exists>tok. guard = ''attribute_exists('' @ tok @ '')'' \<and> resolve_path names tok = p)"

lemma write_means_update:
  assumes "key_write_clause p rk w" and "up_where cmd = Some w"
    and "req = update_with_key (make_update_request cmd p (first_or_empty rk) (new_symtab prefix)) (key_of (where_gud_key w [p] rk))"
    and "st_inv (new_symtab prefix)"
  shows "\<exists>guard. write_means prefix p rk w guard (ui_key req) (ui_condition_expression req)
      (ui_expression_attribute_names req) (ui_expression_attribute_values req) \<and>
    update_guard (up_upsert cmd) p (ui_expression_attribute_names req) guard"
proof -
  let ?st = "new_symtab prefix"
  obtain expr st1 where e: "update_expression_of cmd ?st = (expr, st1)" by fastforce
  obtain tok st2 where t: "new_attribute p st1 = (tok, st2)" by fastforce
  let ?g = "if up_upsert cmd then '''' else ''attribute_exists('' @ tok @ '')''"
  let ?st2 = "if up_upsert cmd then st1 else st2"
  obtain cs st3 where c: "with_table (where_condition_check w p (first_or_empty rk)) ?st2 = (cs, st3)" by fastforce
  have r1: "reaches ?st st1" using e by (rule update_expression_reaches)
  have r2: "reaches ?st ?st2" using r1 new_attribute_reaches [of st1 p] t by (auto intro: reaches_trans)
  obtain s st'' where "with_table (where_condition_check w p (first_or_empty rk)) ?st2 = (s, st'')" "reaches ?st2 st''"
    by (rule serialize_opt_table [of "where_condition_check w p (first_or_empty rk)" ?st2 "condition_part p (first_or_empty rk) w",
          OF key_write_parts(2) [OF assms(1)]])
  then have r3: "reaches ?st2 st3" using c by simp
  have res: "resolve_path (names_of st3) tok = p" if "\<not> up_upsert cmd"
    using new_attribute_resolves [of st1 st3 p] reaches_inv [OF assms(4) r1] reaches_inv [of st2 st3] reaches_inv [OF assms(4) r2] r3 t that
    by (simp add: names_of_def)
  have fields: "ui_key req = key_of (where_gud_key w [p] rk)" "ui_condition_expression req = unless_empty (guarded ?g cs)"
    "ui_expression_attribute_names req = names_of st3" "ui_expression_attribute_values req = values_of st3"
    using e t c assms(2,3) by (auto simp: make_update_request_def update_with_key_def guarded_def split: if_splits)
  from write_means_by_key [OF assms(1) r2 c, of ?g] res show ?thesis
    unfolding fields update_guard_def by (intro exI [of _ ?g]) auto
qed

text \<open>C27: A DELETE that is run by key.  Its clause has no negated conjunction, fixes each attribute of the primary
  key (the partition key attribute and the first sort key attribute, if there is one) by one positive equality, and
  the conjuncts on key attributes that its condition drops are equalities; the rate limit, if any, has rates that
  are not negative.  Then one DeleteItem is sent, whose key and condition together say exactly what the clause says, and its outcome is what the service
  answers: the account of one item modified, the account of one failed condition, or the error.
  This holds on any host whose clock does not go back and whose sleep takes at least the time asked for; such a
  rate limit changes nothing but the state of the host.\<close>

theorem delete_by_key_sound:
  assumes "steady_host ops"
    and "get_key_schema client (de_table cmd) '''' s = Some (Inr \<lparr>rks_pk = [p], rks_rk = rk\<rparr>, s1)"
    and "de_where cmd = Some w" and "key_write_clause p rk w" and "sound_rates (de_ratelimit cmd)"
  shows "\<exists>req. di_table_name req = de_table cmd \<and>
    write_means (unique_prefix (unat (alias_prefix_counter s1))) p rk w '''' (di_key req) (di_condition_expression req)
      (di_expression_attribute_names req) (di_expression_attribute_values req) \<and>
    (\<forall>res w'. delete_item client req (world s1) = (res, w') \<longrightarrow>
      (\<exists>h. execute_delete ops client cmd False s =
         Some (answered (write_answer Verb_del (de_return_value cmd \<noteq> Ast_rv_none) res) w' h
           (s1\<lparr>alias_prefix_counter := alias_prefix_counter s1 + 1\<rparr>))))"
proof -
  let ?r = "first_or_empty rk" and ?c = "alias_prefix_counter s1"
  define req where "req = delete_with_key (make_delete_request cmd p ?r (new_symtab (unique_prefix (unat ?c))))
    (key_of (where_gud_key w [p] rk))"
  let ?s = "s1\<lparr>alias_prefix_counter := ?c + 1\<rparr>"
  obtain lmt h where lm: "lim_make ops (de_ratelimit cmd) ?s = Some (Inr lmt, ?s\<lparr>host := h\<rparr>)" "sound_limiter lmt"
    using lim_make_result [of ops "de_ratelimit cmd" ?s] assms(5) by metis
  have cd: "can_delete_item w [p] rk" using assms(4) by (simp add: key_write_clause_def can_delete_item_def)
  have run: "execute_delete ops client cmd False s =
      single_write ops client False ''DeleteItem'' (ExplainDeleteItem req) (delete_item client req) Verb_del
        (de_return_value cmd \<noteq> Ast_rv_none) lmt (?s\<lparr>host := h\<rparr>)"
    using assms(2,3) lm(1) cd
    by (simp add: execute_delete_def exec_simps next_alias_prefix_def req_def first_or_empty_def Let_def)
  have "\<exists>h. execute_delete ops client cmd False s =
      Some (answered (write_answer Verb_del (de_return_value cmd \<noteq> Ast_rv_none) res) w' h ?s)"
    if "delete_item client req (world s1) = (res, w')" for res w'
    using steady_host.single_write_complete [OF assms(1), of "delete_item client req" "?s\<lparr>host := h\<rparr>" res w' lmt client
        "''DeleteItem''" "ExplainDeleteItem req" Verb_del "de_return_value cmd \<noteq> Ast_rv_none"] that lm(2)
    unfolding run by (auto simp: answered_def write_answer_def split: sum.split)
  moreover have "di_table_name req = de_table cmd"
    by (simp add: req_def delete_with_key_def make_delete_request_def split: prod.split)
  ultimately show ?thesis using write_means_delete [OF assms(4,3) req_def] by blast
qed

text \<open>C28: An UPDATE or UPSERT that is run by key, its clause and rate limit as for a DELETE by key: no negated
  conjunction, each attribute of the primary key fixed by one positive equality, no conjunct dropped but
  equalities on the key, no negative rate.  It sends one UpdateItem,
  whose key and condition together say exactly what the clause says; before that condition an
  UPDATE, and only an UPDATE, requires the partition key attribute to exist, named by an alias
  that resolves to it.  The outcome is what the service answers, on any host whose clock does not go back and
  whose sleep takes at least the time asked for.\<close>

theorem update_by_key_sound:
  assumes "steady_host ops"
    and "get_key_schema client (up_table cmd) '''' s = Some (Inr \<lparr>rks_pk = [p], rks_rk = rk\<rparr>, s1)"
    and "up_where cmd = Some w" and "key_write_clause p rk w" and "sound_rates (up_ratelimit cmd)"
  shows "\<exists>req guard. ui_table_name req = up_table cmd \<and>
    write_means (unique_prefix (unat (alias_prefix_counter s1))) p rk w guard (ui_key req) (ui_condition_expression req)
      (ui_expression_attribute_names req) (ui_expression_attribute_values req) \<and>
    update_guard (up_upsert cmd) p (ui_expression_attribute_names req) guard \<and>
    (\<forall>res w'. update_item client req (world s1) = (res, w') \<longrightarrow>
      (\<exists>h. execute_update ops client cmd False s =
         Some (answered (write_answer (update_verb cmd) (up_return_value cmd \<noteq> Ast_rv_none) res) w' h
           (s1\<lparr>alias_prefix_counter := alias_prefix_counter s1 + 1\<rparr>))))"
proof -
  let ?r = "first_or_empty rk" and ?c = "alias_prefix_counter s1"
  define req where "req = update_with_key (make_update_request cmd p ?r (new_symtab (unique_prefix (unat ?c))))
    (key_of (where_gud_key w [p] rk))"
  let ?s = "s1\<lparr>alias_prefix_counter := ?c + 1\<rparr>"
  obtain lmt h where lm: "lim_make ops (up_ratelimit cmd) ?s = Some (Inr lmt, ?s\<lparr>host := h\<rparr>)" "sound_limiter lmt"
    using lim_make_result [of ops "up_ratelimit cmd" ?s] assms(5) by metis
  have cd: "can_update_item w [p] rk" using assms(4) by (simp add: key_write_clause_def)
  have run: "execute_update ops client cmd False s =
      single_write ops client False ''UpdateItem'' (ExplainUpdateItem req) (update_item client req) (update_verb cmd)
        (up_return_value cmd \<noteq> Ast_rv_none) lmt (?s\<lparr>host := h\<rparr>)"
    using assms(2,3) lm(1) cd
    by (simp add: execute_update_def exec_simps next_alias_prefix_def req_def first_or_empty_def Let_def)
  have "\<exists>h. execute_update ops client cmd False s =
      Some (answered (write_answer (update_verb cmd) (up_return_value cmd \<noteq> Ast_rv_none) res) w' h ?s)"
    if "update_item client req (world s1) = (res, w')" for res w'
    using steady_host.single_write_complete [OF assms(1), of "update_item client req" "?s\<lparr>host := h\<rparr>" res w' lmt client
        "''UpdateItem''" "ExplainUpdateItem req" "update_verb cmd" "up_return_value cmd \<noteq> Ast_rv_none"] that lm(2)
    unfolding run by (auto simp: answered_def write_answer_def split: sum.split)
  moreover have "ui_table_name req = up_table cmd"
    by (simp add: req_def update_with_key_def make_update_request_def Let_def split: prod.split)
  ultimately show ?thesis using write_means_update [OF assms(4,3) req_def] unique_symtab_inv by blast
qed

definition sample_clause :: lexpr where
  "sample_clause = mk_comparison ''a'' ''='' (S ''x'')"

definition sample_delete :: delete_cmd where
  "sample_delete = \<lparr>de_table = ''t'', de_index = None, de_where = Some sample_clause, de_ratelimit = None,
     de_return_value = Ast_rv_none\<rparr>"

definition sample_update :: update_cmd where
  "sample_update = \<lparr>up_table = ''t'', up_index = None, up_mutation = Mutation_remove, up_set = [],
     up_remove = [''v''], up_where = Some sample_clause, up_upsert = False, up_ratelimit = None, up_return_value = Ast_rv_none\<rparr>"

lemma sample_clause_by_key: "key_write_clause ''a'' [] sample_clause"
  by (simp add: key_write_clause_def sample_clause_def mk_comparison_def no_flags_def can_update_item_def
      first_or_empty_def)

theorem delete_by_key_sound_witness:
  "\<exists>req :: delete_item_in. di_table_name req = ''t'' \<and>
    write_means (unique_prefix 0) ''a'' [] sample_clause '''' (di_key req) (di_condition_expression req)
      (di_expression_attribute_names req) (di_expression_attribute_values req)"
  using delete_by_key_sound [OF default_steady.steady_host_axioms, of memory_client sample_delete sample_state "''a''" "[]" sample_state sample_clause]
    sample_schema sample_clause_by_key
  by (simp add: sample_delete_def sound_rates_def sample_state_def) blast

theorem update_by_key_sound_witness:
  "\<exists>(req :: update_item_in) guard. ui_table_name req = ''t'' \<and>
    write_means (unique_prefix 0) ''a'' [] sample_clause guard (ui_key req) (ui_condition_expression req)
      (ui_expression_attribute_names req) (ui_expression_attribute_values req) \<and>
    update_guard False ''a'' (ui_expression_attribute_names req) guard"
  using update_by_key_sound [OF default_steady.steady_host_axioms, of memory_client sample_update sample_state "''a''" "[]" sample_state sample_clause]
    sample_schema sample_clause_by_key
  by (simp add: sample_update_def sound_rates_def sample_state_def) blast

lemma sample_delete_answer:
  "m_delete_item (delete_with_key (make_delete_request sample_delete ''a'' '''' (new_symtab prefix)) [(''a'', S ''x'')]) sample_memory =
     (Inr \<lparr>wo_attributes = None, wo_consumed_capacity = None\<rparr>,
      set_table ''t'' (mt_erase (''a=S:x'' @ [CHR 0x1F]) (the (find_table ''t'' sample_memory))) sample_memory)"
  by (simp add: m_delete_item_def make_delete_request_def sample_delete_def sample_clause_def with_table_def
      where_condition_check_def mk_comparison_def no_flags_def delete_with_key_def find_table_def sample_memory_def
      key_string_def unless_empty_def check_condition_def)

lemma sample_delete_run:
  "\<exists>t. execute_delete default_host memory_client sample_delete False sample_state = Some (Inr (), t)"
proof -
  have g: "get_key_schema memory_client (de_table sample_delete) '''' sample_state =
      Some (Inr \<lparr>rks_pk = [''a''], rks_rk = []\<rparr>, sample_state)"
    using sample_schema by (simp add: sample_delete_def)
  have k: "key_of (where_gud_key sample_clause [''a''] []) = [(''a'', S ''x'')]"
    "can_delete_item sample_clause [''a''] []"
    by (simp_all add: key_of_def where_gud_key_def sample_clause_def mk_comparison_def no_flags_def first_or_empty_def
        can_delete_item_def can_update_item_def)
  have c: "de_where sample_delete = Some sample_clause" "de_ratelimit sample_delete = None"
    by (simp_all add: sample_delete_def)
  show ?thesis
    using g k c sample_delete_answer
    by (simp add: execute_delete_def exec_simps next_alias_prefix_def first_or_empty_def lim_make_def single_write_def
        write_one_def lim_wait_def sample_state_def)
qed

theorem writes_emit_one_account_witness:
  "\<exists>t acct. execute_delete default_host memory_client sample_delete False sample_state = Some (Inr (), t) \<and>
     emitted t = [BulkWriteOutcome acct] \<and> acct_ok Verb_del False acct"
proof -
  obtain t where t: "execute_delete default_host memory_client sample_delete False sample_state = Some (Inr (), t)"
    using sample_delete_run by blast
  then show ?thesis
    using writes_emit_one_account [of default_host memory_client sample_update sample_state "Inr ()" t sample_delete]
    by (auto simp: sample_delete_def sample_state_def)
qed

end
