(* ===== verification/Transact.thy ===== *)
theory Transact
  imports Write_Props
begin

text \<open>
  Transactions: \<open>transact_build.cpp\<close>, which reduces the commands of a transaction to the items of
  one request, and \<open>transact_executor.cpp\<close>, which builds all items, aborts if one of them cannot
  be reduced, and otherwise sends the one request.
\<close>

section \<open>Building the items\<close>

definition kSelectNotReducibleMessage :: string where
  "kSelectNotReducibleMessage =
     ''The SELECT cannot be used in a transaction (it cannot be reduced to a GetItem() request).''"

definition kSelectNoExistsMessage :: string where
  "kSelectNoExistsMessage =
     ''A SELECT command without an EXISTS or NOT EXISTS cannot be used in a write transaction.''"

definition not_reducible :: "string \<Rightarrow> 'a result" where
  "not_reducible msg = fail_with not_reducible_to_getitem msg"

definition transact_get_of :: "select_cmd \<Rightarrow> lexpr \<Rightarrow> resolved_key_schema \<Rightarrow> string \<Rightarrow> transact_get" where
  "transact_get_of cmd w ks prefix =
     (let (proj, st) = plan_projection (sel_projection cmd) (new_symtab prefix)
      in \<lparr>tg_table_name = sel_table cmd, tg_key = key_of (where_gud_key w (rks_pk ks) (rks_rk ks)),
          tg_projection_expression = proj, tg_expression_attribute_names = names_of st\<rparr>)"

definition build_transact_get :: "'w iddb_client \<Rightarrow> select_cmd \<Rightarrow> ('w, 'h, transact_get) exec" where
  "build_transact_get client cmd =
     bind_e (get_key_schema client (sel_table cmd) '''')
       (\<lambda>ks. case sel_where cmd of
          None \<Rightarrow> lift_e (not_reducible kSelectNotReducibleMessage)
        | Some w \<Rightarrow>
            (if sel_index cmd \<noteq> None \<or> \<not> can_getitem w (rks_pk ks) (rks_rk ks)
             then lift_e (not_reducible kSelectNotReducibleMessage)
             else bind_e next_alias_prefix (\<lambda>prefix. return_e (transact_get_of cmd w ks prefix))))"

definition transact_put_of :: "put_item_in \<Rightarrow> transact_put" where
  "transact_put_of r =
     \<lparr>tp_table_name = pi_table_name r, tp_item = pi_item r, tp_condition_expression = pi_condition_expression r,
      tp_expression_attribute_names = pi_expression_attribute_names r,
      tp_expression_attribute_values = pi_expression_attribute_values r\<rparr>"

fun transact_puts_loop ::
    "insert_cmd \<Rightarrow> string \<Rightarrow> value list list \<Rightarrow> transact_put list \<Rightarrow> ('w, 'h, transact_put list) exec" where
  "transact_puts_loop cmd pk [] puts = return_e puts"
| "transact_puts_loop cmd pk (row # rows) puts =
     bind_e (make_put_request cmd row pk)
       (\<lambda>req. transact_puts_loop cmd pk rows (puts @ [transact_put_of req]))"

definition build_transact_puts :: "'w iddb_client \<Rightarrow> insert_cmd \<Rightarrow> ('w, 'h, transact_put list) exec" where
  "build_transact_puts client cmd =
     bind_e (get_key_schema client (in_table_name cmd) '''')
       (\<lambda>ks. bind_e (lift_e (validate_insert_rows cmd))
         (\<lambda>_. transact_puts_loop cmd (first_or_empty (rks_pk ks)) (in_rows cmd) []))"

definition transact_update_of :: "update_item_in \<Rightarrow> value_map \<Rightarrow> transact_update" where
  "transact_update_of r key =
     \<lparr>tu_table_name = ui_table_name r, tu_key = key, tu_update_expression = ui_update_expression r,
      tu_condition_expression = ui_condition_expression r,
      tu_expression_attribute_names = ui_expression_attribute_names r,
      tu_expression_attribute_values = ui_expression_attribute_values r\<rparr>"

definition build_transact_update :: "'w iddb_client \<Rightarrow> update_cmd \<Rightarrow> ('w, 'h, transact_update) exec" where
  "build_transact_update client cmd =
     bind_e (get_key_schema client (up_table cmd) '''')
       (\<lambda>ks. case up_where cmd of
          None \<Rightarrow> lift_e (not_reducible '''')
        | Some w \<Rightarrow>
            (if \<not> can_update_item w (rks_pk ks) (rks_rk ks) then lift_e (not_reducible '''')
             else bind_e next_alias_prefix
               (\<lambda>prefix. return_e (transact_update_of
                  (make_update_request cmd (first_or_empty (rks_pk ks)) (first_or_empty (rks_rk ks)) (new_symtab prefix))
                  (key_of (where_gud_key w (rks_pk ks) (rks_rk ks)))))))"

definition transact_delete_of :: "delete_item_in \<Rightarrow> value_map \<Rightarrow> transact_delete" where
  "transact_delete_of r key =
     \<lparr>td_table_name = di_table_name r, td_key = key, td_condition_expression = di_condition_expression r,
      td_expression_attribute_names = di_expression_attribute_names r,
      td_expression_attribute_values = di_expression_attribute_values r\<rparr>"

definition build_transact_delete :: "'w iddb_client \<Rightarrow> delete_cmd \<Rightarrow> ('w, 'h, transact_delete) exec" where
  "build_transact_delete client cmd =
     bind_e (get_key_schema client (de_table cmd) '''')
       (\<lambda>ks. case de_where cmd of
          None \<Rightarrow> lift_e (not_reducible '''')
        | Some w \<Rightarrow>
            (if \<not> can_delete_item w (rks_pk ks) (rks_rk ks) then lift_e (not_reducible '''')
             else bind_e next_alias_prefix
               (\<lambda>prefix. return_e (transact_delete_of
                  (make_delete_request cmd (first_or_empty (rks_pk ks)) (first_or_empty (rks_rk ks)) (new_symtab prefix))
                  (key_of (where_gud_key w (rks_pk ks) (rks_rk ks)))))))"

text \<open>The condition of an EXISTS or NOT EXISTS check; the calls for several projected
  attributes are concatenated without a separator.\<close>

fun check_calls :: "string \<Rightarrow> string list \<Rightarrow> string \<Rightarrow> symtab \<Rightarrow> string \<times> symtab" where
  "check_calls f [] out st = (out, st)"
| "check_calls f (p # ps) out st =
     (let (tok, st') = new_attribute p st in check_calls f ps (out @ f @ ''('' @ tok @ '')'') st')"

definition condition_check_of ::
    "select_cmd \<Rightarrow> string \<Rightarrow> lexpr \<Rightarrow> resolved_key_schema \<Rightarrow> string \<Rightarrow> transact_condition_check" where
  "condition_check_of cmd check_func w ks prefix =
     (let (filt, st1) = with_table (where_query_filter w \<lparr>plan_pk = rks_pk ks, plan_sk_prefix = rks_rk ks\<rparr>) (new_symtab prefix);
          filt = (if filt = [] then filt else filt @ '' AND '');
          (filt, st2) = check_calls check_func
            (if sel_projection cmd = [] then [first_or_empty (rks_pk ks)] else sel_projection cmd) filt st1
      in \<lparr>tc_table_name = sel_table cmd, tc_key = key_of (where_gud_key w (rks_pk ks) (rks_rk ks)),
          tc_condition_expression = filt, tc_expression_attribute_names = names_of st2,
          tc_expression_attribute_values = values_of st2\<rparr>)"

definition check_func_of :: "exists_mode \<Rightarrow> string option" where
  "check_func_of mode =
     (case mode of
        Exists_exists \<Rightarrow> Some ''attribute_exists''
      | Exists_not_exists \<Rightarrow> Some ''attribute_not_exists''
      | Exists_none \<Rightarrow> None)"

definition build_transact_condition_check ::
    "'w iddb_client \<Rightarrow> select_cmd \<Rightarrow> ('w, 'h, transact_condition_check) exec" where
  "build_transact_condition_check client cmd =
     (case check_func_of (sel_exists_mode cmd) of
        None \<Rightarrow> lift_e (not_reducible kSelectNoExistsMessage)
      | Some check_func \<Rightarrow>
          bind_e (get_key_schema client (sel_table cmd) '''')
            (\<lambda>ks. case sel_where cmd of
               None \<Rightarrow> lift_e (not_reducible '''')
             | Some w \<Rightarrow> bind_e next_alias_prefix
                 (\<lambda>prefix. return_e (condition_check_of cmd check_func w ks prefix))))"

section \<open>The executor\<close>

text \<open>A builder's error seen as a value.\<close>

definition try_e :: "('w, 'h, 'a) exec \<Rightarrow> ('w, 'h, 'a result) exec" where
  "try_e m s = (case m s of None \<Rightarrow> None | Some (r, s') \<Rightarrow> Some (Inr r, s'))"

record 'a txn =
  tx_aborted :: bool
  tx_diagnostics :: "string list"
  tx_items :: "'a list"

definition absorb_or_propagate :: "error \<Rightarrow> 'a txn \<Rightarrow> 'a txn result" where
  "absorb_or_propagate e tx =
     (if err_code e = not_reducible_to_getitem
      then Inr (tx\<lparr>tx_aborted := True,
        tx_diagnostics := tx_diagnostics tx @ (if err_message e = [] then [] else [err_message e])\<rparr>)
      else Inl e)"

text \<open>Adds what a builder built, or absorbs or propagates its error.\<close>

definition add_built :: "'a txn \<Rightarrow> ('w, 'h, 'a list) exec \<Rightarrow> ('w, 'h, 'a txn) exec" where
  "add_built tx build =
     bind_e (try_e build)
       (\<lambda>r. case r of
          Inr xs \<Rightarrow> return_e (tx\<lparr>tx_items := tx_items tx @ xs\<rparr>)
        | Inl e \<Rightarrow> lift_e (absorb_or_propagate e tx))"

definition map_e :: "('a \<Rightarrow> 'b) \<Rightarrow> ('w, 'h, 'a) exec \<Rightarrow> ('w, 'h, 'b) exec" where
  "map_e f m = bind_e m (\<lambda>x. return_e (f x))"

text \<open>The builder for a command of the body; \<open>None\<close> for a command that has none.\<close>

fun read_builder :: "'w iddb_client \<Rightarrow> command_node \<Rightarrow> ('w, 'h, transact_get list) exec option" where
  "read_builder client (SelectCmd cmd) = Some (map_e (\<lambda>g. [g]) (build_transact_get client cmd))"
| "read_builder client _ = None"

fun write_builder :: "'w iddb_client \<Rightarrow> command_node \<Rightarrow> ('w, 'h, transact_write_item list) exec option" where
  "write_builder client (InsertCmd cmd) = Some (map_e (map TransactPut) (build_transact_puts client cmd))"
| "write_builder client (UpdateCmd cmd) = Some (map_e (\<lambda>u. [TransactUpdate u]) (build_transact_update client cmd))"
| "write_builder client (DeleteCmd cmd) = Some (map_e (\<lambda>d. [TransactDelete d]) (build_transact_delete client cmd))"
| "write_builder client (SelectCmd cmd) =
     Some (map_e (\<lambda>c. [TransactConditionCheck c]) (build_transact_condition_check client cmd))"
| "write_builder client _ = None"

fun build_items ::
    "(command_node \<Rightarrow> ('w, 'h, 'a list) exec option) \<Rightarrow> command_node list \<Rightarrow> 'a txn \<Rightarrow> ('w, 'h, 'a txn) exec" where
  "build_items builder [] tx = return_e tx"
| "build_items builder (item # items) tx =
     (case builder item of
        None \<Rightarrow> build_items builder items (tx\<lparr>tx_aborted := True\<rparr>)
      | Some build \<Rightarrow> bind_e (add_built tx build) (build_items builder items))"

definition start_txn :: "bool \<Rightarrow> 'a txn" where
  "start_txn rollback = \<lparr>tx_aborted = rollback, tx_diagnostics = [], tx_items = []\<rparr>"

definition explain_batch :: "'w iddb_client \<Rightarrow> string \<Rightarrow> explain_request \<Rightarrow> ('w, 'h, exec_outcome) exec" where
  "explain_batch client api req =
     bind_e (call (explain_of client req)) (\<lambda>body. return_e (ExplainOutcome [explain_block_of api body] None))"

definition abort_outcome :: "string list \<Rightarrow> exec_outcome" where
  "abort_outcome diagnostics = TransactOutcome ''ABORT'' diagnostics"

text \<open>The end of both kinds of transaction: abort, explain, or send the one request.\<close>

definition finish_txn ::
    "'w iddb_client \<Rightarrow> bool \<Rightarrow> string \<Rightarrow> ('a list \<Rightarrow> explain_request) \<Rightarrow> ('a list \<Rightarrow> ('w, 'b) client_call) \<Rightarrow>
     ('b \<Rightarrow> exec_outcome) \<Rightarrow> 'a txn \<Rightarrow> ('w, 'h, unit) exec" where
  "finish_txn client explain api request send outcome tx =
     (if tx_aborted tx then emit (abort_outcome (tx_diagnostics tx))
      else if explain then bind_e (explain_batch client api (request (tx_items tx))) emit
      else bind_e (attempt (send (tx_items tx)))
        (\<lambda>r. case r of
           Inl e \<Rightarrow> bind_e (emit (abort_outcome [])) (\<lambda>_. throw_e e)
         | Inr out \<Rightarrow> emit (outcome out)))"

definition read_outcome :: "item_row option list \<Rightarrow> exec_outcome" where
  "read_outcome responses = TransactReadOutcome (map (\<lambda>r. case r of Some item \<Rightarrow> item | None \<Rightarrow> []) responses)"

definition execute_transact_read ::
    "'w iddb_client \<Rightarrow> bool \<Rightarrow> command_node list \<Rightarrow> bool \<Rightarrow> ('w, 'h, unit) exec" where
  "execute_transact_read client rollback items explain =
     bind_e (build_items (read_builder client) items (start_txn rollback))
       (finish_txn client explain ''TransactGetItems'' ExplainTransactGetItems (transact_get_items client) read_outcome)"

definition execute_transact_write ::
    "'w iddb_client \<Rightarrow> bool \<Rightarrow> command_node list \<Rightarrow> bool \<Rightarrow> ('w, 'h, unit) exec" where
  "execute_transact_write client rollback items explain =
     bind_e (build_items (write_builder client) items (start_txn rollback))
       (finish_txn client explain ''TransactWriteItems'' ExplainTransactWriteItems (transact_write_items client)
         (\<lambda>_. StatusOutcome ''COMMIT'' []))"

definition execute_transact ::
    "'w iddb_client \<Rightarrow> access \<Rightarrow> bool \<Rightarrow> command_node list \<Rightarrow> bool \<Rightarrow> ('w, 'h, unit) exec" where
  "execute_transact client acc rollback items explain =
     (if items = [] then emit EmptyOutcome
      else case acc of
        Access_read \<Rightarrow> execute_transact_read client rollback items explain
      | Access_write \<Rightarrow> execute_transact_write client rollback items explain)"

section \<open>Building reads metadata only and returns\<close>

text \<open>DescribeTable and the serialization for EXPLAIN leave the client's world alone.\<close>

definition metadata_reads :: "'w iddb_client \<Rightarrow> bool" where
  "metadata_reads client \<longleftrightarrow>
     (\<forall>t w. snd (describe_table client t w) = w) \<and> (\<forall>r w. snd (explain_of client r w) = w)"

definition untouched :: "('w, 'h, 'a) exec \<Rightarrow> bool" where
  "untouched m \<longleftrightarrow> (\<forall>s r t. m s = Some (r, t) \<longrightarrow> world t = world s \<and> emitted t = emitted s)"

definition returns :: "('w, 'h, 'a) exec \<Rightarrow> bool" where
  "returns m \<longleftrightarrow> (\<forall>s. m s \<noteq> None)"

lemma untouchedD: "untouched m \<Longrightarrow> m s = Some (r, t) \<Longrightarrow> world t = world s \<and> emitted t = emitted s"
  by (auto simp: untouched_def)

lemma untouched_simps [simp, intro]:
  "untouched (return_e x)" "untouched (throw_e e)" "untouched (lift_e r)" "untouched next_alias_prefix"
  by (auto simp: untouched_def return_e_def throw_e_def lift_e_def next_alias_prefix_def split: sum.splits)

lemma untouched_bind [intro]: "untouched m \<Longrightarrow> (\<And>x. untouched (k x)) \<Longrightarrow> untouched (bind_e m k)"
  unfolding untouched_def bind_Some_iff by metis

lemma untouched_try [intro]: "untouched m \<Longrightarrow> untouched (try_e m)"
  by (auto simp: untouched_def try_e_def split: option.splits prod.splits)

lemma untouched_schema [intro]:
  assumes "metadata_reads client"
  shows "untouched (get_key_schema client t ix)"
proof -
  have "untouched (call (describe_table client t))"
    using assms by (auto simp: untouched_def call_def bind_e_def attempt_def lift_e_def return_e_def throw_e_def
        metadata_reads_def split: option.splits prod.splits sum.splits) (metis snd_conv)+
  then show ?thesis unfolding get_key_schema_def by (intro untouched_bind untouched_simps)
qed

lemma returns_simps [simp, intro]:
  "returns (return_e x)" "returns (throw_e e)" "returns (lift_e r)" "returns next_alias_prefix" "returns (emit fragment)"
  "returns (attempt op)"
  by (auto simp: returns_def return_e_def throw_e_def lift_e_def next_alias_prefix_def emit_def attempt_def
      split: sum.splits prod.splits)

lemma returns_bind [intro]: "returns m \<Longrightarrow> (\<And>x. returns (k x)) \<Longrightarrow> returns (bind_e m k)"
  by (auto simp: returns_def bind_e_def split: option.splits sum.splits)

lemma returns_try [intro]: "returns m \<Longrightarrow> returns (try_e m)"
  by (auto simp: returns_def try_e_def split: option.splits prod.splits)

lemma returns_call [simp, intro]: "returns (call op)"
  unfolding call_def by (intro returns_bind returns_simps)

lemma returns_schema [simp, intro]: "returns (get_key_schema client t ix)"
  unfolding get_key_schema_def by (intro returns_bind returns_call returns_simps)

lemma make_put_request_local [simp, intro]: "untouched (make_put_request cmd row pk)" "returns (make_put_request cmd row pk)"
  by (auto simp: untouched_def returns_def make_put_request_apply)

lemma transact_puts_loop_local [simp, intro]:
  "untouched (transact_puts_loop cmd pk rows puts)" "returns (transact_puts_loop cmd pk rows puts)"
  by (induction rows arbitrary: puts) (auto intro!: untouched_bind returns_bind)

lemmas builder_defs = build_transact_get_def build_transact_puts_def build_transact_update_def
  build_transact_delete_def build_transact_condition_check_def map_e_def

lemma write_builder_untouched:
  assumes "metadata_reads client" and "write_builder client item = Some b"
  shows "untouched b"
  using assms(2) untouched_schema [OF assms(1)]
  by (cases item) (auto simp: builder_defs intro!: untouched_bind split: option.splits)

lemma read_builder_untouched:
  assumes "metadata_reads client" and "read_builder client item = Some b"
  shows "untouched b"
  using assms(2) untouched_schema [OF assms(1)]
  by (cases item) (auto simp: builder_defs intro!: untouched_bind split: option.splits)

lemma builder_returns:
  "write_builder client item = Some b \<Longrightarrow> returns b"
  "read_builder client item = Some c \<Longrightarrow> returns c"
  by (cases item; auto simp: builder_defs intro!: returns_bind split: option.splits)
    (cases item; auto simp: builder_defs intro!: returns_bind split: option.splits)

lemma add_built_untouched: "untouched b \<Longrightarrow> untouched (add_built tx b)"
  unfolding add_built_def by (intro untouched_bind untouched_try) (auto split: sum.splits)

lemma build_items_untouched:
  "(\<And>item b. builder item = Some b \<Longrightarrow> untouched b) \<Longrightarrow> untouched (build_items builder items tx)"
  by (induction items arbitrary: tx) (auto intro!: untouched_bind add_built_untouched split: option.split)

lemma build_items_returns:
  "(\<And>item b. builder item = Some b \<Longrightarrow> returns b) \<Longrightarrow> returns (build_items builder items tx)"
  by (induction items arbitrary: tx)
    (auto simp: add_built_def intro!: returns_bind split: option.split sum.split)

lemma finish_txn_returns [simp, intro]: "returns (finish_txn client explain api request send outcome tx)"
  by (auto simp: finish_txn_def explain_batch_def intro!: returns_bind split: sum.split)

section \<open>All or nothing\<close>

text \<open>Every command of the body was built, the items are \<open>xs\<close>; or one of them was refused.\<close>

inductive built ::
    "(command_node \<Rightarrow> ('w, 'h, 'a list) exec option) \<Rightarrow> command_node list \<Rightarrow> ('w, 'h) exec_state \<Rightarrow> 'a list \<Rightarrow>
     ('w, 'h) exec_state \<Rightarrow> bool"
  for builder :: "command_node \<Rightarrow> ('w, 'h, 'a list) exec option" where
  built_none: "built builder [] s [] s"
| built_item: "built builder (item # items) s (xs @ ys) t"
    if "builder item = Some b" and "b s = Some (Inr xs, u)" and "built builder items u ys t"

inductive refused ::
    "(command_node \<Rightarrow> ('w, 'h, 'a list) exec option) \<Rightarrow> command_node list \<Rightarrow> ('w, 'h) exec_state \<Rightarrow> bool"
  for builder :: "command_node \<Rightarrow> ('w, 'h, 'a list) exec option" where
  refused_kind: "refused builder (item # items) s" if "builder item = None"
| refused_item: "refused builder (item # items) s"
    if "builder item = Some b" and "b s = Some (Inl e, u)" and "err_code e = not_reducible_to_getitem"
| refused_later: "refused builder (item # items) s"
    if "builder item = Some b" and "b s = Some (Inr xs, u)" and "refused builder items u"

inductive_cases built_ConsE: "built builder (item # items) s xs t"

lemma add_built_cases:
  assumes "add_built tx b s = Some (r, t)"
  obtains (built) xs where "b s = Some (Inr xs, t)" and "r = Inr (tx\<lparr>tx_items := tx_items tx @ xs\<rparr>)"
  | (absorbed) e where "b s = Some (Inl e, t)" and "err_code e = not_reducible_to_getitem"
      and "r = absorb_or_propagate e tx"
  | (hard) e where "b s = Some (Inl e, t)" and "err_code e \<noteq> not_reducible_to_getitem" and "r = Inl e"
  using assms
  by (auto simp: add_built_def bind_e_def try_e_def return_e_def lift_e_def throw_e_def absorb_or_propagate_def
      split: option.splits prod.splits sum.splits if_splits)

lemma build_items_aborted_stays:
  "build_items builder items tx s = Some (Inr tx', t) \<Longrightarrow> tx_aborted tx \<Longrightarrow> tx_aborted tx'"
proof (induction items arbitrary: tx s)
  case (Cons item items)
  show ?case
  proof (cases "builder item")
    case None
    then show ?thesis using Cons.prems Cons.IH by simp
  next
    case (Some b)
    then obtain tx1 u where 1: "add_built tx b s = Some (Inr tx1, u)" "build_items builder items tx1 u = Some (Inr tx', t)"
      using Cons.prems by (auto simp: bind_Some_iff)
    have "tx_aborted tx1" using 1(1) Cons.prems(2)
      by (cases rule: add_built_cases) (auto simp: absorb_or_propagate_def)
    then show ?thesis using Cons.IH 1(2) by blast
  qed
qed (simp add: return_e_def)

lemma build_items_sound:
  assumes "build_items builder items tx s = Some (Inr tx', t)"
  shows "if tx_aborted tx' then tx_aborted tx \<or> refused builder items s
    else \<not> tx_aborted tx \<and> (\<exists>xs. built builder items s xs t \<and> tx_items tx' = tx_items tx @ xs)"
  using assms
proof (induction items arbitrary: tx s)
  case Nil
  then show ?case by (auto simp: return_e_def intro: built_none)
next
  case (Cons item items)
  show ?case
  proof (cases "builder item")
    case None
    then show ?thesis using Cons.prems build_items_aborted_stays [of builder items "tx\<lparr>tx_aborted := True\<rparr>" s tx' t]
      by (auto intro: refused_kind)
  next
    case (Some b)
    then obtain tx1 u where 1: "add_built tx b s = Some (Inr tx1, u)" "build_items builder items tx1 u = Some (Inr tx', t)"
      using Cons.prems by (auto simp: bind_Some_iff)
    from 1(1) show ?thesis
    proof (cases rule: add_built_cases)
      case (built xs)
      then show ?thesis using Cons.IH [OF 1(2)] Some
        by (auto split: if_splits intro: refused_later built_item)
    next
      case (absorbed e)
      then have "tx_aborted tx1" by (auto simp: absorb_or_propagate_def)
      then show ?thesis using build_items_aborted_stays [OF 1(2)] absorbed Some by (auto intro: refused_item)
    qed simp
  qed
qed

lemma build_items_complete:
  assumes "built builder items s xs t"
  shows "build_items builder items tx s = Some (Inr (tx\<lparr>tx_items := tx_items tx @ xs\<rparr>), t)"
  using assms
proof (induction arbitrary: tx rule: built.induct)
  case (built_item item b s xs u items ys t)
  have "add_built tx b s = Some (Inr (tx\<lparr>tx_items := tx_items tx @ xs\<rparr>), u)"
    using built_item.hyps(2) by (simp add: add_built_def bind_e_def try_e_def return_e_def)
  then show ?case using built_item.hyps(1) built_item.IH [of "tx\<lparr>tx_items := tx_items tx @ xs\<rparr>"]
    by (simp add: bind_e_def)
qed (simp add: return_e_def)

text \<open>What a transaction does, given that building leaves world and sink alone.\<close>

lemma transaction_cases:
  assumes local: "\<And>item b. builder item = Some b \<Longrightarrow> untouched b"
    and run: "bind_e (build_items builder items (start_txn rollback))
      (finish_txn client False api request send outcome) s = Some (r, t)"
  shows "(\<exists>e. r = Inl e \<and> emitted t = emitted s \<and> world t = world s) \<or>
    (\<exists>ds. r = Inr () \<and> emitted t = emitted s @ [TransactOutcome ''ABORT'' ds] \<and> world t = world s \<and>
       (rollback \<or> refused builder items s)) \<or>
    (\<exists>xs u res. \<not> rollback \<and> built builder items s xs u \<and> send xs (world s) = (res, world t) \<and>
       r = map_sum id (\<lambda>_. ()) res \<and>
       emitted t = emitted s @ [case res of Inl e \<Rightarrow> TransactOutcome ''ABORT'' [] | Inr out \<Rightarrow> outcome out])"
proof -
  have un: "untouched (build_items builder items (start_txn rollback))"
    by (rule build_items_untouched) (rule local)
  from run consider (hard) e where "build_items builder items (start_txn rollback) s = Some (Inl e, t)" "r = Inl e"
    | (all_built) tx u where "build_items builder items (start_txn rollback) s = Some (Inr tx, u)"
        "finish_txn client False api request send outcome tx u = Some (r, t)"
    by (auto simp: bind_Some_iff)
  then show ?thesis
  proof cases
    case hard
    then show ?thesis using untouchedD [OF un] by blast
  next
    case all_built
    have u: "world u = world s" "emitted u = emitted s" using untouchedD [OF un all_built(1)] by simp_all
    note sound = build_items_sound [OF all_built(1)]
    show ?thesis
    proof (cases "tx_aborted tx")
      case True
      then have "rollback \<or> refused builder items s" using sound by (auto simp: start_txn_def split: if_splits)
      then show ?thesis using all_built(2) True u by (auto simp: finish_txn_def emit_def abort_outcome_def)
    next
      case False
      then have nb: "\<not> rollback" and b: "built builder items s (tx_items tx) u"
        using sound by (auto simp: start_txn_def)
      obtain res w where snd: "send (tx_items tx) (world s) = (res, w)" by fastforce
      have "world t = w \<and> r = map_sum id (\<lambda>_. ()) res \<and>
          emitted t = emitted s @ [case res of Inl e \<Rightarrow> TransactOutcome ''ABORT'' [] | Inr out \<Rightarrow> outcome out]"
        using all_built(2) False snd u
        by (cases res) (auto simp: finish_txn_def bind_e_def attempt_def emit_def throw_e_def abort_outcome_def)
      then show ?thesis using nb b snd by blast
    qed
  qed
qed

text \<open>C4: A write transaction is all or nothing.  Either it fails before anything is sent, with
  nothing emitted and no table changed; or it aborts with exactly one ABORT and no table changed,
  because of ROLLBACK or because one of its commands cannot be reduced to an item; or every
  command was reduced, and the one request with all items in order is sent, followed by exactly
  one COMMIT or, with the error, one ABORT.\<close>

theorem transact_write_atomic:
  assumes "metadata_reads client" and "items \<noteq> []"
    and "execute_transact client Access_write rollback items False s = Some (r, t)"
  shows "(\<exists>e. r = Inl e \<and> emitted t = emitted s \<and> world t = world s) \<or>
    (\<exists>ds. r = Inr () \<and> emitted t = emitted s @ [TransactOutcome ''ABORT'' ds] \<and> world t = world s \<and>
       (rollback \<or> refused (write_builder client) items s)) \<or>
    (\<exists>xs u. \<not> rollback \<and> built (write_builder client) items s xs u \<and>
       transact_write_items client xs (world s) = (r, world t) \<and>
       emitted t = emitted s @ [case r of Inl e \<Rightarrow> TransactOutcome ''ABORT'' [] | Inr _ \<Rightarrow> StatusOutcome ''COMMIT'' []])"
proof -
  have "bind_e (build_items (write_builder client) items (start_txn rollback))
      (finish_txn client False ''TransactWriteItems'' ExplainTransactWriteItems (transact_write_items client)
         (\<lambda>_. StatusOutcome ''COMMIT'' [])) s = Some (r, t)"
    using assms(2,3) by (simp add: execute_transact_def execute_transact_write_def)
  note cases = transaction_cases [where builder = "write_builder client", OF _ this]
  have unit_res: "map_sum id (\<lambda>_. ()) res = res" for res :: "unit result"
    by (cases res) simp_all
  from cases [OF write_builder_untouched [OF assms(1)]] show ?thesis
    unfolding unit_res by (simp cong: sum.case_cong)
qed

lemma execute_transact_returns: "returns (execute_transact client acc rollback items explain)"
  unfolding execute_transact_def execute_transact_read_def execute_transact_write_def
  by (auto split: access.split intro!: returns_bind build_items_returns builder_returns)

text \<open>Every transaction returns, and a write transaction without ROLLBACK all of whose
  commands can be reduced is sent, committed when the service accepts it and aborted with the
  service's error otherwise.\<close>

theorem transact_returns:
  "(\<exists>r t. execute_transact client acc rollback items explain s = Some (r, t)) \<and>
   (items \<noteq> [] \<and> built (write_builder client) items s xs u \<and> transact_write_items client xs (world u) = (res, w) \<longrightarrow>
     execute_transact client Access_write False items False s =
       Some (res, u\<lparr>world := w, emitted := emitted u @
         [case res of Inl e \<Rightarrow> TransactOutcome ''ABORT'' [] | Inr _ \<Rightarrow> StatusOutcome ''COMMIT'' []]\<rparr>))"
proof
  have "returns (execute_transact client acc rollback items explain)" by (rule execute_transact_returns)
  then show "\<exists>r t. execute_transact client acc rollback items explain s = Some (r, t)"
    unfolding returns_def by (metis option.exhaust surj_pair)
  show "items \<noteq> [] \<and> built (write_builder client) items s xs u \<and> transact_write_items client xs (world u) = (res, w) \<longrightarrow>
     execute_transact client Access_write False items False s =
       Some (res, u\<lparr>world := w, emitted := emitted u @
         [case res of Inl e \<Rightarrow> TransactOutcome ''ABORT'' [] | Inr _ \<Rightarrow> StatusOutcome ''COMMIT'' []]\<rparr>)"
    using build_items_complete [of "write_builder client" items s xs u "start_txn False"]
    by (cases res) (auto simp: execute_transact_def execute_transact_write_def start_txn_def finish_txn_def exec_simps
        abort_outcome_def)
qed

section \<open>What the items say\<close>

text \<open>The puts of an INSERT or REPLACE in a transaction are the requests of the statement run alone.\<close>

lemma transact_puts_loop_all:
  "transact_puts_loop cmd pk rows puts s =
     Some (Inr (puts @ map transact_put_of (insert_requests cmd pk (alias_prefix_counter s) rows)),
       s\<lparr>alias_prefix_counter := alias_prefix_counter s + prefixes_used cmd (length rows)\<rparr>)"
proof (induction rows arbitrary: puts s)
  case Nil
  then show ?case by (simp add: exec_simps prefixes_used_def)
next
  case (Cons row rows)
  then show ?case
    using prefixes_used_Suc [of cmd "length rows"] by (simp add: exec_simps make_put_request_apply add.assoc)
qed

text \<open>C6: The items that write transactions and read transactions build for SELECT, UPDATE, UPSERT, DELETE, INSERT
  and REPLACE say what their commands say.  (i) A SELECT with no negated conjunction that is reduced to a Get
  names exactly the primary key, and its clause is the conjunction of these key equalities.  (ii) An UPDATE,
  UPSERT or DELETE whose clause has no negated conjunction, fixes the whole key by positive equalities, and loses
  no conjunct but equalities on the key, becomes an item whose key and condition together are the clause, with
  the existence guard exactly for UPDATE.  (iii) An INSERT or REPLACE with validated rows becomes one Put per
  row, in order, with the very request that the statement run alone sends for the row.  The checks of EXISTS are
  not covered here.\<close>

theorem transact_items_sound:
  assumes "get_key_schema client table '''' s = Some (Inr \<lparr>rks_pk = [p], rks_rk = rk\<rparr>, s1)"
    and "prefix = unique_prefix (unat (alias_prefix_counter s1))"
  shows "(wf_expr w \<and> positive_spine w \<and> first_or_empty rk \<noteq> p \<and> sel_table sel = table \<and> sel_where sel = Some w \<and>
      build_transact_get client sel s = Some (Inr g, t) \<longrightarrow>
      tg_table_name g = table \<and> dom (map_of (tg_key g)) = set (p # take 1 rk) \<and>
      (eval sat w \<longleftrightarrow> (\<forall>kv\<in>set (tg_key g). sat (LogicalComparison (fst kv) ''='' (snd kv))))) \<and>
    (key_write_clause p rk w \<and> de_table del = table \<and> de_where del = Some w \<longrightarrow>
      (\<exists>d. build_transact_delete client del s = Some (Inr d, s1\<lparr>alias_prefix_counter := alias_prefix_counter s1 + 1\<rparr>) \<and>
        td_table_name d = table \<and> write_means prefix p rk w '''' (td_key d) (td_condition_expression d)
          (td_expression_attribute_names d) (td_expression_attribute_values d))) \<and>
    (key_write_clause p rk w \<and> up_table upd = table \<and> up_where upd = Some w \<longrightarrow>
      (\<exists>u guard. build_transact_update client upd s = Some (Inr u, s1\<lparr>alias_prefix_counter := alias_prefix_counter s1 + 1\<rparr>) \<and>
        tu_table_name u = table \<and> write_means prefix p rk w guard (tu_key u) (tu_condition_expression u)
          (tu_expression_attribute_names u) (tu_expression_attribute_values u) \<and>
        update_guard (up_upsert upd) p (tu_expression_attribute_names u) guard)) \<and>
    (validate_insert_rows ins = Inr () \<and> in_table_name ins = table \<longrightarrow>
      build_transact_puts client ins s =
        Some (Inr (map transact_put_of (insert_requests ins p (alias_prefix_counter s1) (in_rows ins))),
          s1\<lparr>alias_prefix_counter := alias_prefix_counter s1 + prefixes_used ins (length (in_rows ins))\<rparr>))"
    (is "(?get \<longrightarrow> ?get_ok) \<and> (?del \<longrightarrow> ?del_ok) \<and> (?upd \<longrightarrow> ?upd_ok) \<and> (?ins \<longrightarrow> ?ins_ok)")
proof (intro conjI impI)
  let ?r = "first_or_empty rk" and ?key = "key_of (where_gud_key w [p] rk)"
  assume get: ?get
  then have "can_getitem w [p] rk \<and> g = transact_get_of sel w \<lparr>rks_pk = [p], rks_rk = rk\<rparr> prefix"
    using assms by (auto simp: build_transact_get_def exec_simps not_reducible_def fail_with_def next_alias_prefix_def
        throw_e_def return_e_def bind_e_def split: if_splits)
  with get getitem_exact [of w rk p sat] show "tg_table_name g = table"
    "dom (map_of (tg_key g)) = set (p # take 1 rk)"
    "eval sat w \<longleftrightarrow> (\<forall>kv\<in>set (tg_key g). sat (LogicalComparison (fst kv) ''='' (snd kv)))"
    by (simp_all add: transact_get_of_def key_of_def split: prod.split)
next
  let ?r = "first_or_empty rk" and ?key = "key_of (where_gud_key w [p] rk)"
  assume del: ?del
  let ?req = "make_delete_request del p ?r (new_symtab prefix)"
  have "write_means prefix p rk w '''' (di_key (delete_with_key ?req ?key)) (di_condition_expression (delete_with_key ?req ?key))
      (di_expression_attribute_names (delete_with_key ?req ?key)) (di_expression_attribute_values (delete_with_key ?req ?key))"
    by (rule write_means_delete) (use del in auto)
  moreover have "build_transact_delete client del s =
      Some (Inr (transact_delete_of ?req ?key), s1\<lparr>alias_prefix_counter := alias_prefix_counter s1 + 1\<rparr>)"
    using assms del by (simp add: build_transact_delete_def exec_simps next_alias_prefix_def key_write_clause_def
        can_delete_item_def first_or_empty_def)
  moreover have "di_table_name ?req = table" using del by (simp add: make_delete_request_def split: prod.split)
  ultimately show ?del_ok by (simp add: transact_delete_of_def delete_with_key_def)
next
  let ?r = "first_or_empty rk" and ?key = "key_of (where_gud_key w [p] rk)"
  assume upd: ?upd
  let ?req = "make_update_request upd p ?r (new_symtab prefix)"
  have "\<exists>guard. write_means prefix p rk w guard (ui_key (update_with_key ?req ?key))
      (ui_condition_expression (update_with_key ?req ?key)) (ui_expression_attribute_names (update_with_key ?req ?key))
      (ui_expression_attribute_values (update_with_key ?req ?key)) \<and>
      update_guard (up_upsert upd) p (ui_expression_attribute_names (update_with_key ?req ?key)) guard"
    by (rule write_means_update) (use upd assms(2) in auto)
  moreover have "build_transact_update client upd s =
      Some (Inr (transact_update_of ?req ?key), s1\<lparr>alias_prefix_counter := alias_prefix_counter s1 + 1\<rparr>)"
    using assms upd by (simp add: build_transact_update_def exec_simps next_alias_prefix_def key_write_clause_def
        first_or_empty_def)
  moreover have "ui_table_name ?req = table"
    using upd by (simp add: make_update_request_def Let_def split: prod.split)
  ultimately show ?upd_ok by (simp add: transact_update_of_def update_with_key_def)
next
  assume ?ins
  then show ?ins_ok using assms(1)
    by (simp add: build_transact_puts_def exec_simps transact_puts_loop_all first_or_empty_def)
qed

lemma sample_delete_schema:
  "get_key_schema memory_client (de_table sample_delete) '''' sample_state =
     Some (Inr \<lparr>rks_pk = [''a''], rks_rk = []\<rparr>, sample_state)"
  using sample_schema by (simp add: sample_delete_def)

lemma sample_where: "de_where sample_delete = Some sample_clause"
  by (simp add: sample_delete_def)

theorem transact_items_sound_witness:
  "\<exists>d t. build_transact_delete memory_client sample_delete sample_state = Some (Inr d, t) \<and>
     write_means (unique_prefix 0) ''a'' [] sample_clause '''' (td_key d) (td_condition_expression d)
       (td_expression_attribute_names d) (td_expression_attribute_values d)"
proof -
  have "unique_prefix 0 = unique_prefix (unat (alias_prefix_counter sample_state))" by (simp add: sample_state_def)
  from transact_items_sound [OF sample_delete_schema this, THEN conjunct2, THEN conjunct1, rule_format,
      of sample_clause sample_delete] sample_clause_by_key sample_where
  show ?thesis by blast
qed

lemma memory_metadata: "metadata_reads memory_client"
  by (auto simp: metadata_reads_def m_describe_table_def memory_client_def not_impl_def split: option.split)

theorem transact_write_atomic_witness:
  "\<exists>r t. execute_transact memory_client Access_write True [DeleteCmd sample_delete] False sample_state = Some (r, t) \<and>
     world t = sample_memory"
proof -
  obtain r t where "execute_transact memory_client Access_write True [DeleteCmd sample_delete] False sample_state = Some (r, t)"
    using execute_transact_returns [of memory_client Access_write True "[DeleteCmd sample_delete]" False]
    unfolding returns_def by (metis option.exhaust surj_pair)
  moreover from transact_write_atomic [OF memory_metadata _ this] have "world t = world sample_state" by auto
  ultimately show ?thesis by (auto simp: sample_state_def)
qed

lemma sample_delete_built:
  "\<exists>d u. built (write_builder memory_client) [DeleteCmd sample_delete] sample_state [TransactDelete d] u \<and> emitted u = []"
proof -
  let ?d = "transact_delete_of (make_delete_request sample_delete ''a'' '''' (new_symtab (unique_prefix 0)))
    (key_of (where_gud_key sample_clause [''a''] []))"
  let ?u = "sample_state\<lparr>alias_prefix_counter := 1\<rparr>"
  have "build_transact_delete memory_client sample_delete sample_state = Some (Inr ?d, ?u)"
    using sample_delete_schema sample_where sample_clause_by_key
    by (simp add: build_transact_delete_def exec_simps next_alias_prefix_def first_or_empty_def
        can_delete_item_def key_write_clause_def sample_state_def)
  then have "map_e (\<lambda>d. [TransactDelete d]) (build_transact_delete memory_client sample_delete) sample_state =
      Some (Inr [TransactDelete ?d], ?u)"
    by (simp add: map_e_def exec_simps)
  then have "built (write_builder memory_client) [DeleteCmd sample_delete] sample_state ([TransactDelete ?d] @ []) ?u"
    by (intro built_item [of _ _ _ _ _ ?u] built_none) (rule write_builder.simps)
  then show ?thesis by (intro exI [of _ ?d] exI [of _ ?u]) (simp add: sample_state_def)
qed

theorem transact_returns_witness:
  "\<exists>e t. execute_transact memory_client Access_write False [DeleteCmd sample_delete] False sample_state = Some (Inl e, t) \<and>
     emitted t = [TransactOutcome ''ABORT'' []]"
proof -
  obtain d u where b: "built (write_builder memory_client) [DeleteCmd sample_delete] sample_state [TransactDelete d] u"
    and em: "emitted u = []"
    using sample_delete_built by blast
  obtain e w where "transact_write_items memory_client [TransactDelete d] (world u) = (Inl e, w)"
    by (simp add: memory_client_def not_impl_def fail_with_def)
  with b transact_returns [of memory_client Access_write False "[DeleteCmd sample_delete]" False sample_state
      "[TransactDelete d]" u "Inl e" w] em
  show ?thesis by simp
qed

section \<open>What a check says\<close>

text \<open>
  A check of EXISTS or NOT EXISTS says its clause in two parts, the key and a filter, and loses the conjuncts that
  the filter leaves out and that are no equalities on the key; its condition ends in the function applied to one
  attribute.
\<close>

definition check_means ::
    "string \<Rightarrow> string \<Rightarrow> string list \<Rightarrow> lexpr \<Rightarrow> string \<Rightarrow> string \<Rightarrow> transact_condition_check \<Rightarrow> bool" where
  "check_means prefix p rk w func attr c \<longleftrightarrow>
     (let view = \<lparr>ks_pk = [p], ks_sk = rk\<rparr>; filt = filter_part view w
      in dom (map_of (tc_key c)) = set (p # take 1 rk) \<and>
       (\<exists>cs tok st. fst (serialize_opt filt (Some (new_symtab prefix))) = cs \<and>
          tc_condition_expression c = (if cs = [] then [] else cs @ '' AND '') @ func @ ''('' @ tok @ '')'' \<and>
          request_tables prefix st (tc_expression_attribute_names c) (tc_expression_attribute_values c) \<and>
          resolve_path (tc_expression_attribute_names c) tok = attr) \<and>
       (\<forall>sat. eval sat w \<longleftrightarrow>
          (\<forall>kv\<in>set (tc_key c). sat (LogicalComparison (fst kv) ''='' (snd kv))) \<and> eval_opt sat filt \<and>
          (\<forall>l\<in>set (lost_by_filter view p (first_or_empty rk) w). says sat l)))"

lemma condition_check_means:
  assumes "wf_expr w" and "positive_spine w" and "can_update_item w [p] rk"
    and "rk = [] \<Longrightarrow> '''' \<notin> leaf_lhs ` set (leaves w)" and "length (sel_projection cmd) \<le> 1"
    and "st_inv (new_symtab prefix)"
  shows "check_means prefix p rk w func (first_or_empty (sel_projection cmd @ [p]))
    (condition_check_of cmd func w \<lparr>rks_pk = [p], rks_rk = rk\<rparr> prefix)"
proof -
  let ?view = "\<lparr>ks_pk = [p], ks_sk = rk\<rparr>" and ?plan = "\<lparr>plan_pk = [p], plan_sk_prefix = rk\<rparr>"
  let ?st = "new_symtab prefix" and ?attr = "first_or_empty (sel_projection cmd @ [p])"
  have render: "where_query_filter w ?plan st = serialize_opt (filter_part ?view w) st" for st
    using query_filter_refines [OF assms(1)] by (simp add: where_query_filter_def plan_view_def)
  obtain cs st1 where f: "with_table (where_query_filter w ?plan) ?st = (cs, st1)"
    "serialize_opt (filter_part ?view w) (Some ?st) = (cs, Some st1)" "reaches ?st st1"
    using serialize_opt_table [of "where_query_filter w ?plan" ?st "filter_part ?view w", OF render] by blast
  obtain tok st2 where t: "new_attribute ?attr st1 = (tok, st2)" by fastforce
  have r2: "reaches st1 st2" using new_attribute_reaches [of st1 ?attr] t by simp
  have inv: "st_inv st1" "st_inv st2" using reaches_inv [OF assms(6) f(3)] reaches_inv [of st1 st2] r2 by blast+
  have tok: "resolve_path (names_of st2) tok = ?attr"
    using new_attribute_resolves [OF inv, of ?attr] t by (simp add: names_of_def)
  have attrs: "(if sel_projection cmd = [] then [first_or_empty [p]] else sel_projection cmd) = [?attr]"
    using assms(5) by (cases "sel_projection cmd") (simp_all add: first_or_empty_def)
  have "condition_check_of cmd func w \<lparr>rks_pk = [p], rks_rk = rk\<rparr> prefix =
      \<lparr>tc_table_name = sel_table cmd, tc_key = key_of (where_gud_key w [p] rk),
        tc_condition_expression = (if cs = [] then cs else cs @ '' AND '') @ func @ ''('' @ tok @ '')'',
        tc_expression_attribute_names = names_of st2, tc_expression_attribute_values = values_of st2\<rparr>"
    unfolding condition_check_of_def resolved_key_schema.simps f(1) Let_def prod.case attrs check_calls.simps t ..
  note check = this
  let ?c = "condition_check_of cmd func w \<lparr>rks_pk = [p], rks_rk = rk\<rparr> prefix"
  have fields: "tc_key ?c = where_gud_key w [p] rk"
    "tc_condition_expression ?c = (if cs = [] then [] else cs @ '' AND '') @ func @ ''('' @ tok @ '')''"
    "tc_expression_attribute_names ?c = names_of st2" "tc_expression_attribute_values ?c = values_of st2"
    unfolding check by (simp_all add: key_of_def)
  have tables: "request_tables prefix st2 (names_of st2) (values_of st2)"
    using f(3) r2 by (auto simp: request_tables_def names_of_def values_of_def intro: reaches_trans)
  have r: "first_or_empty rk \<in> set rk \<or> first_or_empty rk \<notin> leaf_lhs ` set (leaves w)"
    using assms(4) by (cases rk) (simp_all add: first_or_empty_def)
  show ?thesis
    unfolding check_means_def Let_def fields
    using write_key_exact [OF assms(3,4)] filter_split_all [OF assms(2), of p ?view "first_or_empty rk"] r f(2) tables tok
    by auto
qed

text \<open>C37: What an EXISTS or NOT EXISTS check of a write transaction says.  Take a clause with no negated
  conjunction that fixes the whole primary key by positive equalities, and at most one projected attribute.  The
  check has the key, and as its condition the clause without the conjuncts that name the key in a comparison, or
  the sort key in a BETWEEN or begins_with, and after it the function applied to the projected attribute or else
  to the partition key.  The clause is the key, that filter and the lost conjuncts together, the dropped ones
  that are no equalities on the key: the check is built without asking whether anything is lost, so it passes for
  an item that has the key and meets the filter but for which a lost conjunct is false.\<close>

theorem condition_check_drops_key_predicates:
  assumes "get_key_schema client (sel_table cmd) '''' s = Some (Inr \<lparr>rks_pk = [p], rks_rk = rk\<rparr>, s1)"
    and "check_func_of (sel_exists_mode cmd) = Some func" and "sel_where cmd = Some w"
    and "wf_expr w" and "positive_spine w" and "can_update_item w [p] rk"
    and "rk = [] \<Longrightarrow> '''' \<notin> leaf_lhs ` set (leaves w)" and "length (sel_projection cmd) \<le> 1"
  shows "\<exists>c. build_transact_condition_check client cmd s =
      Some (Inr c, s1\<lparr>alias_prefix_counter := alias_prefix_counter s1 + 1\<rparr>) \<and>
    tc_table_name c = sel_table cmd \<and>
    check_means (unique_prefix (unat (alias_prefix_counter s1))) p rk w func (first_or_empty (sel_projection cmd @ [p])) c"
  using assms(1-3) condition_check_means [OF assms(4-8) unique_symtab_inv, of "unat (alias_prefix_counter s1)" func]
  by (simp add: build_transact_condition_check_def exec_simps next_alias_prefix_def)
    (simp add: condition_check_of_def split: prod.split)

text \<open>EXISTS with the clause \<open>a = 7 AND a < 3\<close>: the key is \<open>a = 7\<close>, nothing of the range is sent.\<close>

definition sample_check :: select_cmd where
  "sample_check = (sample_select (Some (make_and (mk_comparison ''a'' ''='' (N ''7'')) (mk_comparison ''a'' ''<'' (N ''3'')))))
     \<lparr>sel_exists_mode := Exists_exists\<rparr>"

theorem condition_check_drops_key_predicates_witness:
  "\<exists>c t tok. build_transact_condition_check memory_client sample_check sample_state = Some (Inr c, t) \<and>
     tc_condition_expression c = ''attribute_exists('' @ tok @ '')'' \<and>
     resolve_path (tc_expression_attribute_names c) tok = ''a'' \<and>
     (\<forall>sat. (\<forall>kv\<in>set (tc_key c). sat (LogicalComparison (fst kv) ''='' (snd kv))) \<and>
        sat (LogicalComparison ''a'' ''<'' (N ''3'')) \<longleftrightarrow>
      sat (LogicalComparison ''a'' ''='' (N ''7'')) \<and> sat (LogicalComparison ''a'' ''<'' (N ''3'')))"
proof -
  let ?w = "make_and (mk_comparison ''a'' ''='' (N ''7'')) (mk_comparison ''a'' ''<'' (N ''3''))"
  have g: "get_key_schema memory_client (sel_table sample_check) '''' sample_state =
      Some (Inr \<lparr>rks_pk = [''a''], rks_rk = []\<rparr>, sample_state)"
    using sample_schema by (simp add: sample_check_def sample_select_def)
  have k: "can_update_item ?w [''a''] []" by (simp add: can_update_item_def mk_comparison_def no_flags_def)
  have c: "check_func_of (sel_exists_mode sample_check) = Some ''attribute_exists''" "sel_where sample_check = Some ?w"
    "length (sel_projection sample_check) \<le> 1" "first_or_empty (sel_projection sample_check @ [''a'']) = ''a''"
    by (simp_all add: sample_check_def sample_select_def check_func_of_def first_or_empty_def)
  have w: "wf_expr ?w" "positive_spine ?w" "'''' \<notin> leaf_lhs ` set (leaves ?w)"
    by (simp_all add: mk_comparison_def no_flags_def)
  have parts: "filter_part \<lparr>ks_pk = [''a''], ks_sk = []\<rparr> ?w = None"
    "lost_by_filter \<lparr>ks_pk = [''a''], ks_sk = []\<rparr> ''a'' '''' ?w = [(no_flags, LogicalComparison ''a'' ''<'' (N ''3''))]"
    by (simp_all add: mk_comparison_def no_flags_def group_part_def opt_parts_def lost_by_filter_def)
  obtain c where "build_transact_condition_check memory_client sample_check sample_state =
      Some (Inr c, sample_state\<lparr>alias_prefix_counter := alias_prefix_counter sample_state + 1\<rparr>)"
    "check_means (unique_prefix (unat (alias_prefix_counter sample_state))) ''a'' [] ?w ''attribute_exists'' ''a'' c"
    using condition_check_drops_key_predicates [OF g c(1,2) w(1,2) k w(3) c(3)] unfolding c(4) by blast
  moreover have "eval sat ?w \<longleftrightarrow> sat (LogicalComparison ''a'' ''='' (N ''7'')) \<and> sat (LogicalComparison ''a'' ''<'' (N ''3''))" for sat
    by (simp add: mk_comparison_def no_flags_def)
  ultimately show ?thesis
    unfolding check_means_def Let_def
    by (auto simp: parts first_or_empty_def [of "[]"] serialize_opt_def says_def no_flags_def)
qed

end
