(* ===== verification/Ddl_Exec.thy ===== *)
theory Ddl_Exec
  imports Transact
begin

text \<open>
  Table definition and backups: \<open>create_table_executor.cpp\<close>, \<open>drop_table_executor.cpp\<close>,
  \<open>alter_table_executor.cpp\<close>, \<open>backup_restore_executor.cpp\<close> and \<open>show_tables_executor.cpp\<close>.
\<close>

section \<open>CREATE TABLE\<close>

definition is_single_key :: "key_schema \<Rightarrow> bool" where
  "is_single_key ks \<longleftrightarrow> length (ks_hash ks) \<le> 1 \<and> length (ks_range ks) \<le> 1"

text \<open>The first failing check of a list, in order.\<close>

fun check_all :: "('a \<Rightarrow> unit result) \<Rightarrow> 'a list \<Rightarrow> unit result" where
  "check_all check [] = Inr ()"
| "check_all check (x # xs) = (case check x of Inl e \<Rightarrow> Inl e | Inr _ \<Rightarrow> check_all check xs)"

definition require :: "bool \<Rightarrow> string \<Rightarrow> unit result" where
  "require ok msg = (if ok then Inr () else fail_with invalid_argument msg)"

definition and_then :: "unit result \<Rightarrow> unit result \<Rightarrow> unit result" where
  "and_then r r' = (case r of Inl e \<Rightarrow> Inl e | Inr _ \<Rightarrow> r')"

definition validate_lsi :: "lsi \<Rightarrow> unit result" where
  "validate_lsi l =
     and_then (require (ks_hash (lsi_key_schema l) \<noteq> [])
         (''LSI '' @ lsi_name l @ '' must specify a partition (HASH) key.''))
       (require (is_single_key (lsi_key_schema l))
         (''Composite keys are supported only on GSIs. LSI '' @ lsi_name l @
          '' must have one partition key and an optional sort key.''))"

definition validate_gsi_key :: "string \<Rightarrow> key_schema \<Rightarrow> unit result" where
  "validate_gsi_key name ks =
     and_then (require (ks_hash ks \<noteq> []) (''GSI '' @ name @ '' must specify a partition (HASH) key.''))
       (require (length (ks_hash ks) \<le> 4 \<and> length (ks_range ks) \<le> 4)
         (''GSI '' @ name @ '' key schema exceeds the 4-attribute limit per partition/sort key.''))"

definition is_declared :: "create_table_cmd \<Rightarrow> string \<Rightarrow> bool" where
  "is_declared cmd name \<longleftrightarrow> (\<exists>a\<in>set (cr_attribute_definitions cmd). ad_name a = name)"

definition validate_vector_index :: "create_table_cmd \<Rightarrow> vector_index_def \<Rightarrow> unit result" where
  "validate_vector_index cmd vi =
     and_then (require (\<not> is_declared cmd (vd_vector_attr vi))
         (''The vector attribute '' @ vd_vector_attr vi @ '' of vector index '' @ vd_index_name vi @
          '' must not be declared in the attribute list (it is a vector, not a scalar key).''))
      (and_then (check_all (\<lambda>e. require (is_declared cmd (se_attr e))
           (''The search-key attribute '' @ se_attr e @ '' of vector index '' @ vd_index_name vi @
            '' must be declared in the attribute list.'')) (vd_search_schema vi))
        (if pj_type (vd_projection vi) = Projection_include
         then check_all (\<lambda>a. require (is_declared cmd a)
           (''The projected attribute '' @ a @ '' of vector index '' @ vd_index_name vi @
            '' must be declared in the attribute list.'')) (pj_non_key_attributes (vd_projection vi))
         else Inr ()))"

definition validate_key_schemas :: "create_table_cmd \<Rightarrow> unit result" where
  "validate_key_schemas cmd =
     and_then (require (ks_hash (cr_key_schema cmd) \<noteq> [])
         ''A table primary key must specify a partition (HASH) key.'')
      (and_then (require (is_single_key (cr_key_schema cmd))
          (''Composite keys are supported only on GSIs. A table primary key must have '' @
           ''one partition key and an optional sort key.''))
       (and_then (check_all validate_lsi (cr_lsis cmd))
        (and_then (check_all (\<lambda>g. validate_gsi_key (gsi_name g) (gsi_key_schema g)) (cr_gsis cmd))
          (check_all (validate_vector_index cmd) (cr_vector_indexes cmd)))))"

definition make_create_request :: "create_table_cmd \<Rightarrow> create_table_in" where
  "make_create_request cmd =
     \<lparr>ct_table_name = cr_table_name cmd, ct_attribute_definitions = cr_attribute_definitions cmd,
      ct_key_schema = cr_key_schema cmd, ct_billing = cr_billing cmd, ct_warm = cr_warm cmd, ct_gsis = cr_gsis cmd,
      ct_lsis = cr_lsis cmd, ct_vector_indexes = cr_vector_indexes cmd, ct_stream = cr_stream cmd, ct_sse = cr_sse cmd,
      ct_table_class = cr_table_class cmd, ct_deletion_protection = cr_deletion_protection cmd, ct_tags = cr_tags cmd\<rparr>"

text \<open>The existence probe: any error of DescribeTable counts as absence.\<close>

definition table_exists :: "'w iddb_client \<Rightarrow> string \<Rightarrow> ('w, 'h, bool) exec" where
  "table_exists client t =
     bind_e (attempt (describe_table client t)) (\<lambda>r. return_e (case r of Inr _ \<Rightarrow> True | Inl _ \<Rightarrow> False))"

definition status :: "string \<Rightarrow> ('w, 'h, exec_outcome) exec" where
  "status token = return_e (StatusOutcome token [])"

definition execute_create_table :: "'w iddb_client \<Rightarrow> create_table_cmd \<Rightarrow> ('w, 'h, exec_outcome) exec" where
  "execute_create_table client cmd =
     bind_e (lift_e (validate_key_schemas cmd))
      (\<lambda>_. bind_e (if cr_if_not_exists cmd then table_exists client (cr_table_name cmd) else return_e False)
       (\<lambda>found. if found then status ''CREATE''
          else bind_e (call (create_table client (make_create_request cmd)))
           (\<lambda>_. bind_e (if cr_nowait cmd then return_e () else call (wait_for_table_active client (cr_table_name cmd)))
             (\<lambda>_. status ''CREATE''))))"

definition execute_create_table_explain :: "'w iddb_client \<Rightarrow> create_table_cmd \<Rightarrow> ('w, 'h, exec_outcome) exec" where
  "execute_create_table_explain client cmd =
     bind_e (lift_e (validate_key_schemas cmd))
      (\<lambda>_. bind_e (if cr_if_not_exists cmd then table_exists client (cr_table_name cmd) else return_e False)
       (\<lambda>found. if found then return_e (ExplainOutcome [] (Some ''CREATE''))
          else bind_e (call (explain_of client (ExplainCreateTable (make_create_request cmd))))
            (\<lambda>body. return_e (ExplainOutcome [explain_block_of ''CreateTable'' body] (Some ''CREATE'')))))"

section \<open>DROP TABLE\<close>

definition explain_one :: "'w iddb_client \<Rightarrow> string \<Rightarrow> explain_request \<Rightarrow> ('w, 'h, exec_outcome) exec" where
  "explain_one client api req =
     bind_e (call (explain_of client req)) (\<lambda>body. return_e (ExplainOutcome [explain_block_of api body] None))"

definition execute_drop_table :: "'w iddb_client \<Rightarrow> drop_table_cmd \<Rightarrow> ('w, 'h, exec_outcome) exec" where
  "execute_drop_table client cmd =
     bind_e (if dr_if_exists cmd then table_exists client (dr_table cmd) else return_e True)
      (\<lambda>found. if \<not> found then return_e EmptyOutcome
         else bind_e (call (delete_table client (dr_table cmd)))
          (\<lambda>_. bind_e (if dr_nowait cmd then return_e () else call (wait_for_table_gone client (dr_table cmd)))
            (\<lambda>_. status ''DROP'')))"

definition execute_drop_table_explain :: "'w iddb_client \<Rightarrow> drop_table_cmd \<Rightarrow> ('w, 'h, exec_outcome) exec" where
  "execute_drop_table_explain client cmd =
     bind_e (if dr_if_exists cmd then table_exists client (dr_table cmd) else return_e True)
      (\<lambda>found. if \<not> found then return_e EmptyOutcome
         else explain_one client ''DeleteTable'' (ExplainDeleteTable (dr_table cmd)))"

section \<open>ALTER TABLE\<close>

definition make_alter_request :: "alter_table_cmd \<Rightarrow> update_table_in" where
  "make_alter_request cmd =
     \<lparr>ut_table_name = al_table cmd, ut_billing = al_billing cmd, ut_warm = al_warm cmd, ut_sse = al_sse cmd,
      ut_stream = al_stream cmd, ut_table_class = al_table_class cmd,
      ut_deletion_protection = al_deletion_protection cmd, ut_attribute_definitions = al_attribute_definitions cmd,
      ut_gsi_updates = al_gsi_updates cmd, ut_vector_index_updates = al_vector_index_updates cmd, ut_replica = None\<rparr>"

definition kOnDemandGsiIgnored :: string where
  "kOnDemandGsiIgnored = ''Setting table to on-demand, ignoring specifications for indices.''"

definition validate_gsi_update :: "gsi_update \<Rightarrow> unit result" where
  "validate_gsi_update u =
     (case gu_key_schema u of
        Some ks \<Rightarrow> (if gu_action u = Gsi_create then validate_gsi_key (gu_index_name u) ks else Inr ())
      | None \<Rightarrow> Inr ())"

definition validate_gsi_updates :: "alter_table_cmd \<Rightarrow> unit result" where
  "validate_gsi_updates cmd = check_all validate_gsi_update (al_gsi_updates cmd)"

definition execute_alter_table :: "'w iddb_client \<Rightarrow> alter_table_cmd \<Rightarrow> ('w, 'h, exec_outcome) exec" where
  "execute_alter_table client cmd =
     bind_e (lift_e (validate_gsi_updates cmd))
      (\<lambda>_. bind_e (call (update_table client (make_alter_request cmd)))
       (\<lambda>_. return_e (StatusOutcome ''ALTER'' (if al_ignored_gsi_on_demand cmd then [kOnDemandGsiIgnored] else []))))"

definition execute_alter_table_explain :: "'w iddb_client \<Rightarrow> alter_table_cmd \<Rightarrow> ('w, 'h, exec_outcome) exec" where
  "execute_alter_table_explain client cmd =
     bind_e (lift_e (validate_gsi_updates cmd))
      (\<lambda>_. explain_one client ''UpdateTable'' (ExplainUpdateTable (make_alter_request cmd)))"

definition execute_alter_ttl :: "'w iddb_client \<Rightarrow> alter_ttl_cmd \<Rightarrow> bool \<Rightarrow> ('w, 'h, exec_outcome) exec" where
  "execute_alter_ttl client cmd explain =
     bind_e (call (describe_time_to_live client (at_table cmd)))
      (\<lambda>probe. if tl_status probe = ''DISABLED'' \<and> \<not> at_enabled cmd then status ''ALTER''
         else (let request = \<lparr>ttl_table_name = at_table cmd, ttl_enabled = at_enabled cmd,
                 ttl_attribute_name = (if at_enabled cmd then at_attribute cmd else tl_attribute_name probe)\<rparr>
           in if explain then explain_one client ''UpdateTimeToLive'' (ExplainUpdateTimeToLive request)
              else bind_e (call (update_time_to_live client request)) (\<lambda>_. status ''ALTER'')))"

definition execute_alter_pitr :: "'w iddb_client \<Rightarrow> alter_pitr_cmd \<Rightarrow> bool \<Rightarrow> ('w, 'h, exec_outcome) exec" where
  "execute_alter_pitr client cmd explain =
     (let request = \<lparr>ucb_table_name = ap_table cmd, ucb_enabled = ap_enabled cmd\<rparr>
      in if explain then explain_one client ''UpdateContinuousBackupsRequest'' (ExplainUpdateContinuousBackups request)
         else bind_e (call (update_continuous_backups client request)) (\<lambda>_. status ''ALTER''))"

definition replica_request :: "alter_replica_cmd \<Rightarrow> update_table_in" where
  "replica_request cmd =
     \<lparr>ut_table_name = ar_table cmd, ut_billing = None, ut_warm = None, ut_sse = None, ut_stream = None,
      ut_table_class = None, ut_deletion_protection = None, ut_attribute_definitions = [], ut_gsi_updates = [],
      ut_vector_index_updates = [], ut_replica = Some (ar_replica cmd)\<rparr>"

definition execute_alter_replica :: "'w iddb_client \<Rightarrow> alter_replica_cmd \<Rightarrow> bool \<Rightarrow> ('w, 'h, exec_outcome) exec" where
  "execute_alter_replica client cmd explain =
     (if explain then explain_one client ''UpdateTable'' (ExplainUpdateTable (replica_request cmd))
      else bind_e (call (update_table client (replica_request cmd))) (\<lambda>_. status ''ALTER''))"

section \<open>Backups\<close>

definition execute_create_backup :: "'w iddb_client \<Rightarrow> create_backup_cmd \<Rightarrow> bool \<Rightarrow> ('w, 'h, exec_outcome) exec" where
  "execute_create_backup client cmd explain =
     (let request = \<lparr>cb_table_name = bc_table cmd, cb_backup_name = bc_backup_name cmd\<rparr>
      in if explain then explain_one client ''CreateBackup'' (ExplainCreateBackup request)
         else bind_e (call (create_backup client request)) (\<lambda>_. status ''BACKUP''))"

definition execute_drop_backup :: "'w iddb_client \<Rightarrow> string \<Rightarrow> bool \<Rightarrow> ('w, 'h, exec_outcome) exec" where
  "execute_drop_backup client arn explain =
     (if explain then explain_one client ''DeleteBackup'' (ExplainDeleteBackup arn)
      else bind_e (call (delete_backup client arn)) (\<lambda>_. status ''DROP BACKUP''))"

definition backup_key_text :: "backup_key_schema_element list \<Rightarrow> string" where
  "backup_key_text ks =
     foldl (\<lambda>key k. (if key = [] then key else key @ '', '') @ bk_key_type k @ '' '' @ bk_attribute_name k) '''' ks"

definition backup_report :: "describe_backup_out \<Rightarrow> string list" where
  "backup_report b =
     [''Table Name: '' @ db_source_table_name b,
      ''Table Id: '' @ db_source_table_id b,
      ''Table Arn: '' @ db_source_table_arn b,
      ''Table Size (bytes): '' @ to_string_int (db_table_size_bytes b),
      ''Item Count: '' @ to_string_int (db_item_count b),
      ''Table Key: ( '' @ backup_key_text (db_key_schema b) @ '' )'',
      ''Table Creation Date/Time: '' @ db_table_creation_datetime b] @
     (case db_billing_mode b of None \<Rightarrow> [] | Some mode \<Rightarrow> [''Billing Mode: '' @ mode]) @
     (case db_provisioned b of None \<Rightarrow> []
      | Some (reads, writes) \<Rightarrow>
          [''Provisioned Throughput: '' @ to_string_int reads @ '' RCU, '' @ to_string_int writes @ '' WCU'']) @
     [''Backup Name: '' @ db_backup_name b,
      ''Backup Arn: '' @ db_backup_arn b,
      ''Backup Size (bytes): '' @ to_string_int (db_backup_size_bytes b),
      ''Backup Status: '' @ db_backup_status b,
      ''Backup Type: '' @ db_backup_type b,
      ''Backup Creation Date/Time: '' @ db_backup_creation_datetime b,
      ''Backup Expiry Date/Time: '' @ db_backup_expiry_datetime b]"

definition execute_describe_backup :: "'w iddb_client \<Rightarrow> string \<Rightarrow> bool \<Rightarrow> ('w, 'h, exec_outcome) exec" where
  "execute_describe_backup client arn explain =
     (if explain then explain_one client ''DescribeBackup'' (ExplainDescribeBackup arn)
      else bind_e (call (describe_backup client arn)) (\<lambda>b. return_e (ReportOutcome (backup_report b))))"

definition execute_restore :: "'w iddb_client \<Rightarrow> restore_cmd \<Rightarrow> bool \<Rightarrow> ('w, 'h, exec_outcome) exec" where
  "execute_restore client cmd explain =
     (case re_kind cmd of
        From_backup \<Rightarrow>
          (let request = \<lparr>rb_target_table_name = re_target cmd, rb_backup_arn = re_source cmd\<rparr>
           in if explain then explain_one client ''RestoreTableFromBackup'' (ExplainRestoreFromBackup request)
              else bind_e (call (restore_table_from_backup client request)) (\<lambda>_. status ''RESTORE''))
      | To_pitr \<Rightarrow>
          (let request = \<lparr>rp_source_table_name = re_source cmd, rp_target_table_name = re_target cmd,
                 rp_restore_datetime = re_timestamp cmd\<rparr>
           in if explain then explain_one client ''RestoreTableToPointInTimeRequest'' (ExplainRestoreToPitr request)
              else bind_e (call (restore_table_to_point_in_time client request)) (\<lambda>_. status ''RESTORE'')))"

section \<open>What CREATE TABLE accepts\<close>

lemma require_ok [simp]: "require ok msg = Inr () \<longleftrightarrow> ok"
  by (simp add: require_def fail_with_def)

lemma and_then_ok [simp]: "and_then r r' = Inr () \<longleftrightarrow> r = Inr () \<and> r' = Inr ()"
  by (auto simp: and_then_def split: sum.split)

lemma check_all_ok [simp]: "check_all check xs = Inr () \<longleftrightarrow> (\<forall>x\<in>set xs. check x = Inr ())"
  by (induction xs) (auto split: sum.splits)

definition vector_index_ok :: "create_table_cmd \<Rightarrow> vector_index_def \<Rightarrow> bool" where
  "vector_index_ok cmd vi \<longleftrightarrow>
     (let declared = ad_name ` set (cr_attribute_definitions cmd)
      in vd_vector_attr vi \<notin> declared \<and> se_attr ` set (vd_search_schema vi) \<subseteq> declared \<and>
         (if pj_type (vd_projection vi) = Projection_include
          then set (pj_non_key_attributes (vd_projection vi)) \<subseteq> declared else True))"

lemma is_declared_iff: "is_declared cmd a \<longleftrightarrow> a \<in> ad_name ` set (cr_attribute_definitions cmd)"
  by (auto simp: is_declared_def)

lemma validate_vector_index_ok: "validate_vector_index cmd vi = Inr () \<longleftrightarrow> vector_index_ok cmd vi"
  unfolding validate_vector_index_def vector_index_ok_def is_declared_iff Let_def by auto

text \<open>One partition key attribute and at most one sort key attribute; one to four and at most four.\<close>

definition simple_key :: "key_schema \<Rightarrow> bool" where
  "simple_key ks \<longleftrightarrow> length (ks_hash ks) = 1 \<and> length (ks_range ks) \<le> 1"

definition composite_key :: "key_schema \<Rightarrow> bool" where
  "composite_key ks \<longleftrightarrow> ks_hash ks \<noteq> [] \<and> length (ks_hash ks) \<le> 4 \<and> length (ks_range ks) \<le> 4"

lemma simple_key_iff: "simple_key ks \<longleftrightarrow> ks_hash ks \<noteq> [] \<and> is_single_key ks"
  by (cases "ks_hash ks") (auto simp: simple_key_def is_single_key_def)

lemma validate_key_schemas_ok:
  "validate_key_schemas cmd = Inr () \<longleftrightarrow>
     simple_key (cr_key_schema cmd) \<and> (\<forall>l\<in>set (cr_lsis cmd). simple_key (lsi_key_schema l)) \<and>
     (\<forall>g\<in>set (cr_gsis cmd). composite_key (gsi_key_schema g)) \<and>
     (\<forall>vi\<in>set (cr_vector_indexes cmd). vector_index_ok cmd vi)"
  unfolding validate_key_schemas_def and_then_ok check_all_ok require_ok validate_lsi_def validate_gsi_key_def
    validate_vector_index_ok simple_key_iff composite_key_def by blast

text \<open>All these checks fail with \<open>invalid_argument\<close>.\<close>

definition usage_check :: "unit result \<Rightarrow> bool" where
  "usage_check r \<longleftrightarrow> (case r of Inl e \<Rightarrow> err_code e = invalid_argument | Inr _ \<Rightarrow> True)"

lemma usage_check_simps [simp, intro]:
  "usage_check (Inr u)" "usage_check (require ok msg)"
  "usage_check r \<Longrightarrow> usage_check r' \<Longrightarrow> usage_check (and_then r r')"
  by (auto simp: usage_check_def require_def fail_with_def and_then_def split: sum.splits)

lemma usage_check_all [simp, intro]:
  assumes "\<And>x. usage_check (check x)"
  shows "usage_check (check_all check xs)"
proof (induction xs)
  case (Cons x xs)
  then show ?case using assms [of x] by (cases "check x") (simp_all add: usage_check_def)
qed simp

lemma validate_key_schemas_code: "validate_key_schemas cmd = Inl e \<Longrightarrow> err_code e = invalid_argument"
proof -
  have "usage_check (validate_key_schemas cmd)"
    unfolding validate_key_schemas_def validate_lsi_def validate_gsi_key_def validate_vector_index_def by simp
  then show "validate_key_schemas cmd = Inl e \<Longrightarrow> err_code e = invalid_argument" by (simp add: usage_check_def)
qed

text \<open>C21: CREATE TABLE, explained or not, is refused before any call to the client exactly when a
  key is malformed: a table or LSI key that is not one partition key with at most one sort key, a
  GSI key without or with more than four partition attributes or with more than four sort
  attributes, or a vector index whose vector attribute is declared or whose search or projected
  attributes are not.\<close>

theorem create_table_refuses:
  "(\<exists>e. execute_create_table client cmd = throw_e e \<and> execute_create_table_explain client cmd = throw_e e \<and>
      err_code e = invalid_argument \<and> validate_key_schemas cmd = Inl e) \<longleftrightarrow>
   \<not> (simple_key (cr_key_schema cmd) \<and> list_all (\<lambda>l. simple_key (lsi_key_schema l)) (cr_lsis cmd) \<and>
      list_all (\<lambda>g. composite_key (gsi_key_schema g)) (cr_gsis cmd) \<and>
      list_all (vector_index_ok cmd) (cr_vector_indexes cmd))"
proof -
  have "(\<exists>e. validate_key_schemas cmd = Inl e) \<longleftrightarrow> validate_key_schemas cmd \<noteq> Inr ()"
    by (cases "validate_key_schemas cmd") auto
  then show ?thesis
    using validate_key_schemas_code unfolding validate_key_schemas_ok list_all_iff
    by (auto simp: execute_create_table_def execute_create_table_explain_def)
qed

section \<open>CREATE and DROP on the in-memory client\<close>

lemma filter_smap_emplace:
  "k \<notin> fst ` set m \<Longrightarrow> filter (\<lambda>(k', t). k' \<noteq> k) (smap_emplace k v m) = m"
proof (induction k v m rule: smap_emplace.induct)
  case (2 k v k' v' m)
  have "filter (\<lambda>(k', t). k' \<noteq> k) m = m" using "2.prems" by (intro filter_True) force
  then show ?case using 2 by auto
qed simp

lemma memory_waits [simp]:
  "wait_for_table_active memory_client t m = (Inr (), m)" "wait_for_table_gone memory_client t m = (Inr (), m)"
  by (simp_all add: memory_client_def)

definition created_table :: "create_table_cmd \<Rightarrow> mtable" where
  "created_table cmd =
     \<lparr>mt_name = cr_table_name cmd,
      mt_schema = \<lparr>hash_keys = ks_hash (cr_key_schema cmd), range_keys = ks_range (cr_key_schema cmd)\<rparr>,
      mt_items = [], mt_keys = []\<rparr>"

lemma execute_create_memory:
  assumes "validate_key_schemas cmd = Inr ()" and "find_table (cr_table_name cmd) (world s) = None"
  shows "execute_create_table memory_client cmd s =
    Some (Inr (StatusOutcome ''CREATE'' []), s\<lparr>world := smap_emplace (cr_table_name cmd) (created_table cmd) (world s)\<rparr>)"
  using assms
  by (simp add: execute_create_table_def table_exists_def status_def exec_simps m_describe_table_def not_found_def
      fail_with_def m_create_table_def make_create_request_def created_table_def bind_e_def call_def attempt_def
      return_e_def)

lemma execute_drop_memory:
  assumes "find_table (dr_table cmd) (world s) \<noteq> None"
  shows "execute_drop_table memory_client cmd s =
    Some (Inr (StatusOutcome ''DROP'' []), s\<lparr>world := filter (\<lambda>(k, t). k \<noteq> dr_table cmd) (world s)\<rparr>)"
  using assms
  by (auto simp: execute_drop_table_def table_exists_def status_def exec_simps m_describe_table_def
      m_delete_table_def bind_e_def call_def attempt_def return_e_def)

lemma validate_flags: "validate_key_schemas (cmd\<lparr>cr_if_not_exists := b\<rparr>) = validate_key_schemas cmd"
proof -
  have "validate_vector_index (cmd\<lparr>cr_if_not_exists := b\<rparr>) = validate_vector_index cmd"
    by (rule ext) (simp add: validate_vector_index_def is_declared_def)
  then show ?thesis by (simp add: validate_key_schemas_def)
qed

text \<open>On the in-memory client a CREATE TABLE of a well-formed definition under a new name adds
  exactly the empty table with that key schema; repeating it with IF NOT EXISTS changes nothing;
  and dropping it gives back the tables there were before.\<close>

theorem create_then_drop:
  assumes "mem_ok (world s)" and "validate_key_schemas cmd = Inr ()"
    and "find_table (cr_table_name cmd) (world s) = None"
  shows "\<exists>t. execute_create_table memory_client cmd s = Some (Inr (StatusOutcome ''CREATE'' []), t) \<and>
    (\<forall>name. find_table name (world t) =
       (if name = cr_table_name cmd then Some (created_table cmd) else find_table name (world s))) \<and>
    execute_create_table memory_client (cmd\<lparr>cr_if_not_exists := True\<rparr>) t = Some (Inr (StatusOutcome ''CREATE'' []), t) \<and>
    execute_drop_table memory_client \<lparr>dr_table = cr_table_name cmd, dr_if_exists = b, dr_nowait = n\<rparr> t =
      Some (Inr (StatusOutcome ''DROP'' []), s)"
proof -
  let ?name = "cr_table_name cmd"
  let ?m = "smap_emplace ?name (created_table cmd) (world s)"
  let ?t = "s\<lparr>world := ?m\<rparr>"
  have ok: "smap_ok (world s)" using assms(1) by (simp add: mem_ok_def)
  have new: "?name \<notin> fst ` set (world s)" using assms(3) by (auto simp: find_table_def map_of_eq_None_iff)
  have look: "find_table name ?m = (if name = ?name then Some (created_table cmd) else find_table name (world s))" for name
    using map_of_smap_emplace [OF ok, of ?name "created_table cmd"] assms(3) by (auto simp: find_table_def)
  have again: "execute_create_table memory_client (cmd\<lparr>cr_if_not_exists := True\<rparr>) ?t =
      Some (Inr (StatusOutcome ''CREATE'' []), ?t)"
    using assms(2) look [of ?name]
    by (simp add: validate_flags execute_create_table_def table_exists_def status_def
        exec_simps m_describe_table_def bind_e_def attempt_def return_e_def)
  have "filter (\<lambda>(k, t). k \<noteq> ?name) ?m = world s" by (rule filter_smap_emplace [OF new])
  then have "execute_drop_table memory_client \<lparr>dr_table = ?name, dr_if_exists = b, dr_nowait = n\<rparr> ?t =
      Some (Inr (StatusOutcome ''DROP'' []), s)"
    using execute_drop_memory [of "\<lparr>dr_table = ?name, dr_if_exists = b, dr_nowait = n\<rparr>" ?t] look [of ?name] by simp
  then show ?thesis using execute_create_memory [OF assms(2,3)] look again by (intro exI [of _ ?t]) simp
qed

definition sample_create :: create_table_cmd where
  "sample_create =
     \<lparr>cr_table_name = ''u'', cr_if_not_exists = False, cr_nowait = False,
      cr_attribute_definitions = [\<lparr>ad_name = ''k'', ad_type = Scalar_s\<rparr>],
      cr_key_schema = \<lparr>ks_hash = [''k''], ks_range = []\<rparr>, cr_billing = None, cr_warm = None, cr_gsis = [],
      cr_lsis = [], cr_vector_indexes = [], cr_stream = None, cr_sse = None, cr_table_class = Standard,
      cr_deletion_protection = False, cr_tags = []\<rparr>"

theorem create_then_drop_witness:
  "\<exists>t. execute_create_table memory_client sample_create sample_state = Some (Inr (StatusOutcome ''CREATE'' []), t) \<and>
     execute_drop_table memory_client \<lparr>dr_table = ''u'', dr_if_exists = True, dr_nowait = False\<rparr> t =
       Some (Inr (StatusOutcome ''DROP'' []), sample_state)"
proof -
  have "mem_ok (world sample_state)"
    by (simp add: sample_state_def sample_memory_def mem_ok_def table_ok_def)
  moreover have "validate_key_schemas sample_create = Inr ()"
    by (simp add: validate_key_schemas_ok sample_create_def simple_key_def)
  moreover have "find_table (cr_table_name sample_create) (world sample_state) = None"
    by (simp add: sample_create_def sample_state_def sample_memory_def find_table_def)
  ultimately show ?thesis
    using create_then_drop [of sample_state sample_create True False] by (auto simp: sample_create_def)
qed

end
