(* ===== verification/Show_Exec.thy ===== *)
theory Show_Exec
  imports Ddl_Exec
begin

text \<open>
  Reports: \<open>show_tables_executor.cpp\<close>, \<open>describe_executor.cpp\<close> and \<open>show_commands_executor.cpp\<close>.
  The regular expressions of SHOW TABLES LIKE (\<open>std::regex\<close>) are a parameter that compiles a
  pattern to a matcher or gives the message of the compilation error.
\<close>

type_synonym regex_lib = "string \<Rightarrow> string + (string \<Rightarrow> bool)"

section \<open>SHOW TABLES\<close>

definition billing_mode_column :: "describe_table_out \<Rightarrow> string" where
  "billing_mode_column td =
     (case dt_billing_mode_summary td of
        Some mode \<Rightarrow> mode
      | None \<Rightarrow> if dt_provisioned_throughput_set td then ''PROVISIONED'' else ''PAY_PER_REQUEST*'')"

definition table_class_column :: "describe_table_out \<Rightarrow> string" where
  "table_class_column td = (case dt_table_class_summary td of Some c \<Rightarrow> c | None \<Rightarrow> ''STANDARD*'')"

definition ttl_column :: "time_to_live_out \<Rightarrow> string" where
  "ttl_column ttl =
     (if tl_status ttl = ''ENABLED'' \<or> tl_status ttl = ''ENABLING''
      then tl_status ttl @ '' ('' @ tl_attribute_name ttl @ '')'' else tl_status ttl)"

definition status_row :: "string \<Rightarrow> describe_table_out \<Rightarrow> time_to_live_out \<Rightarrow> string" where
  "status_row name td ttl =
     name @ '' | '' @ dt_table_status td @ '' | '' @ billing_mode_column td @ '' | '' @ table_class_column td @
     '' | '' @ dt_table_id td @ '' | '' @ dt_table_arn td @ '' | TTL '' @ ttl_column ttl @
     '' | GSI: '' @ to_string (length (dt_global_secondary_indexes td)) @
     '' | LSI : '' @ to_string (length (dt_local_secondary_indexes td)) @
     '' | VSI : '' @ to_string (length (dt_vector_indexes td)) @ '' |''"

text \<open>The line of one table: its name alone if a description fails.\<close>

definition table_line :: "'w iddb_client \<Rightarrow> bool \<Rightarrow> string \<Rightarrow> ('w, 'h, string) exec" where
  "table_line client brief name =
     (if brief then return_e name
      else bind_e (attempt (describe_table client name))
        (\<lambda>d. case d of
           Inl _ \<Rightarrow> return_e name
         | Inr td \<Rightarrow> bind_e (attempt (describe_time_to_live client name))
             (\<lambda>l. case l of Inl _ \<Rightarrow> return_e name | Inr ttl \<Rightarrow> return_e (status_row name td ttl))))"

fun show_tables_loop ::
    "'w iddb_client \<Rightarrow> bool \<Rightarrow> (string \<Rightarrow> bool) option \<Rightarrow> string list \<Rightarrow> string list \<Rightarrow> ('w, 'h, string list) exec" where
  "show_tables_loop client brief matcher [] out = return_e out"
| "show_tables_loop client brief matcher (name # names) out =
     (if \<not> (case matcher of None \<Rightarrow> True | Some matches \<Rightarrow> matches name)
      then show_tables_loop client brief matcher names out
      else bind_e (table_line client brief name)
        (\<lambda>line. show_tables_loop client brief matcher names (out @ [line])))"

definition compile_like :: "regex_lib \<Rightarrow> string \<Rightarrow> (string \<Rightarrow> bool) option result" where
  "compile_like regex like =
     (if like = [] then Inr None
      else case regex like of
        Inl what \<Rightarrow> fail_with parse_error (''Invalid LIKE pattern: '' @ what)
      | Inr matches \<Rightarrow> Inr (Some matches))"

definition execute_show_tables :: "regex_lib \<Rightarrow> 'w iddb_client \<Rightarrow> show_tables_cmd \<Rightarrow> ('w, 'h, exec_outcome) exec" where
  "execute_show_tables regex client cmd =
     bind_e (lift_e (compile_like regex (sh_like cmd)))
      (\<lambda>matcher. bind_e (call (list_tables client))
       (\<lambda>names. bind_e (show_tables_loop client (sh_brief cmd) matcher names [])
         (\<lambda>report. return_e (ReportOutcome report))))"

section \<open>DESCRIBE\<close>

definition scalar_type_name :: "scalar_type \<Rightarrow> string" where
  "scalar_type_name t = (case t of Scalar_n \<Rightarrow> ''N'' | Scalar_b \<Rightarrow> ''B'' | Scalar_s \<Rightarrow> ''S'')"

definition projection_type_name :: "projection_type \<Rightarrow> string" where
  "projection_type_name t =
     (case t of Projection_keys_only \<Rightarrow> ''KEYS_ONLY'' | Projection_include \<Rightarrow> ''INCLUDE'' | Projection_all \<Rightarrow> ''ALL'')"

definition vector_distance_name :: "vector_distance \<Rightarrow> string" where
  "vector_distance_name d =
     (case d of Euclidean \<Rightarrow> ''EUCLIDEAN'' | Dot_product \<Rightarrow> ''DOT_PRODUCT'' | Cosine \<Rightarrow> ''COSINE'')"

definition vector_search_schema_text :: "search_schema_elem list \<Rightarrow> string" where
  "vector_search_schema_text schema =
     foldl (\<lambda>out e. out @ (if out = [] then '''' else '', '') @ se_attr e @ '' ('' @
        (if se_kind e = Search_hash then ''HASH'' else ''INLINE_FILTER'') @ '')'') '''' schema"

definition key_schema_text :: "table_key_schema \<Rightarrow> string" where
  "key_schema_text ks =
     join_with '', '' (map (\<lambda>h. ''HASH '' @ h) (hash_keys ks) @ map (\<lambda>r. ''RANGE '' @ r) (range_keys ks))"

definition capacity_text :: "int \<Rightarrow> int \<Rightarrow> string" where
  "capacity_text reads writes = to_string_int reads @ '' RCU, '' @ to_string_int writes @ '' WCU''"

definition warm_text :: "warm_throughput_description \<Rightarrow> string" where
  "warm_text wt =
     ''Warm Throughput: ('' @ capacity_text (wd_read_units_per_second wt) (wd_write_units_per_second wt) @
     '', Status '' @ wd_status wt @ '')''"

definition basic_info :: "describe_table_out \<Rightarrow> string list" where
  "basic_info td =
     [''Name: '' @ dt_table_name td @ '' ('' @ dt_table_status td @ '')'',
      ''Key: '' @ key_schema_text (dt_key_schema td),
      ''Attributes: '' @
        join_with '', '' (map (\<lambda>a. '' '' @ ad_name a @ '', '' @ scalar_type_name (ad_type a)) (dt_attribute_definitions td)),
      ''Created at: '' @ dt_creation_date_time td,
      ''Table ARN: '' @ dt_table_arn td,
      ''Table ID: '' @ dt_table_id td,
      ''Table size (bytes): '' @ to_string_int (dt_table_size_bytes td),
      ''Item Count: '' @ to_string_int (dt_item_count td),
      ''Deletion Protection: '' @ (if dt_deletion_protection_enabled td then ''Enabled'' else ''Disabled'')]"

definition table_on_demand :: "describe_table_out \<Rightarrow> bool" where
  "table_on_demand td \<longleftrightarrow> dt_billing_mode_summary td = Some ''PAY_PER_REQUEST''"

definition provisioned_line :: "describe_table_out \<Rightarrow> string" where
  "provisioned_line td =
     ''Billing Mode: Provisioned ('' @
     capacity_text (dt_provisioned_read_capacity_units td) (dt_provisioned_write_capacity_units td) @ '')''"

definition billing_lines :: "describe_table_out \<Rightarrow> string list" where
  "billing_lines td =
     (case dt_billing_mode_summary td of
        Some mode \<Rightarrow>
          (if mode = ''PROVISIONED'' then [provisioned_line td]
           else if mode = ''PAY_PER_REQUEST'' then
             ''Billing Mode: On Demand'' #
             (if dt_on_demand_throughput_set td
              then [''On Demand Throughput: ('' @
                capacity_text (dt_on_demand_max_read_request_units td) (dt_on_demand_max_write_request_units td) @ '')'']
              else [])
           else [''Unknown Billing mode '' @ mode @ ''.''])
      | None \<Rightarrow> if dt_provisioned_throughput_set td then [provisioned_line td] else [])"

definition pitr_lines :: "continuous_backups_out \<Rightarrow> string list" where
  "pitr_lines cb =
     (if pitr_status cb = ''ENABLED''
      then [''PITR is Enabled: ['' @ earliest_restorable_date_time cb @ '' to '' @ latest_restorable_date_time cb @ '']'']
      else if pitr_status cb = ''DISABLED'' then [''PITR is Disabled.''] else [])"

definition included_text :: "string list \<Rightarrow> string" where
  "included_text attrs = foldl (\<lambda>pkeys pk. if pkeys = [] then pk else pkeys @ '', '' @ pk) '''' attrs"

definition projecting_text :: "projection \<Rightarrow> string" where
  "projecting_text p =
     (if pj_type p = Projection_include
      then ''Projecting (INCLUDE) ('' @ included_text (pj_non_key_attributes p) @ '')''
      else ''Projecting ('' @ projection_type_name (pj_type p) @ '')'')"

definition gsi_line :: "bool \<Rightarrow> secondary_index_schema \<Rightarrow> string" where
  "gsi_line on_demand g =
     ''GSI '' @ ix_index_name g @ '': '' @ ''( '' @ key_schema_text (ix_key_schema g) @ '' ), '' @
     (if \<not> on_demand
      then '' Provisioned ('' @
        capacity_text (ix_provisioned_read_capacity_units g) (ix_provisioned_write_capacity_units g) @ ''), ''
      else ''Billing Mode: On Demand (mirrors table), '' @
        (if ix_on_demand_throughput_set g
         then ''Throughput ('' @
           capacity_text (ix_on_demand_max_read_request_units g) (ix_on_demand_max_write_request_units g) @ ''), ''
         else '''')) @
     (if ix_projection_set g then projecting_text (ix_projection g) else '''') @
     '', Status: '' @ ix_index_status g @ '', Backfilling: '' @ (if ix_backfilling g then ''YES'' else ''NO'') @
     (case ix_warm_throughput g of None \<Rightarrow> '''' | Some w \<Rightarrow> '', '' @ warm_text w)"

definition lsi_line :: "secondary_index_schema list \<Rightarrow> string" where
  "lsi_line ls = concat (map (\<lambda>l. ''LSI '' @ ix_index_name l @ '': '' @ ''( '' @ key_schema_text (ix_key_schema l) @ '' ), '') ls)"

definition vsi_line :: "vector_index_schema \<Rightarrow> string" where
  "vsi_line vi =
     ''VSI '' @ vi_index_name vi @ '': '' @ ''Vector Attribute: '' @ vi_vector_attr vi @
     '', Dimensions: '' @ to_string_int (vi_dimensions vi) @ '', Distance: '' @ vector_distance_name (vi_distance vi) @
     (let schema = vector_search_schema_text (vi_search_schema vi)
      in if schema = [] then '''' else '', Search Schema: ( '' @ schema @ '' )'') @
     (if vi_projection_set vi then '', '' @ projecting_text (vi_projection vi) else '''') @
     '', Status: '' @ vi_index_status vi"

definition index_lines :: "describe_table_out \<Rightarrow> string list" where
  "index_lines td =
     (if dt_global_secondary_indexes td = [] then [''GSI: None'']
      else map (gsi_line (table_on_demand td)) (dt_global_secondary_indexes td)) @
     [if dt_local_secondary_indexes td = [] then ''LSI: None'' else lsi_line (dt_local_secondary_indexes td)] @
     (if dt_vector_indexes td = [] then [''VSI: None''] else map vsi_line (dt_vector_indexes td))"

definition trailing_lines :: "describe_table_out \<Rightarrow> string list" where
  "trailing_lines td =
     [case dt_stream_view_type td of Some v \<Rightarrow> ''Stream: '' @ v | None \<Rightarrow> ''Stream: Disabled'',
      case dt_table_class_summary td of Some c \<Rightarrow> ''Table Class: '' @ c | None \<Rightarrow> ''Table Class: Has not been set.'',
      case dt_sse_status td of Some st \<Rightarrow> ''SSE: ('' @ st @ '')'' | None \<Rightarrow> ''SSE: Not set'']"

definition replica_line :: "replica_auto_scaling_description \<Rightarrow> string" where
  "replica_line r = ''Replica Region: '' @ ra_region_name r @ '' (Status: '' @ ra_replica_status r @ '')''"

definition execute_describe :: "'w iddb_client \<Rightarrow> string \<Rightarrow> ('w, 'h, exec_outcome) exec" where
  "execute_describe client t =
     bind_e (call (describe_table client t))
      (\<lambda>td. bind_e (attempt (describe_time_to_live client t))
       (\<lambda>_. bind_e (attempt (describe_continuous_backups client t))
        (\<lambda>pitr. bind_e (attempt (describe_table_replica_auto_scaling client t))
         (\<lambda>scaling. return_e (ReportOutcome
           (basic_info td @ billing_lines td @
            (case dt_warm_throughput td of None \<Rightarrow> [] | Some wt \<Rightarrow> [warm_text wt]) @
            (case pitr of Inr cb \<Rightarrow> pitr_lines cb | Inl _ \<Rightarrow> []) @
            index_lines td @ trailing_lines td @
            (case scaling of Inr rs \<Rightarrow> map replica_line rs | Inl _ \<Rightarrow> [])))))))"

definition describe_specs :: "string \<Rightarrow> (string \<times> explain_request \<times> explain_format) list" where
  "describe_specs t =
     [(''DescribeTable'', ExplainDescribeTable t, Compact),
      (''DescribeTimeToLive'', ExplainDescribeTimeToLive t, Compact),
      (''DescribeContinuousBackups'', ExplainDescribeContinuousBackups t, Pretty),
      (''DescribeTableReplicaAutoScaling'', ExplainDescribeTableReplicaAutoScaling t, Pretty)]"

fun explain_specs ::
    "'w iddb_client \<Rightarrow> (string \<times> explain_request \<times> explain_format) list \<Rightarrow> explain_block list \<Rightarrow>
     ('w, 'h, explain_block list) exec" where
  "explain_specs client [] blocks = return_e blocks"
| "explain_specs client ((api, req, fmt) # specs) blocks =
     bind_e (call (explain_of client req))
       (\<lambda>body. explain_specs client specs (blocks @ [\<lparr>eb_api_name = api, eb_body = body, eb_format = fmt\<rparr>]))"

definition execute_describe_explain :: "'w iddb_client \<Rightarrow> string \<Rightarrow> ('w, 'h, exec_outcome) exec" where
  "execute_describe_explain client t =
     bind_e (explain_specs client (describe_specs t) []) (\<lambda>blocks. return_e (ExplainOutcome blocks None))"

section \<open>SHOW CREATE TABLE\<close>

definition in_quotes :: "string \<Rightarrow> string" where
  "in_quotes s = CHR 0x22 # s @ [CHR 0x22]"

definition role_text :: "string list \<Rightarrow> string \<Rightarrow> string" where
  "role_text attrs keytype =
     (case attrs of
        [a] \<Rightarrow> in_quotes a @ '' '' @ keytype
      | _ \<Rightarrow> ''('' @ join_with '', '' (map in_quotes attrs) @ '') '' @ keytype)"

definition key_description :: "table_key_schema \<Rightarrow> string" where
  "key_description ks =
     join_with '', ''
       ((if hash_keys ks = [] then [] else [role_text (hash_keys ks) ''HASH'']) @
        (if range_keys ks = [] then [] else [role_text (range_keys ks) ''RANGE'']))"

definition billing_mode_provisioned :: "int \<Rightarrow> int \<Rightarrow> string" where
  "billing_mode_provisioned reads writes =
     ''BILLING MODE PROVISIONED ( '' @ to_string_int reads @ '' RCU, '' @ to_string_int writes @ '' WCU ) ''"

definition billing_mode_on_demand :: string where
  "billing_mode_on_demand = ''BILLING MODE ON DEMAND ''"

definition projection_ddl :: "projection \<Rightarrow> string" where
  "projection_ddl p =
     (case pj_type p of
        Projection_all \<Rightarrow> ''PROJECTING ALL''
      | Projection_keys_only \<Rightarrow> ''PROJECTING KEYS ONLY''
      | Projection_include \<Rightarrow> ''PROJECTING INCLUDE ('' @ join_with '', '' (pj_non_key_attributes p) @ '')'')"

definition index_ddl :: "secondary_index_schema \<Rightarrow> string" where
  "index_ddl g =
     in_quotes (ix_index_name g) @ '' ON ( '' @ key_description (ix_key_schema g) @ '' ) '' @
     projection_ddl (ix_projection g) @ '' ''"

definition show_gsis :: "secondary_index_schema list \<Rightarrow> bool \<Rightarrow> string" where
  "show_gsis gsis on_demand =
     (if gsis = [] then ''''
      else ''GSI ('' @
        join_with '', '' (map (\<lambda>g. index_ddl g @
          (if \<not> on_demand
           then billing_mode_provisioned (ix_provisioned_read_capacity_units g) (ix_provisioned_write_capacity_units g)
           else billing_mode_on_demand)) gsis) @ '') '')"

definition show_lsis :: "secondary_index_schema list \<Rightarrow> string" where
  "show_lsis lsis = (if lsis = [] then '''' else ''LSI ('' @ join_with '', '' (map index_ddl lsis) @ '') '')"

definition vsi_distance_ddl :: "vector_distance \<Rightarrow> string" where
  "vsi_distance_ddl d =
     (case d of Euclidean \<Rightarrow> ''EUCLIDEAN'' | Dot_product \<Rightarrow> ''DOT_PRODUCT'' | Cosine \<Rightarrow> ''COSINE'')"

definition vsi_ddl :: "vector_index_schema \<Rightarrow> string" where
  "vsi_ddl vi =
     in_quotes (vi_index_name vi) @ '' ON '' @ in_quotes (vi_vector_attr vi) @ '' DIMENSIONS '' @
     to_string_int (vi_dimensions vi) @ '' DISTANCE '' @ vsi_distance_ddl (vi_distance vi) @
     (if vi_search_schema vi = [] then ''''
      else '' SEARCH KEY ( '' @
        join_with '', '' (map (\<lambda>e. in_quotes (se_attr e) @ '' '' @
          (if se_kind e = Search_hash then ''HASH'' else ''FILTER'')) (vi_search_schema vi)) @ '' )'') @
     '' '' @ (if vi_projection_set vi then projection_ddl (vi_projection vi) else ''PROJECTING ALL'')"

definition show_vsis :: "vector_index_schema list \<Rightarrow> string" where
  "show_vsis vsis = (if vsis = [] then '''' else ''VSI ('' @ join_with '', '' (map vsi_ddl vsis) @ '') '')"

definition stream_view_words :: "string \<Rightarrow> string" where
  "stream_view_words mapped =
     (if mapped = ''NEW_IMAGE'' then ''NEW IMAGE''
      else if mapped = ''OLD_IMAGE'' then ''OLD IMAGE''
      else if mapped = ''KEYS_ONLY'' then ''KEYS ONLY''
      else if mapped = ''NEW_AND_OLD_IMAGES'' then ''BOTH IMAGES''
      else mapped)"

definition attribute_ddl :: "attribute_def \<Rightarrow> string" where
  "attribute_ddl a =
     in_quotes (ad_name a) @
     (case ad_type a of Scalar_s \<Rightarrow> '' string'' | Scalar_n \<Rightarrow> '' number'' | Scalar_b \<Rightarrow> '' binary'')"

definition billing_ddl :: "describe_table_out \<Rightarrow> string" where
  "billing_ddl td =
     (let provisioned = billing_mode_provisioned (dt_provisioned_read_capacity_units td)
            (dt_provisioned_write_capacity_units td)
      in case dt_billing_mode_summary td of
           Some mode \<Rightarrow>
             (if mode = ''PROVISIONED'' then provisioned
              else if mode = ''PAY_PER_REQUEST'' then billing_mode_on_demand else '''')
         | None \<Rightarrow> if dt_provisioned_throughput_set td then provisioned else '''')"

definition reconstruct_ddl :: "show_create_table_cmd \<Rightarrow> describe_table_out \<Rightarrow> string" where
  "reconstruct_ddl cmd td =
     ''CREATE TABLE '' @ (if sc_if_not_exists cmd then ''IF NOT EXISTS '' else '''') @
     (if sc_nowait cmd then ''NOWAIT '' else '''') @ in_quotes (dt_table_name td) @ '' ('' @
     join_with '', '' (map attribute_ddl (dt_attribute_definitions td)) @
     '') PRIMARY KEY ('' @ key_description (dt_key_schema td) @ '') '' @ billing_ddl td @
     show_gsis (dt_global_secondary_indexes td) (table_on_demand td) @
     show_lsis (dt_local_secondary_indexes td) @ show_vsis (dt_vector_indexes td) @
     (if dt_stream_specification_set td
      then (case dt_stream_view_type td of
              Some v \<Rightarrow> ''STREAM ( '' @ stream_view_words v @ '' ) ''
            | None \<Rightarrow> ''STREAM DISABLED '')
      else '''') @
     (if dt_table_class_summary td = Some ''STANDARD_INFREQUENT_ACCESS''
      then ''TABLE CLASS STANDARD INFREQUENT ACCESS '' else ''TABLE CLASS STANDARD '') @
     (if dt_deletion_protection_enabled td then ''DELETION PROTECTION ENABLED'' else ''DELETION PROTECTION DISABLED'')"

definition execute_show_create_table ::
    "'w iddb_client \<Rightarrow> show_create_table_cmd \<Rightarrow> ('w, 'h, exec_outcome) exec" where
  "execute_show_create_table client cmd =
     bind_e (attempt (describe_table client (sc_table cmd)))
      (\<lambda>d. case d of
         Inl _ \<Rightarrow> lift_e (fail_with no_such_table (''The table '' @ in_quotes (sc_table cmd) @ '' does not exist.''))
       | Inr td \<Rightarrow>
           (if dt_table_status td \<noteq> ''ACTIVE''
            then lift_e (fail_with invalid_argument (''The table '' @ in_quotes (sc_table cmd) @ '' is not ACTIVE.''))
            else bind_e (attempt (describe_time_to_live client (sc_table cmd)))
              (\<lambda>_. return_e (ReportOutcome [reconstruct_ddl cmd td]))))"

section \<open>SHOW BACKUPS and SHOW LIMITS\<close>

definition backup_line :: "backup_summary_row \<Rightarrow> string" where
  "backup_line b =
     ''Table: '' @ bs_table_name b @ '', Backup: '' @ bs_backup_name b @ '', Status: '' @ bs_backup_status b @
     '', ARN: '' @ bs_backup_arn b @ '', On: '' @ bs_creation_datetime b @ '', Expires: '' @ bs_expiry_datetime b"

definition backups_request :: "show_backups_cmd \<Rightarrow> string option \<Rightarrow> list_backups_in" where
  "backups_request cmd start =
     \<lparr>lb_table_name = (if sb_table cmd = [] then None else Some (sb_table cmd)),
      lb_backup_type = (if sb_backup_type cmd = [] then None else Some (sb_backup_type cmd)),
      lb_limit = 100, lb_exclusive_start_backup_arn = start\<rparr>"

partial_function (option) show_backups_loop ::
    "'w iddb_client \<Rightarrow> show_backups_cmd \<Rightarrow> string option \<Rightarrow> string list \<Rightarrow> ('w, 'h, string list) exec" where
  "show_backups_loop client cmd start out s =
     bind_e (call (list_backups client (backups_request cmd start)))
       (\<lambda>page s. let out' = out @ map backup_line (lbo_summaries page)
         in if lbo_last_evaluated_backup_arn page = None then return_e out' s
            else show_backups_loop client cmd (lbo_last_evaluated_backup_arn page) out' s) s"

definition execute_show_backups :: "'w iddb_client \<Rightarrow> show_backups_cmd \<Rightarrow> ('w, 'h, exec_outcome) exec" where
  "execute_show_backups client cmd =
     bind_e (show_backups_loop client cmd None []) (\<lambda>out. return_e (ReportOutcome out))"

record limit_totals =
  lt_rcus :: int
  lt_wcus :: int
  lt_gsircus :: int
  lt_gsiwcus :: int

definition counts_as_provisioned :: "describe_table_out \<Rightarrow> bool" where
  "counts_as_provisioned td \<longleftrightarrow>
     dt_billing_mode_summary td = Some ''PROVISIONED'' \<or> dt_provisioned_throughput_set td"

definition add_table :: "describe_table_out \<Rightarrow> limit_totals \<Rightarrow> limit_totals" where
  "add_table td lt =
     (if \<not> counts_as_provisioned td then lt
      else \<lparr>lt_rcus = lt_rcus lt + dt_provisioned_read_capacity_units td,
            lt_wcus = lt_wcus lt + dt_provisioned_write_capacity_units td,
            lt_gsircus = foldl (\<lambda>n g. n + ix_provisioned_read_capacity_units g) (lt_gsircus lt) (dt_global_secondary_indexes td),
            lt_gsiwcus = foldl (\<lambda>n g. n + ix_provisioned_write_capacity_units g) (lt_gsiwcus lt) (dt_global_secondary_indexes td)\<rparr>)"

fun limits_loop :: "'w iddb_client \<Rightarrow> string list \<Rightarrow> limit_totals \<Rightarrow> ('w, 'h, limit_totals) exec" where
  "limits_loop client [] lt = return_e lt"
| "limits_loop client (name # names) lt =
     bind_e (attempt (describe_table client name))
       (\<lambda>d. limits_loop client names (case d of Inl _ \<Rightarrow> lt | Inr td \<Rightarrow> add_table td lt))"

definition limits_report :: "string \<Rightarrow> describe_limits_out \<Rightarrow> limit_totals \<Rightarrow> string list" where
  "limits_report region dl lt =
     [''Region: '' @ region,
      ''Account Max (RCU, WCU): '' @ to_string_int (dl_account_max_rcu dl) @ '', '' @ to_string_int (dl_account_max_wcu dl),
      ''Table Max (RCU, WCU):  '' @ to_string_int (dl_table_max_rcu dl) @ '', '' @ to_string_int (dl_table_max_wcu dl),
      ''Total Tables (RCU, WCU): '' @ to_string_int (lt_rcus lt) @ '', '' @ to_string_int (lt_wcus lt),
      ''Total GSI (RCU, WCU): '' @ to_string_int (lt_gsircus lt) @ '', '' @ to_string_int (lt_gsiwcus lt),
      ''Total (RCU, WCU): '' @ to_string_int (lt_rcus lt + lt_gsircus lt) @ '', '' @ to_string_int (lt_wcus lt + lt_gsiwcus lt)]"

definition execute_show_limits :: "'w iddb_client \<Rightarrow> string \<Rightarrow> ('w, 'h, exec_outcome) exec" where
  "execute_show_limits client region =
     bind_e (call (describe_limits client))
      (\<lambda>dl. bind_e (call (list_tables client))
       (\<lambda>names. bind_e (limits_loop client names \<lparr>lt_rcus = 0, lt_wcus = 0, lt_gsircus = 0, lt_gsiwcus = 0\<rparr>)
        (\<lambda>lt. return_e (ReportOutcome (limits_report region dl lt)))))"

section \<open>SHOW BACKUPS lists every page\<close>

inductive backup_pages ::
    "'w iddb_client \<Rightarrow> show_backups_cmd \<Rightarrow> string option \<Rightarrow> 'w \<Rightarrow> backup_summary_row list \<Rightarrow> error option \<Rightarrow> 'w \<Rightarrow> bool"
  for client :: "'w iddb_client" and cmd :: show_backups_cmd where
  backups_failed: "backup_pages client cmd start w [] (Some e) w'"
    if "list_backups client (backups_request cmd start) w = (Inl e, w')"
| backups_last: "backup_pages client cmd start w (lbo_summaries page) None w'"
    if "list_backups client (backups_request cmd start) w = (Inr page, w')" and "lbo_last_evaluated_backup_arn page = None"
| backups_next: "backup_pages client cmd start w (lbo_summaries page @ rows) err w'"
    if "list_backups client (backups_request cmd start) w = (Inr page, w1)"
      and "lbo_last_evaluated_backup_arn page = Some arn" and "backup_pages client cmd (Some arn) w1 rows err w'"

definition backups_result :: "string list \<Rightarrow> backup_summary_row list \<Rightarrow> error option \<Rightarrow> string list result" where
  "backups_result out rows err = (case err of Some e \<Rightarrow> Inl e | None \<Rightarrow> Inr (out @ map backup_line rows))"

lemma show_backups_sound:
  assumes "show_backups_loop client cmd start out s = Some (r, t)"
  shows "\<exists>rows err w. backup_pages client cmd start (world s) rows err w \<and> t = s\<lparr>world := w\<rparr> \<and>
    r = backups_result out rows err"
proof -
  let ?Q = "\<lambda>client cmd start out s rt. \<exists>rows err w. backup_pages client cmd start (world s) rows err w \<and>
    snd rt = s\<lparr>world := w\<rparr> \<and> fst rt = backups_result out rows err"
  have "?Q client cmd start out s (r, t)"
  proof (rule show_backups_loop.raw_induct [where P = ?Q, OF _ assms])
    fix rec client cmd start out s rt
    assume IH: "\<And>client cmd start out s rt. rec client cmd start out s = Some rt \<Longrightarrow> ?Q client cmd start out s rt"
      and step: "bind_e (call (list_backups client (backups_request cmd start)))
       (\<lambda>page s. let out' = out @ map backup_line (lbo_summaries page)
         in if lbo_last_evaluated_backup_arn page = None then return_e out' s
            else rec client cmd (lbo_last_evaluated_backup_arn page) out' s) s = Some rt"
    obtain res w where l: "list_backups client (backups_request cmd start) (world s) = (res, w)" by fastforce
    show "?Q client cmd start out s rt"
    proof (cases res)
      case (Inl e)
      then have "rt = (Inl e, s\<lparr>world := w\<rparr>)" using step l by (simp add: exec_simps)
      then show ?thesis using backups_failed [of client cmd start "world s" e w] l Inl
        by (intro exI [of _ "[]"] exI [of _ "Some e"] exI [of _ w]) (simp add: backups_result_def)
    next
      case (Inr page)
      show ?thesis
      proof (cases "lbo_last_evaluated_backup_arn page")
        case None
        then have "rt = (Inr (out @ map backup_line (lbo_summaries page)), s\<lparr>world := w\<rparr>)"
          using step l Inr by (simp add: exec_simps)
        then show ?thesis using backups_last [of client cmd start "world s" page w] l Inr None
          by (intro exI [of _ "lbo_summaries page"] exI [of _ None] exI [of _ w]) (simp add: backups_result_def)
      next
        case (Some arn)
        then have "rec client cmd (Some arn) (out @ map backup_line (lbo_summaries page)) (s\<lparr>world := w\<rparr>) = Some rt"
          using step l Inr by (simp add: exec_simps)
        from IH [OF this] obtain rows err w2 where
          "backup_pages client cmd (Some arn) w rows err w2" "snd rt = s\<lparr>world := w2\<rparr>"
          "fst rt = backups_result (out @ map backup_line (lbo_summaries page)) rows err" by auto
        then show ?thesis using backups_next [of client cmd start "world s" page w arn rows err w2] l Inr Some
          by (intro exI [of _ "lbo_summaries page @ rows"] exI [of _ err] exI [of _ w2])
            (simp add: backups_result_def split: option.split)
      qed
    qed
  qed
  then show ?thesis by simp
qed

lemma show_backups_complete:
  assumes "backup_pages client cmd start w rows err w'" and "world s = w"
  shows "show_backups_loop client cmd start out s = Some (backups_result out rows err, s\<lparr>world := w'\<rparr>)"
  using assms
proof (induction arbitrary: out s rule: backup_pages.induct)
  case (backups_next start w page w1 arn rows err w')
  then have "show_backups_loop client cmd (Some arn) (out @ map backup_line (lbo_summaries page)) (s\<lparr>world := w1\<rparr>) =
      Some (backups_result (out @ map backup_line (lbo_summaries page)) rows err, s\<lparr>world := w'\<rparr>)"
    using backups_next.IH [of "s\<lparr>world := w1\<rparr>"] by simp
  then show ?case using backups_next.hyps(1,2) backups_next.prems
    by (subst show_backups_loop.simps) (simp add: exec_simps backups_result_def split: option.split)
qed (subst show_backups_loop.simps, simp add: exec_simps backups_result_def)+

text \<open>C25: SHOW BACKUPS returns exactly when the service's pages come to an end, with one line per
  backup of all pages in order, or with the error of the page that failed; and it keeps asking as
  long as the service returns a continuation, an empty one included, although the interface says
  that an empty one ends the list.\<close>

theorem show_backups_all_pages:
  "(execute_show_backups client cmd s = Some (r, t) \<longleftrightarrow>
     (\<exists>rows err w. backup_pages client cmd None (world s) rows err w \<and> t = s\<lparr>world := w\<rparr> \<and>
        r = (case err of Some e \<Rightarrow> Inl e | None \<Rightarrow> Inr (ReportOutcome (map backup_line rows))))) \<and>
   execute_show_backups (client\<lparr>list_backups := \<lambda>_ w. (Inr \<lparr>lbo_summaries = [], lbo_last_evaluated_backup_arn = Some []\<rparr>, w)\<rparr>)
     cmd s = None"
proof
  show "execute_show_backups client cmd s = Some (r, t) \<longleftrightarrow>
     (\<exists>rows err w. backup_pages client cmd None (world s) rows err w \<and> t = s\<lparr>world := w\<rparr> \<and>
        r = (case err of Some e \<Rightarrow> Inl e | None \<Rightarrow> Inr (ReportOutcome (map backup_line rows))))" (is "?l \<longleftrightarrow> ?r")
  proof
    assume ?l
    then obtain q where q: "show_backups_loop client cmd None [] s = Some (q, t)"
      "r = map_sum id ReportOutcome q"
      by (auto simp: execute_show_backups_def bind_Some_iff return_e_def)
    from show_backups_sound [OF q(1)] obtain rows err w where
      p: "backup_pages client cmd None (world s) rows err w" "t = s\<lparr>world := w\<rparr>" "q = backups_result [] rows err" by blast
    then have "r = (case err of Some e \<Rightarrow> Inl e | None \<Rightarrow> Inr (ReportOutcome (map backup_line rows)))"
      using q(2) by (simp add: backups_result_def split: option.split)
    with p show ?r by blast
  next
    assume ?r
    then obtain rows err w where p: "backup_pages client cmd None (world s) rows err w" "t = s\<lparr>world := w\<rparr>"
      "r = (case err of Some e \<Rightarrow> Inl e | None \<Rightarrow> Inr (ReportOutcome (map backup_line rows)))" by blast
    from show_backups_complete [OF p(1) refl, of "[]"] p(2,3) show ?l
      by (auto simp: execute_show_backups_def exec_simps backups_result_def split: option.splits)
  qed
next
  let ?c = "client\<lparr>list_backups := \<lambda>_ w. (Inr \<lparr>lbo_summaries = [], lbo_last_evaluated_backup_arn = Some []\<rparr>, w)\<rparr>"
  have "backup_pages ?c cmd start w rows err w' \<Longrightarrow> False" for start w rows err w'
    by (induction rule: backup_pages.induct) auto
  then have "show_backups_loop ?c cmd None [] s = None"
    using show_backups_sound [of ?c cmd None "[]" s] by (cases "show_backups_loop ?c cmd None [] s") auto
  then show "execute_show_backups ?c cmd s = None" by (simp add: execute_show_backups_def exec_simps)
qed

section \<open>SHOW LIMITS adds up\<close>

definition described_tables :: "'w iddb_client \<Rightarrow> 'w \<Rightarrow> string list \<Rightarrow> describe_table_out list" where
  "described_tables client w names =
     List.map_filter (\<lambda>n. case fst (describe_table client n w) of Inr td \<Rightarrow> Some td | Inl _ \<Rightarrow> None) names"

definition table_totals :: "describe_table_out list \<Rightarrow> limit_totals" where
  "table_totals tds =
     \<lparr>lt_rcus = (\<Sum>td\<leftarrow>tds. dt_provisioned_read_capacity_units td),
      lt_wcus = (\<Sum>td\<leftarrow>tds. dt_provisioned_write_capacity_units td),
      lt_gsircus = (\<Sum>td\<leftarrow>tds. \<Sum>g\<leftarrow>dt_global_secondary_indexes td. ix_provisioned_read_capacity_units g),
      lt_gsiwcus = (\<Sum>td\<leftarrow>tds. \<Sum>g\<leftarrow>dt_global_secondary_indexes td. ix_provisioned_write_capacity_units g)\<rparr>"

lemma foldl_add_sum: "foldl (\<lambda>n g. n + f g) k gs = k + (\<Sum>g\<leftarrow>gs. f g)" for k :: int
  by (induction gs arbitrary: k) simp_all

definition plus_totals :: "limit_totals \<Rightarrow> limit_totals \<Rightarrow> limit_totals" where
  "plus_totals a b =
     \<lparr>lt_rcus = lt_rcus a + lt_rcus b, lt_wcus = lt_wcus a + lt_wcus b,
      lt_gsircus = lt_gsircus a + lt_gsircus b, lt_gsiwcus = lt_gsiwcus a + lt_gsiwcus b\<rparr>"

lemma add_table_totals: "add_table td lt = plus_totals lt (table_totals (filter counts_as_provisioned [td]))"
  by (simp add: add_table_def plus_totals_def table_totals_def foldl_add_sum)

lemma plus_table_totals:
  "plus_totals (plus_totals lt (table_totals (filter counts_as_provisioned [td]))) (table_totals tds) =
     plus_totals lt (table_totals (filter counts_as_provisioned [td] @ tds))"
  by (simp add: plus_totals_def table_totals_def)

lemma limits_loop_totals:
  assumes "metadata_reads client"
  shows "limits_loop client names lt s =
    Some (Inr (plus_totals lt (table_totals (filter counts_as_provisioned (described_tables client (world s) names)))), s)"
proof (induction names arbitrary: lt)
  case Nil
  then show ?case by (simp add: return_e_def described_tables_def plus_totals_def table_totals_def List.map_filter_def)
next
  case (Cons name names)
  obtain d where d: "describe_table client name (world s) = (d, world s)"
    using assms unfolding metadata_reads_def by (metis prod.collapse)
  show ?case
  proof (cases d)
    case (Inl e)
    then show ?thesis using d Cons by (simp add: exec_simps described_tables_def List.map_filter_simps)
  next
    case (Inr td)
    then have "described_tables client (world s) (name # names) = td # described_tables client (world s) names"
      using d by (simp add: described_tables_def List.map_filter_simps)
    then show ?thesis
      using d Inr Cons [of "add_table td lt"] plus_table_totals [of lt td]
      by (simp add: exec_simps add_table_totals)
  qed
qed

text \<open>SHOW LIMITS prints the account limits and, as totals, the sums of the provisioned capacity
  of the tables that can be described and of their global secondary indexes; tables that cannot be
  described or are on demand count nothing.  No table is changed.\<close>

theorem show_limits_totals:
  assumes "metadata_reads client" and "describe_limits client (world s) = (Inr dl, w1)"
    and "list_tables client w1 = (Inr names, w2)"
  shows "execute_show_limits client region s =
    Some (Inr (ReportOutcome (limits_report region dl
      (table_totals (filter counts_as_provisioned (described_tables client w2 names))))), s\<lparr>world := w2\<rparr>)"
proof -
  have "plus_totals \<lparr>lt_rcus = 0, lt_wcus = 0, lt_gsircus = 0, lt_gsiwcus = 0\<rparr> lt = lt" for lt
    by (cases lt) (simp add: plus_totals_def)
  then show ?thesis
    using assms(2,3) limits_loop_totals [OF assms(1), of names _ "s\<lparr>world := w2\<rparr>"]
    by (simp add: execute_show_limits_def exec_simps)
qed

theorem show_limits_totals_witness:
  "\<exists>t. execute_show_limits (memory_client\<lparr>describe_limits := \<lambda>m. (Inr \<lparr>dl_account_max_rcu = 4, dl_account_max_wcu = 3,
       dl_table_max_rcu = 2, dl_table_max_wcu = 1\<rparr>, m)\<rparr>) ''us'' sample_state =
     Some (Inr (ReportOutcome (limits_report ''us'' \<lparr>dl_account_max_rcu = 4, dl_account_max_wcu = 3,
       dl_table_max_rcu = 2, dl_table_max_wcu = 1\<rparr> (table_totals []))), t)"
proof -
  let ?dl = "\<lparr>dl_account_max_rcu = 4, dl_account_max_wcu = 3, dl_table_max_rcu = 2, dl_table_max_wcu = 1\<rparr>"
  let ?c = "memory_client\<lparr>describe_limits := \<lambda>m. (Inr ?dl, m)\<rparr>"
  have m: "metadata_reads ?c" using memory_metadata by (simp add: metadata_reads_def)
  have d: "describe_limits ?c (world sample_state) = (Inr ?dl, sample_memory)" by (simp add: sample_state_def)
  have l: "list_tables ?c sample_memory = (Inr [''t''], sample_memory)"
    by (simp add: m_list_tables_def sample_memory_def)
  have "filter counts_as_provisioned (described_tables ?c sample_memory [''t'']) = []"
    by (simp add: described_tables_def List.map_filter_simps m_describe_table_def find_table_def sample_memory_def
        described_def counts_as_provisioned_def)
  with show_limits_totals [OF m d l, of "''us''"] show ?thesis by (simp only:) blast
qed

end
