(* ===== verification/Renderer.thy ===== *)
theory Renderer
  imports Commands "HOL-Library.Char_ord" "HOL-Library.List_Lexorder" "HOL-Library.Multiset"
begin

text \<open>
  \<open>renderer.cpp\<close>: outcomes as text.  \<open>std::sort\<close> by name is a stable sort (names of one item are
  distinct); \<open>std::to_string\<close> of a \<open>double\<close> prints a real with six decimals, rounded half to even;
  the three fixed regular expressions of the source are written out as scanners.
\<close>

section \<open>Items\<close>

definition newline :: char where
  "newline = CHR 0x0A"

definition line_of :: "string \<Rightarrow> string" where
  "line_of s = s @ [newline]"

definition lines_of :: "string list \<Rightarrow> string" where
  "lines_of ls = concat (map line_of ls)"

text \<open>\<open>strcspn\<close> stops at a NUL too, and then the lengths differ.\<close>

definition needs_quotes :: "char \<Rightarrow> bool" where
  "needs_quotes c \<longleftrightarrow> c \<in> {CHR '' '', CHR 0x09, CHR '','', CHR '':'', CHR 0x0A, CHR ''['', CHR '']'', CHR 0x7B, CHR 0x7D, CHR 0x00}"

definition quote_if_required :: "string \<Rightarrow> string" where
  "quote_if_required s = (if list_ex needs_quotes s then CHR 0x22 # s @ [CHR 0x22] else s)"

fun render_value :: "value \<Rightarrow> string" where
  "render_value (S s) = quote_if_required s"
| "render_value (N s) = s"
| "render_value (BOOL b) = (if b then ''TRUE'' else ''FALSE'')"
| "render_value NUL = ''NULL''"
| "render_value (L vs) = ''['' @ join_with '', '' (map render_value vs) @ '']''"
| "render_value (M kvs) =
     CHR 0x7B # join_with '', ''
       (map (\<lambda>kt. quote_if_required (fst kt) @ '':'' @ snd kt)
         (sort_key fst (map (\<lambda>kv. (fst kv, render_value (snd kv))) kvs))) @ [CHR 0x7D]"
| "render_value _ = ''Unknown Type''"

definition show_item :: "item_row \<Rightarrow> string" where
  "show_item item =
     (if item = [] then ''''
      else CHR 0x7B # join_with '', ''
        (map (\<lambda>a. quote_if_required (fst a) @ '': '' @ render_value (snd a)) (sort_key fst item)) @ [CHR 0x7D])"

section \<open>Numbers\<close>

definition round_half_even :: "real \<Rightarrow> int" where
  "round_half_even x =
     (let n = \<lfloor>x\<rfloor>; d = x - of_int n
      in if d < 1 / 2 then n else if 1 / 2 < d then n + 1 else if even n then n else n + 1)"

text \<open>The last \<open>k\<close> digits of \<open>n\<close>.\<close>

fun padded :: "nat \<Rightarrow> nat \<Rightarrow> string" where
  "padded 0 n = ''''"
| "padded (Suc k) n = padded k (n div 10) @ [digit (n mod 10)]"

definition to_string_double :: "real \<Rightarrow> string" where
  "to_string_double x =
     (let n = nat (round_half_even (\<bar>x\<bar> * 10 ^ 6))
      in (if x < 0 then ''-'' else '''') @ to_string (n div 10 ^ 6) @ ''.'' @ padded 6 (n mod 10 ^ 6))"

definition dec_digit :: "char \<Rightarrow> bool" where
  "dec_digit c \<longleftrightarrow> c \<in> set ''0123456789''"

definition num_char :: "char \<Rightarrow> bool" where
  "num_char c \<longleftrightarrow> dec_digit c \<or> c = CHR '',''"

definition strip_zeros :: "string \<Rightarrow> string" where
  "strip_zeros s = rev (dropWhile (\<lambda>c. c = CHR ''0'') (rev s))"

definition trim_double :: "string \<Rightarrow> string" where
  "trim_double s =
     (case split_at_char (CHR ''.'') s of
        (whole, []) \<Rightarrow> s
      | (whole, dot # decs) \<Rightarrow>
          (if whole \<noteq> [] \<and> list_all num_char whole \<and> list_all dec_digit decs
           then (if strip_zeros decs = [] then whole else whole @ dot # strip_zeros decs)
           else s))"

definition number_field :: "real option \<Rightarrow> string" where
  "number_field v = (case v of Some x \<Rightarrow> trim_double (to_string_double x) | None \<Rightarrow> ''0'')"

definition render_consumed_capacity :: "consumed_capacity \<Rightarrow> string" where
  "render_consumed_capacity cc =
     (case cc_table_name cc of
        None \<Rightarrow> ''''
      | Some t \<Rightarrow>
          (if cc_capacity_units cc = None \<and> cc_read_capacity_units cc = None \<and> cc_write_capacity_units cc = None then ''''
           else line_of (''SELECT ('' @ t @ '', '' @ number_field (cc_capacity_units cc) @
             '', '' @ number_field (cc_read_capacity_units cc) @ '', '' @ number_field (cc_write_capacity_units cc) @ '')'')))"

definition format_score :: "real \<Rightarrow> string" where
  "format_score x =
     (let s = to_string_double x
      in if s \<noteq> [] \<and> hd s = CHR ''-'' then CHR ''-'' # trim_double (tl s) else trim_double s)"

section \<open>Outcomes\<close>

definition render_select :: "select_outcome \<Rightarrow> string" where
  "render_select s =
     lines_of (filter (\<lambda>l. l \<noteq> []) (map show_item (so_items s))) @
     (case so_consumed_capacity s of None \<Rightarrow> '''' | Some cc \<Rightarrow> render_consumed_capacity cc)"

definition render_vector_search :: "(item_row \<times> real) list \<Rightarrow> vector_consumed_capacity option \<Rightarrow> string" where
  "render_vector_search rows vc =
     lines_of (map (\<lambda>(item, score).
       (if show_item item = [] then '''' else show_item item @ '' '') @ ''score '' @ format_score score) rows) @
     (case vc of
        None \<Rightarrow> ''''
      | Some c \<Rightarrow> line_of (''SELECT ('' @ number_field (vc_vector_search_request_bytes c) @
          '' vector search request bytes, '' @ number_field (vc_vector_write_request_bytes c) @
          '' vector write request bytes)''))"

definition write_line :: "string list \<Rightarrow> item_row option list \<Rightarrow> nat \<Rightarrow> string" where
  "write_line tokens items i =
     (if i < length items
      then (case items ! i of Some item \<Rightarrow> tokens ! i @ '': '' @ show_item item | None \<Rightarrow> tokens ! i)
      else tokens ! i)"

definition render_write :: "string list \<Rightarrow> item_row option list \<Rightarrow> string" where
  "render_write tokens items = lines_of (map (write_line tokens items) [0..<length tokens])"

definition render_bulk_write :: "bulk_write_outcome \<Rightarrow> string" where
  "render_bulk_write b =
     lines_of (map show_item (bw_returned_items b)) @
     line_of ((case bw_verb b of Verb_update \<Rightarrow> ''UPDATE'' | Verb_upsert \<Rightarrow> ''UPSERT'' | Verb_del \<Rightarrow> ''DELETE'') @
       '' ('' @ to_string (bw_read b) @ '' read, '' @ to_string (bw_modified b) @ '' modified, '' @
       to_string (bw_ccf b) @ '' ccf)'')"

definition explain_string :: "string \<Rightarrow> string" where
  "explain_string s = concat (map (\<lambda>c. if c = CHR 0x09 then ''   '' else [c]) s)"

text \<open>The first pass of \<open>strip_newlines\<close>: a newline or carriage return with the tabs after it
  becomes a blank; the second: the tab after a colon becomes a blank.\<close>

fun strip_breaks :: "bool \<Rightarrow> string \<Rightarrow> string" where
  "strip_breaks after [] = []"
| "strip_breaks after (c # cs) =
     (if c = CHR 0x0A \<or> c = CHR 0x0D then CHR '' '' # strip_breaks True cs
      else if after \<and> c = CHR 0x09 then strip_breaks True cs
      else c # strip_breaks False cs)"

fun strip_colon_tabs :: "string \<Rightarrow> string" where
  "strip_colon_tabs (c # d # cs) =
     (if c = CHR '':'' \<and> d = CHR 0x09 then CHR '':'' # CHR '' '' # strip_colon_tabs cs
      else c # strip_colon_tabs (d # cs))"
| "strip_colon_tabs s = s"

definition strip_newlines :: "string \<Rightarrow> string" where
  "strip_newlines s = strip_colon_tabs (strip_breaks False s)"

definition block_text :: "explain_block \<Rightarrow> string" where
  "block_text b =
     eb_api_name b @ ''('' @
     (case eb_format b of Compact \<Rightarrow> strip_newlines (eb_body b) | Pretty \<Rightarrow> explain_string (eb_body b)) @ '')''"

definition render_explain :: "explain_block list \<Rightarrow> string option \<Rightarrow> string" where
  "render_explain blocks trailing =
     lines_of (map block_text blocks) @ (case trailing of None \<Rightarrow> '''' | Some t \<Rightarrow> line_of t)"

fun render_outcome :: "exec_outcome \<Rightarrow> string" where
  "render_outcome (StatusOutcome token diagnostics) = line_of token"
| "render_outcome (ReportOutcome ls) = lines_of ls"
| "render_outcome EmptyOutcome = ''''"
| "render_outcome (SelectOutcome s) = render_select s"
| "render_outcome (WriteOutcome tokens items) = render_write tokens items"
| "render_outcome (ExplainOutcome blocks trailing) = render_explain blocks trailing"
| "render_outcome (BulkWriteOutcome b) = render_bulk_write b"
| "render_outcome (TransactOutcome token diagnostics) = line_of token"
| "render_outcome (TransactReadOutcome items) = lines_of (map show_item items)"
| "render_outcome (VectorSearchOutcome rows vc) = render_vector_search rows vc"
| "render_outcome (MultiOutcome parts) = concat (map render_outcome parts)"

fun render_outcome_stderr :: "exec_outcome \<Rightarrow> string" where
  "render_outcome_stderr (StatusOutcome token diagnostics) = lines_of diagnostics"
| "render_outcome_stderr (TransactOutcome token diagnostics) = lines_of diagnostics"
| "render_outcome_stderr (MultiOutcome parts) = concat (map render_outcome_stderr parts)"
| "render_outcome_stderr _ = ''''"

definition render_error :: "error \<Rightarrow> string" where
  "render_error e = line_of (err_message e)"

section \<open>Guarantees\<close>

lemma sort_by_name_unique:
  assumes "mset xs = mset ys" and "distinct (map fst xs)"
  shows "sort_key fst xs = sort_key fst ys"
proof (rule map_sorted_distinct_set_unique [where f = fst])
  have s: "set ys = set xs" using assms(1) mset_eq_setD by metis
  have d: "mset (map fst ys) = mset (map fst xs)" using assms(1) by simp
  show "inj_on fst (set (sort_key fst xs) \<union> set (sort_key fst ys))"
    using assms(2) s by (simp add: distinct_map)
  show "distinct (map fst (sort_key fst xs))"
    using assms(2) mset_eq_imp_distinct_iff [of "map fst (sort_key fst xs)" "map fst xs"] by simp
  show "distinct (map fst (sort_key fst ys))"
    using assms(2) d mset_eq_imp_distinct_iff [of "map fst (sort_key fst ys)" "map fst xs"] by simp
  show "set (sort_key fst xs) = set (sort_key fst ys)" using s by simp
qed simp_all

text \<open>Rendering does not depend on the order in which the service lists attributes: two items
  with the same attributes are shown as the same text, and so are two maps.\<close>

theorem rendering_ignores_order:
  assumes "mset a = mset b" and "distinct (map fst a)"
  shows "show_item a = show_item b \<and> render_value (M a) = render_value (M b)"
proof -
  let ?f = "\<lambda>kv. (fst kv, render_value (snd kv))"
  have "mset (map ?f a) = mset (map ?f b)" using assms(1) by simp
  moreover have "distinct (map fst (map ?f a))" using assms(2) by (simp add: comp_def)
  ultimately have "sort_key fst (map ?f a) = sort_key fst (map ?f b)" by (rule sort_by_name_unique)
  moreover have "a = [] \<longleftrightarrow> b = []" using assms(1) by auto
  ultimately show ?thesis using sort_by_name_unique [OF assms] by (simp add: show_item_def)
qed

theorem rendering_ignores_order_witness:
  "show_item [(''b'', N ''1''), (''a'', S ''x'')] = show_item [(''a'', S ''x''), (''b'', N ''1'')]"
  using rendering_ignores_order [of "[(''b'', N ''1''), (''a'', S ''x'')]" "[(''a'', S ''x''), (''b'', N ''1'')]"] by simp

lemma strip_zeros_append: "strip_zeros (s @ replicate n (CHR ''0'')) = strip_zeros s"
  by (simp add: strip_zeros_def dropWhile_append)

lemma length_padded: "length (padded k n) = k"
  by (induction k arbitrary: n) simp_all

lemma padded_digits: "list_all dec_digit (padded k n)"
proof (induction k arbitrary: n)
  case (Suc k)
  then show ?case using digit_chars [of "n mod 10"] by (simp add: dec_digit_def)
qed simp

lemma to_string_num: "list_all num_char (to_string n)"
  using to_string_chars [of n] unfolding list_all_iff num_char_def dec_digit_def by blast

text \<open>A number is shown without trailing zeros: an integral value as its digits, any other with
  its decimals up to the last that is not zero, and a negative score with its sign.\<close>

theorem numbers_trimmed:
  "trim_double (to_string whole @ ''.'' @ padded k n) =
     (if strip_zeros (padded k n) = [] then to_string whole
      else to_string whole @ ''.'' @ strip_zeros (padded k n)) \<and>
   (\<exists>m. padded k n = strip_zeros (padded k n) @ replicate m (CHR ''0'')) \<and>
   last (CHR ''.'' # strip_zeros (padded k n)) \<noteq> CHR ''0'' \<and>
   format_score x = (if x < 0 then ''-'' else '''') @ number_field (Some \<bar>x\<bar>)"
proof (intro conjI)
  have "CHR ''.'' \<notin> set (to_string whole)" using to_string_chars [of whole] by auto
  then have "split_at_char (CHR ''.'') (to_string whole @ ''.'' @ padded k n) = (to_string whole, ''.'' @ padded k n)"
    by (auto simp: split_at_char_def takeWhile_append dropWhile_append)
  then show "trim_double (to_string whole @ ''.'' @ padded k n) =
     (if strip_zeros (padded k n) = [] then to_string whole
      else to_string whole @ ''.'' @ strip_zeros (padded k n))"
    using to_string_num [of whole] padded_digits [of k n] to_string_nonempty [of whole]
    by (simp add: trim_double_def)
  let ?p = "padded k n"
  have sp: "?p = strip_zeros ?p @ rev (takeWhile (\<lambda>c. c = CHR ''0'') (rev ?p))"
    unfolding strip_zeros_def by (metis rev_append rev_rev_ident takeWhile_dropWhile_id)
  have "takeWhile (\<lambda>c. c = CHR ''0'') xs = replicate (length (takeWhile (\<lambda>c. c = CHR ''0'') xs)) (CHR ''0'')" for xs
    by (induction xs) auto
  then show "\<exists>m. ?p = strip_zeros ?p @ replicate m (CHR ''0'')" using sp by (metis rev_replicate)
  show "last (CHR ''.'' # strip_zeros ?p) \<noteq> CHR ''0''"
    unfolding strip_zeros_def using hd_dropWhile [of "\<lambda>c. c = CHR ''0''" "rev ?p"] by (auto simp: last_rev)
  have sgn: "hd (to_string m) \<noteq> CHR ''-'' \<and> to_string m \<noteq> []" for m
  proof -
    have "hd (to_string m) \<in> set ''0123456789''"
      using to_string_chars [of m] to_string_nonempty [of m] hd_in_set [of "to_string m"] by blast
    then show ?thesis using to_string_nonempty [of m] by auto
  qed
  show "format_score x = (if x < 0 then ''-'' else '''') @ number_field (Some \<bar>x\<bar>)"
    using sgn by (simp add: format_score_def number_field_def to_string_double_def Let_def)
qed

lemma strip_breaks_chars: "set (strip_breaks b s) \<subseteq> insert (CHR '' '') (set s - {CHR 0x0A, CHR 0x0D})"
  by (induction b s rule: strip_breaks.induct) auto

lemma strip_colon_chars: "set (strip_colon_tabs s) \<subseteq> insert (CHR '' '') (set s)"
  by (induction s rule: strip_colon_tabs.induct) auto

text \<open>A compact EXPLAIN block takes one line and a pretty one contains no tab.\<close>

theorem explain_text_clean:
  "CHR 0x0A \<notin> set (strip_newlines s) \<and> CHR 0x0D \<notin> set (strip_newlines s) \<and> CHR 0x09 \<notin> set (explain_string s)"
  using strip_colon_chars [of "strip_breaks False s"] strip_breaks_chars [of False s]
  by (auto simp: strip_newlines_def explain_string_def)

end
