(* ===== verification/Session.thy ===== *)
theory Session
  imports Show_Exec Renderer
begin

text \<open>
  \<open>session.cpp\<close>: the dispatch of a statement to its executor, the buffering overload, batches and
  the connection hint.  The version string and the help texts are constants of the build, the
  parser is generated: they are the fields of \<open>environment\<close>, as are the host and \<open>std::regex\<close>.
\<close>

section \<open>State\<close>

record 'h environment =
  env_host :: "'h host_ops"
  env_version :: string
  env_help :: "help_topic \<Rightarrow> string list"
  env_regex :: regex_lib

record session_config =
  cfg_region :: string
  cfg_endpoint :: string

record ('w, 'h) session =
  sn_config :: session_config
  sn_exec :: "('w, 'h) exec_state"

section \<open>Execution\<close>

definition emit_single :: "('w, 'h, exec_outcome) exec \<Rightarrow> ('w, 'h, unit) exec" where
  "emit_single m = bind_e m emit"

text \<open>Every statement but CONNECT; \<open>region\<close> is the session's.\<close>

fun dispatch :: "'h environment \<Rightarrow> 'w iddb_client \<Rightarrow> string \<Rightarrow> bool \<Rightarrow> command_node \<Rightarrow> ('w, 'h, unit) exec" where
  "dispatch env client region explain EmptyCmd = emit EmptyOutcome"
| "dispatch env client region explain ShowVersionCmd = emit (ReportOutcome [''ddbsh - version '' @ env_version env])"
| "dispatch env client region explain QuitCmd = emit (StatusOutcome ''QUIT'' [])"
| "dispatch env client region explain (HelpCmd topic) = emit (ReportOutcome (env_help env topic))"
| "dispatch env client region explain (ConnectCmd cmd) =
     bind_e (attempt (connect client (cn_region cmd) (cn_endpoint cmd))) (\<lambda>_. emit (StatusOutcome ''CONNECT'' []))"
| "dispatch env client region explain (SelectCmd cmd) =
     bind_e next_alias_prefix
       (\<lambda>prefix. emit_single (if explain then execute_select_explain client cmd prefix
          else execute_select (env_host env) client cmd prefix))"
| "dispatch env client region explain (DropTableCmd cmd) =
     emit_single (if explain then execute_drop_table_explain client cmd else execute_drop_table client cmd)"
| "dispatch env client region explain (InsertCmd cmd) =
     (if explain then emit_single (execute_insert_explain client cmd)
      else execute_insert_streaming (env_host env) client cmd)"
| "dispatch env client region explain (UpdateCmd cmd) = execute_update (env_host env) client cmd explain"
| "dispatch env client region explain (DeleteCmd cmd) = execute_delete (env_host env) client cmd explain"
| "dispatch env client region explain (TransactCmd acc rollback items) =
     execute_transact client acc rollback items explain"
| "dispatch env client region explain (CreateTableCmd cmd) =
     emit_single (if explain then execute_create_table_explain client cmd else execute_create_table client cmd)"
| "dispatch env client region explain (AlterTableCmd cmd) =
     emit_single (if explain then execute_alter_table_explain client cmd else execute_alter_table client cmd)"
| "dispatch env client region explain (AlterTtlCmd cmd) = emit_single (execute_alter_ttl client cmd explain)"
| "dispatch env client region explain (AlterPitrCmd cmd) = emit_single (execute_alter_pitr client cmd explain)"
| "dispatch env client region explain (AlterReplicaCmd cmd) = emit_single (execute_alter_replica client cmd explain)"
| "dispatch env client region explain (ShowTablesCmd cmd) = emit_single (execute_show_tables (env_regex env) client cmd)"
| "dispatch env client region explain (DescribeCmd t) =
     emit_single (if explain then execute_describe_explain client t else execute_describe client t)"
| "dispatch env client region explain (CreateBackupCmd cmd) = emit_single (execute_create_backup client cmd explain)"
| "dispatch env client region explain (DropBackupCmd arn) = emit_single (execute_drop_backup client arn explain)"
| "dispatch env client region explain (DescribeBackupCmd arn) = emit_single (execute_describe_backup client arn explain)"
| "dispatch env client region explain (RestoreCmd cmd) = emit_single (execute_restore client cmd explain)"
| "dispatch env client region explain (ShowBackupsCmd cmd) = emit_single (execute_show_backups client cmd)"
| "dispatch env client region explain ShowLimitsCmd = emit_single (execute_show_limits client region)"
| "dispatch env client region explain (ShowCreateTableCmd cmd) = emit_single (execute_show_create_table client cmd)"

fun configure :: "command_node \<Rightarrow> session_config \<Rightarrow> session_config" where
  "configure (ConnectCmd cmd) cfg = \<lparr>cfg_region = cn_region cmd, cfg_endpoint = cn_endpoint cmd\<rparr>"
| "configure _ cfg = cfg"

text \<open>The streaming overload: the fragments go to the sink of the state.\<close>

definition execute_stream ::
    "'h environment \<Rightarrow> 'w iddb_client \<Rightarrow> parsed_statement \<Rightarrow> ('w, 'h) session \<Rightarrow>
     (unit result \<times> ('w, 'h) session) option" where
  "execute_stream env client st sn =
     (let cfg = configure (ps_command st) (sn_config sn)
      in case dispatch env client (cfg_region cfg) (ps_explain st) (ps_command st) (sn_exec sn) of
           None \<Rightarrow> None
         | Some (r, s) \<Rightarrow> Some (r, \<lparr>sn_config = cfg, sn_exec = s\<rparr>))"

definition fold_parts :: "exec_outcome list \<Rightarrow> exec_outcome" where
  "fold_parts parts = (case parts of [] \<Rightarrow> EmptyOutcome | [p] \<Rightarrow> p | _ \<Rightarrow> MultiOutcome parts)"

text \<open>The buffering overload: its own sink, folded into one outcome; the caller's is untouched.\<close>

definition execute_buffered ::
    "'h environment \<Rightarrow> 'w iddb_client \<Rightarrow> parsed_statement \<Rightarrow> ('w, 'h) session \<Rightarrow>
     (exec_outcome result \<times> ('w, 'h) session) option" where
  "execute_buffered env client st sn =
     (case execute_stream env client st (sn\<lparr>sn_exec := (sn_exec sn)\<lparr>emitted := []\<rparr>\<rparr>) of
        None \<Rightarrow> None
      | Some (r, sn') \<Rightarrow>
          Some (case r of Inl e \<Rightarrow> Inl e | Inr _ \<Rightarrow> Inr (fold_parts (emitted (sn_exec sn'))),
            sn'\<lparr>sn_exec := (sn_exec sn')\<lparr>emitted := emitted (sn_exec sn)\<rparr>\<rparr>))"

definition connection_hint :: "('w, 'h) session \<Rightarrow> string \<times> bool" where
  "connection_hint sn = (cfg_region (sn_config sn), cfg_endpoint (sn_config sn) \<noteq> [])"

section \<open>Parsing\<close>

text \<open>The driver: its next step on a position in the text.\<close>

datatype 'd driver_step = Step_statement parsed_statement 'd | Step_error "error option" | Step_empty_at_eof

type_synonym 'd driver = "'d \<Rightarrow> 'd driver_step"

record parsed_batch =
  pb_statements :: "parsed_statement list"
  pb_error :: "error option"

definition default_parse_error :: error where
  "default_parse_error =
     \<lparr>err_code = parse_error, err_message = ''parse error'', service_error_name = None, request_id = None\<rparr>"

partial_function (option) parse_batch :: "'d driver \<Rightarrow> parsed_statement list \<Rightarrow> 'd \<Rightarrow> parsed_batch option" where
  "parse_batch driver stmts d =
     (case driver d of
        Step_error e \<Rightarrow> Some \<lparr>pb_statements = stmts, pb_error = Some (case e of Some x \<Rightarrow> x | None \<Rightarrow> default_parse_error)\<rparr>
      | Step_empty_at_eof \<Rightarrow> Some \<lparr>pb_statements = stmts, pb_error = None\<rparr>
      | Step_statement st d' \<Rightarrow> parse_batch driver (stmts @ [st]) d')"


section \<open>Concrete sessions\<close>

text \<open>A session on the sample memory, and the environment it runs in.\<close>

definition sample_env :: "real environment" where
  "sample_env = \<lparr>env_host = default_host, env_version = ''2.0'', env_help = (\<lambda>_. []),
     env_regex = (\<lambda>_. Inr (\<lambda>_. True))\<rparr>"

definition sample_session :: "(memory, real) session" where
  "sample_session = \<lparr>sn_config = \<lparr>cfg_region = ''us-east-1'', cfg_endpoint = []\<rparr>, sn_exec = sample_state\<rparr>"

definition sample_show :: parsed_statement where
  "sample_show = \<lparr>ps_command = ShowTablesCmd \<lparr>sh_brief = True, sh_like = ''''\<rparr>, ps_explain = False\<rparr>"

end
