(* ===== verification/Session_Props.thy ===== *)
theory Session_Props
  imports Session
begin

text \<open>
  What a session guarantees over all statements: the contracts of the client carried through every
  executor, and the agreement of the buffering and the streaming overload.
\<close>

section \<open>Steps that keep an invariant\<close>

lemma keeps_case_option [intro]:
  "keeps P m \<Longrightarrow> (\<And>x. keeps P (k x)) \<Longrightarrow> keeps P (case r of None \<Rightarrow> m | Some x \<Rightarrow> k x)"
  by (simp split: option.split)

lemma keeps_case_sum [intro]:
  "(\<And>e. keeps P (m e)) \<Longrightarrow> (\<And>x. keeps P (k x)) \<Longrightarrow> keeps P (case r of Inl e \<Rightarrow> m e | Inr x \<Rightarrow> k x)"
  by (simp split: sum.split)

lemma keeps_Let [intro]: "(\<And>x. keeps P (k x)) \<Longrightarrow> keeps P (let x = e in k x)"
  by simp

lemma keeps_try [intro]: "keeps P m \<Longrightarrow> keeps P (try_e m)"
  by (auto simp: keeps_def try_e_def split: option.splits prod.splits)

lemma keeps_status [simp, intro]: "keeps P (status token)"
  by (simp add: status_def)

lemma world_keeps_emit_single [intro]: "world_keeps P m \<Longrightarrow> world_keeps P (emit_single m)"
  unfolding emit_single_def by (intro keeps_bind world_keeps_local)

lemmas step_intros = keeps_bind keeps_if keeps_case_option keeps_case_sum keeps_Let keeps_try keeps_return keeps_lift
  keeps_status world_keeps_local world_keeps_call world_keeps_attempt world_keeps_emit_single

lemma put_request_world_keeps: "world_keeps P (make_put_request cmd row pk)"
  by (simp add: keeps_def make_put_request_apply)

lemma transact_puts_loop_keeps: "world_keeps P (transact_puts_loop cmd pk rows puts)"
  by (induction rows arbitrary: puts) (auto intro!: keeps_bind put_request_world_keeps)

lemma build_items_keeps:
  assumes "\<And>item b. builder item = Some b \<Longrightarrow> world_keeps P b"
  shows "world_keeps P (build_items builder items tx)"
proof (induction items arbitrary: tx)
  case (Cons item items)
  show ?case
  proof (cases "builder item")
    case (Some b)
    then show ?thesis using Cons assms [OF Some] by (simp add: add_built_def) (intro step_intros)
  qed (simp add: Cons)
qed simp

context describe_invariant
begin

lemma read_builder_keeps: "read_builder client item = Some b \<Longrightarrow> world_keeps P b"
  by (cases item)
    (auto simp: map_e_def build_transact_get_def intro!: keeps_bind get_key_schema_keeps keeps_case_option)

lemma write_builder_keeps: "write_builder client item = Some b \<Longrightarrow> world_keeps P b"
  by (cases item)
    (auto simp: builder_defs intro!: keeps_bind get_key_schema_keeps keeps_case_option transact_puts_loop_keeps)

lemma finish_txn_keeps:
  assumes "\<And>xs w. explain \<or> P (snd (send xs w)) \<or> \<not> P w"
  shows "world_keeps P (finish_txn client explain api request send outcome tx)"
proof -
  have "world_keeps P (explain_batch client api r)" for r
    unfolding explain_batch_def by (intro step_intros explain_kept)
  then show ?thesis
    unfolding finish_txn_def using assms by (intro step_intros) auto
qed

lemma explain_one_keeps: "world_keeps P (explain_one client api r)"
  unfolding explain_one_def by (intro step_intros explain_kept)

lemma table_exists_keeps: "world_keeps P (table_exists client t)"
  unfolding table_exists_def by (intro step_intros describe_kept)

lemma explain_specs_keeps: "world_keeps P (explain_specs client specs blocks)"
proof (induction specs arbitrary: blocks)
  case (Cons spec specs)
  then show ?case by (cases spec) (auto intro!: keeps_bind world_keeps_call explain_kept)
qed simp

lemma limits_loop_keeps: "world_keeps P (limits_loop client names lt)"
  by (induction names arbitrary: lt) (auto intro!: keeps_bind world_keeps_attempt describe_kept)

lemma transact_explain_keeps: "world_keeps P (execute_transact client acc rollback items True)"
  unfolding execute_transact_def execute_transact_read_def execute_transact_write_def
  by (cases acc)
    (auto intro!: keeps_bind build_items_keeps read_builder_keeps write_builder_keeps finish_txn_keeps)

lemma ddl_explain_keeps:
  "world_keeps P (execute_create_table_explain client c)" "world_keeps P (execute_drop_table_explain client d)"
  "world_keeps P (execute_alter_table_explain client a)"
proof -
  show "world_keeps P (execute_create_table_explain client c)"
    unfolding execute_create_table_explain_def by (intro step_intros explain_kept table_exists_keeps)
  show "world_keeps P (execute_drop_table_explain client d)"
    unfolding execute_drop_table_explain_def by (intro step_intros explain_one_keeps table_exists_keeps)
  show "world_keeps P (execute_alter_table_explain client a)"
    unfolding execute_alter_table_explain_def by (intro step_intros explain_one_keeps)
qed

end

section \<open>Statements that only read\<close>

text \<open>Every reading operation of the client keeps \<open>P\<close>.\<close>

locale report_invariant = read_invariant +
  assumes ttl_kept: "P w \<Longrightarrow> P (snd (describe_time_to_live client t w))"
    and pitr_kept: "P w \<Longrightarrow> P (snd (describe_continuous_backups client t w))"
    and scaling_kept: "P w \<Longrightarrow> P (snd (describe_table_replica_auto_scaling client t w))"
    and tables_kept: "P w \<Longrightarrow> P (snd (list_tables client w))"
    and backups_kept: "P w \<Longrightarrow> P (snd (list_backups client br w))"
    and limits_kept: "P w \<Longrightarrow> P (snd (describe_limits client w))"
    and backup_kept: "P w \<Longrightarrow> P (snd (describe_backup client arn w))"
    and transact_get_kept: "P w \<Longrightarrow> P (snd (transact_get_items client gs w))"

text \<open>The statements that read: SELECT, SHOW, DESCRIBE, HELP and the like, read transactions, and
  everything that is explained; CONNECT is neither.\<close>

fun reads_only :: "bool \<Rightarrow> command_node \<Rightarrow> bool" where
  "reads_only explain (ConnectCmd _) = False"
| "reads_only explain (InsertCmd _) = explain"
| "reads_only explain (UpdateCmd _) = explain"
| "reads_only explain (DeleteCmd _) = explain"
| "reads_only explain (CreateTableCmd _) = explain"
| "reads_only explain (DropTableCmd _) = explain"
| "reads_only explain (AlterTableCmd _) = explain"
| "reads_only explain (AlterTtlCmd _) = explain"
| "reads_only explain (AlterPitrCmd _) = explain"
| "reads_only explain (AlterReplicaCmd _) = explain"
| "reads_only explain (CreateBackupCmd _) = explain"
| "reads_only explain (DropBackupCmd _) = explain"
| "reads_only explain (RestoreCmd _) = explain"
| "reads_only explain (TransactCmd acc _ _) \<longleftrightarrow> explain \<or> acc = Access_read"
| "reads_only explain _ = True"

context report_invariant
begin

lemma table_line_keeps: "world_keeps P (table_line client brief name)"
  unfolding table_line_def by (intro step_intros describe_kept ttl_kept)

lemma show_tables_loop_keeps: "world_keeps P (show_tables_loop client brief matcher names out)"
  by (induction names arbitrary: out) (auto intro!: keeps_bind table_line_keeps)

lemma show_tables_keeps: "world_keeps P (execute_show_tables regex client cmd)"
  unfolding execute_show_tables_def by (intro step_intros tables_kept show_tables_loop_keeps)

lemma describe_keeps: "world_keeps P (execute_describe client t)"
  unfolding execute_describe_def by (intro step_intros describe_kept ttl_kept pitr_kept scaling_kept)

lemma describe_explain_keeps: "world_keeps P (execute_describe_explain client t)"
  unfolding execute_describe_explain_def by (intro step_intros explain_specs_keeps)

lemma show_create_keeps: "world_keeps P (execute_show_create_table client cmd)"
  unfolding execute_show_create_table_def by (intro step_intros describe_kept ttl_kept)

lemma show_limits_keeps: "world_keeps P (execute_show_limits client region)"
  unfolding execute_show_limits_def by (intro step_intros limits_kept tables_kept limits_loop_keeps)

lemma backup_pages_keep: "backup_pages client cmd start w rows err w' \<Longrightarrow> P w \<Longrightarrow> P w'"
  by (induction rule: backup_pages.induct) (metis backups_kept snd_conv)+

lemma show_backups_keeps: "world_keeps P (execute_show_backups client cmd)"
proof -
  have "world_keeps P (show_backups_loop client cmd None out)" for out
    unfolding keeps_def using show_backups_sound backup_pages_keep by fastforce
  then show ?thesis unfolding execute_show_backups_def by (intro step_intros)
qed

lemma explained_backup_keeps:
  "world_keeps P (execute_create_backup client c True)" "world_keeps P (execute_drop_backup client arn True)"
  "world_keeps P (execute_restore client r True)" "world_keeps P (execute_alter_pitr client p True)"
  "world_keeps P (execute_alter_replica client a True)"
  unfolding execute_create_backup_def execute_drop_backup_def execute_restore_def execute_alter_pitr_def
    execute_alter_replica_def
  by (auto intro: explain_one_keeps split: restore_kind.split)

lemma explained_ttl_keeps: "world_keeps P (execute_alter_ttl client cmd True)"
  unfolding execute_alter_ttl_def by (intro step_intros ttl_kept explain_one_keeps) auto

lemma describe_backup_keeps: "world_keeps P (execute_describe_backup client arn explain)"
  unfolding execute_describe_backup_def by (intro step_intros backup_kept explain_one_keeps)

lemma transact_read_keeps: "world_keeps P (execute_transact client Access_read rollback items explain)"
  unfolding execute_transact_def execute_transact_read_def
  by (auto intro!: keeps_bind build_items_keeps read_builder_keeps finish_txn_keeps transact_get_kept)

lemma dispatch_reads_keep:
  assumes "reads_only explain cmd"
  shows "world_keeps P (dispatch env client region explain cmd)"
proof (cases cmd)
  case (TransactCmd acc rollback items)
  then show ?thesis using assms transact_read_keeps transact_explain_keeps by (cases explain) auto
qed (use assms in \<open>auto intro!: keeps_bind world_keeps_emit_single execute_select_keeps execute_select_explain_keeps
    ddl_explain_keeps insert_explain_keeps update_explain_keeps delete_explain_keeps explained_backup_keeps
    explained_ttl_keeps describe_backup_keeps show_tables_keeps describe_keeps describe_explain_keeps
    show_create_keeps show_limits_keeps show_backups_keeps\<close>)

end

section \<open>All statements\<close>

text \<open>Every operation of the client keeps \<open>P\<close>.\<close>

locale client_invariant = report_invariant + write_invariant +
  assumes create_kept: "P w \<Longrightarrow> P (snd (create_table client cr w))"
    and drop_kept: "P w \<Longrightarrow> P (snd (delete_table client t w))"
    and alter_kept: "P w \<Longrightarrow> P (snd (update_table client ur' w))"
    and ttl_update_kept: "P w \<Longrightarrow> P (snd (update_time_to_live client tr w))"
    and pitr_update_kept: "P w \<Longrightarrow> P (snd (update_continuous_backups client pr' w))"
    and create_backup_kept: "P w \<Longrightarrow> P (snd (create_backup client cb w))"
    and delete_backup_kept: "P w \<Longrightarrow> P (snd (delete_backup client arn w))"
    and restore_kept: "P w \<Longrightarrow> P (snd (restore_table_from_backup client rb w))"
    and restore_pitr_kept: "P w \<Longrightarrow> P (snd (restore_table_to_point_in_time client rp w))"
    and transact_write_kept: "P w \<Longrightarrow> P (snd (transact_write_items client xs w))"
    and active_kept: "P w \<Longrightarrow> P (snd (wait_for_table_active client t w))"
    and gone_kept: "P w \<Longrightarrow> P (snd (wait_for_table_gone client t w))"
    and connect_kept: "P w \<Longrightarrow> P (snd (connect client region endpoint w))"
begin

lemma create_table_keeps: "world_keeps P (execute_create_table client cmd)"
  unfolding execute_create_table_def by (intro step_intros create_kept active_kept table_exists_keeps)

lemma drop_table_keeps: "world_keeps P (execute_drop_table client cmd)"
  unfolding execute_drop_table_def by (intro step_intros drop_kept gone_kept table_exists_keeps)

lemma alter_table_keeps: "world_keeps P (execute_alter_table client cmd)"
  unfolding execute_alter_table_def by (intro step_intros alter_kept)

lemma alter_ttl_keeps: "world_keeps P (execute_alter_ttl client cmd explain)"
  unfolding execute_alter_ttl_def by (intro step_intros ttl_kept ttl_update_kept explain_one_keeps)

lemma alter_pitr_keeps: "world_keeps P (execute_alter_pitr client cmd explain)"
  unfolding execute_alter_pitr_def by (intro step_intros pitr_update_kept explain_one_keeps)

lemma alter_replica_keeps: "world_keeps P (execute_alter_replica client cmd explain)"
  unfolding execute_alter_replica_def by (intro step_intros alter_kept explain_one_keeps)

lemma backup_keeps:
  "world_keeps P (execute_create_backup client c explain)" "world_keeps P (execute_drop_backup client arn explain)"
proof -
  show "world_keeps P (execute_create_backup client c explain)"
    unfolding execute_create_backup_def by (intro step_intros create_backup_kept explain_one_keeps)
  show "world_keeps P (execute_drop_backup client arn explain)"
    unfolding execute_drop_backup_def by (intro step_intros delete_backup_kept explain_one_keeps)
qed

lemma restore_keeps: "world_keeps P (execute_restore client cmd explain)"
proof (cases "re_kind cmd")
  case From_backup
  then show ?thesis unfolding execute_restore_def restore_kind.case
    by simp (intro step_intros restore_kept explain_one_keeps)
next
  case To_pitr
  then show ?thesis unfolding execute_restore_def
    by simp (intro step_intros restore_pitr_kept explain_one_keeps)
qed

lemma transact_keeps: "world_keeps P (execute_transact client acc rollback items explain)"
  unfolding execute_transact_def execute_transact_read_def execute_transact_write_def
  by (cases acc)
    (auto intro!: keeps_bind build_items_keeps read_builder_keeps write_builder_keeps finish_txn_keeps
      transact_get_kept transact_write_kept)

lemma dispatch_keeps: "world_keeps P (dispatch env client region explain cmd)"
proof (cases "reads_only explain cmd")
  case True
  then show ?thesis by (rule dispatch_reads_keep)
next
  case False
  then show ?thesis
    by (cases cmd)
      (auto intro!: keeps_bind world_keeps_emit_single world_keeps_attempt connect_kept execute_insert_keeps
        execute_update_keeps execute_delete_keeps create_table_keeps drop_table_keeps alter_table_keeps alter_ttl_keeps
        alter_pitr_keeps alter_replica_keeps backup_keeps restore_keeps transact_keeps)
qed

end

section \<open>The in-memory client meets the contracts\<close>

lemma memory_reads_simps [simp]:
  "snd (describe_time_to_live memory_client t m) = m" "snd (describe_continuous_backups memory_client t m) = m"
  "snd (describe_table_replica_auto_scaling memory_client t m) = m" "snd (list_backups memory_client br m) = m"
  "snd (describe_limits memory_client m) = m" "snd (describe_backup memory_client arn m) = m"
  "snd (transact_get_items memory_client gs m) = m" "snd (update_table memory_client u m) = m"
  "snd (update_time_to_live memory_client tr m) = m" "snd (update_continuous_backups memory_client pr m) = m"
  "snd (create_backup memory_client cb m) = m" "snd (delete_backup memory_client arn m) = m"
  "snd (restore_table_from_backup memory_client rb m) = m"
  "snd (restore_table_to_point_in_time memory_client rp m) = m" "snd (transact_write_items memory_client xs m) = m"
  "snd (connect memory_client region endpoint m) = m"
  by (simp_all add: memory_client_def not_impl_def default_connect_def)

interpretation memory_reports: report_invariant memory_client "\<lambda>m. m = m0" for m0
  by unfold_locales (simp_all add: m_list_tables_def)

interpretation memory_session: client_invariant memory_client mem_ok
  by unfold_locales (simp_all add: m_list_tables_def mem_ok_create mem_ok_drop)

text \<open>C26: No statement that only reads changes a table of the in-memory client, whether it succeeds or
  not: SELECT, SHOW, DESCRIBE, HELP, a read transaction, and EXPLAIN of any statement.\<close>

theorem read_statements_change_nothing:
  assumes "reads_only (ps_explain st) (ps_command st)" and "execute_stream env memory_client st sn = Some (r, sn')"
  shows "world (sn_exec sn') = world (sn_exec sn)"
proof -
  obtain s where "dispatch env memory_client (cfg_region (configure (ps_command st) (sn_config sn))) (ps_explain st)
      (ps_command st) (sn_exec sn) = Some (r, s)" "sn_exec sn' = s"
    using assms(2) by (auto simp: execute_stream_def Let_def split: option.splits prod.splits)
  then show ?thesis
    using keepsD [OF memory_reports.dispatch_reads_keep [OF assms(1)], of "sn_exec sn" "world (sn_exec sn)"] by blast
qed

text \<open>The sessions a sequence of statements leads to; each may succeed or fail.\<close>

inductive session_run ::
    "'h environment \<Rightarrow> 'w iddb_client \<Rightarrow> ('w, 'h) session \<Rightarrow> parsed_statement list \<Rightarrow> ('w, 'h) session \<Rightarrow> bool"
  for env :: "'h environment" and client :: "'w iddb_client" where
  no_statement: "session_run env client sn [] sn"
| next_statement: "session_run env client sn (st # sts) sn''"
    if "execute_stream env client st sn = Some (r, sn')" and "session_run env client sn' sts sn''"

text \<open>C14: Whatever statements a session runs on the in-memory client, in whatever order and with
  whatever results, its tables stay in order.\<close>

theorem session_keeps_memory_ok:
  assumes "session_run env memory_client sn sts sn'" and "mem_ok (world (sn_exec sn))"
  shows "mem_ok (world (sn_exec sn'))"
  using assms
proof (induction rule: session_run.induct)
  case (next_statement st sn r sn' sts sn'')
  then obtain s where "dispatch env memory_client (cfg_region (configure (ps_command st) (sn_config sn))) (ps_explain st)
      (ps_command st) (sn_exec sn) = Some (r, s)" "sn_exec sn' = s"
    by (auto simp: execute_stream_def Let_def split: option.splits prod.splits)
  then have "mem_ok (world (sn_exec sn'))"
    using keepsD [OF memory_session.dispatch_keeps, of "sn_exec sn"] next_statement.prems by blast
  then show ?case by (rule next_statement.IH)
qed


lemma sample_show_runs:
  "execute_stream sample_env memory_client sample_show sample_session =
     Some (Inr (), sample_session\<lparr>sn_exec := sample_state\<lparr>emitted := [ReportOutcome (map fst sample_memory)]\<rparr>\<rparr>)"
  by (simp add: execute_stream_def sample_show_def sample_session_def sample_env_def emit_single_def
      execute_show_tables_def compile_like_def sample_state_def sample_memory_def m_list_tables_def table_line_def
      exec_simps)

theorem read_statements_change_nothing_witness:
  "\<exists>sn'. execute_stream sample_env memory_client sample_show sample_session = Some (Inr (), sn') \<and>
     emitted (sn_exec sn') = [ReportOutcome (map fst sample_memory)] \<and> world (sn_exec sn') = sample_memory"
proof -
  let ?sn = "sample_session\<lparr>sn_exec := sample_state\<lparr>emitted := [ReportOutcome (map fst sample_memory)]\<rparr>\<rparr>"
  have "world (sn_exec ?sn) = world (sn_exec sample_session)"
    by (rule read_statements_change_nothing [OF _ sample_show_runs]) (simp add: sample_show_def)
  then show ?thesis using sample_show_runs by (simp add: sample_session_def sample_state_def)
qed

theorem session_keeps_memory_ok_witness:
  "\<exists>sn'. session_run sample_env memory_client sample_session [sample_show] sn' \<and>
     mem_ok (world (sn_exec sample_session)) \<and> mem_ok (world (sn_exec sn'))"
proof -
  have ok: "mem_ok (world (sn_exec sample_session))"
    by (simp add: sample_session_def sample_state_def sample_memory_def mem_ok_def table_ok_def)
  have run: "session_run sample_env memory_client sample_session [sample_show]
      (sample_session\<lparr>sn_exec := sample_state\<lparr>emitted := [ReportOutcome (map fst sample_memory)]\<rparr>\<rparr>)"
    by (rule session_run.next_statement [OF sample_show_runs session_run.no_statement])
  show ?thesis using ok run session_keeps_memory_ok [OF run ok] by blast
qed

end
