(* ===== verification/Session_Buffer.thy ===== *)
theory Session_Buffer
  imports Session_Props
begin

text \<open>
  The two overloads of \<open>Session::execute\<close>: the buffering one is the streaming one with a sink of
  its own.  No executor looks at what has been emitted before it, so a run from one sink and a run
  from another do the same and emit the same, and fail to return together.
\<close>

section \<open>Steps that do not look at the sink\<close>

text \<open>
  A run of \<open>m\<close> from a sink that starts with \<open>a\<close> is followed by \<open>m'\<close> from the same state with
  \<open>b\<close> in place of \<open>a\<close>.
\<close>

definition tracks :: "('w, 'h, 'a) exec \<Rightarrow> ('w, 'h, 'a) exec \<Rightarrow> bool" where
  "tracks m m' \<longleftrightarrow>
     (\<forall>a b x s r t. emitted s = a @ x \<longrightarrow> m s = Some (r, t) \<longrightarrow>
        (\<exists>y. emitted t = a @ y \<and> m' (s\<lparr>emitted := b @ x\<rparr>) = Some (r, t\<lparr>emitted := b @ y\<rparr>)))"

abbreviation steady :: "('w, 'h, 'a) exec \<Rightarrow> bool" where
  "steady m \<equiv> tracks m m"

lemma tracksI:
  "(\<And>a b x s r t. emitted s = a @ x \<Longrightarrow> m s = Some (r, t) \<Longrightarrow>
      \<exists>y. emitted t = a @ y \<and> m' (s\<lparr>emitted := b @ x\<rparr>) = Some (r, t\<lparr>emitted := b @ y\<rparr>)) \<Longrightarrow> tracks m m'"
  by (auto simp: tracks_def)

lemma tracksD:
  "tracks m m' \<Longrightarrow> emitted s = a @ x \<Longrightarrow> m s = Some (r, t) \<Longrightarrow>
     \<exists>y. emitted t = a @ y \<and> m' (s\<lparr>emitted := b @ x\<rparr>) = Some (r, t\<lparr>emitted := b @ y\<rparr>)"
  by (auto simp: tracks_def)

lemma steady_return [simp]: "steady (return_e x)" "steady (throw_e e)"
  by (auto simp: tracks_def return_e_def throw_e_def)

lemma steady_lift [simp]: "steady (lift_e r)"
  by (cases r) simp_all

lemma steady_attempt [simp]: "steady (attempt op)"
  by (auto simp: tracks_def attempt_def split: prod.splits)

lemma steady_local [simp]: "steady (emit f)" "steady next_alias_prefix" "steady (on_host g)"
  by (auto simp: tracks_def emit_def next_alias_prefix_def on_host_def split: option.splits)

lemma tracks_bind:
  assumes "tracks m m'" and k: "\<And>x. tracks (k x) (k' x)"
  shows "tracks (bind_e m k) (bind_e m' k')"
proof (rule tracksI)
  fix a b x s r t
  assume s: "emitted s = a @ x" and "bind_e m k s = Some (r, t)"
  then consider (err) e where "m s = Some (Inl e, t)" "r = Inl e"
    | (ok) v u where "m s = Some (Inr v, u)" "k v u = Some (r, t)"
    by (auto simp: bind_Some_iff)
  then show "\<exists>y. emitted t = a @ y \<and> bind_e m' k' (s\<lparr>emitted := b @ x\<rparr>) = Some (r, t\<lparr>emitted := b @ y\<rparr>)"
  proof cases
    case err
    then show ?thesis using tracksD [OF assms(1) s err(1), of b] by (auto simp: bind_Some_iff)
  next
    case ok
    obtain z where z: "emitted u = a @ z" "m' (s\<lparr>emitted := b @ x\<rparr>) = Some (Inr v, u\<lparr>emitted := b @ z\<rparr>)"
      using tracksD [OF assms(1) s ok(1), of b] by blast
    show ?thesis using tracksD [OF k z(1) ok(2), of b] z(2) by (auto simp: bind_Some_iff)
  qed
qed

lemma steady_call [simp]: "steady (call op)"
  unfolding call_def by (rule tracks_bind) simp_all

lemma tracks_if: "(c \<Longrightarrow> tracks m m') \<Longrightarrow> (\<not> c \<Longrightarrow> tracks n n') \<Longrightarrow> tracks (if c then m else n) (if c then m' else n')"
  by simp

lemma tracks_if_applied:
  "(c \<Longrightarrow> tracks m m') \<Longrightarrow> (\<not> c \<Longrightarrow> tracks n n') \<Longrightarrow>
     tracks (\<lambda>s. if c then m s else n s) (\<lambda>s. if c then m' s else n' s)"
  by (cases c) simp_all

lemma tracks_case_option:
  "tracks m m' \<Longrightarrow> (\<And>x. tracks (k x) (k' x)) \<Longrightarrow>
     tracks (case r of None \<Rightarrow> m | Some x \<Rightarrow> k x) (case r of None \<Rightarrow> m' | Some x \<Rightarrow> k' x)"
  by (simp split: option.split)

lemma tracks_case_sum:
  "(\<And>e. tracks (m e) (m' e)) \<Longrightarrow> (\<And>x. tracks (k x) (k' x)) \<Longrightarrow>
     tracks (case r of Inl e \<Rightarrow> m e | Inr x \<Rightarrow> k x) (case r of Inl e \<Rightarrow> m' e | Inr x \<Rightarrow> k' x)"
  by (simp split: sum.split)

lemma tracks_case_prod: "(\<And>x y. tracks (k x y) (k' x y)) \<Longrightarrow> tracks (case p of (x, y) \<Rightarrow> k x y) (case p of (x, y) \<Rightarrow> k' x y)"
  by (simp split: prod.split)

lemma tracks_Let: "(\<And>x. tracks (k x) (k' x)) \<Longrightarrow> tracks (let x = e in k x) (let x = e in k' x)"
  by simp

lemma steady_try: "steady m \<Longrightarrow> steady (try_e m)"
proof (rule tracksI)
  fix a b x s r t
  assume m: "steady m" and s: "emitted s = a @ x" and "try_e m s = Some (r, t)"
  then obtain q where "m s = Some (q, t)" "r = Inr q" by (auto simp: try_e_def split: option.splits prod.splits)
  then show "\<exists>y. emitted t = a @ y \<and> try_e m (s\<lparr>emitted := b @ x\<rparr>) = Some (r, t\<lparr>emitted := b @ y\<rparr>)"
    using tracksD [OF m s, of q t b] by (auto simp: try_e_def)
qed

lemma steady_emit_single: "steady m \<Longrightarrow> steady (emit_single m)"
  unfolding emit_single_def by (rule tracks_bind) simp_all

lemma steady_status: "steady (status token)"
  by (simp add: status_def)

lemmas track_intros = tracks_bind tracks_if tracks_case_option tracks_case_sum tracks_case_prod tracks_Let steady_try
  steady_emit_single steady_status steady_return steady_lift steady_attempt steady_local steady_call

text \<open>A steady step gives the same result from every sink, and returns from all of them or none.\<close>

lemma steady_rebase:
  assumes "steady m" and "emitted s = a @ x"
  shows "m s = (case m (s\<lparr>emitted := b @ x\<rparr>) of None \<Rightarrow> None
     | Some (r, t) \<Rightarrow> Some (r, t\<lparr>emitted := a @ drop (length b) (emitted t)\<rparr>))"
proof (cases "m (s\<lparr>emitted := b @ x\<rparr>)")
  case None
  have "m s = Some (r, t) \<Longrightarrow> False" for r t using tracksD [OF assms, of r t b] None by auto
  then show ?thesis using None by (cases "m s") auto
next
  case (Some q)
  then obtain r t where q: "m (s\<lparr>emitted := b @ x\<rparr>) = Some (r, t)" by (cases q) auto
  have "s\<lparr>emitted := a @ x\<rparr> = s" using assms(2) by simp
  then show ?thesis using tracksD [OF assms(1) _ q, of b x a] q by auto
qed


section \<open>The loops\<close>

text \<open>\<open>m\<close> does from the other sink what gave \<open>rt\<close> from \<open>s\<close>.\<close>

definition follows :: "('w, 'h, 'a) exec \<Rightarrow> ('w, 'h) exec_state \<Rightarrow> 'a result \<times> ('w, 'h) exec_state \<Rightarrow> bool" where
  "follows m s rt \<longleftrightarrow>
     (\<forall>a b x. emitted s = a @ x \<longrightarrow>
        (\<exists>y. emitted (snd rt) = a @ y \<and> m (s\<lparr>emitted := b @ x\<rparr>) = Some (fst rt, (snd rt)\<lparr>emitted := b @ y\<rparr>)))"

lemma tracks_follows: "tracks m m' \<longleftrightarrow> (\<forall>s rt. m s = Some rt \<longrightarrow> follows m' s rt)"
  by (auto simp: tracks_def follows_def)

lemma followsI: "tracks m m' \<Longrightarrow> m s = Some rt \<Longrightarrow> follows m' s rt"
  by (cases rt) (simp add: tracks_follows)

lemma tracksI_follows: "(\<And>s rt. m s = Some rt \<Longrightarrow> follows m' s rt) \<Longrightarrow> tracks m m'"
  by (simp add: tracks_follows)

lemma steady_limiter: "steady (lim_make ops rl)" "steady (lim_wait limit ops lmt)"
  unfolding lim_make_def lim_wait_def by (intro track_intros)+

lemma steady_page_loop:
  fixes ops :: "'h host_ops" and fetch :: "value_map option \<Rightarrow> ('w, page_out) client_call"
  shows "steady (page_loop ops fetch start items tz lmt)"
proof (rule tracksI_follows)
  let ?Q = "\<lambda>ops fetch start items tz lmt s rt. follows (page_loop ops fetch start items tz lmt) s rt"
  fix s rt
  assume run: "page_loop ops fetch start items tz lmt s = Some rt"
  show "?Q ops fetch start items tz lmt s rt"
  proof (rule page_loop.raw_induct [where P = ?Q, OF _ run])
    fix rec and ops :: "'h host_ops" and fetch :: "value_map option \<Rightarrow> ('w, page_out) client_call"
      and start items tz lmt s rt
    assume IH: "\<And>(ops :: 'h host_ops) (fetch :: value_map option \<Rightarrow> ('w, page_out) client_call) start items tz lmt s rt. rec ops fetch start items tz lmt s = Some rt \<Longrightarrow>
        ?Q ops fetch start items tz lmt s rt"
    note rec = tracksI_follows [OF IH]
    let ?body = "\<lambda>rec. bind_e (call (fetch start))
       (\<lambda>out s. let items' = items @ po_items out;
                   tz' = totalizer_add tz (po_consumed_capacity out);
                   lmt' = map_option (consume_reads (po_consumed_capacity out)) lmt
         in if po_last_evaluated_key out = None \<or> po_last_evaluated_key out = Some []
            then return_e (items', tz') s
            else bind_e (lim_wait readlimit ops lmt')
              (\<lambda>lmt'' s. rec ops fetch (po_last_evaluated_key out) items' tz' lmt'' s) s)"
    assume step: "?body rec s = Some rt"
    have "tracks (?body rec) (?body page_loop)"
      unfolding Let_def by (intro tracks_bind tracks_if_applied rec steady_limiter steady_call steady_return)
    then have "follows (?body page_loop) s rt" using step by (rule followsI)
    then show "?Q ops fetch start items tz lmt s rt"
      by (subst page_loop.simps [abs_def]) (simp add: follows_def)
  qed
qed


lemma steady_write_one: "steady (write_one ops wr want_rv acct lmt)"
  unfolding write_one_def by (intro track_intros steady_limiter)

lemma steady_bulk_items: "steady (bulk_items ops wr want_rv items acct lmt)"
proof (induction items arbitrary: acct lmt)
  case (Cons item items)
  show ?case unfolding bulk_items.simps by (intro track_intros steady_write_one Cons.IH)
qed simp

lemma steady_bulk_pages:
  fixes ops :: "'h host_ops" and fetch :: "value_map option \<Rightarrow> ('w, page_out) client_call"
  shows "steady (bulk_pages ops fetch wr want_rv start acct lmt)"
proof (rule tracksI_follows)
  let ?Q = "\<lambda>ops fetch wr want_rv start acct lmt s rt. follows (bulk_pages ops fetch wr want_rv start acct lmt) s rt"
  fix s rt
  assume run: "bulk_pages ops fetch wr want_rv start acct lmt s = Some rt"
  show "?Q ops fetch wr want_rv start acct lmt s rt"
  proof (rule bulk_pages.raw_induct [where P = ?Q, OF _ run])
    fix rec and ops :: "'h host_ops" and fetch :: "value_map option \<Rightarrow> ('w, page_out) client_call"
      and wr want_rv start acct lmt s rt
    assume IH: "\<And>(ops :: 'h host_ops) (fetch :: value_map option \<Rightarrow> ('w, page_out) client_call)
        wr want_rv start acct lmt s rt.
        rec ops fetch wr want_rv start acct lmt s = Some rt \<Longrightarrow> ?Q ops fetch wr want_rv start acct lmt s rt"
    note rec = tracksI_follows [OF IH]
    let ?body = "\<lambda>rec. bind_e (call (fetch start))
       (\<lambda>out. bind_e (bulk_items ops wr want_rv (po_items out) acct
                (map_option (consume_reads (po_consumed_capacity out)) lmt))
          (\<lambda>al s. if po_last_evaluated_key out = None \<or> po_last_evaluated_key out = Some []
             then return_e (fst al) s
             else bind_e (lim_wait readlimit ops (snd al))
               (\<lambda>lmt' s. rec ops fetch wr want_rv (po_last_evaluated_key out) (fst al) lmt' s) s))"
    assume step: "?body rec s = Some rt"
    have "tracks (?body rec) (?body bulk_pages)"
      by (intro tracks_bind tracks_if_applied rec steady_limiter steady_call steady_return steady_bulk_items)
    then have "follows (?body bulk_pages) s rt" using step by (rule followsI)
    then show "?Q ops fetch wr want_rv start acct lmt s rt"
      by (subst bulk_pages.simps [abs_def]) (simp add: follows_def)
  qed
qed

lemma steady_explain_items: "steady (explain_items client api req items blocks)"
proof (induction items arbitrary: blocks)
  case (Cons item items)
  show ?case unfolding explain_items.simps by (intro track_intros Cons.IH)
qed simp

lemma steady_announce: "steady (announce_read client announce plan start blocks)"
  unfolding announce_read_def by (intro track_intros)

lemma steady_explain_pages:
  fixes client :: "'w iddb_client"
  shows "steady (explain_pages client announce plan api req start blocks :: ('w, 'h, _) exec)"
proof (rule tracksI_follows)
  let ?Q = "\<lambda>client announce plan api req start blocks s rt.
    follows (explain_pages client announce plan api req start blocks) s rt"
  fix s :: "('w, 'h) exec_state" and rt
  assume run: "explain_pages client announce plan api req start blocks s = Some rt"
  show "?Q client announce plan api req start blocks s rt"
  proof (rule explain_pages.raw_induct [where P = ?Q, OF _ run])
    fix rec and client :: "'w iddb_client" and announce plan api req start blocks
      and s :: "('w, 'h) exec_state" and rt
    assume IH: "\<And>(client :: 'w iddb_client) announce plan api req start blocks (s :: ('w, 'h) exec_state) rt.
        rec client announce plan api req start blocks s = Some rt \<Longrightarrow>
        ?Q client announce plan api req start blocks s rt"
    note rec = tracksI_follows [OF IH]
    let ?body = "\<lambda>rec. bind_e (announce_read client announce plan start blocks)
       (\<lambda>blocks1. bind_e (call (read_fetch client plan start))
         (\<lambda>out. bind_e (explain_items client api req (po_items out) blocks1)
           (\<lambda>blocks2 s. if po_last_evaluated_key out = None \<or> po_last_evaluated_key out = Some []
              then return_e blocks2 s
              else rec client announce plan api req (po_last_evaluated_key out) blocks2 s)))"
    assume step: "?body rec s = Some rt"
    have "tracks (?body rec) (?body explain_pages)"
      by (intro tracks_bind tracks_if_applied rec steady_call steady_return steady_explain_items steady_announce)
    then have "follows (?body explain_pages) s rt" using step by (rule followsI)
    then show "?Q client announce plan api req start blocks s rt"
      by (subst explain_pages.simps [abs_def]) (simp add: follows_def)
  qed
qed

lemma steady_show_backups_loop:
  fixes client :: "'w iddb_client"
  shows "steady (show_backups_loop client cmd start out :: ('w, 'h, _) exec)"
proof (rule tracksI_follows)
  let ?Q = "\<lambda>client cmd start out s rt. follows (show_backups_loop client cmd start out) s rt"
  fix s :: "('w, 'h) exec_state" and rt
  assume run: "show_backups_loop client cmd start out s = Some rt"
  show "?Q client cmd start out s rt"
  proof (rule show_backups_loop.raw_induct [where P = ?Q, OF _ run])
    fix rec and client :: "'w iddb_client" and cmd start out and s :: "('w, 'h) exec_state" and rt
    assume IH: "\<And>(client :: 'w iddb_client) cmd start out (s :: ('w, 'h) exec_state) rt.
        rec client cmd start out s = Some rt \<Longrightarrow> ?Q client cmd start out s rt"
    note rec = tracksI_follows [OF IH]
    let ?body = "\<lambda>rec. bind_e (call (list_backups client (backups_request cmd start)))
       (\<lambda>page s. let out' = out @ map backup_line (lbo_summaries page)
         in if lbo_last_evaluated_backup_arn page = None then return_e out' s
            else rec client cmd (lbo_last_evaluated_backup_arn page) out' s)"
    assume step: "?body rec s = Some rt"
    have "tracks (?body rec) (?body show_backups_loop)"
      unfolding Let_def by (intro tracks_bind tracks_if_applied rec steady_call steady_return)
    then have "follows (?body show_backups_loop) s rt" using step by (rule followsI)
    then show "?Q client cmd start out s rt"
      by (subst show_backups_loop.simps [abs_def]) (simp add: follows_def)
  qed
qed


section \<open>The executors\<close>

lemma steady_key_schema: "steady (get_key_schema client t ix)"
  unfolding get_key_schema_def by (intro track_intros)

lemma steady_plan_select: "steady (plan_select client cmd prefix)"
  unfolding plan_select_def plan_classic_def by (intro track_intros steady_key_schema)

lemma tracks_case_plan:
  assumes "\<And>r. tracks (g r) (g' r)" "\<And>r. tracks (q r) (q' r)" "\<And>r. tracks (c r) (c' r)" "\<And>r. tracks (v r) (v' r)"
  shows "tracks (case plan of PlanGetItem r \<Rightarrow> g r | PlanQuery r \<Rightarrow> q r | PlanScan r \<Rightarrow> c r | PlanSearchVectors r \<Rightarrow> v r)
     (case plan of PlanGetItem r \<Rightarrow> g' r | PlanQuery r \<Rightarrow> q' r | PlanScan r \<Rightarrow> c' r | PlanSearchVectors r \<Rightarrow> v' r)"
  using assms by (cases plan) simp_all

lemma steady_select: "steady (execute_select ops client cmd prefix)"
  unfolding execute_select_def run_get_item_def
  by (intro track_intros tracks_case_plan steady_plan_select steady_limiter steady_page_loop)

lemma steady_select_explain: "steady (execute_select_explain client cmd prefix)"
  unfolding execute_select_explain_def by (intro track_intros steady_plan_select)

lemma steady_put_request: "steady (make_put_request cmd row pk)"
  unfolding make_put_request_def by (intro track_intros)

lemma steady_insert_loop: "steady (insert_loop ops client cmd pk rows lmt)"
proof (induction rows arbitrary: lmt)
  case (Cons row rows)
  show ?case unfolding insert_loop.simps by (intro track_intros steady_put_request steady_limiter Cons.IH)
qed simp

lemma steady_explain_insert_loop: "steady (explain_insert_loop client cmd pk rows blocks)"
proof (induction rows arbitrary: blocks)
  case (Cons row rows)
  show ?case unfolding explain_insert_loop.simps by (intro track_intros steady_put_request Cons.IH)
qed simp

lemma steady_insert: "steady (execute_insert_streaming ops client cmd)" "steady (execute_insert_explain client cmd)"
  unfolding execute_insert_streaming_def execute_insert_explain_def
  by (intro track_intros steady_key_schema steady_limiter steady_insert_loop steady_explain_insert_loop)+

lemma steady_single_write: "steady (single_write ops client explain api req wr v want_rv lmt)"
  unfolding single_write_def by (intro track_intros steady_write_one)

lemma steady_enumeration: "steady (enumeration_plan client t ix wher base)"
  unfolding enumeration_plan_def by (intro track_intros steady_key_schema)

lemma steady_update: "steady (execute_update ops client cmd explain)"
  unfolding execute_update_def update_bulk_def
  by (intro track_intros steady_key_schema steady_limiter steady_single_write steady_enumeration steady_explain_pages
      steady_bulk_pages)

lemma steady_explain_delete: "steady (explain_delete_bulk client plan template)"
  by (cases plan) (simp_all add: explain_delete_bulk_def tracks_bind steady_announce steady_explain_pages)

lemma steady_delete: "steady (execute_delete ops client cmd explain)"
  unfolding execute_delete_def delete_bulk_def
  by (intro track_intros steady_key_schema steady_limiter steady_single_write steady_enumeration steady_explain_delete
      steady_bulk_pages)

lemma steady_puts_loop: "steady (transact_puts_loop cmd pk rows puts)"
proof (induction rows arbitrary: puts)
  case (Cons row rows)
  show ?case unfolding transact_puts_loop.simps by (intro track_intros steady_put_request Cons.IH)
qed simp

lemma steady_builders:
  "steady (build_transact_get client s)" "steady (build_transact_puts client i)"
  "steady (build_transact_update client u)" "steady (build_transact_delete client d)"
  "steady (build_transact_condition_check client s)"
  unfolding builder_defs by (intro track_intros steady_key_schema steady_puts_loop)+

lemma steady_map: "steady m \<Longrightarrow> steady (map_e f m)"
  unfolding map_e_def by (intro track_intros)

lemma steady_build_items:
  assumes "\<And>item b. builder item = Some b \<Longrightarrow> steady b"
  shows "steady (build_items builder items tx)"
proof (induction items arbitrary: tx)
  case (Cons item items)
  show ?case
  proof (cases "builder item")
    case (Some b)
    have "steady (bind_e (add_built tx b) (build_items builder items))"
      unfolding add_built_def by (intro track_intros assms [OF Some] Cons.IH)
    then show ?thesis using Some by simp
  qed (simp add: Cons.IH)
qed simp

lemma steady_finish: "steady (finish_txn client explain api request send outcome tx)"
  unfolding finish_txn_def explain_batch_def by (intro track_intros)

lemma steady_transact: "steady (execute_transact client acc rollback items explain)"
proof -
  have r: "read_builder client item = Some b \<Longrightarrow> steady b" for item and b :: "('a, 'b, transact_get list) exec"
    by (cases item) (auto intro: steady_map steady_builders)
  have w: "write_builder client item = Some b \<Longrightarrow> steady b" for item and b :: "('a, 'b, transact_write_item list) exec"
    by (cases item) (auto intro: steady_map steady_builders)
  show ?thesis
    unfolding execute_transact_def execute_transact_read_def execute_transact_write_def
    by (cases acc) (simp_all add: tracks_bind steady_build_items r w steady_finish)
qed

lemma steady_exists: "steady (table_exists client t)"
  unfolding table_exists_def by (intro track_intros)

lemma steady_explain_one: "steady (explain_one client api req)"
  unfolding explain_one_def by (intro track_intros)

lemma steady_create:
  "steady (execute_create_table client cmd)" "steady (execute_create_table_explain client cmd)"
  unfolding execute_create_table_def execute_create_table_explain_def by (intro track_intros steady_exists)+

lemma steady_drop: "steady (execute_drop_table client cmd)" "steady (execute_drop_table_explain client cmd)"
  unfolding execute_drop_table_def execute_drop_table_explain_def
  by (intro track_intros steady_exists steady_explain_one)+

lemma steady_alter:
  "steady (execute_alter_table client a)" "steady (execute_alter_table_explain client a)"
  "steady (execute_alter_ttl client t explain)" "steady (execute_alter_pitr client p explain)"
  "steady (execute_alter_replica client r explain)"
  unfolding execute_alter_table_def execute_alter_table_explain_def execute_alter_ttl_def execute_alter_pitr_def
    execute_alter_replica_def
  by (intro track_intros steady_explain_one)+

lemma steady_backups:
  "steady (execute_create_backup client b explain)" "steady (execute_drop_backup client arn explain)"
  "steady (execute_describe_backup client arn explain)" "steady (execute_show_backups client sb)"
  unfolding execute_create_backup_def execute_drop_backup_def execute_describe_backup_def execute_show_backups_def
  by (intro track_intros steady_explain_one steady_show_backups_loop)+

lemma steady_restore: "steady (execute_restore client cmd explain)"
  unfolding execute_restore_def
  by (cases "re_kind cmd") (simp_all add: Let_def tracks_bind steady_status steady_explain_one)

lemma steady_table_line: "steady (table_line client brief name)"
  unfolding table_line_def by (intro track_intros)

lemma steady_show_tables: "steady (execute_show_tables regex client cmd)"
proof -
  have "steady (show_tables_loop client brief matcher names out)" for brief matcher names out
    by (induction names arbitrary: out) (simp_all add: tracks_bind steady_table_line)
  then show ?thesis unfolding execute_show_tables_def by (intro track_intros)
qed

lemma steady_reports:
  "steady (execute_describe client t)" "steady (execute_describe_explain client t)"
  "steady (execute_show_create_table client c)" "steady (execute_show_limits client region)"
proof -
  have e: "steady (explain_specs client specs blocks)" for specs blocks
    by (induction client specs blocks rule: explain_specs.induct) (simp_all add: tracks_bind)
  have l: "steady (limits_loop client names lt)" for names lt
    by (induction names arbitrary: lt) (simp_all add: tracks_bind)
  show "steady (execute_describe client t)" unfolding execute_describe_def by (intro track_intros)
  show "steady (execute_describe_explain client t)" unfolding execute_describe_explain_def by (intro track_intros e)
  show "steady (execute_show_create_table client c)" unfolding execute_show_create_table_def by (intro track_intros)
  show "steady (execute_show_limits client region)" unfolding execute_show_limits_def by (intro track_intros l)
qed

lemma steady_dispatch: "steady (dispatch env client region explain cmd)"
  by (cases cmd)
    (simp_all add: tracks_bind steady_emit_single steady_select steady_select_explain steady_insert steady_update
      steady_delete steady_transact steady_create steady_drop steady_alter steady_backups steady_restore
      steady_show_tables steady_reports)


section \<open>The two overloads agree\<close>

definition fragments_since :: "('w, 'h) session \<Rightarrow> ('w, 'h) session \<Rightarrow> exec_outcome list" where
  "fragments_since sn sn' = drop (length (emitted (sn_exec sn))) (emitted (sn_exec sn'))"

text \<open>The buffering overload of \<open>Session::execute\<close> is the streaming one with its fragments folded:
  for every client, statement and state of the caller's sink it returns exactly when the streaming one
  does, with the same error, else with the outcome that folds the fragments the streaming one adds to
  the sink; client, host, alias counter and configuration end up the same, and the caller's sink is
  left as it was.\<close>

lemma buffered_is_streamed:
  "execute_buffered env client st sn =
     (case execute_stream env client st sn of
        None \<Rightarrow> None
      | Some (r, sn') \<Rightarrow>
          Some (case r of Inl e \<Rightarrow> Inl e | Inr _ \<Rightarrow> Inr (fold_parts (fragments_since sn sn')),
            sn'\<lparr>sn_exec := (sn_exec sn')\<lparr>emitted := emitted (sn_exec sn)\<rparr>\<rparr>))"
proof -
  let ?cfg = "configure (ps_command st) (sn_config sn)"
  let ?run = "dispatch env client (cfg_region ?cfg) (ps_explain st) (ps_command st)"
  let ?own = "(sn_exec sn)\<lparr>emitted := []\<rparr>"
  have "?run ?own = (case ?run (?own\<lparr>emitted := emitted (sn_exec sn) @ []\<rparr>) of None \<Rightarrow> None
      | Some (r, t) \<Rightarrow> Some (r, t\<lparr>emitted := [] @ drop (length (emitted (sn_exec sn))) (emitted t)\<rparr>))"
    by (rule steady_rebase [OF steady_dispatch]) simp
  then show ?thesis
    by (cases "?run (sn_exec sn)")
      (auto simp: execute_buffered_def execute_stream_def Let_def fragments_since_def split: sum.split)
qed

text \<open>Folding the fragments of a statement into one outcome loses nothing of what is printed: the
  rendering of the folded outcome is the renderings of the fragments one after the other, on the
  standard output and on the standard error alike.\<close>

lemma folding_prints_every_fragment:
  "render_outcome (fold_parts parts) = concat (map render_outcome parts) \<and>
   render_outcome_stderr (fold_parts parts) = concat (map render_outcome_stderr parts)"
  by (auto simp: fold_parts_def split: list.split)

lemma stream_adds:
  assumes "execute_stream env client st sn = Some (r, sn')"
  shows "emitted (sn_exec sn') = emitted (sn_exec sn) @ fragments_since sn sn'"
proof -
  let ?cfg = "configure (ps_command st) (sn_config sn)"
  have run: "dispatch env client (cfg_region ?cfg) (ps_explain st) (ps_command st) (sn_exec sn) = Some (r, sn_exec sn')"
    using assms by (auto simp: execute_stream_def Let_def split: option.splits)
  have "emitted (sn_exec sn) = emitted (sn_exec sn) @ []" by simp
  from tracksD [OF steady_dispatch this run, of "[]"] obtain y where "emitted (sn_exec sn') = emitted (sn_exec sn) @ y"
    by blast
  then show ?thesis by (simp add: fragments_since_def)
qed

text \<open>C7: The buffering overload of \<open>Session::execute\<close> loses nothing of what the streaming one sends, for every
  client, statement and content of the caller's sink.  It returns exactly when the streaming one does, with the
  same error or with one outcome; printing that outcome prints the fragments that the streaming one adds to the
  sink, all of them, in their order and with nothing between them, on the standard output and on the standard
  error alike.  Client, host, alias counter and configuration end up the same, and the caller's sink, to which
  the streaming one only adds, is left as it was.\<close>

theorem buffered_prints_stream:
  "case execute_stream env client st sn of
     None \<Rightarrow> execute_buffered env client st sn = None
   | Some (r, sn') \<Rightarrow>
       (\<exists>frags q. emitted (sn_exec sn') = emitted (sn_exec sn) @ frags \<and>
          execute_buffered env client st sn = Some (q, sn'\<lparr>sn_exec := (sn_exec sn')\<lparr>emitted := emitted (sn_exec sn)\<rparr>\<rparr>) \<and>
          (case (r, q) of
             (Inl e, Inl e') \<Rightarrow> e' = e
           | (Inr _, Inr out) \<Rightarrow> render_outcome out = concat (map render_outcome frags) \<and>
               render_outcome_stderr out = concat (map render_outcome_stderr frags)
           | _ \<Rightarrow> False))"
proof (cases "execute_stream env client st sn")
  case None
  then show ?thesis using buffered_is_streamed [of env client st sn] by simp
next
  case (Some rs)
  obtain r sn' where rs: "rs = (r, sn')" by fastforce
  then have "emitted (sn_exec sn') = emitted (sn_exec sn) @ fragments_since sn sn'" using Some stream_adds by blast
  then show ?thesis
    using buffered_is_streamed [of env client st sn] folding_prints_every_fragment [of "fragments_since sn sn'"]
    unfolding Some rs option.case prod.case
    by (intro exI [of _ "fragments_since sn sn'"]
        exI [of _ "case r of Inl e \<Rightarrow> Inl e | Inr _ \<Rightarrow> Inr (fold_parts (fragments_since sn sn'))"]) (simp split: sum.split)
qed

section \<open>Batches\<close>

text \<open>The statements a driver reads from \<open>d\<close> before it stops, and how it stops.\<close>

inductive driver_reads :: "'d driver \<Rightarrow> 'd \<Rightarrow> parsed_statement list \<Rightarrow> error option \<Rightarrow> bool" for driver :: "'d driver" where
  reads_eof: "driver d = Step_empty_at_eof \<Longrightarrow> driver_reads driver d [] None"
| reads_default_error: "driver d = Step_error None \<Longrightarrow> driver_reads driver d [] (Some default_parse_error)"
| reads_error: "driver d = Step_error (Some e) \<Longrightarrow> driver_reads driver d [] (Some e)"
| reads_statement: "driver d = Step_statement st d' \<Longrightarrow> driver_reads driver d' sts err \<Longrightarrow>
     driver_reads driver d (st # sts) err"

lemma parse_batch_reads:
  "driver_reads driver d sts err \<Longrightarrow> parse_batch driver acc d = Some \<lparr>pb_statements = acc @ sts, pb_error = err\<rparr>"
proof (induction arbitrary: acc rule: driver_reads.induct)
  case (reads_statement d st d' sts err)
  then show ?case using parse_batch.simps [of driver acc d] by simp
qed (simp_all add: parse_batch.simps [of driver])

lemma parse_batch_sound:
  assumes "parse_batch driver acc d = Some b"
  shows "\<exists>sts. driver_reads driver d sts (pb_error b) \<and> pb_statements b = acc @ sts"
proof -
  let ?Q = "\<lambda>driver acc d b. \<exists>sts. driver_reads driver d sts (pb_error b) \<and> pb_statements b = acc @ sts"
  show ?thesis
  proof (rule parse_batch.raw_induct [where P = ?Q, OF _ assms])
    fix rec and driver :: "'a driver" and acc d b
    assume IH: "\<And>driver acc d b. rec driver acc d = Some b \<Longrightarrow> ?Q driver acc d b"
      and step: "(case driver d of
        Step_error e \<Rightarrow> Some \<lparr>pb_statements = acc, pb_error = Some (case e of Some x \<Rightarrow> x | None \<Rightarrow> default_parse_error)\<rparr>
      | Step_empty_at_eof \<Rightarrow> Some \<lparr>pb_statements = acc, pb_error = None\<rparr>
      | Step_statement st d' \<Rightarrow> rec driver (acc @ [st]) d') = Some b"
    show "?Q driver acc d b"
    proof (cases "driver d")
      case (Step_statement st d')
      then obtain sts where "driver_reads driver d' sts (pb_error b)" "pb_statements b = (acc @ [st]) @ sts"
        using IH step by fastforce
      then show ?thesis using reads_statement [of driver d st d' sts] Step_statement by fastforce
    next
      case (Step_error e)
      then show ?thesis using step by (cases e) (auto intro: driver_reads.intros)
    qed (use step in \<open>auto intro: driver_reads.intros\<close>)
  qed
qed

text \<open>\<open>Session::parse\<close> returns the batch exactly when the driver stops: then every statement it read
  before the first error, in order, is in the batch, so a syntax error late in a batch does not lose the
  statements before it, and the batch carries the driver's error, a generic one if it has none, or none
  at the end of the input.\<close>

theorem parse_keeps_statements_before_error:
  "parse_batch driver [] d = Some b \<longleftrightarrow> driver_reads driver d (pb_statements b) (pb_error b)"
proof
  assume "parse_batch driver [] d = Some b"
  then show "driver_reads driver d (pb_statements b) (pb_error b)" using parse_batch_sound by fastforce
next
  assume "driver_reads driver d (pb_statements b) (pb_error b)"
  then show "parse_batch driver [] d = Some b" using parse_batch_reads [of driver d _ _ "[]"] by fastforce
qed

end
