(* ===== verification/Prepared.thy ===== *)
theory Prepared
  imports Renderer
begin

text \<open>
  The first half of the embedding API (\<open>connection.hpp\<close>, \<open>connection.cpp\<close>): the cells and rows an
  application reads, and the prepared statements that substitute bound values into the text of a
  statement before it is parsed.  What a bound string becomes is compared with the scanner's rule for
  quoted strings (\<open>lexer.l\<close>) and the parser's \<open>unquote\<close>.
\<close>

section \<open>Cells and rows\<close>

text \<open>A cell points to a value or to nothing.\<close>

type_synonym cell = "value option"

definition missing :: "cell \<Rightarrow> bool" where
  "missing c \<longleftrightarrow> c = None"

definition is_null :: "cell \<Rightarrow> bool" where
  "is_null c \<longleftrightarrow> (case c of None \<Rightarrow> False | Some v \<Rightarrow> type_of v = TNUL)"

definition cell_type :: "cell \<Rightarrow> value_type" where
  "cell_type c = (case c of None \<Rightarrow> TNUL | Some v \<Rightarrow> type_of v)"

fun as_string :: "cell \<Rightarrow> string option" where
  "as_string (Some (S s)) = Some s"
| "as_string (Some (N s)) = Some s"
| "as_string _ = None"

text \<open>\<open>std::from_chars\<close> into a \<open>long long\<close> of the whole text: an optional minus, then decimal digits; out of
  range is an error.\<close>

definition is_digit :: "char \<Rightarrow> bool" where
  "is_digit c \<longleftrightarrow> c \<in> set ''0123456789''"

definition digits_val :: "string \<Rightarrow> int" where
  "digits_val ds = int (foldl (\<lambda>a c. a * 10 + digit_val c) 0 ds)"

definition in_long_long :: "int \<Rightarrow> bool" where
  "in_long_long i \<longleftrightarrow> - (2 ^ 63) \<le> i \<and> i < 2 ^ 63"

definition from_chars_ll :: "string \<Rightarrow> int option" where
  "from_chars_ll s =
     (let neg = (case s of c # _ \<Rightarrow> c = CHR ''-'' | [] \<Rightarrow> False);
          ds = (if neg then tl s else s);
          i = (if neg then - digits_val ds else digits_val ds)
      in if ds \<noteq> [] \<and> list_all is_digit ds \<and> in_long_long i then Some i else None)"

fun as_int :: "cell \<Rightarrow> int option" where
  "as_int (Some (N s)) = from_chars_ll s"
| "as_int _ = None"

text \<open>\<open>from_chars\<close> into a \<open>double\<close> of the whole text is a parameter.\<close>

fun as_double :: "(string \<Rightarrow> real option) \<Rightarrow> cell \<Rightarrow> real option" where
  "as_double from_chars (Some (N s)) = from_chars s"
| "as_double from_chars _ = None"

fun as_bool :: "cell \<Rightarrow> bool option" where
  "as_bool (Some (BOOL b)) = Some b"
| "as_bool _ = None"

fun as_string_set :: "cell \<Rightarrow> string list option" where
  "as_string_set (Some (SS ss)) = Some ss"
| "as_string_set (Some (NS ss)) = Some ss"
| "as_string_set (Some (BS ss)) = Some ss"
| "as_string_set _ = None"

fun as_list :: "cell \<Rightarrow> value list option" where
  "as_list (Some (L vs)) = Some vs"
| "as_list _ = None"

fun as_map :: "cell \<Rightarrow> value_map option" where
  "as_map (Some (M kvs)) = Some kvs"
| "as_map _ = None"

definition cell_render :: "cell \<Rightarrow> string" where
  "cell_render c = (case c of None \<Rightarrow> '''' | Some v \<Rightarrow> render_value v)"

text \<open>A row is an item; the first attribute of a name is its cell.\<close>

definition row_cell :: "item_row \<Rightarrow> string \<Rightarrow> cell" where
  "row_cell item name = map_option snd (List.find (\<lambda>kv. fst kv = name) item)"

definition get_string :: "item_row \<Rightarrow> string \<Rightarrow> string option" where
  "get_string item name = as_string (row_cell item name)"

definition get_int :: "item_row \<Rightarrow> string \<Rightarrow> int option" where
  "get_int item name = as_int (row_cell item name)"

definition get_double :: "(string \<Rightarrow> real option) \<Rightarrow> item_row \<Rightarrow> string \<Rightarrow> real option" where
  "get_double from_chars item name = as_double from_chars (row_cell item name)"

definition get_bool :: "item_row \<Rightarrow> string \<Rightarrow> bool option" where
  "get_bool item name = as_bool (row_cell item name)"

section \<open>Literals\<close>

definition double_quotes :: "string \<Rightarrow> string" where
  "double_quotes s = concat (map (\<lambda>c. if c = CHR 0x22 then [CHR 0x22, CHR 0x22] else [c]) s)"

definition no_literal :: "'a result" where
  "no_literal = fail_with invalid_argument ''cannot bind a DynamoDB binary or set value: no literal syntax''"

fun all_results :: "'a result list \<Rightarrow> 'a list result" where
  "all_results [] = Inr []"
| "all_results (r # rs) =
     (case r of Inl e \<Rightarrow> Inl e
      | Inr x \<Rightarrow> (case all_results rs of Inl e \<Rightarrow> Inl e | Inr xs \<Rightarrow> Inr (x # xs)))"

fun render_literal :: "value \<Rightarrow> string result" where
  "render_literal (S s) = Inr (quoted (double_quotes s))"
| "render_literal (N s) = Inr s"
| "render_literal (BOOL b) = Inr (if b then ''true'' else ''false'')"
| "render_literal NUL = Inr ''null''"
| "render_literal (L vs) =
     map_sum id (\<lambda>ss. ''['' @ join_with '', '' ss @ '']'') (all_results (map render_literal vs))"
| "render_literal (M kvs) =
     map_sum id (\<lambda>ss. ''{'' @ join_with '', '' ss @ ''}'')
       (all_results (map (\<lambda>kv. map_sum id (\<lambda>t. quoted (double_quotes (fst kv)) @ '':'' @ t) (render_literal (snd kv))) kvs))"
| "render_literal (B s) = no_literal"
| "render_literal (SS ss) = no_literal"
| "render_literal (NS ss) = no_literal"
| "render_literal (BS ss) = no_literal"

definition in_range :: "char \<Rightarrow> char \<Rightarrow> char \<Rightarrow> bool" where
  "in_range lo hi c \<longleftrightarrow> lo \<le> c \<and> c \<le> hi"

definition is_name_char :: "char \<Rightarrow> bool" where
  "is_name_char c \<longleftrightarrow>
     in_range (CHR ''a'') (CHR ''z'') c \<or> in_range (CHR ''A'') (CHR ''Z'') c \<or> is_digit c \<or> c = CHR ''_''"


section \<open>Prepared statements\<close>

record prepared_statement =
  pp_sql :: string
  pp_positional :: "value list"
  pp_named :: "(string \<times> value) list"
  pp_bind_error :: "error option"

definition prepare :: "string \<Rightarrow> prepared_statement" where
  "prepare sql = \<lparr>pp_sql = sql, pp_positional = [], pp_named = [], pp_bind_error = None\<rparr>"

definition bad_index :: "int \<Rightarrow> error" where
  "bad_index i =
     \<lparr>err_code = invalid_argument, err_message = ''positional bind index must be >= 1, got '' @ to_string_int i,
      service_error_name = None, request_id = None\<rparr>"

text \<open>\<open>positional_.resize(n)\<close>: the new elements are default values, of type NUL.\<close>

definition resized :: "nat \<Rightarrow> value list \<Rightarrow> value list" where
  "resized n vs = vs @ replicate (n - length vs) NUL"

definition bind_index :: "int \<Rightarrow> value \<Rightarrow> prepared_statement \<Rightarrow> prepared_statement" where
  "bind_index index1 v pp =
     (if index1 < 1
      then (if pp_bind_error pp = None then pp\<lparr>pp_bind_error := Some (bad_index index1)\<rparr> else pp)
      else (let idx = nat (index1 - 1)
            in pp\<lparr>pp_positional := (resized (idx + 1) (pp_positional pp))[idx := v]\<rparr>))"

fun bind_in :: "string \<Rightarrow> value \<Rightarrow> (string \<times> value) list \<Rightarrow> (string \<times> value) list" where
  "bind_in name v [] = [(name, v)]"
| "bind_in name v ((n, u) # nvs) = (if n = name then (n, v) # nvs else (n, u) # bind_in name v nvs)"

definition bind_name :: "string \<Rightarrow> value \<Rightarrow> prepared_statement \<Rightarrow> prepared_statement" where
  "bind_name name v pp = pp\<lparr>pp_named := bind_in name v (pp_named pp)\<rparr>"

text \<open>The overloads for plain values.\<close>

definition bind_index_string :: "int \<Rightarrow> string \<Rightarrow> prepared_statement \<Rightarrow> prepared_statement" where
  "bind_index_string index1 s = bind_index index1 (S s)"

definition bind_index_number :: "int \<Rightarrow> int \<Rightarrow> prepared_statement \<Rightarrow> prepared_statement" where
  "bind_index_number index1 n = bind_index index1 (N (to_string_int n))"

definition bind_index_bool :: "int \<Rightarrow> bool \<Rightarrow> prepared_statement \<Rightarrow> prepared_statement" where
  "bind_index_bool index1 b = bind_index index1 (BOOL b)"

definition bind_name_string :: "string \<Rightarrow> string \<Rightarrow> prepared_statement \<Rightarrow> prepared_statement" where
  "bind_name_string name s = bind_name name (S s)"

definition bind_name_number :: "string \<Rightarrow> int \<Rightarrow> prepared_statement \<Rightarrow> prepared_statement" where
  "bind_name_number name n = bind_name name (N (to_string_int n))"

definition bind_name_bool :: "string \<Rightarrow> bool \<Rightarrow> prepared_statement \<Rightarrow> prepared_statement" where
  "bind_name_bool name b = bind_name name (BOOL b)"

fun index_of :: "string \<Rightarrow> (string \<times> value) list \<Rightarrow> nat option" where
  "index_of name [] = None"
| "index_of name ((n, v) # nvs) = (if n = name then Some 0 else map_option Suc (index_of name nvs))"

definition starts_name :: "string \<Rightarrow> bool" where
  "starts_name cs \<longleftrightarrow> (case cs of [] \<Rightarrow> False | c # _ \<Rightarrow> is_name_char c \<and> \<not> is_digit c)"

definition append_literal :: "value \<Rightarrow> string \<Rightarrow> string result" where
  "append_literal v out = map_sum id (\<lambda>t. out @ t) (render_literal v)"

definition unbound_position :: "nat \<Rightarrow> 'a result" where
  "unbound_position i =
     fail_with invalid_argument (''positional placeholder #'' @ to_string (i + 1) @ '' has no bound value'')"

text \<open>
  The loop over the characters of the text: \<open>pos\<close> is \<open>next_positional\<close>, \<open>used\<close> is \<open>named_used\<close>.  It gives
  the text, the number of positions taken and the names used.
\<close>

function expand_loop ::
    "prepared_statement \<Rightarrow> bool \<Rightarrow> string \<Rightarrow> nat \<Rightarrow> bool list \<Rightarrow> string \<Rightarrow> (string \<times> nat \<times> bool list) result" where
  "expand_loop pp in_string [] pos used out = Inr (out, pos, used)"
| "expand_loop pp in_string (c # cs) pos used out =
     (if in_string then
        (if c = CHR 0x22 then
           (if cs \<noteq> [] \<and> hd cs = CHR 0x22 then expand_loop pp True (tl cs) pos used (out @ [c, CHR 0x22])
            else expand_loop pp False cs pos used (out @ [c]))
         else expand_loop pp True cs pos used (out @ [c]))
      else if c = CHR 0x22 then expand_loop pp True cs pos used (out @ [c])
      else if c = CHR ''?'' then
        (if length (pp_positional pp) \<le> pos then unbound_position pos
         else case append_literal (pp_positional pp ! pos) out of
           Inl e \<Rightarrow> Inl e
         | Inr out' \<Rightarrow> expand_loop pp False cs (pos + 1) used out')
      else if c = CHR '':'' \<and> starts_name cs then
        (case index_of (takeWhile is_name_char cs) (pp_named pp) of
           Some k \<Rightarrow>
             (case append_literal (snd (pp_named pp ! k)) out of
                Inl e \<Rightarrow> Inl e
              | Inr out' \<Rightarrow> expand_loop pp False (dropWhile is_name_char cs) pos (used[k := True]) out')
         | None \<Rightarrow> expand_loop pp False cs pos used (out @ [c]))
      else expand_loop pp False cs pos used (out @ [c]))"
  by pat_completeness auto

termination
  by (relation "measure (\<lambda>(pp, in_string, cs, pos, used, out). length cs)")
    (auto simp: le_imp_less_Suc length_dropWhile_le neq_Nil_conv)

declare expand_loop.simps(2) [simp del]

fun first_unused :: "(string \<times> value) list \<Rightarrow> bool list \<Rightarrow> string option" where
  "first_unused ((n, v) # nvs) (u # us) = (if u then first_unused nvs us else Some n)"
| "first_unused _ _ = None"

definition expand :: "prepared_statement \<Rightarrow> string result" where
  "expand pp =
     (case pp_bind_error pp of
        Some e \<Rightarrow> Inl e
      | None \<Rightarrow>
          (case expand_loop pp False (pp_sql pp) 0 (replicate (length (pp_named pp)) False) '''' of
             Inl e \<Rightarrow> Inl e
           | Inr (out, pos, used) \<Rightarrow>
               (if pos < length (pp_positional pp)
                then fail_with invalid_argument
                  (''bound positional parameter #'' @ to_string (pos + 1) @ '' has no matching ? placeholder'')
                else case first_unused (pp_named pp) used of
                  Some n \<Rightarrow> fail_with invalid_argument (''bound parameter :'' @ n @ '' has no matching placeholder'')
                | None \<Rightarrow> Inr out)))"


section \<open>What is substituted\<close>

text \<open>
  The parts of a text: what is kept, the positional and the named placeholders.  A quoted string is
  kept as it is, to its closing quote; a doubled quote does not close it.
\<close>

datatype part = Kept string | Position | Name string

function string_body :: "string \<Rightarrow> string \<times> string" where
  "string_body [] = ([], [])"
| "string_body (c # cs) =
     (if c \<noteq> CHR 0x22 then (c # fst (string_body cs), snd (string_body cs))
      else if cs \<noteq> [] \<and> hd cs = CHR 0x22
      then (c # CHR 0x22 # fst (string_body (tl cs)), snd (string_body (tl cs)))
      else ([c], cs))"
  by pat_completeness auto

termination
  by (relation "measure length") (auto simp: neq_Nil_conv)

declare string_body.simps(2) [simp del]

lemma length_string_body: "length (snd (string_body cs)) \<le> length cs"
  by (induction cs rule: string_body.induct) (auto simp: string_body.simps(2) neq_Nil_conv)

function parts :: "string \<Rightarrow> part list" where
  "parts [] = []"
| "parts (c # cs) =
     (if c = CHR 0x22 then Kept (c # fst (string_body cs)) # parts (snd (string_body cs))
      else if c = CHR ''?'' then Position # parts cs
      else if c = CHR '':'' \<and> starts_name cs
      then Name (takeWhile is_name_char cs) # parts (dropWhile is_name_char cs)
      else Kept [c] # parts cs)"
  by pat_completeness auto

termination
  by (relation "measure length") (auto simp: le_imp_less_Suc length_string_body length_dropWhile_le)

declare parts.simps(2) [simp del]

text \<open>The loop over parts.\<close>

fun fill_loop ::
    "prepared_statement \<Rightarrow> part list \<Rightarrow> nat \<Rightarrow> bool list \<Rightarrow> string \<Rightarrow> (string \<times> nat \<times> bool list) result" where
  "fill_loop pp [] pos used out = Inr (out, pos, used)"
| "fill_loop pp (Kept t # ps) pos used out = fill_loop pp ps pos used (out @ t)"
| "fill_loop pp (Position # ps) pos used out =
     (if length (pp_positional pp) \<le> pos then unbound_position pos
      else case append_literal (pp_positional pp ! pos) out of
        Inl e \<Rightarrow> Inl e | Inr out' \<Rightarrow> fill_loop pp ps (pos + 1) used out')"
| "fill_loop pp (Name n # ps) pos used out =
     (case index_of n (pp_named pp) of
        None \<Rightarrow> fill_loop pp ps pos used (out @ CHR '':'' # n)
      | Some k \<Rightarrow>
          (case append_literal (snd (pp_named pp ! k)) out of
             Inl e \<Rightarrow> Inl e | Inr out' \<Rightarrow> fill_loop pp ps pos (used[k := True]) out'))"

lemma name_char_plain: "is_name_char c \<Longrightarrow> c \<noteq> CHR 0x22 \<and> c \<noteq> CHR ''?'' \<and> c \<noteq> CHR '':''"
  by (auto simp: is_name_char_def in_range_def is_digit_def less_eq_char_def)

lemma expand_loop_string:
  "expand_loop pp True cs pos used out =
     expand_loop pp False (snd (string_body cs)) pos used (out @ fst (string_body cs))"
proof (induction cs arbitrary: out rule: string_body.induct)
  case (2 c cs)
  then show ?case by (auto simp: expand_loop.simps(2) [of pp True] string_body.simps(2))
qed simp

lemma expand_loop_name:
  "list_all is_name_char n \<Longrightarrow>
     expand_loop pp False (n @ cs) pos used out = expand_loop pp False cs pos used (out @ n)"
  by (induction n arbitrary: out) (auto simp: expand_loop.simps(2) dest: name_char_plain)

lemma expand_loop_parts: "expand_loop pp False cs pos used out = fill_loop pp (parts cs) pos used out"
proof (induction cs arbitrary: pos used out rule: parts.induct)
  case (2 c cs)
  note loop = expand_loop.simps(2) [of pp False c cs pos used out]
  consider (quote) "c = CHR 0x22" | (mark) "c = CHR ''?''" | (name) "c = CHR '':''" "starts_name cs"
    | (plain) "c \<noteq> CHR 0x22" "c \<noteq> CHR ''?''" "\<not> (c = CHR '':'' \<and> starts_name cs)"
    by blast
  then show ?case
  proof cases
    case quote
    then show ?thesis using "2.IH"(1) [OF quote] loop
      by (simp add: parts.simps(2) expand_loop_string)
  next
    case mark
    then show ?thesis using "2.IH"(2) loop
      by (auto simp: parts.simps(2) split: sum.split)
  next
    case name
    let ?n = "takeWhile is_name_char cs"
    have split: "expand_loop pp False cs pos used out' =
        expand_loop pp False (dropWhile is_name_char cs) pos used (out' @ ?n)" for out'
    proof -
      have "list_all is_name_char ?n" by (auto simp: list_all_iff dest: set_takeWhileD)
      from expand_loop_name [OF this, of pp "dropWhile is_name_char cs" pos used out'] show ?thesis
        unfolding takeWhile_dropWhile_id .
    qed
    have IH: "expand_loop pp False (dropWhile is_name_char cs) pos' used' out' =
        fill_loop pp (parts (dropWhile is_name_char cs)) pos' used' out'" for pos' used' out'
      by (rule "2.IH"(3)) (use name in simp_all)
    have ps: "parts (c # cs) = Name ?n # parts (dropWhile is_name_char cs)" using name by (simp add: parts.simps(2))
    show ?thesis
    proof (cases "index_of ?n (pp_named pp)")
      case None
      then have "expand_loop pp False (c # cs) pos used out = expand_loop pp False cs pos used (out @ [c])"
        using loop name by simp
      also have "\<dots> = fill_loop pp (parts (c # cs)) pos used out"
        unfolding ps split IH using None name by simp
      finally show ?thesis .
    next
      case (Some k)
      then show ?thesis unfolding ps using loop name IH by (simp split: sum.split)
    qed
  next
    case plain
    then show ?thesis using "2.IH"(4) loop by (auto simp: parts.simps(2))
  qed
qed simp


text \<open>The texts of the parts, with the positional values in order and the named ones by name; a name that
  is not bound stands for itself.\<close>

fun filled :: "(string \<times> value) list \<Rightarrow> part list \<Rightarrow> value list \<Rightarrow> string result list" where
  "filled nm [] vs = []"
| "filled nm (Kept t # ps) vs = Inr t # filled nm ps vs"
| "filled nm (Name n # ps) vs =
     (case map_of nm n of None \<Rightarrow> Inr (CHR '':'' # n) | Some v \<Rightarrow> render_literal v) # filled nm ps vs"
| "filled nm (Position # ps) vs = (case vs of [] \<Rightarrow> unbound_position 0 # filled nm ps [] | v # vs' \<Rightarrow> render_literal v # filled nm ps vs')"

definition positions :: "part list \<Rightarrow> nat" where
  "positions ps = length (filter (\<lambda>p. p = Position) ps)"

definition names_in :: "part list \<Rightarrow> string set" where
  "names_in ps = {n. Name n \<in> set ps}"

lemma index_of_Some:
  "index_of n nm = Some k \<Longrightarrow> k < length nm \<and> fst (nm ! k) = n \<and> map_of nm n = Some (snd (nm ! k))"
  by (induction n nm arbitrary: k rule: index_of.induct) (auto split: if_splits)

lemma index_of_None: "index_of n nm = None \<longleftrightarrow> map_of nm n = None"
  by (induction n nm rule: index_of.induct) auto

lemma all_results_Cons:
  "all_results (r # rs) = Inr ts \<longleftrightarrow> (\<exists>t ts'. r = Inr t \<and> all_results rs = Inr ts' \<and> ts = t # ts')"
  by (auto split: sum.splits)

lemma append_literal_Inr: "append_literal v out = Inr out' \<longleftrightarrow> (\<exists>t. render_literal v = Inr t \<and> out' = out @ t)"
  by (cases "render_literal v") (auto simp: append_literal_def)

text \<open>The flags of the names after a loop over parts.\<close>

definition marked :: "prepared_statement \<Rightarrow> part list \<Rightarrow> bool list \<Rightarrow> bool list" where
  "marked pp ps used = map (\<lambda>k. used ! k \<or> fst (pp_named pp ! k) \<in> names_in ps) [0..<length used]"

lemma fill_loop_iff:
  assumes "distinct (map fst (pp_named pp))" and "length used = length (pp_named pp)"
    and "pos \<le> length (pp_positional pp)"
  shows "fill_loop pp ps pos used out = Inr (out', pos', used') \<longleftrightarrow>
     pos + positions ps \<le> length (pp_positional pp) \<and> pos' = pos + positions ps \<and> used' = marked pp ps used \<and>
     (\<exists>ts. all_results (filled (pp_named pp) ps (drop pos (pp_positional pp))) = Inr ts \<and> out' = out @ concat ts)"
  (is "_ \<longleftrightarrow> ?R ps pos used out")
  using assms(2,3)
proof (induction ps arbitrary: pos used out)
  case Nil
  then show ?case using map_nth [of used] by (auto simp: positions_def marked_def names_in_def)
next
  case (Cons p ps)
  show ?case
  proof (cases p)
    case (Kept t)
    then show ?thesis using Cons
      by (auto simp: positions_def marked_def names_in_def split: sum.splits)
  next
    case Position
    show ?thesis
    proof (cases "pos < length (pp_positional pp)")
      case True
      then have "drop pos (pp_positional pp) = pp_positional pp ! pos # drop (Suc pos) (pp_positional pp)"
        by (simp add: Cons_nth_drop_Suc)
      then show ?thesis using Cons Position True
        by (cases "render_literal (pp_positional pp ! pos)")
          (auto simp: positions_def marked_def names_in_def append_literal_def split: sum.splits)
    next
      case False
      then show ?thesis using Position by (auto simp: positions_def unbound_position_def fail_with_def)
    qed
  next
    case (Name n)
    show ?thesis
    proof (cases "index_of n (pp_named pp)")
      case None
      then have mo: "map_of (pp_named pp) n = None" by (simp add: index_of_None)
      then have "n \<notin> fst ` set (pp_named pp)" by (simp add: map_of_eq_None_iff)
      then have "marked pp (Name n # ps) used = marked pp ps used"
        using Cons.prems by (auto simp: marked_def names_in_def)
      then show ?thesis using Cons Name None mo
        by (auto simp: positions_def split: sum.splits)
    next
      case (Some k)
      note k = index_of_Some [OF Some]
      have inj: "j < length (pp_named pp) \<Longrightarrow> fst (pp_named pp ! j) = n \<longleftrightarrow> j = k" for j
        using k assms(1) by (auto simp: distinct_conv_nth)
      have "marked pp (Name n # ps) used = marked pp ps (used[k := True])"
        using Cons.prems k inj by (auto simp: marked_def names_in_def nth_list_update)
      then show ?thesis using Cons Name Some k
        by (cases "render_literal (snd (pp_named pp ! k))")
          (auto simp: positions_def append_literal_def split: sum.splits)
    qed
  qed
qed


section \<open>Guarantees\<close>

datatype binding = Bind_index int "value" | Bind_name string "value"

fun apply_binding :: "prepared_statement \<Rightarrow> binding \<Rightarrow> prepared_statement" where
  "apply_binding pp (Bind_index i v) = bind_index i v pp"
| "apply_binding pp (Bind_name n v) = bind_name n v pp"

definition bind_all :: "string \<Rightarrow> binding list \<Rightarrow> prepared_statement" where
  "bind_all sql bs = foldl apply_binding (prepare sql) bs"

lemma keys_bind_in: "fst ` set (bind_in n v nm) = insert n (fst ` set nm)"
  by (induction n v nm rule: bind_in.induct) auto

lemma distinct_bind_in: "distinct (map fst nm) \<Longrightarrow> distinct (map fst (bind_in n v nm))"
  by (induction n v nm rule: bind_in.induct) (auto simp: keys_bind_in)

lemma apply_binding_kept:
  "pp_sql (apply_binding pp b) = pp_sql pp"
  "distinct (map fst (pp_named pp)) \<Longrightarrow> distinct (map fst (pp_named (apply_binding pp b)))"
  by (cases b; auto simp: bind_index_def bind_name_def Let_def distinct_bind_in)+

lemma bind_all_kept: "pp_sql (bind_all sql bs) = sql \<and> distinct (map fst (pp_named (bind_all sql bs)))"
proof (induction bs rule: rev_induct)
  case (snoc b bs)
  then show ?case by (auto simp: bind_all_def apply_binding_kept)
qed (simp add: bind_all_def prepare_def)

lemma first_unused_None:
  "length us = length nm \<Longrightarrow> first_unused nm us = None \<longleftrightarrow> list_all id us"
  by (induction nm us rule: first_unused.induct) auto

lemma marked_all:
  "list_all id (marked pp ps (replicate (length (pp_named pp)) False)) \<longleftrightarrow> fst ` set (pp_named pp) \<subseteq> names_in ps"
proof -
  let ?P = "\<lambda>k. fst (pp_named pp ! k) \<in> names_in ps"
  have "list_all id (marked pp ps (replicate (length (pp_named pp)) False)) \<longleftrightarrow> (\<forall>k < length (pp_named pp). ?P k)"
    by (auto simp: marked_def list_all_iff)
  also have "\<dots> \<longleftrightarrow> (\<forall>nv \<in> set (pp_named pp). fst nv \<in> names_in ps)" by (simp add: all_set_conv_all_nth)
  finally show ?thesis by blast
qed

text \<open>C9: \<open>PreparedStatement::expand\<close> succeeds exactly when every bind used a valid index, there are as many
  positional placeholders outside quoted strings as positions up to the highest one bound, every bound name
  occurs as a placeholder and every value substituted has a literal.  A position below the highest that was never
  bound counts as bound, to \<open>null\<close>; a name in the text that was never bound is no obstacle.  And then the text
  is the template with the literals in the places of their placeholders, everything else, quoted strings and
  unbound names included, as it was.  The interface's documentation has an unknown placeholder be an error;
  this is what the code does instead.\<close>

theorem expand_exact:
  "expand (bind_all sql bs) = Inr out \<longleftrightarrow>
     (let pp = bind_all sql bs
      in pp_bind_error pp = None \<and> positions (parts sql) = length (pp_positional pp) \<and>
         fst ` set (pp_named pp) \<subseteq> names_in (parts sql) \<and>
         (\<exists>ts. all_results (filled (pp_named pp) (parts sql) (pp_positional pp)) = Inr ts \<and> out = concat ts))"
proof -
  define pp where "pp = bind_all sql bs"
  let ?none = "replicate (length (pp_named pp)) False"
  have sql: "pp_sql pp = sql" and names: "distinct (map fst (pp_named pp))"
    using bind_all_kept unfolding pp_def by blast+
  have loop: "expand_loop pp False sql 0 ?none '''' = Inr (t, pos, used) \<longleftrightarrow>
      positions (parts sql) \<le> length (pp_positional pp) \<and> pos = positions (parts sql) \<and>
      used = marked pp (parts sql) ?none \<and>
      (\<exists>ts. all_results (filled (pp_named pp) (parts sql) (pp_positional pp)) = Inr ts \<and> t = concat ts)" for t pos used
    unfolding expand_loop_parts using fill_loop_iff [OF names, of ?none 0 "parts sql" "''''"] by simp
  have "length (marked pp (parts sql) ?none) = length (pp_named pp)" by (simp add: marked_def)
  then have unused: "first_unused (pp_named pp) (marked pp (parts sql) ?none) = None \<longleftrightarrow>
      fst ` set (pp_named pp) \<subseteq> names_in (parts sql)"
    using first_unused_None marked_all by blast
  have "expand pp = Inr out \<longleftrightarrow> pp_bind_error pp = None \<and>
      (\<exists>pos used. expand_loop pp False sql 0 ?none '''' = Inr (out, pos, used) \<and>
         length (pp_positional pp) \<le> pos \<and> first_unused (pp_named pp) used = None)"
    by (cases "pp_bind_error pp"; cases "expand_loop pp False sql 0 ?none ''''")
      (auto simp: expand_def sql fail_with_def split: option.splits if_splits)
  also have "\<dots> \<longleftrightarrow> pp_bind_error pp = None \<and> positions (parts sql) = length (pp_positional pp) \<and>
      first_unused (pp_named pp) (marked pp (parts sql) ?none) = None \<and>
      (\<exists>ts. all_results (filled (pp_named pp) (parts sql) (pp_positional pp)) = Inr ts \<and> out = concat ts)"
    unfolding loop by (safe; simp)
  finally show ?thesis unfolding unused pp_def [symmetric] Let_def .
qed

text \<open>The scanner's rule for quoted strings, and the lexeme it takes from a text: the longest one.\<close>

fun paired :: "string \<Rightarrow> bool" where
  "paired [] = True"
| "paired [c] = (c \<noteq> CHR 0x22)"
| "paired (c # d # cs) = (if c \<noteq> CHR 0x22 then paired (d # cs) else d = CHR 0x22 \<and> paired cs)"

definition dquoted_lexeme :: "string \<Rightarrow> bool" where
  "dquoted_lexeme s \<longleftrightarrow> (\<exists>body. s = quoted body \<and> paired body)"

definition scans_as :: "string \<Rightarrow> string \<Rightarrow> bool" where
  "scans_as input lexeme \<longleftrightarrow>
     dquoted_lexeme lexeme \<and> (\<exists>rest. input = lexeme @ rest) \<and>
     (\<forall>p rest. input = p @ rest \<longrightarrow> dquoted_lexeme p \<longrightarrow> length p \<le> length lexeme)"

lemma double_quotes_simps [simp]:
  "double_quotes [] = []" "double_quotes (c # s) = (if c = CHR 0x22 then [c, c] else [c]) @ double_quotes s"
  by (simp_all add: double_quotes_def)

lemma paired_plain: "c \<noteq> CHR 0x22 \<Longrightarrow> paired (c # cs) = paired cs"
  by (cases cs) auto

lemma paired_double_quotes: "paired (double_quotes s)"
  by (induction s) (auto simp: paired_plain)

lemma no_longer_lexeme:
  assumes "double_quotes s @ CHR 0x22 # rest = body @ CHR 0x22 # rest'" and "paired body"
    and "take 1 rest \<noteq> [CHR 0x22]"
  shows "length body \<le> length (double_quotes s)"
  using assms
proof (induction s arbitrary: body)
  case Nil
  then show ?case by (cases body rule: paired.cases) (auto simp: take_Suc split: if_splits)
next
  case (Cons c s)
  show ?case
  proof (cases "c = CHR 0x22")
    case True
    show ?thesis
    proof (cases body rule: paired.cases)
      case (3 a b cs)
      then have "double_quotes s @ CHR 0x22 # rest = cs @ CHR 0x22 # rest'" "paired cs"
        using Cons.prems(1,2) True by auto
      then show ?thesis using Cons.IH Cons.prems(3) 3 True by simp
    qed (use Cons.prems True in auto)
  next
    case False
    then show ?thesis using Cons by (cases body) (auto simp: paired_plain)
  qed
qed

text \<open>Of the lexemes of this rule, the longest at a bound string is its literal.\<close>

lemma bound_string_scans_as:
  assumes "render_literal (S s) = Inr lit" and "take 1 rest \<noteq> [CHR 0x22]"
  shows "scans_as (lit @ rest) lit \<and> unquote lit = double_quotes s"
proof -
  have lit: "lit = quoted (double_quotes s)" using assms(1) by simp
  have "length p \<le> length lit" if p: "lit @ rest = p @ rest'" "dquoted_lexeme p" for p rest'
  proof -
    obtain body where body: "p = quoted body" "paired body" using p(2) by (auto simp: dquoted_lexeme_def)
    then have "double_quotes s @ CHR 0x22 # rest = body @ CHR 0x22 # rest'" using p(1) lit by (simp add: quoted_def)
    from no_longer_lexeme [OF this body(2) assms(2)] show ?thesis using lit body by (simp add: quoted_def)
  qed
  moreover have "dquoted_lexeme lit" using lit paired_double_quotes by (auto simp: dquoted_lexeme_def)
  moreover have "unquote lit = double_quotes s" by (simp add: lit unquote_def quoted_def)
  ultimately show ?thesis unfolding scans_as_def by blast
qed

lemma length_double_quotes: "length (double_quotes s) = length s + length (filter (\<lambda>c. c = CHR 0x22) s)"
  by (induction s) auto

lemma double_quotes_same: "double_quotes s = s \<longleftrightarrow> CHR 0x22 \<notin> set s"
proof
  assume "double_quotes s = s"
  then have "filter (\<lambda>c. c = CHR 0x22) s = []" using length_double_quotes [of s] by simp
  then show "CHR 0x22 \<notin> set s" by (auto simp: filter_empty_conv)
next
  assume "CHR 0x22 \<notin> set s"
  then show "double_quotes s = s" by (induction s) auto
qed

text \<open>The text with every quote written twice, apart from how the program goes about it.\<close>

lemma double_quotes_every: "double_quotes s = concat (map (\<lambda>c. if c = CHR 0x22 then [c, c] else [c]) s)"
  by (induction s) auto


text \<open>Not every placeholder needs a value: a name that is not bound stays in the text, a position below
  the highest one bound is filled with \<open>null\<close>, and a number is inserted as it is, whatever its text.\<close>

theorem unbound_placeholders_pass:
  "expand (bind_all ''x = :a'' []) = Inr ''x = :a'' \<and>
   expand (bind_all ''?, ?'' [Bind_index 2 (BOOL True)]) = Inr ''null, true'' \<and>
   expand (bind_all ''?'' [Bind_index 1 (N s)]) = Inr s"
proof -
  have "expand (bind_all ''x = :a'' []) = Inr ''x = :a''" "expand (bind_all ''?, ?'' [Bind_index 2 (BOOL True)]) = Inr ''null, true''"
    by code_simp+
  moreover have "expand (bind_all ''?'' [Bind_index 1 (N s)]) = Inr s"
    by (simp add: expand_def bind_all_def prepare_def bind_index_def resized_def expand_loop.simps(2) append_literal_def)
  ultimately show ?thesis by blast
qed

text \<open>\<open>Cell::as_int\<close> reads back every integer that a \<open>long long\<close> can hold from its printed number, and
  nothing else: an integer out of that range is refused, not wrapped.\<close>

theorem as_int_reads_back:
  "as_int (Some (N (to_string_int i))) = (if - (2 ^ 63) \<le> i \<and> i < 2 ^ 63 then Some i else None)"
proof -
  have digits: "list_all is_digit (to_string n)" for n
    using to_string_chars [of n] unfolding list_all_iff is_digit_def by blast
  have head: "(case to_string n of c # _ \<Rightarrow> c = CHR ''-'' | [] \<Rightarrow> False) = False" for n
    using digits [of n] by (cases "to_string n") (auto simp: is_digit_def)
  show ?thesis
  proof (cases "i < 0")
    case True
    then show ?thesis
      by (simp add: to_string_int_def from_chars_ll_def digits_val_def to_string_value in_long_long_def
          digits to_string_nonempty) arith
  next
    case False
    then show ?thesis
      by (simp add: to_string_int_def from_chars_ll_def digits_val_def to_string_value in_long_long_def
          digits head to_string_nonempty) arith
  qed
qed

end
