(* ===== verification/Connection.thy ===== *)
theory Connection
  imports Session_Buffer Prepared
begin

text \<open>
  The second half of the embedding API (\<open>connection.hpp\<close>, \<open>connection.cpp\<close>): the result sets of a batch,
  the cursor that walks them and runs the statements as it advances, and the connection handle.
\<close>

section \<open>Result sets\<close>

datatype result_kind = Rk_rows | Rk_status | Rk_write | Rk_report | Rk_explain | Rk_empty

datatype write_verb = Wv_update | Wv_upsert | Wv_del

fun to_write_verb :: "verb \<Rightarrow> write_verb" where
  "to_write_verb Verb_update = Wv_update"
| "to_write_verb Verb_upsert = Wv_upsert"
| "to_write_verb Verb_del = Wv_del"

record result_set =
  rd_kind :: result_kind
  rd_rows :: "item_row list"
  rd_scores :: "real list"
  rd_cc :: "consumed_capacity option"
  rd_status :: string
  rd_diagnostics :: "string list"
  rd_read :: nat
  rd_modified :: nat
  rd_ccf :: nat
  rd_verb :: write_verb
  rd_lines :: "string list"
  rd_explain_blocks :: "explain_block list"
  rd_render_source :: exec_outcome

text \<open>A default \<open>ResultSetData\<close> of a kind, rendered as \<open>o\<close>.\<close>

definition new_set :: "result_kind \<Rightarrow> exec_outcome \<Rightarrow> result_set" where
  "new_set k src =
     \<lparr>rd_kind = k, rd_rows = [], rd_scores = [], rd_cc = None, rd_status = '''', rd_diagnostics = [], rd_read = 0,
      rd_modified = 0, rd_ccf = 0, rd_verb = Wv_update, rd_lines = [], rd_explain_blocks = [], rd_render_source = src\<rparr>"

definition written_row :: "string list \<Rightarrow> item_row option list \<Rightarrow> nat \<Rightarrow> result_set" where
  "written_row toks items i =
     (new_set Rk_status (WriteOutcome [toks ! i] (if i < length items then [items ! i] else [])))
       \<lparr>rd_status := toks ! i\<rparr>"

fun flatten :: "exec_outcome \<Rightarrow> result_set list" where
  "flatten (StatusOutcome token diagnostics) =
     [(new_set Rk_status (StatusOutcome token diagnostics))\<lparr>rd_status := token, rd_diagnostics := diagnostics\<rparr>]"
| "flatten (ReportOutcome ls) = [(new_set Rk_report (ReportOutcome ls))\<lparr>rd_lines := ls\<rparr>]"
| "flatten EmptyOutcome = [new_set Rk_empty EmptyOutcome]"
| "flatten (SelectOutcome s) =
     [(new_set Rk_rows (SelectOutcome s))\<lparr>rd_rows := so_items s, rd_cc := so_consumed_capacity s\<rparr>]"
| "flatten (VectorSearchOutcome rows vc) =
     [(new_set Rk_rows (VectorSearchOutcome rows vc))\<lparr>rd_rows := map fst rows, rd_scores := map snd rows\<rparr>]"
| "flatten (WriteOutcome toks items) = map (written_row toks items) [0..<length toks]"
| "flatten (BulkWriteOutcome b) =
     [(new_set Rk_write (BulkWriteOutcome b))\<lparr>rd_read := bw_read b, rd_modified := bw_modified b, rd_ccf := bw_ccf b,
        rd_verb := to_write_verb (bw_verb b), rd_cc := bw_consumed_capacity b\<rparr>]"
| "flatten (TransactOutcome token diagnostics) =
     [(new_set Rk_status (TransactOutcome token diagnostics))\<lparr>rd_status := token, rd_diagnostics := diagnostics\<rparr>]"
| "flatten (TransactReadOutcome items) = [(new_set Rk_rows (TransactReadOutcome items))\<lparr>rd_rows := items\<rparr>]"
| "flatten (ExplainOutcome blocks trailing) =
     [(new_set Rk_explain (ExplainOutcome blocks trailing))\<lparr>rd_explain_blocks := blocks\<rparr>]"
| "flatten (MultiOutcome ps) = concat (map flatten ps)"

section \<open>The cursor\<close>

text \<open>\<open>Results::Impl\<close>; \<open>None\<close> as statement index is \<open>kBeforeFirst\<close>.  The session it borrows is passed along.\<close>

record results =
  ru_statements :: "parsed_statement list"
  ru_parse_error :: "error option"
  ru_stmt_index :: "nat option"
  ru_loaded :: bool
  ru_done :: bool
  ru_sets :: "result_set list"
  ru_set_index :: nat
  ru_error :: "error option"
  ru_row_index :: int
  ru_current_row :: item_row

definition new_results :: "parsed_batch \<Rightarrow> results" where
  "new_results batch =
     \<lparr>ru_statements = pb_statements batch, ru_parse_error = pb_error batch, ru_stmt_index = None, ru_loaded = False,
      ru_done = False, ru_sets = [], ru_set_index = 0, ru_error = None, ru_row_index = -1, ru_current_row = []\<rparr>"

definition reset_row_cursor :: "results \<Rightarrow> results" where
  "reset_row_cursor ru = ru\<lparr>ru_row_index := -1, ru_current_row := []\<rparr>"

definition current :: "results \<Rightarrow> result_set option" where
  "current ru = (if \<not> ru_loaded ru \<or> length (ru_sets ru) \<le> ru_set_index ru then None
     else Some (ru_sets ru ! ru_set_index ru))"

definition next_index :: "results \<Rightarrow> nat" where
  "next_index ru = (case ru_stmt_index ru of None \<Rightarrow> 0 | Some i \<Rightarrow> i + 1)"

definition stop :: "results \<Rightarrow> results" where
  "stop ru = ru\<lparr>ru_done := True, ru_loaded := False, ru_sets := []\<rparr>"

definition load :: "exec_outcome \<Rightarrow> results \<Rightarrow> results" where
  "load out ru = reset_row_cursor (ru\<lparr>ru_sets := flatten out, ru_set_index := 0, ru_loaded := True\<rparr>)"

function advance_statement ::
    "'h environment \<Rightarrow> 'w iddb_client \<Rightarrow> results \<Rightarrow> ('w, 'h) session \<Rightarrow> (bool \<times> results \<times> ('w, 'h) session) option" where
  "advance_statement env client ru sn =
     (if ru_done ru then Some (False, ru, sn)
      else if length (ru_statements ru) \<le> next_index ru then
        Some (False, (stop ru)\<lparr>ru_error := (if ru_parse_error ru \<noteq> None \<and> ru_error ru = None
            then ru_parse_error ru else ru_error ru)\<rparr>, sn)
      else (let ru' = ru\<lparr>ru_stmt_index := Some (next_index ru)\<rparr>
            in case execute_buffered env client (ru_statements ru ! next_index ru) sn of
                 None \<Rightarrow> None
               | Some (Inl e, sn') \<Rightarrow> Some (False, (stop ru')\<lparr>ru_error := Some e\<rparr>, sn')
               | Some (Inr out, sn') \<Rightarrow>
                   (if flatten out = [] then advance_statement env client (load out ru') sn'
                    else Some (True, load out ru', sn'))))"
  by pat_completeness auto

termination
  by (relation "measure (\<lambda>(env, client, ru, sn). length (ru_statements ru) - next_index ru)")
    (auto simp: next_index_def load_def reset_row_cursor_def split: option.splits)

declare advance_statement.simps [simp del]

definition next_result ::
    "'h environment \<Rightarrow> 'w iddb_client \<Rightarrow> results \<Rightarrow> ('w, 'h) session \<Rightarrow> (bool \<times> results \<times> ('w, 'h) session) option" where
  "next_result env client ru sn =
     (if ru_done ru then Some (False, ru, sn)
      else if ru_loaded ru \<and> ru_set_index ru + 1 < length (ru_sets ru)
      then Some (True, reset_row_cursor (ru\<lparr>ru_set_index := ru_set_index ru + 1\<rparr>), sn)
      else advance_statement env client ru sn)"

definition next_row :: "results \<Rightarrow> bool \<times> results" where
  "next_row ru =
     (case current ru of
        None \<Rightarrow> (False, ru)
      | Some c \<Rightarrow>
          (if rd_kind c \<noteq> Rk_rows then (False, ru)
           else (let nxt = ru_row_index ru + 1
                 in if nxt < 0 \<or> length (rd_rows c) \<le> nat nxt then (False, ru)
                    else (True, ru\<lparr>ru_row_index := nxt, ru_current_row := rd_rows c ! nat nxt\<rparr>))))"

section \<open>What is read from the cursor\<close>

definition kind :: "results \<Rightarrow> result_kind" where
  "kind ru = (case current ru of Some c \<Rightarrow> rd_kind c | None \<Rightarrow> Rk_empty)"

definition column_count :: "results \<Rightarrow> nat" where
  "column_count ru = length (ru_current_row ru)"

definition column_name :: "results \<Rightarrow> nat \<Rightarrow> string" where
  "column_name ru i = (if length (ru_current_row ru) \<le> i then '''' else fst (ru_current_row ru ! i))"

definition column :: "results \<Rightarrow> string \<Rightarrow> cell" where
  "column ru name = row_cell (ru_current_row ru) name"

definition column_at :: "results \<Rightarrow> nat \<Rightarrow> cell" where
  "column_at ru i = (if length (ru_current_row ru) \<le> i then None else Some (snd (ru_current_row ru ! i)))"

definition score :: "results \<Rightarrow> real" where
  "score ru =
     (case current ru of
        None \<Rightarrow> 0
      | Some c \<Rightarrow>
          (if ru_row_index ru < 0 then 0
           else if nat (ru_row_index ru) < length (rd_scores c) then rd_scores c ! nat (ru_row_index ru) else 0))"

definition of_current :: "(result_set \<Rightarrow> 'a) \<Rightarrow> 'a \<Rightarrow> results \<Rightarrow> 'a" where
  "of_current f dflt ru = (case current ru of Some c \<Rightarrow> f c | None \<Rightarrow> dflt)"

definition status_token :: "results \<Rightarrow> string" where
  "status_token = of_current rd_status ''''"

definition explain_text :: "results \<Rightarrow> string" where
  "explain_text ru =
     (case current ru of
        None \<Rightarrow> ''''
      | Some c \<Rightarrow> (if rd_kind c \<noteq> Rk_explain then '''' else render_outcome (ExplainOutcome (rd_explain_blocks c) None)))"

definition diagnostics :: "results \<Rightarrow> string list" where
  "diagnostics = of_current rd_diagnostics []"

definition render :: "results \<Rightarrow> string" where
  "render ru = (case current ru of None \<Rightarrow> '''' | Some c \<Rightarrow> render_outcome (rd_render_source c))"

text \<open>What \<open>render_all\<close> adds for the current set: its standard output and its standard error text.\<close>

definition render_current :: "results \<Rightarrow> string" where
  "render_current ru =
     (case current ru of
        None \<Rightarrow> ''''
      | Some c \<Rightarrow> render_outcome (rd_render_source c) @ render_outcome_stderr (rd_render_source c))"

partial_function (option) render_rest ::
    "'h environment \<Rightarrow> 'w iddb_client \<Rightarrow> results \<Rightarrow> ('w, 'h) session \<Rightarrow> string \<Rightarrow>
     (string \<times> results \<times> ('w, 'h) session) option" where
  "render_rest env client ru sn out =
     (case next_result env client ru sn of
        None \<Rightarrow> None
      | Some (found, ru', sn') \<Rightarrow>
          (if found then render_rest env client ru' sn' (out @ render_current ru') else Some (out, ru', sn')))"

definition render_all ::
    "'h environment \<Rightarrow> 'w iddb_client \<Rightarrow> results \<Rightarrow> ('w, 'h) session \<Rightarrow> (string \<times> results \<times> ('w, 'h) session) option" where
  "render_all env client ru sn = render_rest env client ru sn (render_current ru)"


definition results_read :: "results \<Rightarrow> nat" where
  "results_read = of_current rd_read 0"

definition results_modified :: "results \<Rightarrow> nat" where
  "results_modified = of_current rd_modified 0"

definition results_ccf :: "results \<Rightarrow> nat" where
  "results_ccf = of_current rd_ccf 0"

definition results_verb :: "results \<Rightarrow> write_verb" where
  "results_verb = of_current rd_verb Wv_update"

definition results_lines :: "results \<Rightarrow> string list" where
  "results_lines = of_current rd_lines []"

definition results_consumed_capacity :: "results \<Rightarrow> consumed_capacity option" where
  "results_consumed_capacity = of_current rd_cc None"

section \<open>The connection\<close>

text \<open>
  The handle: its configuration, the configuration of its session (none once closed) and the state the
  session runs in.  The client and the parser are arguments; \<open>open\<close> makes the driver for a text.
\<close>

record ('w, 'h) connection =
  co_cfg :: session_config
  co_session :: "session_config option"
  co_exec :: "('w, 'h) exec_state"
  co_closed :: bool

record ('h, 'd) embedding =
  em_env :: "'h environment"
  em_driver :: "'d driver"
  em_open :: "string \<Rightarrow> 'd"

definition make_session :: "('w, 'h) connection \<Rightarrow> ('w, 'h) connection" where
  "make_session co = co\<lparr>co_session := Some (co_cfg co), co_exec := (co_exec co)\<lparr>alias_prefix_counter := 0\<rparr>\<rparr>"

definition open_connection :: "session_config \<Rightarrow> 'w \<Rightarrow> 'h \<Rightarrow> ('w, 'h) connection" where
  "open_connection cfg w h =
     make_session \<lparr>co_cfg = cfg, co_session = None,
       co_exec = \<lparr>world = w, host = h, alias_prefix_counter = 0, emitted = []\<rparr>, co_closed = False\<rparr>"

text \<open>The session object the handle points to, and the handle after the session has run.\<close>

definition session_of :: "('w, 'h) connection \<Rightarrow> ('w, 'h) session" where
  "session_of co = \<lparr>sn_config = (case co_session co of Some c \<Rightarrow> c | None \<Rightarrow> co_cfg co), sn_exec = co_exec co\<rparr>"

definition with_session :: "('w, 'h) session \<Rightarrow> ('w, 'h) connection \<Rightarrow> ('w, 'h) connection" where
  "with_session sn co = co\<lparr>co_session := Some (sn_config sn), co_exec := sn_exec sn\<rparr>"

definition closed_error :: "'a result" where
  "closed_error = fail_with invalid_argument ''connection is closed''"

definition exec ::
    "('h, 'd) embedding \<Rightarrow> 'w iddb_client \<Rightarrow> string \<Rightarrow> ('w, 'h) connection \<Rightarrow>
     (results result \<times> ('w, 'h) connection) option" where
  "exec em client sql co =
     (if co_closed co then Some (closed_error, co)
      else case parse_batch (em_driver em) [] (em_open em sql) of
        None \<Rightarrow> None
      | Some batch \<Rightarrow>
          (case (pb_statements batch, pb_error batch) of
             ([], Some e) \<Rightarrow> Some (Inl e, co)
           | _ \<Rightarrow>
               (case advance_statement (em_env em) client (new_results batch) (session_of co) of
                  None \<Rightarrow> None
                | Some (_, ru, sn) \<Rightarrow> Some (Inr ru, with_session sn co))))"

definition exec_prepared ::
    "('h, 'd) embedding \<Rightarrow> 'w iddb_client \<Rightarrow> prepared_statement \<Rightarrow> ('w, 'h) connection \<Rightarrow>
     (results result \<times> ('w, 'h) connection) option" where
  "exec_prepared em client pp co =
     (case expand pp of Inl e \<Rightarrow> Some (Inl e, co) | Inr sql \<Rightarrow> exec em client sql co)"

fun kind_name :: "result_kind \<Rightarrow> string" where
  "kind_name Rk_status = ''status''"
| "kind_name Rk_write = ''write''"
| "kind_name Rk_report = ''report''"
| "kind_name Rk_explain = ''explain''"
| "kind_name Rk_empty = ''empty''"
| "kind_name Rk_rows = ''rows''"

text \<open>\<open>while (results.next_row()) rows.push_back(results.row())\<close>\<close>

function fetch_rows :: "results \<Rightarrow> item_row list \<Rightarrow> item_row list" where
  "fetch_rows ru rows =
     (if fst (next_row ru)
      then fetch_rows (snd (next_row ru)) (rows @ [ru_current_row (snd (next_row ru))])
      else rows)"
  by pat_completeness auto

termination
  by (relation "measure (\<lambda>(ru, rows). case current ru of None \<Rightarrow> 0
      | Some c \<Rightarrow> length (rd_rows c) - nat (ru_row_index ru + 1))")
    (auto simp: next_row_def Let_def current_def split: option.splits if_splits)

declare fetch_rows.simps [simp del]

definition query ::
    "('h, 'd) embedding \<Rightarrow> 'w iddb_client \<Rightarrow> string \<Rightarrow> ('w, 'h) connection \<Rightarrow>
     (item_row list result \<times> ('w, 'h) connection) option" where
  "query em client sql co =
     (case exec em client sql co of
        None \<Rightarrow> None
      | Some (Inl e, co') \<Rightarrow> Some (Inl e, co')
      | Some (Inr ru, co') \<Rightarrow>
          Some (if kind ru \<noteq> Rk_rows
             then (case ru_error ru of
                Some e \<Rightarrow> Inl e
              | None \<Rightarrow> fail_with invalid_argument
                  (''query() requires a row-returning statement; the result kind is '' @ kind_name (kind ru)))
             else (case ru_error ru of Some e \<Rightarrow> Inl e | None \<Rightarrow> Inr (fetch_rows ru [])), co'))"

definition query_prepared ::
    "('h, 'd) embedding \<Rightarrow> 'w iddb_client \<Rightarrow> prepared_statement \<Rightarrow> ('w, 'h) connection \<Rightarrow>
     (item_row list result \<times> ('w, 'h) connection) option" where
  "query_prepared em client pp co =
     (case expand pp of Inl e \<Rightarrow> Some (Inl e, co) | Inr sql \<Rightarrow> query em client sql co)"

definition reconnect ::
    "'w iddb_client \<Rightarrow> string \<Rightarrow> string \<Rightarrow> ('w, 'h) connection \<Rightarrow> unit result \<times> ('w, 'h) connection" where
  "reconnect client region endpoint co =
     (if co_closed co then (closed_error, co)
      else (let (r, w) = connect client region endpoint (world (co_exec co));
                co' = co\<lparr>co_exec := (co_exec co)\<lparr>world := w\<rparr>\<rparr>
            in case r of
                 Inl e \<Rightarrow> (Inl e, co')
               | Inr _ \<Rightarrow> (Inr (), make_session (co'\<lparr>co_cfg := \<lparr>cfg_region = region, cfg_endpoint = endpoint\<rparr>\<rparr>))))"

definition region :: "('w, 'h) connection \<Rightarrow> string" where
  "region co = (case co_session co of None \<Rightarrow> cfg_region (co_cfg co) | Some _ \<Rightarrow> fst (connection_hint (session_of co)))"

definition endpoint_overridden :: "('w, 'h) connection \<Rightarrow> bool" where
  "endpoint_overridden co =
     (case co_session co of None \<Rightarrow> cfg_endpoint (co_cfg co) \<noteq> [] | Some _ \<Rightarrow> snd (connection_hint (session_of co)))"

definition close :: "('w, 'h) connection \<Rightarrow> ('w, 'h) connection" where
  "close co = co\<lparr>co_session := None, co_closed := True\<rparr>"


section \<open>Flattening prints the same text\<close>

definition set_text :: "result_set \<Rightarrow> string" where
  "set_text c = render_outcome (rd_render_source c) @ render_outcome_stderr (rd_render_source c)"

lemma render_source_new_set [simp]: "rd_render_source (new_set k src) = src"
  by (simp add: new_set_def)

text \<open>The result sets of an outcome print exactly what the outcome prints, on the standard output and on
  the standard error: flattening a batch of writes into one set per row, and nested outcomes into their
  parts, loses and reorders nothing.\<close>

theorem flatten_prints_the_same:
  "concat (map (\<lambda>c. render_outcome (rd_render_source c)) (flatten out)) = render_outcome out \<and>
   concat (map (\<lambda>c. render_outcome_stderr (rd_render_source c)) (flatten out)) = render_outcome_stderr out"
proof (induction out)
  case (WriteOutcome toks items)
  then show ?case
    by (auto simp: render_write_def lines_of_def written_row_def write_line_def split: option.split
        intro!: arg_cong [where f = concat])
next
  case (MultiOutcome ps)
  then have "concat (map (\<lambda>c. render_outcome (rd_render_source c)) (concat (map flatten ps))) = concat (map render_outcome ps) \<and>
      concat (map (\<lambda>c. render_outcome_stderr (rd_render_source c)) (concat (map flatten ps))) = concat (map render_outcome_stderr ps)"
    by (induction ps) auto
  then show ?case by simp
qed simp_all


section \<open>A walk over all result sets runs the batch\<close>

text \<open>The statements in order, up to the first that fails: their outcomes, that error, the final session.\<close>

fun run_batch ::
    "'h environment \<Rightarrow> 'w iddb_client \<Rightarrow> parsed_statement list \<Rightarrow> ('w, 'h) session \<Rightarrow>
     (exec_outcome list \<times> error option \<times> ('w, 'h) session) option" where
  "run_batch env client [] sn = Some ([], None, sn)"
| "run_batch env client (st # sts) sn =
     (case execute_buffered env client st sn of
        None \<Rightarrow> None
      | Some (Inl e, sn') \<Rightarrow> Some ([], Some e, sn')
      | Some (Inr out, sn') \<Rightarrow>
          (case run_batch env client sts sn' of
             None \<Rightarrow> None
           | Some (outs, err, sn'') \<Rightarrow> Some (out # outs, err, sn'')))"

definition batch_text :: "exec_outcome list \<Rightarrow> string" where
  "batch_text outs = concat (map (\<lambda>out. concat (map set_text (flatten out))) outs)"

text \<open>What an application sees of the end of a walk: the text, the error and the session.\<close>

definition seen :: "(string \<times> results \<times> ('w, 'h) session) option \<Rightarrow> (string \<times> error option \<times> ('w, 'h) session) option" where
  "seen = map_option (\<lambda>(out, ru, sn). (out, ru_error ru, sn))"

definition batch_seen ::
    "'h environment \<Rightarrow> 'w iddb_client \<Rightarrow> results \<Rightarrow> ('w, 'h) session \<Rightarrow> string \<Rightarrow>
     (string \<times> error option \<times> ('w, 'h) session) option" where
  "batch_seen env client ru sn out =
     (case run_batch env client (drop (next_index ru) (ru_statements ru)) sn of
        None \<Rightarrow> None
      | Some (outs, err, sn') \<Rightarrow>
          Some (out @ batch_text outs, case err of Some e \<Rightarrow> Some e | None \<Rightarrow> ru_parse_error ru, sn'))"

lemma batch_seen_cong:
  "ru_statements ru' = ru_statements ru \<Longrightarrow> ru_stmt_index ru' = ru_stmt_index ru \<Longrightarrow>
     ru_parse_error ru' = ru_parse_error ru \<Longrightarrow> batch_seen env client ru' sn out = batch_seen env client ru sn out"
  by (auto simp: batch_seen_def next_index_def split: option.split)

definition advance_and_render ::
    "'h environment \<Rightarrow> 'w iddb_client \<Rightarrow> results \<Rightarrow> ('w, 'h) session \<Rightarrow> string \<Rightarrow>
     (string \<times> results \<times> ('w, 'h) session) option" where
  "advance_and_render env client ru sn out =
     (case advance_statement env client ru sn of
        None \<Rightarrow> None
      | Some (found, ru', sn') \<Rightarrow>
          (if found then render_rest env client ru' sn' (out @ render_current ru') else Some (out, ru', sn')))"

lemma render_rest_last:
  "\<not> ru_done ru \<Longrightarrow> length (ru_sets ru) \<le> ru_set_index ru + 1 \<Longrightarrow>
     render_rest env client ru sn out = advance_and_render env client ru sn out"
  by (simp add: render_rest.simps [of env client ru] advance_and_render_def next_result_def)

lemma render_rest_inner:
  "\<not> ru_done ru \<Longrightarrow> ru_loaded ru \<Longrightarrow> ru_set_index ru + 1 < length (ru_sets ru) \<Longrightarrow>
     render_rest env client ru sn out =
       render_rest env client (reset_row_cursor (ru\<lparr>ru_set_index := ru_set_index ru + 1\<rparr>)) sn
         (out @ set_text (ru_sets ru ! (ru_set_index ru + 1)))"
  by (simp add: render_rest.simps [of env client ru] next_result_def render_current_def current_def set_text_def
      reset_row_cursor_def)

lemma render_rest_sets:
  assumes "\<not> ru_done ru" "ru_loaded ru" "ru_set_index ru < length (ru_sets ru)"
    and "\<And>ru' out'. ru_statements ru' = ru_statements ru \<Longrightarrow> ru_stmt_index ru' = ru_stmt_index ru \<Longrightarrow>
      ru_parse_error ru' = ru_parse_error ru \<Longrightarrow> ru_error ru' = ru_error ru \<Longrightarrow> \<not> ru_done ru' \<Longrightarrow>
      seen (advance_and_render env client ru' sn out') = batch_seen env client ru' sn out'"
  shows "seen (render_rest env client ru sn out) =
     batch_seen env client ru sn (out @ concat (map set_text (drop (ru_set_index ru + 1) (ru_sets ru))))"
  using assms
proof (induction "length (ru_sets ru) - ru_set_index ru" arbitrary: ru out)
  case (Suc n)
  show ?case
  proof (cases "ru_set_index ru + 1 < length (ru_sets ru)")
    case True
    let ?ru = "reset_row_cursor (ru\<lparr>ru_set_index := ru_set_index ru + 1\<rparr>)"
    let ?t = "set_text (ru_sets ru ! (ru_set_index ru + 1))"
    have "seen (render_rest env client ?ru sn (out @ ?t)) =
        batch_seen env client ?ru sn ((out @ ?t) @ concat (map set_text (drop (ru_set_index ?ru + 1) (ru_sets ?ru))))"
      by (rule Suc.hyps(1)) (use Suc True in \<open>auto simp: reset_row_cursor_def\<close>)
    moreover have "drop (ru_set_index ru + 1) (ru_sets ru) =
        ru_sets ru ! (ru_set_index ru + 1) # drop (Suc (Suc (ru_set_index ru))) (ru_sets ru)"
      using True Cons_nth_drop_Suc [of "ru_set_index ru + 1" "ru_sets ru"] by simp
    moreover have "batch_seen env client ?ru sn t = batch_seen env client ru sn t" for t
      by (rule batch_seen_cong) (simp_all add: reset_row_cursor_def)
    ultimately show ?thesis
      using Suc.prems(1,2) True by (simp add: render_rest_inner reset_row_cursor_def)
  next
    case False
    then show ?thesis using Suc.prems by (simp add: render_rest_last)
  qed
qed simp

lemma advance_and_render_batch:
  assumes "\<not> ru_done ru" "ru_error ru = None"
  shows "seen (advance_and_render env client ru sn out) = batch_seen env client ru sn out"
  using assms
proof (induction "length (ru_statements ru) - next_index ru" arbitrary: ru sn out rule: less_induct)
  case less
  show ?case
  proof (cases "next_index ru < length (ru_statements ru)")
    case False
    then show ?thesis
      using less.prems by (auto simp: advance_and_render_def advance_statement.simps [of env client ru] seen_def
          batch_seen_def batch_text_def stop_def split: option.split)
  next
    case True
    let ?st = "ru_statements ru ! next_index ru" and ?ru = "ru\<lparr>ru_stmt_index := Some (next_index ru)\<rparr>"
    have pending: "drop (next_index ru) (ru_statements ru) = ?st # drop (Suc (next_index ru)) (ru_statements ru)"
      using True by (simp add: Cons_nth_drop_Suc)
    have IH: "seen (advance_and_render env client ru' sn' out') = batch_seen env client ru' sn' out'"
      if "ru_statements ru' = ru_statements ru" "ru_stmt_index ru' = Some (next_index ru)"
        "\<not> ru_done ru'" "ru_error ru' = None" for ru' sn' out'
      by (rule less.hyps) (use that True in \<open>auto simp: next_index_def\<close>)
    consider (hang) "execute_buffered env client ?st sn = None"
      | (err) e sn' where "execute_buffered env client ?st sn = Some (Inl e, sn')"
      | (ok) o1 sn' where "execute_buffered env client ?st sn = Some (Inr o1, sn')"
      by (cases "execute_buffered env client ?st sn") (auto, metis sum.exhaust)
    then show ?thesis
    proof cases
      case hang
      then show ?thesis using less.prems True pending
        by (simp add: advance_and_render_def advance_statement.simps [of env client ru] seen_def batch_seen_def)
    next
      case err
      then show ?thesis using less.prems True pending
        by (simp add: advance_and_render_def advance_statement.simps [of env client ru] seen_def batch_seen_def
            batch_text_def stop_def)
    next
      case ok
      let ?loaded = "load o1 ?ru"
      have rest: "batch_seen env client ru sn out =
          batch_seen env client ?loaded sn' (out @ concat (map set_text (flatten o1)))"
        using ok pending by (simp add: batch_seen_def next_index_def load_def reset_row_cursor_def batch_text_def
            split: option.split)
      show ?thesis
      proof (cases "flatten o1")
        case Nil
        then have "advance_and_render env client ru sn out = advance_and_render env client ?loaded sn' out"
          using ok less.prems True
          by (simp add: advance_and_render_def advance_statement.simps [of env client ru])
        also have "seen \<dots> = batch_seen env client ?loaded sn' out"
          by (rule IH) (use less.prems in \<open>simp_all add: load_def reset_row_cursor_def\<close>)
        finally show ?thesis using rest Nil by simp
      next
        case (Cons c cs)
        then have "advance_and_render env client ru sn out =
            render_rest env client ?loaded sn' (out @ set_text c)"
          using ok less.prems True
          by (simp add: advance_and_render_def advance_statement.simps [of env client ru] render_current_def
              current_def set_text_def load_def reset_row_cursor_def)
        also have "seen \<dots> = batch_seen env client ?loaded sn' ((out @ set_text c) @
            concat (map set_text (drop (ru_set_index ?loaded + 1) (ru_sets ?loaded))))"
          by (rule render_rest_sets) (use less.prems Cons IH in \<open>auto simp: load_def reset_row_cursor_def\<close>)
        finally show ?thesis using rest Cons by (simp add: load_def reset_row_cursor_def)
      qed
    qed
  qed
qed


lemma load_simps [simp]:
  "ru_done (load out ru) = ru_done ru" "ru_error (load out ru) = ru_error ru" "ru_loaded (load out ru)"
  "ru_sets (load out ru) = flatten out" "ru_set_index (load out ru) = 0" "ru_row_index (load out ru) = -1"
  "ru_current_row (load out ru) = []"
  by (simp_all add: load_def reset_row_cursor_def)

lemma advance_ends:
  "advance_statement env client ru sn = Some (False, ru', sn') \<Longrightarrow> \<not> ru_done ru \<Longrightarrow>
     ru_done ru' \<and> \<not> ru_loaded ru' \<and> ru_sets ru' = []"
proof (induction env client ru sn rule: advance_statement.induct)
  case (1 env client ru sn)
  then show ?case
    by (auto simp: advance_statement.simps [of env client ru] stop_def Let_def
        split: if_splits option.splits sum.splits) blast
qed

definition exec_and_render ::
    "'h environment \<Rightarrow> 'w iddb_client \<Rightarrow> parsed_batch \<Rightarrow> ('w, 'h) session \<Rightarrow>
     (string \<times> results \<times> ('w, 'h) session) option" where
  "exec_and_render env client batch sn =
     (case advance_statement env client (new_results batch) sn of
        None \<Rightarrow> None
      | Some (_, ru, sn') \<Rightarrow> render_all env client ru sn')"

text \<open>C5: Walking all result sets of a batch is running its statements in order.  \<open>render_all\<close> after
  \<open>exec\<close> returns exactly when every statement up to the first failing one returns; the text is that of all
  result sets of all outcomes in order, the error is that of the failing statement, else the parse error
  behind the last statement that could be parsed, and the session is the one the statements lead to.  The
  text contains the diagnostics of the standard error too.\<close>

theorem walk_runs_the_batch:
  "map_option (\<lambda>(out, ru, sn'). (out, ru_error ru, sn')) (exec_and_render env client batch sn) =
     (case run_batch env client (pb_statements batch) sn of
        None \<Rightarrow> None
      | Some (outs, err, sn') \<Rightarrow>
          Some (concat (map (\<lambda>out. concat (map (\<lambda>c. render_outcome (rd_render_source c) @
              render_outcome_stderr (rd_render_source c)) (flatten out))) outs),
            case err of Some e \<Rightarrow> Some e | None \<Rightarrow> pb_error batch, sn'))"
proof -
  let ?ru = "new_results batch"
  have fresh: "\<not> ru_done ?ru" "ru_error ?ru = None" "next_index ?ru = 0" "ru_statements ?ru = pb_statements batch"
    "ru_parse_error ?ru = pb_error batch"
    by (simp_all add: new_results_def next_index_def)
  have "exec_and_render env client batch sn = advance_and_render env client ?ru sn ''''"
  proof (cases "advance_statement env client ?ru sn")
    case (Some r)
    obtain found ru' sn' where r: "r = (found, ru', sn')" by (cases r) auto
    show ?thesis
    proof (cases found)
      case True
      then show ?thesis using Some r by (simp add: exec_and_render_def advance_and_render_def render_all_def)
    next
      case False
      then have "ru_done ru'" "\<not> ru_loaded ru'" using advance_ends [of env client ?ru sn ru' sn'] Some r fresh by auto
      then show ?thesis using Some r False
        by (simp add: exec_and_render_def advance_and_render_def render_all_def render_current_def current_def
            render_rest.simps [of env client ru'] next_result_def)
    qed
  qed (simp add: exec_and_render_def advance_and_render_def)
  then show ?thesis
    using advance_and_render_batch [OF fresh(1,2), of env client sn "''''"] fresh(3,4,5)
    by (auto simp: seen_def batch_seen_def batch_text_def set_text_def [abs_def] split: option.split)
qed

section \<open>The cursor is always in order\<close>

definition on_row :: "results \<Rightarrow> bool" where
  "on_row ru \<longleftrightarrow>
     (case current ru of
        None \<Rightarrow> False
      | Some c \<Rightarrow> rd_kind c = Rk_rows \<and> nat (ru_row_index ru) < length (rd_rows c) \<and>
          ru_current_row ru = rd_rows c ! nat (ru_row_index ru))"

definition cursor_ok :: "results \<Rightarrow> bool" where
  "cursor_ok ru \<longleftrightarrow>
     (if ru_done ru then \<not> ru_loaded ru \<and> ru_sets ru = []
      else ru_loaded ru \<and> ru_set_index ru < length (ru_sets ru) \<and> ru_error ru = None \<and> -1 \<le> ru_row_index ru \<and>
        (ru_row_index ru = -1 \<and> ru_current_row ru = [] \<or> on_row ru))"

text \<open>The cursors an application can reach after \<open>exec\<close>.\<close>

inductive walk ::
    "'h environment \<Rightarrow> 'w iddb_client \<Rightarrow> parsed_batch \<Rightarrow> ('w, 'h) session \<Rightarrow> results \<Rightarrow> ('w, 'h) session \<Rightarrow> bool"
  for env :: "'h environment" and client :: "'w iddb_client" and batch :: parsed_batch and sn :: "('w, 'h) session" where
  walk_start: "advance_statement env client (new_results batch) sn = Some (found, ru, sn') \<Longrightarrow>
     walk env client batch sn ru sn'"
| walk_result: "walk env client batch sn ru sn' \<Longrightarrow> next_result env client ru sn' = Some (found, ru', sn'') \<Longrightarrow>
     walk env client batch sn ru' sn''"
| walk_row: "walk env client batch sn ru sn' \<Longrightarrow> next_row ru = (found, ru') \<Longrightarrow> walk env client batch sn ru' sn'"

lemma advance_cursor_ok:
  "advance_statement env client ru sn = Some (found, ru', sn') \<Longrightarrow> \<not> ru_done ru \<Longrightarrow> ru_error ru = None \<Longrightarrow> cursor_ok ru'"
proof (induction env client ru sn rule: advance_statement.induct)
  case (1 env client ru sn)
  then show ?case
    by (auto simp: advance_statement.simps [of env client ru] stop_def Let_def
        split: if_splits option.splits sum.splits) (auto simp: cursor_ok_def)
qed

lemma next_result_cursor_ok:
  assumes "cursor_ok ru" and "next_result env client ru sn = Some (found, ru', sn')"
  shows "cursor_ok ru'"
proof (cases "ru_done ru \<or> ru_set_index ru + 1 < length (ru_sets ru)")
  case True
  then show ?thesis using assms
    by (auto simp: next_result_def cursor_ok_def reset_row_cursor_def split: if_splits)
next
  case False
  then have "advance_statement env client ru sn = Some (found, ru', sn')" using assms(2) by (simp add: next_result_def)
  then show ?thesis by (rule advance_cursor_ok) (use assms(1) False in \<open>auto simp: cursor_ok_def\<close>)
qed

lemma next_row_cursor_ok: "cursor_ok ru \<Longrightarrow> next_row ru = (found, ru') \<Longrightarrow> cursor_ok ru'"
  by (auto simp: next_row_def cursor_ok_def on_row_def current_def Let_def split: option.splits if_splits)

text \<open>However an application walks the results, the cursor is in order: until the batch has ended it
  stands on a result set, there is no error yet, and the row read is either none or the row of the set at
  the row index; once it has ended nothing is left to read.\<close>

theorem cursor_always_ok:
  "walk env client batch sn ru sn' \<Longrightarrow> cursor_ok ru"
proof (induction rule: walk.induct)
  case (walk_start found ru sn')
  then show ?case by (rule advance_cursor_ok) (simp_all add: new_results_def)
next
  case (walk_result ru sn' found ru' sn'')
  then show ?case using next_result_cursor_ok by blast
next
  case (walk_row ru sn' found ru')
  then show ?case using next_row_cursor_ok by blast
qed


section \<open>The single-statement shortcut\<close>

lemma fetch_rows_all:
  "current ru = Some c \<Longrightarrow> rd_kind c = Rk_rows \<Longrightarrow> -1 \<le> ru_row_index ru \<Longrightarrow>
     fetch_rows ru rows = rows @ drop (nat (ru_row_index ru + 1)) (rd_rows c)"
proof (induction ru rows rule: fetch_rows.induct)
  case (1 ru rows)
  let ?k = "nat (ru_row_index ru + 1)"
  show ?case
  proof (cases "?k < length (rd_rows c)")
    case True
    then have step: "next_row ru = (True, ru\<lparr>ru_row_index := ru_row_index ru + 1, ru_current_row := rd_rows c ! ?k\<rparr>)"
      using "1.prems" by (simp add: next_row_def Let_def)
    have "Suc ?k = nat (ru_row_index ru + 1 + 1)" using "1.prems"(3) by linarith
    moreover have "drop ?k (rd_rows c) = rd_rows c ! ?k # drop (Suc ?k) (rd_rows c)"
      using True by (rule Cons_nth_drop_Suc [symmetric])
    moreover have "fetch_rows (snd (next_row ru)) (rows @ [ru_current_row (snd (next_row ru))]) =
        (rows @ [ru_current_row (snd (next_row ru))]) @ drop (nat (ru_row_index (snd (next_row ru)) + 1)) (rd_rows c)"
      by (rule "1.IH") (use step "1.prems" in \<open>auto simp: current_def split: if_splits\<close>)
    ultimately show ?thesis using step by (simp add: fetch_rows.simps [of ru])
  next
    case False
    then show ?thesis using "1.prems" by (simp add: fetch_rows.simps [of ru] next_row_def Let_def)
  qed
qed

text \<open>C24: \<open>Connection::query\<close> runs the first statement of its text and no other: the rows of its first result
  set are returned, or, if it returns none, an error that names the kind of what it does return.  Further
  statements of the text are neither run nor refused.\<close>

theorem query_runs_first_statement:
  assumes "\<not> co_closed co" and "parse_batch (em_driver em) [] (em_open em sql) = Some batch"
    and "pb_statements batch = st # sts"
    and "execute_buffered (em_env em) client st (session_of co) = Some (Inr out, sn)" and "flatten out = c # cs"
  shows "query em client sql co =
    Some (if rd_kind c = Rk_rows then Inr (rd_rows c)
      else fail_with invalid_argument
        (''query() requires a row-returning statement; the result kind is '' @ kind_name (rd_kind c)), with_session sn co)"
proof -
  let ?ru = "load out ((new_results batch)\<lparr>ru_stmt_index := Some 0\<rparr>)"
  have "advance_statement (em_env em) client (new_results batch) (session_of co) = Some (True, ?ru, sn)"
    using assms(3-5) by (subst advance_statement.simps) (simp add: new_results_def next_index_def)
  then have "exec em client sql co = Some (Inr ?ru, with_session sn co)"
    using assms(1-3) by (simp add: exec_def)
  moreover have cur: "current ?ru = Some c" using assms(5) by (simp add: current_def)
  moreover have "ru_error ?ru = None" by (simp add: new_results_def)
  moreover have "fetch_rows ?ru [] = rd_rows c" if "rd_kind c = Rk_rows"
    using fetch_rows_all [OF cur that, of "[]"] by simp
  ultimately show ?thesis by (simp add: query_def kind_def)
qed

text \<open>A parser that reads a SELECT and a SHOW TABLES from every text.\<close>

definition sample_rows :: parsed_statement where
  "sample_rows = \<lparr>ps_command = SelectCmd (sample_select None), ps_explain = False\<rparr>"

definition sample_embedding :: "(real, parsed_statement list) embedding" where
  "sample_embedding = \<lparr>em_env = sample_env,
     em_driver = (\<lambda>sts. case sts of [] \<Rightarrow> Step_empty_at_eof | st # sts \<Rightarrow> Step_statement st sts),
     em_open = (\<lambda>_. [sample_rows, sample_show])\<rparr>"

definition sample_connection :: "(memory, real) connection" where
  "sample_connection = open_connection \<lparr>cfg_region = ''us-east-1'', cfg_endpoint = []\<rparr> sample_memory 0"

lemma sample_session_of: "session_of sample_connection = sample_session"
  by (simp add: session_of_def sample_connection_def open_connection_def make_session_def sample_session_def
      sample_state_def)

lemma sample_rows_run:
  "execute_buffered sample_env memory_client sample_rows sample_session =
     Some (Inr (SelectOutcome \<lparr>so_items = [[(''a'', S ''x''), (''v'', N ''1'')], [(''a'', S ''y'')]],
       so_consumed_capacity = None\<rparr>), sample_session\<lparr>sn_exec := sample_state\<lparr>alias_prefix_counter := 1\<rparr>\<rparr>)"
  by (simp add: execute_buffered_def execute_stream_def sample_rows_def sample_session_def sample_env_def
      emit_single_def execute_select_def next_alias_prefix_def plan_select_def plan_classic_def sample_select_def
      get_key_schema_def choose_plan_def sample_state_def sample_memory_def exec_simps m_describe_table_def find_table_def
      key_schema_in_def described_def lim_make_def page_loop.simps [of default_host] scan_fetch_def m_scan_def
      scan_request_def plan_projection_def project_def bind_e_def select_finish_def fold_parts_def)


lemma sample_batch:
  "parse_batch (em_driver sample_embedding) [] (em_open sample_embedding sql) =
     Some \<lparr>pb_statements = [sample_rows, sample_show], pb_error = None\<rparr>"
  by (rule parse_batch_reads [where acc = "[]", simplified])
    (auto simp: sample_embedding_def intro!: driver_reads.intros)

theorem query_runs_first_statement_witness:
  "query sample_embedding memory_client ''select * from t; show tables;'' sample_connection =
     Some (Inr [[(''a'', S ''x''), (''v'', N ''1'')], [(''a'', S ''y'')]],
       with_session (sample_session\<lparr>sn_exec := sample_state\<lparr>alias_prefix_counter := 1\<rparr>\<rparr>) sample_connection)"
proof -
  let ?out = "SelectOutcome \<lparr>so_items = [[(''a'', S ''x''), (''v'', N ''1'')], [(''a'', S ''y'')]],
       so_consumed_capacity = None\<rparr>"
  have "em_env sample_embedding = sample_env" by (simp add: sample_embedding_def)
  then have run: "execute_buffered (em_env sample_embedding) memory_client sample_rows (session_of sample_connection) =
      Some (Inr ?out, sample_session\<lparr>sn_exec := sample_state\<lparr>alias_prefix_counter := 1\<rparr>\<rparr>)"
    by (simp add: sample_session_of sample_rows_run)
  have opened: "\<not> co_closed sample_connection"
    by (simp add: sample_connection_def open_connection_def make_session_def)
  show ?thesis
    using query_runs_first_statement [OF opened sample_batch [of "''select * from t; show tables;''"] _ run]
    by (simp add: new_set_def)
qed

theorem cursor_always_ok_witness:
  "\<exists>ru sn. walk sample_env memory_client \<lparr>pb_statements = [sample_rows], pb_error = None\<rparr> sample_session ru sn \<and>
     kind ru = Rk_rows \<and> ru_current_row ru = [(''a'', S ''x''), (''v'', N ''1'')] \<and> cursor_ok ru"
proof -
  let ?batch = "\<lparr>pb_statements = [sample_rows], pb_error = None\<rparr>"
  let ?sn = "sample_session\<lparr>sn_exec := sample_state\<lparr>alias_prefix_counter := 1\<rparr>\<rparr>"
  let ?items = "[[(''a'', S ''x''), (''v'', N ''1'')], [(''a'', S ''y'')]]"
  let ?ru = "load (SelectOutcome \<lparr>so_items = ?items, so_consumed_capacity = None\<rparr>)
     ((new_results ?batch)\<lparr>ru_stmt_index := Some 0\<rparr>)"
  let ?row = "?ru\<lparr>ru_row_index := 0, ru_current_row := hd ?items\<rparr>"
  have start: "advance_statement sample_env memory_client (new_results ?batch) sample_session = Some (True, ?ru, ?sn)"
    by (subst advance_statement.simps) (simp add: new_results_def next_index_def sample_rows_run)
  have cur: "current ?ru = Some ((new_set Rk_rows (SelectOutcome \<lparr>so_items = ?items, so_consumed_capacity = None\<rparr>))
      \<lparr>rd_rows := ?items, rd_cc := None\<rparr>)"
    by (simp add: current_def)
  have "next_row ?ru = (True, ?row)" by (simp add: next_row_def cur new_set_def)
  then have w: "walk sample_env memory_client ?batch sample_session ?row ?sn"
    by (rule walk_row [OF walk_start [OF start]])
  moreover have "kind ?row = Rk_rows" by (simp add: kind_def current_def new_set_def)
  ultimately show ?thesis using cursor_always_ok [OF w] by (intro exI [of _ ?row] exI [of _ ?sn]) simp
qed

end
