(* ===== verification/Aws_Values.thy ===== *)
theory Aws_Values
  imports Client_Seam
begin

text \<open>
  Values, items, names and errors on their way to and from the AWS SDK
  (\<^verbatim>\<open>aws/aws_ddb_client.cpp\<close>, first part).  The SDK's \<^verbatim>\<open>AttributeValue\<close> is a union; it is represented
  by the member that was set.  Its Base64 coding is a parameter.  A \<^verbatim>\<open>std::string\<close> handed over by
  \<^verbatim>\<open>c_str()\<close> arrives up to its first NUL, so that call is kept wherever the source makes it.
\<close>

section \<open>Values\<close>

definition c_str :: "string \<Rightarrow> string" where
  "c_str s = takeWhile (\<lambda>c. c \<noteq> CHR 0x00) s"

record base64 =
  decode64 :: "string \<Rightarrow> string"
  encode64 :: "string \<Rightarrow> string"

datatype sdk_value =
    Sdk_S string
  | Sdk_N string
  | Sdk_B string
  | Sdk_bool bool
  | Sdk_null
  | Sdk_L "sdk_value list"
  | Sdk_M "(string \<times> sdk_value) list"
  | Sdk_SS "string list"
  | Sdk_NS "string list"
  | Sdk_BS "string list"

type_synonym sdk_item = "(string, sdk_value) smap"

text \<open>A map is filled by \<^verbatim>\<open>emplace\<close>: of two entries with one key the first stays.\<close>

fun to_sdk_value :: "base64 \<Rightarrow> value \<Rightarrow> sdk_value" where
  "to_sdk_value b64 (S s) = Sdk_S (c_str s)"
| "to_sdk_value b64 (N s) = Sdk_N (c_str s)"
| "to_sdk_value b64 (B s) = Sdk_B (decode64 b64 (c_str s))"
| "to_sdk_value b64 (BOOL b) = Sdk_bool b"
| "to_sdk_value b64 NUL = Sdk_null"
| "to_sdk_value b64 (L vs) = Sdk_L (map (to_sdk_value b64) vs)"
| "to_sdk_value b64 (M kvs) =
     Sdk_M (smap_insert_all [] (map (\<lambda>kv. (c_str (fst kv), to_sdk_value b64 (snd kv))) kvs))"
| "to_sdk_value b64 (SS ss) = Sdk_SS (map c_str ss)"
| "to_sdk_value b64 (NS ss) = Sdk_NS (map c_str ss)"
| "to_sdk_value b64 (BS ss) = Sdk_BS (map (\<lambda>s. decode64 b64 (c_str s)) ss)"

definition to_sdk_item :: "base64 \<Rightarrow> value_map \<Rightarrow> sdk_item" where
  "to_sdk_item b64 item = smap_insert_all [] (map (\<lambda>(name, v). (c_str name, to_sdk_value b64 v)) item)"

fun from_sdk_value :: "base64 \<Rightarrow> sdk_value \<Rightarrow> value" where
  "from_sdk_value b64 (Sdk_S s) = S (c_str s)"
| "from_sdk_value b64 (Sdk_N s) = N (c_str s)"
| "from_sdk_value b64 (Sdk_bool b) = BOOL b"
| "from_sdk_value b64 Sdk_null = NUL"
| "from_sdk_value b64 (Sdk_B s) = B (c_str (encode64 b64 s))"
| "from_sdk_value b64 (Sdk_L vs) = L (map (from_sdk_value b64) vs)"
| "from_sdk_value b64 (Sdk_M kvs) = M (map (\<lambda>kv. (c_str (fst kv), from_sdk_value b64 (snd kv))) kvs)"
| "from_sdk_value b64 (Sdk_SS ss) = SS (map c_str ss)"
| "from_sdk_value b64 (Sdk_NS ss) = NS (map c_str ss)"
| "from_sdk_value b64 (Sdk_BS ss) = BS (map (\<lambda>s. c_str (encode64 b64 s)) ss)"

definition from_sdk_item :: "base64 \<Rightarrow> sdk_item \<Rightarrow> value_map" where
  "from_sdk_item b64 item = map (\<lambda>(name, v). (c_str name, from_sdk_value b64 v)) item"

definition to_sdk_names :: "attribute_names \<Rightarrow> (string, string) smap" where
  "to_sdk_names names = smap_insert_all [] (map (\<lambda>(token, name). (c_str token, c_str name)) names)"

fun to_sdk_rcc :: "return_consumed_capacity \<Rightarrow> string" where
  "to_sdk_rcc Rcc_total = ''TOTAL''"
| "to_sdk_rcc Rcc_indexes = ''INDEXES''"
| "to_sdk_rcc Rcc_none = ''NONE''"

fun to_sdk_return_value :: "return_value \<Rightarrow> string" where
  "to_sdk_return_value Rv_all_old = ''ALL_OLD''"
| "to_sdk_return_value Rv_all_new = ''ALL_NEW''"
| "to_sdk_return_value Rv_updated_old = ''UPDATED_OLD''"
| "to_sdk_return_value Rv_updated_new = ''UPDATED_NEW''"
| "to_sdk_return_value Rv_none = ''NONE''"

text \<open>The members of the SDK's \<^verbatim>\<open>ConsumedCapacity\<close>, each present if it has been set.\<close>

record sdk_consumed_capacity =
  sc_table_name :: "string option"
  sc_capacity_units :: "real option"
  sc_read_capacity_units :: "real option"
  sc_write_capacity_units :: "real option"

definition from_sdk_consumed_capacity :: "sdk_consumed_capacity \<Rightarrow> consumed_capacity option" where
  "from_sdk_consumed_capacity cc =
     (if sc_table_name cc = None \<and> sc_capacity_units cc = None \<and> sc_read_capacity_units cc = None \<and>
         sc_write_capacity_units cc = None then None
      else Some \<lparr>cc_table_name = map_option c_str (sc_table_name cc), cc_capacity_units = sc_capacity_units cc,
        cc_read_capacity_units = sc_read_capacity_units cc, cc_write_capacity_units = sc_write_capacity_units cc\<rparr>)"

section \<open>Errors\<close>

datatype sdk_error_type = CONDITIONAL_CHECK_FAILED | RESOURCE_NOT_FOUND | Other_error

record sdk_error =
  sx_type :: sdk_error_type
  sx_message :: string
  sx_exception_name :: string
  sx_request_id :: string
  sx_should_retry :: bool

text \<open>The error with a given code and message that carries name and request of the SDK's.\<close>

definition named_error :: "errc \<Rightarrow> string \<Rightarrow> sdk_error \<Rightarrow> error" where
  "named_error code msg err = \<lparr>err_code = code, err_message = msg,
     service_error_name = Some (c_str (sx_exception_name err)), request_id = Some (c_str (sx_request_id err))\<rparr>"

definition from_sdk_error :: "sdk_error \<Rightarrow> error" where
  "from_sdk_error err =
     named_error (if sx_type err = CONDITIONAL_CHECK_FAILED then conditional_check_failed else service_error)
       (c_str (sx_message err)) err"

definition plain_error :: "sdk_error \<Rightarrow> error" where
  "plain_error err = named_error service_error (c_str (sx_message err)) err"

definition transact_failed_error :: "sdk_error \<Rightarrow> error" where
  "transact_failed_error err =
     named_error service_error (''Transaction failed. '' @ c_str (sx_exception_name err) @ ''. '' @
       c_str (sx_request_id err) @ ''. '' @ c_str (sx_message err)) err"

text \<open>The messages composed for a failing ALTER; \<open>sep\<close> stands before the message of the service.\<close>

definition composed_error :: "string \<Rightarrow> string \<Rightarrow> sdk_error \<Rightarrow> error" where
  "composed_error intro sep err =
     named_error service_error (intro @ c_str (sx_exception_name err) @ ''. '' @ c_str (sx_request_id err) @ sep @
       c_str (sx_message err)) err"

section \<open>There and back\<close>

definition no_nul :: "string \<Rightarrow> bool" where
  "no_nul s \<longleftrightarrow> CHR 0x00 \<notin> set s"

lemma c_str_fixed [simp]: "c_str s = s \<longleftrightarrow> no_nul s"
  by (auto simp: c_str_def no_nul_def takeWhile_eq_all_conv)

lemma c_str_id: "no_nul s \<Longrightarrow> c_str s = s"
  using c_str_fixed by blast

lemma no_nul_c_str [simp]: "no_nul (c_str s)"
  by (auto simp: c_str_def no_nul_def dest: set_takeWhileD)

lemma c_str_idem [simp]: "c_str (c_str s) = c_str s"
  by simp

lemma c_str_comp: "c_str \<circ> c_str = c_str"
  by auto

lemma smap_emplace_last:
  assumes "\<forall>k'\<in>set (map fst m). k' < k"
  shows "smap_emplace k v m = m @ [(k, v)]"
  using assms by (induction k v m rule: smap_emplace.induct) (auto dest: order.asym)

lemma smap_insert_all_ordered: "smap_ok (m @ kvs) \<Longrightarrow> smap_insert_all m kvs = m @ kvs"
proof (induction kvs arbitrary: m)
  case (Cons kv kvs)
  obtain k v where kv: "kv = (k, v)" by fastforce
  have "smap_emplace k v m = m @ [(k, v)]"
    using Cons.prems kv by (intro smap_emplace_last) (auto simp: sorted_wrt_append)
  then show ?case using Cons kv by (simp add: smap_insert_all_def)
qed (simp add: smap_insert_all_def)

lemma smap_insert_all_id: "smap_ok kvs \<Longrightarrow> smap_insert_all [] kvs = kvs"
  using smap_insert_all_ordered [of "[]" kvs] by simp

lemma smap_insert_all_ok: "smap_ok (smap_insert_all [] kvs)"
  by (simp add: smap_ok_insert_all)

text \<open>The values that survive the way to the SDK and back: strings without NUL, Base64 text in the form the
  SDK prints it, maps in the order of their keys.\<close>

fun survives :: "base64 \<Rightarrow> value \<Rightarrow> bool" where
  "survives b64 (S s) = no_nul s"
| "survives b64 (N s) = no_nul s"
| "survives b64 (B s) = (c_str (encode64 b64 (decode64 b64 (c_str s))) = s)"
| "survives b64 (BOOL b) = True"
| "survives b64 NUL = True"
| "survives b64 (L vs) = list_all (survives b64) vs"
| "survives b64 (M kvs) = (smap_ok kvs \<and> list_all (\<lambda>kv. no_nul (fst kv) \<and> survives b64 (snd kv)) kvs)"
| "survives b64 (SS ss) = list_all no_nul ss"
| "survives b64 (NS ss) = list_all no_nul ss"
| "survives b64 (BS ss) = list_all (\<lambda>s. c_str (encode64 b64 (decode64 b64 (c_str s))) = s) ss"

lemma map_id_conv: "map f xs = xs \<longleftrightarrow> list_all (\<lambda>x. f x = x) xs"
  by (induction xs) auto

text \<open>A map read back: its keys are those of a \<^verbatim>\<open>std::map\<close>, without NUL.\<close>

lemma read_back_map:
  "map (\<lambda>kv. (c_str (fst kv), g (snd kv))) (smap_insert_all [] (map (\<lambda>kv. (c_str (fst kv), f (snd kv))) kvs)) = kvs \<longleftrightarrow>
     smap_ok kvs \<and> list_all (\<lambda>kv. no_nul (fst kv) \<and> g (f (snd kv)) = snd kv) kvs" (is "?lhs = kvs \<longleftrightarrow> ?rhs")
proof -
  let ?in = "map (\<lambda>kv. (c_str (fst kv), f (snd kv))) kvs"
  have ok: "smap_ok (smap_insert_all [] ?in)" by (rule smap_insert_all_ok)
  have nn: "no_nul k" if "k \<in> fst ` set (smap_insert_all [] ?in)" for k
    using that by (auto simp: keys_smap_insert_all)
  have keys: "map fst ?lhs = map fst (smap_insert_all [] ?in)"
    using nn by (auto simp: comp_def)
  have plain: "?lhs = map (\<lambda>kv. (fst kv, g (f (snd kv)))) kvs" if "smap_ok kvs" "list_all (\<lambda>kv. no_nul (fst kv)) kvs"
  proof -
    have eq: "?in = map (\<lambda>kv. (fst kv, f (snd kv))) kvs"
      using that(2) by (auto simp: list_all_iff)
    have "smap_insert_all [] ?in = ?in"
      using that(1) by (intro smap_insert_all_id) (simp add: eq comp_def)
    then show ?thesis using that(2) by (auto simp: list_all_iff)
  qed
  show ?thesis
  proof
    assume eq: "?lhs = kvs"
    have same: "map fst kvs = map fst (smap_insert_all [] ?in)" using keys unfolding eq .
    have "smap_ok kvs" unfolding same by (rule ok)
    moreover have "no_nul (fst kv)" if "kv \<in> set kvs" for kv
      using nn [of "fst kv"] that arg_cong [OF same, of set] by auto
    then have "list_all (\<lambda>kv. no_nul (fst kv)) kvs" by (simp add: list_all_iff)
    moreover from calculation have "map (\<lambda>kv. (fst kv, g (f (snd kv)))) kvs = kvs" using plain eq by simp
    ultimately show ?rhs by (auto simp: map_id_conv list_all_iff prod_eq_iff)
  next
    assume rhs: ?rhs
    then have "?lhs = map (\<lambda>kv. (fst kv, g (f (snd kv)))) kvs" by (intro plain) (auto simp: list_all_iff)
    also have "\<dots> = kvs" using rhs by (auto simp: map_id_conv list_all_iff prod_eq_iff)
    finally show "?lhs = kvs" .
  qed
qed


lemma value_survives: "from_sdk_value b64 (to_sdk_value b64 v) = v \<longleftrightarrow> survives b64 v"
proof (induction b64 v rule: survives.induct)
  case (6 b64 vs)
  then show ?case by (auto simp: map_id_conv list_all_iff)
next
  case (7 b64 kvs)
  have "list_all (\<lambda>kv. from_sdk_value b64 (to_sdk_value b64 (snd kv)) = snd kv) kvs \<longleftrightarrow>
      list_all (\<lambda>kv. survives b64 (snd kv)) kvs"
    using 7 by (auto simp: list_all_iff)
  then show ?case
    by (simp add: read_back_map [of "from_sdk_value b64" "to_sdk_value b64"]) (auto simp: list_all_iff)
qed (auto simp: map_id_conv comp_def c_str_comp list_all_iff)

lemma M_inject: "M x = M y \<longleftrightarrow> x = y"
  by simp

lemma to_sdk_item_M: "to_sdk_value b64 (M item) = Sdk_M (to_sdk_item b64 item)"
  by (simp add: to_sdk_item_def case_prod_unfold)

lemma from_sdk_item_M: "from_sdk_value b64 (Sdk_M item) = M (from_sdk_item b64 item)"
  by (simp add: from_sdk_item_def case_prod_unfold)

text \<open>What the SDK promises of a value it returns: its maps are \<^verbatim>\<open>std::map\<close>s.\<close>

fun sdk_ok :: "sdk_value \<Rightarrow> bool" where
  "sdk_ok (Sdk_L vs) = list_all sdk_ok vs"
| "sdk_ok (Sdk_M kvs) = (smap_ok kvs \<and> list_all (\<lambda>kv. sdk_ok (snd kv)) kvs)"
| "sdk_ok v = True"

fun sdk_clean :: "sdk_value \<Rightarrow> bool" where
  "sdk_clean (Sdk_S s) = no_nul s"
| "sdk_clean (Sdk_N s) = no_nul s"
| "sdk_clean (Sdk_L vs) = list_all sdk_clean vs"
| "sdk_clean (Sdk_M kvs) = list_all (\<lambda>kv. no_nul (fst kv) \<and> sdk_clean (snd kv)) kvs"
| "sdk_clean (Sdk_SS ss) = list_all no_nul ss"
| "sdk_clean (Sdk_NS ss) = list_all no_nul ss"
| "sdk_clean v = True"

definition codec_ok :: "base64 \<Rightarrow> bool" where
  "codec_ok b64 \<longleftrightarrow> (\<forall>x. no_nul (encode64 b64 x) \<and> decode64 b64 (encode64 b64 x) = x)"

lemma codec_okD: "codec_ok b64 \<Longrightarrow> decode64 b64 (c_str (encode64 b64 x)) = x"
  by (simp add: codec_ok_def c_str_id)

lemma sent_back_map:
  assumes "smap_ok kvs"
  shows "smap_insert_all [] (map (\<lambda>kv. (c_str (fst kv), g (snd kv))) (map (\<lambda>kv. (c_str (fst kv), f (snd kv))) kvs)) = kvs \<longleftrightarrow>
     list_all (\<lambda>kv. no_nul (fst kv) \<and> g (f (snd kv)) = snd kv) kvs" (is "?lhs = kvs \<longleftrightarrow> ?rhs")
proof -
  let ?in = "map (\<lambda>kv. (c_str (fst kv), g (f (snd kv)))) kvs"
  have l: "?lhs = smap_insert_all [] ?in" by (simp add: comp_def)
  have id: "?lhs = map (\<lambda>kv. (fst kv, g (f (snd kv)))) kvs" if "list_all (\<lambda>kv. no_nul (fst kv)) kvs"
  proof -
    have "?in = map (\<lambda>kv. (fst kv, g (f (snd kv)))) kvs" using that by (auto simp: list_all_iff)
    moreover have "smap_insert_all [] (map (\<lambda>kv. (fst kv, g (f (snd kv)))) kvs) = map (\<lambda>kv. (fst kv, g (f (snd kv)))) kvs"
      using assms by (intro smap_insert_all_id) (simp add: comp_def)
    ultimately show ?thesis unfolding l by (simp only:)
  qed
  show ?thesis
  proof
    assume eq: "?lhs = kvs"
    have "fst ` set kvs = fst ` set ?in" using keys_smap_insert_all [of "[]" ?in] eq unfolding l by simp
    then have "no_nul k" if "k \<in> fst ` set kvs" for k using that by (auto simp: image_iff)
    then have nn: "list_all (\<lambda>kv. no_nul (fst kv)) kvs" by (auto simp: list_all_iff)
    from id [OF nn] eq have "map (\<lambda>kv. (fst kv, g (f (snd kv)))) kvs = kvs" by simp
    with nn show ?rhs by (auto simp: map_id_conv list_all_iff prod_eq_iff)
  next
    assume rhs: ?rhs
    then have "?lhs = map (\<lambda>kv. (fst kv, g (f (snd kv)))) kvs" by (intro id) (auto simp: list_all_iff)
    then show "?lhs = kvs" using rhs by (auto simp: map_id_conv list_all_iff prod_eq_iff)
  qed
qed

lemma sent_back:
  assumes "codec_ok b64"
  shows "sdk_ok v \<Longrightarrow> to_sdk_value b64 (from_sdk_value b64 v) = v \<longleftrightarrow> sdk_clean v"
proof (induction v rule: sdk_clean.induct)
  case (3 vs)
  then show ?case by (auto simp: map_id_conv list_all_iff)
next
  case (4 kvs)
  have "list_all (\<lambda>kv. to_sdk_value b64 (from_sdk_value b64 (snd kv)) = snd kv) kvs \<longleftrightarrow>
      list_all (\<lambda>kv. sdk_clean (snd kv)) kvs"
    using 4 by (auto simp: list_all_iff)
  then show ?case using 4(2)
    by (simp add: sent_back_map [of _ "to_sdk_value b64" "from_sdk_value b64", simplified]) (auto simp: list_all_iff)
qed (auto simp: map_id_conv comp_def c_str_comp list_all_iff codec_okD [OF assms])

section \<open>Properties\<close>

text \<open>C16: A value comes back from the SDK as it was sent exactly if it survives: its strings have no NUL, its
  binary texts are in the form the SDK prints, and its maps have their keys in order, each once, all the way
  down.  Anything else arrives changed, without an error.\<close>

theorem sdk_value_roundtrip:
  "(from_sdk_value b64 (to_sdk_value b64 v) = v) = survives b64 v \<and>
   (from_sdk_item b64 (to_sdk_item b64 item) = item) = survives b64 (M item)"
  using value_survives [of b64 v] value_survives [of b64 "M item"]
  by (simp only: to_sdk_item_M from_sdk_item_M M_inject)

text \<open>The key of the last item of a page, handed back as the start of the next page, is the key the service
  returned exactly if none of its strings has a NUL; otherwise the next page starts elsewhere.\<close>

theorem resume_key_exact:
  assumes "codec_ok b64" and "sdk_ok (Sdk_M key)"
  shows "to_sdk_item b64 (from_sdk_item b64 key) = key \<longleftrightarrow> sdk_clean (Sdk_M key)"
  using sent_back [OF assms] by (simp only: to_sdk_item_M from_sdk_item_M sdk_value.inject)

text \<open>A codec for the witness: two letters for each byte.\<close>

fun pair_decode :: "string \<Rightarrow> string" where
  "pair_decode (a # b # s) = char_of ((of_char a - 97) * 16 + (of_char b - 97) :: nat) # pair_decode s"
| "pair_decode s = []"

fun pair_encode :: "string \<Rightarrow> string" where
  "pair_encode [] = []"
| "pair_encode (c # s) = char_of (97 + of_char c div 16 :: nat) # char_of (97 + of_char c mod 16 :: nat) # pair_encode s"

definition pair_codec :: base64 where
  "pair_codec = \<lparr>decode64 = pair_decode, encode64 = pair_encode\<rparr>"

lemma of_char_letter: "n < 16 \<Longrightarrow> of_char (char_of (97 + n :: nat)) = 97 + n"
  by (simp add: mod_less)

lemma pair_codec_ok: "codec_ok pair_codec"
proof -
  have hi: "of_char c div 16 < (16::nat)" for c
    using nat_of_char_less_256 [of c] by (simp add: div_less_iff_less_mult)
  have "pair_decode (pair_encode s) = s" for s
    by (induction s) (simp_all add: of_char_letter hi del: of_char_of)
  moreover have letter: "char_of (97 + n :: nat) \<noteq> CHR 0x00" if "n < 16" for n
    using of_char_letter [OF that] by (auto simp del: of_char_of)
  have "no_nul (pair_encode s)" for s
  proof (induction s)
    case (Cons c s)
    then show ?case using letter [OF hi [of c]] letter [of "of_char c mod 16"]
      by (simp add: no_nul_def)
  qed (simp add: no_nul_def)
  ultimately show ?thesis by (simp add: codec_ok_def pair_codec_def)
qed

theorem resume_key_exact_witness:
  "to_sdk_item pair_codec (from_sdk_item pair_codec [(''pk'', Sdk_S ''a''), (''rk'', Sdk_B ''x'')]) =
     [(''pk'', Sdk_S ''a''), (''rk'', Sdk_B ''x'')] \<and>
   to_sdk_item pair_codec (from_sdk_item pair_codec [(''pk'', Sdk_S [CHR ''a'', CHR 0x00])]) \<noteq> [(''pk'', Sdk_S [CHR ''a'', CHR 0x00])]"
  using resume_key_exact [OF pair_codec_ok, of "[(''pk'', Sdk_S ''a''), (''rk'', Sdk_B ''x'')]"]
    resume_key_exact [OF pair_codec_ok, of "[(''pk'', Sdk_S [CHR ''a'', CHR 0x00])]"]
  by (simp add: no_nul_def)

end
