(* ===== verification/Aws_Requests.thy ===== *)
theory Aws_Requests
  imports Aws_Values
begin

text \<open>
  The request builders of the AWS adapter (\<^verbatim>\<open>aws/aws_ddb_client.cpp\<close>).  A request object of the SDK is
  the list of the setters called on it, in order, with their arguments: that is all the adapter does to it.
  An enumeration value of the SDK is its name.  Key schema elements and projections, which the adapter also
  reads from responses, are records.
\<close>

section \<open>Objects of the SDK\<close>

type_synonym setter = string

datatype sdk_key_type = Sdk_HASH | Sdk_RANGE | Sdk_other_key

record sdk_key_element =
  ke_attribute_name :: string
  ke_key_type :: sdk_key_type

datatype sdk_projection_type = Sdk_ALL | Sdk_KEYS_ONLY | Sdk_INCLUDE | Sdk_other_projection

record sdk_projection =
  sp_projection_type :: sdk_projection_type
  sp_non_key_attributes :: "string list"

datatype sdk_arg =
    Arg_string string
  | Arg_bool bool
  | Arg_int int
  | Arg_enum string
  | Arg_item sdk_item
  | Arg_names "(string, string) smap"
  | Arg_values "sdk_value list"
  | Arg_keys "sdk_key_element list"
  | Arg_projection sdk_projection
  | Arg_object "(setter \<times> sdk_arg) list"
  | Arg_objects "(setter \<times> sdk_arg) list list"

type_synonym sdk_object = "(setter \<times> sdk_arg) list"

text \<open>A setter called only if an optional member has a value, or only if a collection is not empty.\<close>

definition set_if :: "setter \<Rightarrow> ('a \<Rightarrow> sdk_arg) \<Rightarrow> 'a option \<Rightarrow> sdk_object" where
  "set_if st arg x = (case x of None \<Rightarrow> [] | Some y \<Rightarrow> [(st, arg y)])"

definition set_text :: "setter \<Rightarrow> string option \<Rightarrow> sdk_object" where
  "set_text st x = set_if st (\<lambda>s. Arg_string (c_str s)) x"

definition set_names :: "attribute_names \<Rightarrow> sdk_object" where
  "set_names names = (if names = [] then [] else [(''SetExpressionAttributeNames'', Arg_names (to_sdk_names names))])"

definition set_values :: "base64 \<Rightarrow> value_map \<Rightarrow> sdk_object" where
  "set_values b64 vs = (if vs = [] then [] else [(''SetExpressionAttributeValues'', Arg_item (to_sdk_item b64 vs))])"

definition set_return_values :: "return_value \<Rightarrow> sdk_object" where
  "set_return_values rv = (if rv \<noteq> Rv_none then [(''SetReturnValues'', Arg_enum (to_sdk_return_value rv))] else [])"

definition set_capacity :: "return_consumed_capacity \<Rightarrow> sdk_object" where
  "set_capacity rcc = (if rcc \<noteq> Rcc_none then [(''SetReturnConsumedCapacity'', Arg_enum (to_sdk_rcc rcc))] else [])"

section \<open>Reads and writes\<close>

definition build_get_item :: "base64 \<Rightarrow> get_item_in \<Rightarrow> sdk_object" where
  "build_get_item b64 r =
     [(''SetTableName'', Arg_string (gi_table_name r)), (''SetKey'', Arg_item (to_sdk_item b64 (gi_key r)))] @
     set_text ''SetProjectionExpression'' (gi_projection_expression r) @
     set_names (gi_expression_attribute_names r) @
     [(''SetConsistentRead'', Arg_bool (gi_consistent_read r)),
      (''SetReturnConsumedCapacity'', Arg_enum (to_sdk_rcc (gi_return_consumed_capacity r)))]"

definition build_query :: "base64 \<Rightarrow> query_in \<Rightarrow> sdk_object" where
  "build_query b64 r =
     [(''SetTableName'', Arg_string (qi_table_name r))] @
     set_text ''SetIndexName'' (qi_index_name r) @
     [(''SetKeyConditionExpression'', Arg_string (c_str (qi_key_condition_expression r)))] @
     set_text ''SetFilterExpression'' (qi_filter_expression r) @
     set_text ''SetProjectionExpression'' (qi_projection_expression r) @
     set_names (qi_expression_attribute_names r) @
     set_values b64 (qi_expression_attribute_values r) @
     [(''SetConsistentRead'', Arg_bool (qi_consistent_read r)),
      (''SetReturnConsumedCapacity'', Arg_enum (to_sdk_rcc (qi_return_consumed_capacity r)))] @
     set_if ''SetExclusiveStartKey'' (\<lambda>k. Arg_item (to_sdk_item b64 k)) (qi_exclusive_start_key r)"

definition build_scan :: "base64 \<Rightarrow> scan_in \<Rightarrow> sdk_object" where
  "build_scan b64 r =
     [(''SetTableName'', Arg_string (si_table_name r))] @
     set_text ''SetIndexName'' (si_index_name r) @
     set_text ''SetFilterExpression'' (si_filter_expression r) @
     set_text ''SetProjectionExpression'' (si_projection_expression r) @
     set_names (si_expression_attribute_names r) @
     set_values b64 (si_expression_attribute_values r) @
     [(''SetConsistentRead'', Arg_bool (si_consistent_read r)),
      (''SetReturnConsumedCapacity'', Arg_enum (to_sdk_rcc (si_return_consumed_capacity r)))] @
     set_if ''SetExclusiveStartKey'' (\<lambda>k. Arg_item (to_sdk_item b64 k)) (si_exclusive_start_key r)"

definition build_put_item :: "base64 \<Rightarrow> put_item_in \<Rightarrow> sdk_object" where
  "build_put_item b64 r =
     [(''SetTableName'', Arg_string (pi_table_name r)), (''SetItem'', Arg_item (to_sdk_item b64 (pi_item r)))] @
     set_text ''SetConditionExpression'' (pi_condition_expression r) @
     set_names (pi_expression_attribute_names r) @
     set_values b64 (pi_expression_attribute_values r) @
     set_return_values (pi_return_values r) @
     set_capacity (pi_return_consumed_capacity r)"

definition build_update_item :: "base64 \<Rightarrow> update_item_in \<Rightarrow> sdk_object" where
  "build_update_item b64 r =
     [(''SetTableName'', Arg_string (ui_table_name r)), (''SetKey'', Arg_item (to_sdk_item b64 (ui_key r))),
      (''SetUpdateExpression'', Arg_string (c_str (ui_update_expression r)))] @
     set_text ''SetConditionExpression'' (ui_condition_expression r) @
     set_names (ui_expression_attribute_names r) @
     set_values b64 (ui_expression_attribute_values r) @
     set_return_values (ui_return_values r) @
     set_capacity (ui_return_consumed_capacity r)"

definition build_delete_item :: "base64 \<Rightarrow> delete_item_in \<Rightarrow> sdk_object" where
  "build_delete_item b64 r =
     [(''SetTableName'', Arg_string (di_table_name r)), (''SetKey'', Arg_item (to_sdk_item b64 (di_key r)))] @
     set_text ''SetConditionExpression'' (di_condition_expression r) @
     set_names (di_expression_attribute_names r) @
     set_values b64 (di_expression_attribute_values r) @
     set_return_values (di_return_values r) @
     set_capacity (di_return_consumed_capacity r)"

section \<open>Transactions\<close>

definition build_transact_get_sub :: "base64 \<Rightarrow> transact_get \<Rightarrow> sdk_object" where
  "build_transact_get_sub b64 g =
     [(''SetGet'', Arg_object (
       [(''SetTableName'', Arg_string (tg_table_name g)), (''SetKey'', Arg_item (to_sdk_item b64 (tg_key g)))] @
       set_text ''SetProjectionExpression'' (tg_projection_expression g) @
       set_names (tg_expression_attribute_names g)))]"

definition build_transact_get_items :: "base64 \<Rightarrow> transact_get list \<Rightarrow> sdk_object" where
  "build_transact_get_items b64 items = [(''SetTransactItems'', Arg_objects (map (build_transact_get_sub b64) items))]"

fun build_transact_write_sub :: "base64 \<Rightarrow> transact_write_item \<Rightarrow> sdk_object" where
  "build_transact_write_sub b64 (TransactPut w) =
     [(''SetPut'', Arg_object (
       [(''SetTableName'', Arg_string (tp_table_name w)), (''SetItem'', Arg_item (to_sdk_item b64 (tp_item w)))] @
       set_text ''SetConditionExpression'' (tp_condition_expression w) @
       set_names (tp_expression_attribute_names w) @ set_values b64 (tp_expression_attribute_values w)))]"
| "build_transact_write_sub b64 (TransactUpdate w) =
     [(''SetUpdate'', Arg_object (
       [(''SetTableName'', Arg_string (tu_table_name w)), (''SetKey'', Arg_item (to_sdk_item b64 (tu_key w))),
        (''SetUpdateExpression'', Arg_string (c_str (tu_update_expression w)))] @
       set_text ''SetConditionExpression'' (tu_condition_expression w) @
       set_names (tu_expression_attribute_names w) @ set_values b64 (tu_expression_attribute_values w)))]"
| "build_transact_write_sub b64 (TransactDelete w) =
     [(''SetDelete'', Arg_object (
       [(''SetTableName'', Arg_string (td_table_name w)), (''SetKey'', Arg_item (to_sdk_item b64 (td_key w)))] @
       set_text ''SetConditionExpression'' (td_condition_expression w) @
       set_names (td_expression_attribute_names w) @ set_values b64 (td_expression_attribute_values w)))]"
| "build_transact_write_sub b64 (TransactConditionCheck w) =
     [(''SetConditionCheck'', Arg_object (
       [(''SetTableName'', Arg_string (tc_table_name w)), (''SetKey'', Arg_item (to_sdk_item b64 (tc_key w))),
        (''SetConditionExpression'', Arg_string (c_str (tc_condition_expression w)))] @
       set_names (tc_expression_attribute_names w) @ set_values b64 (tc_expression_attribute_values w)))]"

definition build_transact_write_items :: "base64 \<Rightarrow> transact_write_item list \<Rightarrow> sdk_object" where
  "build_transact_write_items b64 items = [(''SetTransactItems'', Arg_objects (map (build_transact_write_sub b64) items))]"


section \<open>Table definitions\<close>

fun to_sdk_scalar :: "scalar_type \<Rightarrow> string" where
  "to_sdk_scalar Scalar_n = ''N''"
| "to_sdk_scalar Scalar_b = ''B''"
| "to_sdk_scalar Scalar_s = ''S''"

definition to_sdk_key_schema :: "key_schema \<Rightarrow> sdk_key_element list" where
  "to_sdk_key_schema ks =
     map (\<lambda>name. \<lparr>ke_attribute_name = name, ke_key_type = Sdk_HASH\<rparr>) (ks_hash ks) @
     map (\<lambda>name. \<lparr>ke_attribute_name = name, ke_key_type = Sdk_RANGE\<rparr>) (ks_range ks)"

definition to_sdk_projection :: "projection \<Rightarrow> sdk_projection" where
  "to_sdk_projection p =
     (case pj_type p of
        Projection_all \<Rightarrow> \<lparr>sp_projection_type = Sdk_ALL, sp_non_key_attributes = []\<rparr>
      | Projection_keys_only \<Rightarrow> \<lparr>sp_projection_type = Sdk_KEYS_ONLY, sp_non_key_attributes = []\<rparr>
      | Projection_include \<Rightarrow> \<lparr>sp_projection_type = Sdk_INCLUDE, sp_non_key_attributes = pj_non_key_attributes p\<rparr>)"

definition to_sdk_warm :: "warm_throughput \<Rightarrow> sdk_object" where
  "to_sdk_warm w =
     [(''SetReadUnitsPerSecond'', Arg_int (wt_read_units_per_second w)),
      (''SetWriteUnitsPerSecond'', Arg_int (wt_write_units_per_second w))]"

definition to_sdk_provisioned :: "billing_mode_and_throughput \<Rightarrow> sdk_object" where
  "to_sdk_provisioned b =
     [(''SetReadCapacityUnits'', Arg_int (bm_rcu b)), (''SetWriteCapacityUnits'', Arg_int (bm_wcu b))]"

definition to_sdk_ondemand :: "on_demand_throughput \<Rightarrow> sdk_object" where
  "to_sdk_ondemand od =
     set_if ''SetMaxReadRequestUnits'' Arg_int (od_max_read_request_units od) @
     set_if ''SetMaxWriteRequestUnits'' Arg_int (od_max_write_request_units od)"

text \<open>The throughput that goes with the mode of billing.\<close>

definition apply_gsi_throughput :: "billing_mode_and_throughput \<Rightarrow> sdk_object" where
  "apply_gsi_throughput b =
     (if bm_mode b = Provisioned then [(''SetProvisionedThroughput'', Arg_object (to_sdk_provisioned b))]
      else [(''SetOnDemandThroughput'', Arg_object (to_sdk_ondemand (bm_od b)))])"

definition set_billing :: "billing_mode_and_throughput \<Rightarrow> sdk_object" where
  "set_billing b =
     (''SetBillingMode'', Arg_enum (if bm_mode b = Provisioned then ''PROVISIONED'' else ''PAY_PER_REQUEST'')) #
     apply_gsi_throughput b"

definition apply_billing :: "billing_mode_and_throughput option \<Rightarrow> sdk_object" where
  "apply_billing billing =
     (case billing of None \<Rightarrow> [(''SetBillingMode'', Arg_enum ''PAY_PER_REQUEST'')] | Some b \<Rightarrow> set_billing b)"

definition gsi_throughput_if :: "billing_mode_and_throughput option \<Rightarrow> sdk_object" where
  "gsi_throughput_if billing = (case billing of None \<Rightarrow> [] | Some b \<Rightarrow> apply_gsi_throughput b)"

definition set_warm_if :: "warm_throughput option \<Rightarrow> sdk_object" where
  "set_warm_if w = set_if ''SetWarmThroughput'' (\<lambda>w. Arg_object (to_sdk_warm w)) w"

definition to_sdk_gsi_update :: "gsi_update \<Rightarrow> sdk_object" where
  "to_sdk_gsi_update gu =
     (let name = [(''SetIndexName'', Arg_string (gu_index_name gu))];
          throughput = gsi_throughput_if (gu_billing gu) @ set_warm_if (gu_warm gu)
      in case gu_action gu of
           Gsi_create \<Rightarrow>
             [(''SetCreate'', Arg_object (name @
                set_if ''SetKeySchema'' (\<lambda>ks. Arg_keys (to_sdk_key_schema ks)) (gu_key_schema gu) @
                set_if ''SetProjection'' (\<lambda>p. Arg_projection (to_sdk_projection p)) (gu_projection gu) @ throughput))]
         | Gsi_update \<Rightarrow> [(''SetUpdate'', Arg_object (name @ throughput))]
         | Gsi_drop \<Rightarrow> [(''SetDelete'', Arg_object name)])"

definition to_sdk_sse :: "sse_spec \<Rightarrow> sdk_object" where
  "to_sdk_sse s =
     (''SetEnabled'', Arg_bool (sse_enabled s)) #
     (if sse_enabled s
      then (''SetSSEType'', Arg_enum (if sse_sse_type s = Some Aes256 then ''AES256'' else ''KMS'')) #
        set_if ''SetKMSMasterKeyId'' Arg_string (sse_kms_master_key_id s)
      else [])"

fun to_sdk_stream_view :: "stream_view_type \<Rightarrow> string" where
  "to_sdk_stream_view Stream_keys_only = ''KEYS_ONLY''"
| "to_sdk_stream_view New_image = ''NEW_IMAGE''"
| "to_sdk_stream_view Old_image = ''OLD_IMAGE''"
| "to_sdk_stream_view New_and_old_images = ''NEW_AND_OLD_IMAGES''"

definition to_sdk_stream :: "stream_spec \<Rightarrow> sdk_object" where
  "to_sdk_stream s =
     (''SetStreamEnabled'', Arg_bool (ss_enabled s)) #
     (if ss_enabled s then [(''SetStreamViewType'', Arg_enum (to_sdk_stream_view (ss_view_type s)))] else [])"

definition to_sdk_table_class :: "table_class \<Rightarrow> string" where
  "to_sdk_table_class tc = (if tc = Standard_infrequent_access then ''STANDARD_INFREQUENT_ACCESS'' else ''STANDARD'')"

fun to_sdk_vector_distance :: "vector_distance \<Rightarrow> string" where
  "to_sdk_vector_distance Euclidean = ''EUCLIDEAN''"
| "to_sdk_vector_distance Dot_product = ''DOT_PRODUCT''"
| "to_sdk_vector_distance Cosine = ''COSINE''"

definition to_sdk_search_schema :: "search_schema_elem list \<Rightarrow> sdk_object list" where
  "to_sdk_search_schema schema =
     map (\<lambda>e. [(''SetAttributeName'', Arg_string (se_attr e)),
       (''SetSearchSchemaElementType'', Arg_enum (if se_kind e = Search_hash then ''HASH'' else ''INLINE_FILTER''))]) schema"

definition fill_vector_index :: "vector_index_def \<Rightarrow> sdk_object" where
  "fill_vector_index v =
     [(''SetIndexName'', Arg_string (vd_index_name v)),
      (''SetVectorAttribute'', Arg_object [(''SetAttributeName'', Arg_string (vd_vector_attr v))]),
      (''SetDimensions'', Arg_int (vd_dimensions v)),
      (''SetDistanceFunction'', Arg_enum (to_sdk_vector_distance (vd_distance v)))] @
     (if vd_search_schema v = [] then []
      else [(''SetSearchSchema'', Arg_objects (to_sdk_search_schema (vd_search_schema v)))]) @
     [(''SetProjection'', Arg_projection (to_sdk_projection (vd_projection v)))]"

definition to_sdk_vector_index :: "vector_index_def \<Rightarrow> sdk_object" where
  "to_sdk_vector_index v = fill_vector_index v"

definition to_sdk_vector_index_update :: "vector_index_update_def \<Rightarrow> sdk_object" where
  "to_sdk_vector_index_update u =
     (case vu_create u of
        Some v \<Rightarrow> [(''SetCreate'', Arg_object (fill_vector_index v))]
      | None \<Rightarrow>
          (case vu_drop u of
             Some name \<Rightarrow> [(''SetDelete'', Arg_object [(''SetIndexName'', Arg_string name)])]
           | None \<Rightarrow> []))"

definition build_search_vectors :: "base64 \<Rightarrow> search_vectors_in \<Rightarrow> sdk_object" where
  "build_search_vectors b64 r =
     [(''SetTableName'', Arg_string (sv_table_name r)), (''SetIndexName'', Arg_string (sv_index_name r)),
      (''SetSearchVector'', Arg_values (map (to_sdk_value b64) (sv_search_vector r))),
      (''SetTopK'', Arg_int (sv_topk r))] @
     set_if ''SetSearchConditionExpression'' Arg_string (sv_search_condition_expression r) @
     set_if ''SetProjectionExpression'' Arg_string (sv_projection_expression r) @
     set_names (sv_expression_attribute_names r) @
     set_values b64 (sv_expression_attribute_values r) @
     [(''SetReturnConsumedCapacity'', Arg_enum (to_sdk_rcc (sv_return_consumed_capacity r)))]"

definition add_attribute_definition :: "attribute_def \<Rightarrow> setter \<times> sdk_arg" where
  "add_attribute_definition a =
     (''AddAttributeDefinitions'', Arg_object
       [(''SetAttributeName'', Arg_string (ad_name a)), (''SetAttributeType'', Arg_enum (to_sdk_scalar (ad_type a)))])"

definition add_gsi :: "gsi \<Rightarrow> setter \<times> sdk_arg" where
  "add_gsi g =
     (''AddGlobalSecondaryIndexes'', Arg_object (
       [(''SetIndexName'', Arg_string (gsi_name g)), (''SetKeySchema'', Arg_keys (to_sdk_key_schema (gsi_key_schema g))),
        (''SetProjection'', Arg_projection (to_sdk_projection (gsi_projection g)))] @
       gsi_throughput_if (gsi_billing g) @ set_warm_if (gsi_warm g)))"

definition add_lsi :: "lsi \<Rightarrow> setter \<times> sdk_arg" where
  "add_lsi l =
     (''AddLocalSecondaryIndexes'', Arg_object
       [(''SetIndexName'', Arg_string (lsi_name l)), (''SetKeySchema'', Arg_keys (to_sdk_key_schema (lsi_key_schema l))),
        (''SetProjection'', Arg_projection (to_sdk_projection (lsi_projection l)))])"

definition add_tag :: "tag \<Rightarrow> setter \<times> sdk_arg" where
  "add_tag t =
     (''AddTags'', Arg_object [(''SetKey'', Arg_string (tag_key t)), (''SetValue'', Arg_string (tag_value t))])"

definition set_stream_if :: "stream_spec option \<Rightarrow> sdk_object" where
  "set_stream_if s = set_if ''SetStreamSpecification'' (\<lambda>s. Arg_object (to_sdk_stream s)) s"

definition set_sse_if :: "sse_spec option \<Rightarrow> sdk_object" where
  "set_sse_if s = set_if ''SetSSESpecification'' (\<lambda>s. Arg_object (to_sdk_sse s)) s"

definition build_create_table :: "create_table_in \<Rightarrow> sdk_object" where
  "build_create_table r =
     [(''SetTableName'', Arg_string (ct_table_name r))] @
     map add_attribute_definition (ct_attribute_definitions r) @
     [(''SetKeySchema'', Arg_keys (to_sdk_key_schema (ct_key_schema r)))] @
     apply_billing (ct_billing r) @
     set_warm_if (ct_warm r) @
     map add_gsi (ct_gsis r) @
     map add_lsi (ct_lsis r) @
     map (\<lambda>v. (''AddVectorIndexes'', Arg_object (to_sdk_vector_index v))) (ct_vector_indexes r) @
     set_stream_if (ct_stream r) @
     set_sse_if (ct_sse r) @
     [(''SetTableClass'', Arg_enum (to_sdk_table_class (ct_table_class r))),
      (''SetDeletionProtectionEnabled'', Arg_bool (ct_deletion_protection r))] @
     map add_tag (ct_tags r)"

definition to_sdk_throughput_override :: "provisioned_throughput_override \<Rightarrow> sdk_object" where
  "to_sdk_throughput_override ov = [(''SetReadCapacityUnits'', Arg_int (po_read_capacity_units ov))]"

definition to_sdk_replica_gsis :: "replica_gsi list \<Rightarrow> sdk_object list" where
  "to_sdk_replica_gsis gs =
     map (\<lambda>g. [(''SetIndexName'', Arg_string (rg_index_name g)),
       (''SetProvisionedThroughputOverride'', Arg_object (to_sdk_throughput_override (rg_throughput_override g)))]) gs"

definition replica_member :: "replica_update \<Rightarrow> sdk_object" where
  "replica_member r =
     [(''SetRegionName'', Arg_string (ru_region r)),
      (''SetTableClassOverride'', Arg_enum (to_sdk_table_class (case ru_table_class r of Some c \<Rightarrow> c | None \<Rightarrow> Standard)))] @
     set_if ''SetProvisionedThroughputOverride'' (\<lambda>ov. Arg_object (to_sdk_throughput_override ov)) (ru_throughput_override r) @
     (if ru_replica_gsis r = [] then []
      else [(''SetGlobalSecondaryIndexes'', Arg_objects (to_sdk_replica_gsis (ru_replica_gsis r)))])"

definition to_sdk_replica_update :: "replica_update \<Rightarrow> sdk_object" where
  "to_sdk_replica_update r =
     (case ru_action r of
        Replica_drop \<Rightarrow> [(''SetDelete'', Arg_object [(''SetRegionName'', Arg_string (ru_region r))])]
      | Replica_add \<Rightarrow> [(''SetCreate'', Arg_object (replica_member r))]
      | Replica_update \<Rightarrow> [(''SetUpdate'', Arg_object (replica_member r))])"

definition build_update_table :: "update_table_in \<Rightarrow> sdk_object" where
  "build_update_table r =
     [(''SetTableName'', Arg_string (ut_table_name r))] @
     (case ut_billing r of None \<Rightarrow> [] | Some b \<Rightarrow> set_billing b) @
     set_warm_if (ut_warm r) @
     set_sse_if (ut_sse r) @
     set_stream_if (ut_stream r) @
     set_if ''SetTableClass'' (\<lambda>c. Arg_enum (to_sdk_table_class c)) (ut_table_class r) @
     set_if ''SetDeletionProtectionEnabled'' Arg_bool (ut_deletion_protection r) @
     map add_attribute_definition (ut_attribute_definitions r) @
     map (\<lambda>gu. (''AddGlobalSecondaryIndexUpdates'', Arg_object (to_sdk_gsi_update gu))) (ut_gsi_updates r) @
     map (\<lambda>vu. (''AddVectorIndexUpdates'', Arg_object (to_sdk_vector_index_update vu))) (ut_vector_index_updates r) @
     set_if ''AddReplicaUpdates'' (\<lambda>ru. Arg_object (to_sdk_replica_update ru)) (ut_replica r)"

text \<open>The requests that are little more than a name.\<close>

definition build_delete_table :: "string \<Rightarrow> sdk_object" where
  "build_delete_table name = [(''SetTableName'', Arg_string name)]"

definition build_update_time_to_live :: "update_time_to_live_in \<Rightarrow> sdk_object" where
  "build_update_time_to_live r =
     [(''SetTableName'', Arg_string (ttl_table_name r)),
      (''SetTimeToLiveSpecification'', Arg_object
        [(''SetEnabled'', Arg_bool (ttl_enabled r)), (''SetAttributeName'', Arg_string (ttl_attribute_name r))])]"

definition build_update_continuous_backups :: "update_continuous_backups_in \<Rightarrow> sdk_object" where
  "build_update_continuous_backups r =
     [(''SetTableName'', Arg_string (ucb_table_name r)),
      (''SetPointInTimeRecoverySpecification'', Arg_object
        [(''SetPointInTimeRecoveryEnabled'', Arg_bool (ucb_enabled r))])]"

definition build_create_backup :: "create_backup_in \<Rightarrow> sdk_object" where
  "build_create_backup r =
     [(''SetTableName'', Arg_string (cb_table_name r)), (''SetBackupName'', Arg_string (cb_backup_name r))]"

definition build_delete_backup :: "string \<Rightarrow> sdk_object" where
  "build_delete_backup arn = [(''SetBackupArn'', Arg_string arn)]"

definition build_describe_backup :: "string \<Rightarrow> sdk_object" where
  "build_describe_backup arn = [(''SetBackupArn'', Arg_string arn)]"

definition build_restore_from_backup :: "restore_from_backup_in \<Rightarrow> sdk_object" where
  "build_restore_from_backup r =
     [(''SetTargetTableName'', Arg_string (rb_target_table_name r)), (''SetBackupArn'', Arg_string (rb_backup_arn r))]"

text \<open>The restore time is parsed by the SDK: \<open>parses\<close> tells whether it can be, and the time set is the one of
  that text.\<close>

definition build_restore_to_pitr :: "(string \<Rightarrow> bool) \<Rightarrow> restore_to_pitr_in \<Rightarrow> bool \<times> sdk_object" where
  "build_restore_to_pitr parses r =
     (let when_text = c_str (rp_restore_datetime r)
      in (parses when_text,
        [(''SetSourceTableName'', Arg_string (rp_source_table_name r)),
         (''SetTargetTableName'', Arg_string (rp_target_table_name r)),
         (''SetRestoreDateTime'', Arg_string when_text)]))"

definition build_describe_limits :: sdk_object where
  "build_describe_limits = []"

definition build_list_backups :: "list_backups_in \<Rightarrow> sdk_object" where
  "build_list_backups r =
     set_if ''SetTableName'' Arg_string (lb_table_name r) @
     set_if ''SetBackupType'' Arg_enum (lb_backup_type r) @
     [(''SetLimit'', Arg_int (lb_limit r))] @
     set_if ''SetExclusiveStartBackupArn'' Arg_string (lb_exclusive_start_backup_arn r)"

definition describe_of_table :: "string \<Rightarrow> sdk_object" where
  "describe_of_table name = [(''SetTableName'', Arg_string name)]"


section \<open>The request of an operation\<close>

text \<open>The type of the request object and its setters, for what EXPLAIN can be asked; a restore time that does
  not parse is the one error.\<close>

fun sdk_request :: "base64 \<Rightarrow> (string \<Rightarrow> bool) \<Rightarrow> explain_request \<Rightarrow> (string \<times> sdk_object) result" where
  "sdk_request b64 parses (ExplainGetItem r) = Inr (''GetItemRequest'', build_get_item b64 r)"
| "sdk_request b64 parses (ExplainQuery r) = Inr (''QueryRequest'', build_query b64 r)"
| "sdk_request b64 parses (ExplainScan r) = Inr (''ScanRequest'', build_scan b64 r)"
| "sdk_request b64 parses (ExplainPutItem r) = Inr (''PutItemRequest'', build_put_item b64 r)"
| "sdk_request b64 parses (ExplainUpdateItem r) = Inr (''UpdateItemRequest'', build_update_item b64 r)"
| "sdk_request b64 parses (ExplainDeleteItem r) = Inr (''DeleteItemRequest'', build_delete_item b64 r)"
| "sdk_request b64 parses (ExplainCreateTable r) = Inr (''CreateTableRequest'', build_create_table r)"
| "sdk_request b64 parses (ExplainUpdateTable r) = Inr (''UpdateTableRequest'', build_update_table r)"
| "sdk_request b64 parses (ExplainUpdateTimeToLive r) = Inr (''UpdateTimeToLiveRequest'', build_update_time_to_live r)"
| "sdk_request b64 parses (ExplainUpdateContinuousBackups r) =
     Inr (''UpdateContinuousBackupsRequest'', build_update_continuous_backups r)"
| "sdk_request b64 parses (ExplainDeleteTable t) = Inr (''DeleteTableRequest'', build_delete_table t)"
| "sdk_request b64 parses (ExplainDescribeTable t) = Inr (''DescribeTableRequest'', describe_of_table t)"
| "sdk_request b64 parses (ExplainDescribeTimeToLive t) = Inr (''DescribeTimeToLiveRequest'', describe_of_table t)"
| "sdk_request b64 parses (ExplainDescribeContinuousBackups t) =
     Inr (''DescribeContinuousBackupsRequest'', describe_of_table t)"
| "sdk_request b64 parses (ExplainDescribeTableReplicaAutoScaling t) =
     Inr (''DescribeTableReplicaAutoScalingRequest'', describe_of_table t)"
| "sdk_request b64 parses (ExplainTransactGetItems rs) = Inr (''TransactGetItemsRequest'', build_transact_get_items b64 rs)"
| "sdk_request b64 parses (ExplainTransactWriteItems rs) =
     Inr (''TransactWriteItemsRequest'', build_transact_write_items b64 rs)"
| "sdk_request b64 parses (ExplainCreateBackup r) = Inr (''CreateBackupRequest'', build_create_backup r)"
| "sdk_request b64 parses (ExplainDeleteBackup a) = Inr (''DeleteBackupRequest'', build_delete_backup a)"
| "sdk_request b64 parses (ExplainDescribeBackup a) = Inr (''DescribeBackupRequest'', build_describe_backup a)"
| "sdk_request b64 parses (ExplainRestoreFromBackup r) =
     Inr (''RestoreTableFromBackupRequest'', build_restore_from_backup r)"
| "sdk_request b64 parses (ExplainRestoreToPitr r) =
     (let (parsed, obj) = build_restore_to_pitr parses r
      in if parsed then Inr (''RestoreTableToPointInTimeRequest'', obj)
         else fail_with invalid_argument (''Invalid restore timestamp: '' @ rp_restore_datetime r))"
| "sdk_request b64 parses (ExplainSearchVectors r) = Inr (''SearchVectorsRequest'', build_search_vectors b64 r)"

section \<open>Nothing of a request is lost\<close>

definition text_ok :: "string option \<Rightarrow> bool" where
  "text_ok x = (case x of None \<Rightarrow> True | Some s \<Rightarrow> no_nul s)"

definition names_ok :: "attribute_names \<Rightarrow> bool" where
  "names_ok names \<longleftrightarrow> smap_ok names \<and> list_all (\<lambda>kv. no_nul (fst kv) \<and> no_nul (snd kv)) names"

definition values_ok :: "base64 \<Rightarrow> value_map \<Rightarrow> bool" where
  "values_ok b64 vs = survives b64 (M vs)"

fun transact_ok :: "base64 \<Rightarrow> transact_write_item \<Rightarrow> bool" where
  "transact_ok b64 (TransactPut w) = (values_ok b64 (tp_item w) \<and> text_ok (tp_condition_expression w) \<and>
     names_ok (tp_expression_attribute_names w) \<and> values_ok b64 (tp_expression_attribute_values w))"
| "transact_ok b64 (TransactUpdate w) = (values_ok b64 (tu_key w) \<and> no_nul (tu_update_expression w) \<and>
     text_ok (tu_condition_expression w) \<and> names_ok (tu_expression_attribute_names w) \<and>
     values_ok b64 (tu_expression_attribute_values w))"
| "transact_ok b64 (TransactDelete w) = (values_ok b64 (td_key w) \<and> text_ok (td_condition_expression w) \<and>
     names_ok (td_expression_attribute_names w) \<and> values_ok b64 (td_expression_attribute_values w))"
| "transact_ok b64 (TransactConditionCheck w) = (values_ok b64 (tc_key w) \<and> no_nul (tc_condition_expression w) \<and>
     names_ok (tc_expression_attribute_names w) \<and> values_ok b64 (tc_expression_attribute_values w))"

definition transact_get_ok :: "base64 \<Rightarrow> transact_get \<Rightarrow> bool" where
  "transact_get_ok b64 g \<longleftrightarrow> values_ok b64 (tg_key g) \<and> text_ok (tg_projection_expression g) \<and>
     names_ok (tg_expression_attribute_names g)"

text \<open>The requests on items whose strings, values and names survive the way to the SDK.\<close>

fun item_request_ok :: "base64 \<Rightarrow> explain_request \<Rightarrow> bool" where
  "item_request_ok b64 (ExplainGetItem r) = (values_ok b64 (gi_key r) \<and> text_ok (gi_projection_expression r) \<and>
     names_ok (gi_expression_attribute_names r))"
| "item_request_ok b64 (ExplainQuery r) = (text_ok (qi_index_name r) \<and> no_nul (qi_key_condition_expression r) \<and>
     text_ok (qi_filter_expression r) \<and> text_ok (qi_projection_expression r) \<and> names_ok (qi_expression_attribute_names r) \<and>
     values_ok b64 (qi_expression_attribute_values r) \<and> pred_option (values_ok b64) (qi_exclusive_start_key r))"
| "item_request_ok b64 (ExplainScan r) = (text_ok (si_index_name r) \<and>
     text_ok (si_filter_expression r) \<and> text_ok (si_projection_expression r) \<and> names_ok (si_expression_attribute_names r) \<and>
     values_ok b64 (si_expression_attribute_values r) \<and> pred_option (values_ok b64) (si_exclusive_start_key r))"
| "item_request_ok b64 (ExplainPutItem r) = (values_ok b64 (pi_item r) \<and> text_ok (pi_condition_expression r) \<and>
     names_ok (pi_expression_attribute_names r) \<and> values_ok b64 (pi_expression_attribute_values r))"
| "item_request_ok b64 (ExplainUpdateItem r) = (values_ok b64 (ui_key r) \<and> no_nul (ui_update_expression r) \<and>
     text_ok (ui_condition_expression r) \<and> names_ok (ui_expression_attribute_names r) \<and>
     values_ok b64 (ui_expression_attribute_values r))"
| "item_request_ok b64 (ExplainDeleteItem r) = (values_ok b64 (di_key r) \<and> text_ok (di_condition_expression r) \<and>
     names_ok (di_expression_attribute_names r) \<and> values_ok b64 (di_expression_attribute_values r))"
| "item_request_ok b64 (ExplainTransactGetItems rs) = list_all (transact_get_ok b64) rs"
| "item_request_ok b64 (ExplainTransactWriteItems rs) = list_all (transact_ok b64) rs"
| "item_request_ok b64 e = False"

text \<open>The argument of a setter in an object, piece by piece.\<close>

fun arg_of :: "sdk_object \<Rightarrow> setter \<Rightarrow> sdk_arg option" where
  "arg_of [] k = None"
| "arg_of ((st, a) # obj) k = (if k = st then Some a else arg_of obj k)"

fun or_else :: "'a option \<Rightarrow> 'a option \<Rightarrow> 'a option" where
  "or_else (Some x) y = Some x"
| "or_else None y = y"

definition names_arg :: "attribute_names \<Rightarrow> sdk_arg option" where
  "names_arg ns = (if ns = [] then None else Some (Arg_names (to_sdk_names ns)))"

definition values_arg :: "base64 \<Rightarrow> value_map \<Rightarrow> sdk_arg option" where
  "values_arg b64 vs = (if vs = [] then None else Some (Arg_item (to_sdk_item b64 vs)))"

definition return_arg :: "return_value \<Rightarrow> sdk_arg option" where
  "return_arg rv = (if rv = Rv_none then None else Some (Arg_enum (to_sdk_return_value rv)))"

definition capacity_arg :: "return_consumed_capacity \<Rightarrow> sdk_arg option" where
  "capacity_arg rcc = (if rcc = Rcc_none then None else Some (Arg_enum (to_sdk_rcc rcc)))"

lemma or_else_None [simp]: "or_else x None = x"
  by (cases x) simp_all

lemma arg_of_append [simp]: "arg_of (a @ b) k = or_else (arg_of a k) (arg_of b k)"
  by (induction a k rule: arg_of.induct) simp_all

lemma arg_of_pieces [simp]:
  "arg_of (set_if st f x) k = (if k = st then map_option f x else None)"
  "arg_of (set_text st x') k = (if k = st then map_option (\<lambda>s. Arg_string (c_str s)) x' else None)"
  "arg_of (set_names ns) k = (if k = ''SetExpressionAttributeNames'' then names_arg ns else None)"
  "arg_of (set_values b64 vs) k = (if k = ''SetExpressionAttributeValues'' then values_arg b64 vs else None)"
  "arg_of (set_return_values rv) k = (if k = ''SetReturnValues'' then return_arg rv else None)"
  "arg_of (set_capacity rcc) k = (if k = ''SetReturnConsumedCapacity'' then capacity_arg rcc else None)"
  by (simp_all add: set_if_def set_text_def set_names_def set_values_def set_return_values_def set_capacity_def
      names_arg_def values_arg_def return_arg_def capacity_arg_def split: option.split)

text \<open>
  What a request object says by the names of its setters: the argument of each, read back with the SDK's types.
  A setter that was not called leaves the SDK's default.
\<close>

fun text_of :: "sdk_arg option \<Rightarrow> string option" where
  "text_of (Some (Arg_string s)) = Some s"
| "text_of _ = None"

fun flag_of :: "sdk_arg option \<Rightarrow> bool" where
  "flag_of (Some (Arg_bool b)) = b"
| "flag_of _ = False"

fun names_in_arg :: "sdk_arg option \<Rightarrow> attribute_names" where
  "names_in_arg (Some (Arg_names ns)) = ns"
| "names_in_arg _ = []"

fun item_of :: "base64 \<Rightarrow> sdk_arg option \<Rightarrow> value_map option" where
  "item_of b64 (Some (Arg_item item)) = Some (from_sdk_item b64 item)"
| "item_of b64 _ = None"

fun enum_of :: "sdk_arg option \<Rightarrow> string" where
  "enum_of (Some (Arg_enum s)) = s"
| "enum_of _ = ''NONE''"

definition string_or :: "string option \<Rightarrow> string" where
  "string_or x = (case x of None \<Rightarrow> [] | Some s \<Rightarrow> s)"

definition map_or :: "value_map option \<Rightarrow> value_map" where
  "map_or x = (case x of None \<Rightarrow> [] | Some m \<Rightarrow> m)"

definition rcc_named :: "string \<Rightarrow> return_consumed_capacity" where
  "rcc_named s = (if s = ''TOTAL'' then Rcc_total else if s = ''INDEXES'' then Rcc_indexes else Rcc_none)"

definition rv_named :: "string \<Rightarrow> return_value" where
  "rv_named s = (if s = ''ALL_OLD'' then Rv_all_old else if s = ''ALL_NEW'' then Rv_all_new
     else if s = ''UPDATED_OLD'' then Rv_updated_old else if s = ''UPDATED_NEW'' then Rv_updated_new else Rv_none)"

definition read_get_item :: "base64 \<Rightarrow> sdk_object \<Rightarrow> get_item_in" where
  "read_get_item b64 obj =
     \<lparr>gi_table_name = string_or (text_of (arg_of obj ''SetTableName'')), gi_key = map_or (item_of b64 (arg_of obj ''SetKey'')),
      gi_projection_expression = text_of (arg_of obj ''SetProjectionExpression''),
      gi_expression_attribute_names = names_in_arg (arg_of obj ''SetExpressionAttributeNames''),
      gi_consistent_read = flag_of (arg_of obj ''SetConsistentRead''),
      gi_return_consumed_capacity = rcc_named (enum_of (arg_of obj ''SetReturnConsumedCapacity''))\<rparr>"

definition read_query :: "base64 \<Rightarrow> sdk_object \<Rightarrow> query_in" where
  "read_query b64 obj =
     \<lparr>qi_table_name = string_or (text_of (arg_of obj ''SetTableName'')), qi_index_name = text_of (arg_of obj ''SetIndexName''),
      qi_key_condition_expression = string_or (text_of (arg_of obj ''SetKeyConditionExpression'')),
      qi_filter_expression = text_of (arg_of obj ''SetFilterExpression''),
      qi_projection_expression = text_of (arg_of obj ''SetProjectionExpression''),
      qi_expression_attribute_names = names_in_arg (arg_of obj ''SetExpressionAttributeNames''),
      qi_expression_attribute_values = map_or (item_of b64 (arg_of obj ''SetExpressionAttributeValues'')),
      qi_consistent_read = flag_of (arg_of obj ''SetConsistentRead''),
      qi_return_consumed_capacity = rcc_named (enum_of (arg_of obj ''SetReturnConsumedCapacity'')),
      qi_exclusive_start_key = item_of b64 (arg_of obj ''SetExclusiveStartKey'')\<rparr>"

definition read_scan :: "base64 \<Rightarrow> sdk_object \<Rightarrow> scan_in" where
  "read_scan b64 obj =
     \<lparr>si_table_name = string_or (text_of (arg_of obj ''SetTableName'')), si_index_name = text_of (arg_of obj ''SetIndexName''),
      si_filter_expression = text_of (arg_of obj ''SetFilterExpression''),
      si_projection_expression = text_of (arg_of obj ''SetProjectionExpression''),
      si_expression_attribute_names = names_in_arg (arg_of obj ''SetExpressionAttributeNames''),
      si_expression_attribute_values = map_or (item_of b64 (arg_of obj ''SetExpressionAttributeValues'')),
      si_consistent_read = flag_of (arg_of obj ''SetConsistentRead''),
      si_return_consumed_capacity = rcc_named (enum_of (arg_of obj ''SetReturnConsumedCapacity'')),
      si_exclusive_start_key = item_of b64 (arg_of obj ''SetExclusiveStartKey'')\<rparr>"

definition read_put_item :: "base64 \<Rightarrow> sdk_object \<Rightarrow> put_item_in" where
  "read_put_item b64 obj =
     \<lparr>pi_table_name = string_or (text_of (arg_of obj ''SetTableName'')), pi_item = map_or (item_of b64 (arg_of obj ''SetItem'')),
      pi_condition_expression = text_of (arg_of obj ''SetConditionExpression''),
      pi_expression_attribute_names = names_in_arg (arg_of obj ''SetExpressionAttributeNames''),
      pi_expression_attribute_values = map_or (item_of b64 (arg_of obj ''SetExpressionAttributeValues'')),
      pi_return_values = rv_named (enum_of (arg_of obj ''SetReturnValues'')),
      pi_return_consumed_capacity = rcc_named (enum_of (arg_of obj ''SetReturnConsumedCapacity''))\<rparr>"

definition read_update_item :: "base64 \<Rightarrow> sdk_object \<Rightarrow> update_item_in" where
  "read_update_item b64 obj =
     \<lparr>ui_table_name = string_or (text_of (arg_of obj ''SetTableName'')), ui_key = map_or (item_of b64 (arg_of obj ''SetKey'')),
      ui_update_expression = string_or (text_of (arg_of obj ''SetUpdateExpression'')),
      ui_condition_expression = text_of (arg_of obj ''SetConditionExpression''),
      ui_expression_attribute_names = names_in_arg (arg_of obj ''SetExpressionAttributeNames''),
      ui_expression_attribute_values = map_or (item_of b64 (arg_of obj ''SetExpressionAttributeValues'')),
      ui_return_values = rv_named (enum_of (arg_of obj ''SetReturnValues'')),
      ui_return_consumed_capacity = rcc_named (enum_of (arg_of obj ''SetReturnConsumedCapacity''))\<rparr>"

definition read_delete_item :: "base64 \<Rightarrow> sdk_object \<Rightarrow> delete_item_in" where
  "read_delete_item b64 obj =
     \<lparr>di_table_name = string_or (text_of (arg_of obj ''SetTableName'')), di_key = map_or (item_of b64 (arg_of obj ''SetKey'')),
      di_condition_expression = text_of (arg_of obj ''SetConditionExpression''),
      di_expression_attribute_names = names_in_arg (arg_of obj ''SetExpressionAttributeNames''),
      di_expression_attribute_values = map_or (item_of b64 (arg_of obj ''SetExpressionAttributeValues'')),
      di_return_values = rv_named (enum_of (arg_of obj ''SetReturnValues'')),
      di_return_consumed_capacity = rcc_named (enum_of (arg_of obj ''SetReturnConsumedCapacity''))\<rparr>"

text \<open>The members of a transaction: an object in the only setter of an object.\<close>

fun inner_object :: "sdk_object \<Rightarrow> sdk_object" where
  "inner_object ((st, Arg_object obj) # rest) = obj"
| "inner_object _ = []"

fun objects_of :: "sdk_arg option \<Rightarrow> sdk_object list" where
  "objects_of (Some (Arg_objects objs)) = objs"
| "objects_of _ = []"

definition read_transact_get :: "base64 \<Rightarrow> sdk_object \<Rightarrow> transact_get" where
  "read_transact_get b64 sub =
     (let obj = inner_object sub
      in \<lparr>tg_table_name = string_or (text_of (arg_of obj ''SetTableName'')), tg_key = map_or (item_of b64 (arg_of obj ''SetKey'')),
          tg_projection_expression = text_of (arg_of obj ''SetProjectionExpression''),
          tg_expression_attribute_names = names_in_arg (arg_of obj ''SetExpressionAttributeNames'')\<rparr>)"

definition read_transact_write :: "base64 \<Rightarrow> sdk_object \<Rightarrow> transact_write_item" where
  "read_transact_write b64 sub =
     (let obj = inner_object sub; op = fst (hd sub);
          table = string_or (text_of (arg_of obj ''SetTableName'')); key = map_or (item_of b64 (arg_of obj ''SetKey''));
          cond = text_of (arg_of obj ''SetConditionExpression'');
          names = names_in_arg (arg_of obj ''SetExpressionAttributeNames'');
          vals = map_or (item_of b64 (arg_of obj ''SetExpressionAttributeValues''))
      in if op = ''SetPut'' then TransactPut \<lparr>tp_table_name = table, tp_item = map_or (item_of b64 (arg_of obj ''SetItem'')),
           tp_condition_expression = cond, tp_expression_attribute_names = names, tp_expression_attribute_values = vals\<rparr>
         else if op = ''SetUpdate'' then TransactUpdate \<lparr>tu_table_name = table, tu_key = key,
           tu_update_expression = string_or (text_of (arg_of obj ''SetUpdateExpression'')),
           tu_condition_expression = cond, tu_expression_attribute_names = names, tu_expression_attribute_values = vals\<rparr>
         else if op = ''SetDelete'' then TransactDelete \<lparr>td_table_name = table, td_key = key,
           td_condition_expression = cond, td_expression_attribute_names = names, td_expression_attribute_values = vals\<rparr>
         else TransactConditionCheck \<lparr>tc_table_name = table, tc_key = key, tc_condition_expression = string_or cond,
           tc_expression_attribute_names = names, tc_expression_attribute_values = vals\<rparr>)"

definition read_request :: "base64 \<Rightarrow> string \<times> sdk_object \<Rightarrow> explain_request option" where
  "read_request b64 q =
     (let (name, obj) = q; subs = objects_of (arg_of obj ''SetTransactItems'')
      in if name = ''GetItemRequest'' then Some (ExplainGetItem (read_get_item b64 obj))
         else if name = ''QueryRequest'' then Some (ExplainQuery (read_query b64 obj))
         else if name = ''ScanRequest'' then Some (ExplainScan (read_scan b64 obj))
         else if name = ''PutItemRequest'' then Some (ExplainPutItem (read_put_item b64 obj))
         else if name = ''UpdateItemRequest'' then Some (ExplainUpdateItem (read_update_item b64 obj))
         else if name = ''DeleteItemRequest'' then Some (ExplainDeleteItem (read_delete_item b64 obj))
         else if name = ''TransactGetItemsRequest'' then Some (ExplainTransactGetItems (map (read_transact_get b64) subs))
         else if name = ''TransactWriteItemsRequest'' then Some (ExplainTransactWriteItems (map (read_transact_write b64) subs))
         else None)"

text \<open>Each piece reads back.\<close>

lemma from_to_sdk_item: "values_ok b64 vs \<Longrightarrow> from_sdk_item b64 (to_sdk_item b64 vs) = vs"
  using value_survives [of b64 "M vs"] by (simp only: values_ok_def to_sdk_item_M from_sdk_item_M M_inject)

lemma to_sdk_names_id: "names_ok names \<Longrightarrow> to_sdk_names names = names"
proof -
  assume ok: "names_ok names"
  then have "map (\<lambda>(token, name). (c_str token, c_str name)) names = names"
    by (auto simp: names_ok_def map_id_conv list_all_iff c_str_id)
  then show ?thesis using ok by (simp add: to_sdk_names_def names_ok_def smap_insert_all_id)
qed

lemma text_reads: "text_ok x \<Longrightarrow> text_of (map_option (\<lambda>s. Arg_string (c_str s)) x) = x"
  by (cases x) (simp_all add: text_ok_def c_str_id)

lemma names_arg_reads: "names_ok ns \<Longrightarrow> names_in_arg (names_arg ns) = ns"
  by (simp add: names_arg_def to_sdk_names_id)

lemma values_read: "values_ok b64 vs \<Longrightarrow> map_or (item_of b64 (values_arg b64 vs)) = vs"
  by (simp add: values_arg_def map_or_def from_to_sdk_item)

lemma start_reads: "pred_option (values_ok b64) x \<Longrightarrow> item_of b64 (map_option (\<lambda>k. Arg_item (to_sdk_item b64 k)) x) = x"
  by (cases x) (simp_all add: from_to_sdk_item)

lemma enums_read:
  "rv_named (enum_of (return_arg rv)) = rv" "rcc_named (enum_of (capacity_arg rcc)) = rcc" "rcc_named (to_sdk_rcc rcc) = rcc"
  by (cases rv; simp add: return_arg_def rv_named_def) (cases rcc; simp add: capacity_arg_def rcc_named_def)+

lemma or_simps [simp]: "string_or (Some s) = s" "map_or (Some m) = m"
  by (simp_all add: string_or_def map_or_def)

lemmas pieces_read = text_reads names_arg_reads values_read start_reads enums_read from_to_sdk_item c_str_id

lemma read_get_item: "item_request_ok b64 (ExplainGetItem r) \<Longrightarrow> read_get_item b64 (build_get_item b64 r) = r"
  by (cases r) (simp add: read_get_item_def build_get_item_def pieces_read)

lemma read_query: "item_request_ok b64 (ExplainQuery r) \<Longrightarrow> read_query b64 (build_query b64 r) = r"
  by (cases r) (simp add: read_query_def build_query_def pieces_read)

lemma read_scan: "item_request_ok b64 (ExplainScan r) \<Longrightarrow> read_scan b64 (build_scan b64 r) = r"
  by (cases r) (simp add: read_scan_def build_scan_def pieces_read)

lemma read_put_item: "item_request_ok b64 (ExplainPutItem r) \<Longrightarrow> read_put_item b64 (build_put_item b64 r) = r"
  by (cases r) (simp add: read_put_item_def build_put_item_def pieces_read)

lemma read_update_item: "item_request_ok b64 (ExplainUpdateItem r) \<Longrightarrow> read_update_item b64 (build_update_item b64 r) = r"
  by (cases r) (simp add: read_update_item_def build_update_item_def pieces_read)

lemma read_delete_item: "item_request_ok b64 (ExplainDeleteItem r) \<Longrightarrow> read_delete_item b64 (build_delete_item b64 r) = r"
  by (cases r) (simp add: read_delete_item_def build_delete_item_def pieces_read)

lemma read_transact_get: "transact_get_ok b64 g \<Longrightarrow> read_transact_get b64 (build_transact_get_sub b64 g) = g"
  by (cases g) (simp add: read_transact_get_def build_transact_get_sub_def transact_get_ok_def pieces_read)

lemma read_transact_write: "transact_ok b64 w \<Longrightarrow> read_transact_write b64 (build_transact_write_sub b64 w) = w"
  by (cases w) (auto simp: read_transact_write_def Let_def pieces_read)

lemma map_reads: "list_all P xs \<Longrightarrow> (\<And>x. P x \<Longrightarrow> f (g x) = x) \<Longrightarrow> map (f \<circ> g) xs = xs"
  by (induction xs) simp_all

lemma read_transactions:
  "item_request_ok b64 (ExplainTransactGetItems gs) \<Longrightarrow> map (read_transact_get b64 \<circ> build_transact_get_sub b64) gs = gs"
  "item_request_ok b64 (ExplainTransactWriteItems ws) \<Longrightarrow> map (read_transact_write b64 \<circ> build_transact_write_sub b64) ws = ws"
  using map_reads [of "transact_get_ok b64" gs "read_transact_get b64" "build_transact_get_sub b64"]
    map_reads [of "transact_ok b64" ws "read_transact_write b64" "build_transact_write_sub b64"]
  by (simp_all add: read_transact_get read_transact_write)

lemmas requests_read = read_get_item read_query read_scan read_put_item read_update_item read_delete_item read_transactions

text \<open>C15: A request on items says to the SDK what it says: reading the argument of each setter under the name the
  SDK gives it, with the SDK's defaults where a setter is not called, gives the request back, every member of it.
  This is for requests whose texts have no NUL, whose binary values are as the SDK prints them and whose maps of
  values and names are in key order; others are cut or sorted on the way.  So nothing is lost, no member takes the
  place of another, and EXPLAIN shows different requests differently.\<close>

theorem requests_keep_everything:
  assumes "item_request_ok b64 e"
  shows "\<exists>q. sdk_request b64 parses e = Inr q \<and> read_request b64 q = Some e"
  using assms
  by (cases e) (simp_all add: read_request_def requests_read build_transact_get_items_def build_transact_write_items_def
      del: item_request_ok.simps(1-8))

definition sample_scan :: scan_in where
  "sample_scan = \<lparr>si_table_name = ''t'', si_index_name = None, si_filter_expression = Some ''#a = :v'',
     si_projection_expression = None, si_expression_attribute_names = [(''#a'', ''x'')],
     si_expression_attribute_values = [('':v'', S ''1'')], si_consistent_read = False,
     si_return_consumed_capacity = Rcc_none, si_exclusive_start_key = None\<rparr>"

theorem requests_keep_everything_witness:
  "\<exists>q. sdk_request pair_codec (\<lambda>s. True) (ExplainScan sample_scan) = Inr q \<and>
     read_request pair_codec q = Some (ExplainScan sample_scan)"
proof -
  have "item_request_ok pair_codec (ExplainScan sample_scan)"
    by (simp add: sample_scan_def text_ok_def names_ok_def values_ok_def no_nul_def)
  then show ?thesis by (rule requests_keep_everything)
qed

end
