(* ===== verification/Aws_Client.thy ===== *)
theory Aws_Client
  imports Aws_Requests Rate_Limiter
begin

text \<open>
  The operations of the AWS adapter (\<^verbatim>\<open>aws/aws_ddb_client.cpp\<close>): the request is built, the SDK is called,
  its answer is translated.  The SDK's client is a parameter: a record of functions from a request to an
  outcome over the SDK's own state.  A result of the SDK is a record of what the adapter reads of it: a member
  that is read only after \<^verbatim>\<open>HasBeenSet\<close> is optional, an enumeration value is its name, a time is its ISO 8601
  text.  The loops over pages of tables and the two waiters may not end, so they are partial functions.
\<close>

section \<open>Answers of the SDK\<close>

record sdk_get_result =
  gr_item :: sdk_item
  gr_consumed :: sdk_consumed_capacity

record sdk_page_result =
  pr_items :: "sdk_item list"
  pr_last_evaluated_key :: sdk_item
  pr_consumed :: sdk_consumed_capacity

record sdk_write_result =
  wr_attributes :: sdk_item
  wr_consumed :: sdk_consumed_capacity

record sdk_search_result =
  sr_results :: "(sdk_item \<times> real) list"
  sr_search_request_bytes :: real
  sr_write_request_bytes :: real

record sdk_warm_description =
  sw_read_units :: int
  sw_write_units :: int
  sw_status :: string

record sdk_on_demand =
  so_max_read :: "int option"
  so_max_write :: "int option"

record sdk_gsi_description =
  gd_index_name :: string
  gd_key_schema :: "sdk_key_element list"
  gd_projection :: "sdk_projection option"
  gd_index_status :: string
  gd_backfilling :: bool
  gd_read_capacity_units :: int
  gd_write_capacity_units :: int
  gd_on_demand :: "sdk_on_demand option"
  gd_warm :: "sdk_warm_description option"

record sdk_vector_description =
  xd_index_name :: string
  xd_attribute_name :: string
  xd_dimensions :: int
  xd_distance_function :: string
  xd_search_schema :: "(string \<times> string) list"
  xd_projection :: "sdk_projection option"
  xd_index_status :: string

record sdk_table =
  st_table_name :: string
  st_key_schema :: "sdk_key_element list"
  st_local_indexes :: "(string \<times> sdk_key_element list) list"
  st_global_indexes :: "sdk_gsi_description list"
  st_vector_indexes :: "sdk_vector_description list"
  st_table_status :: string
  st_table_id :: string
  st_table_arn :: string
  st_billing_mode_summary :: "string option"
  st_provisioned_throughput_set :: bool
  st_table_class_summary :: "string option"
  st_attribute_definitions :: "(string \<times> string) list"
  st_creation_date_time :: string
  st_table_size_bytes :: int
  st_item_count :: int
  st_deletion_protection_enabled :: bool
  st_read_capacity_units :: int
  st_write_capacity_units :: int
  st_on_demand :: "sdk_on_demand option"
  st_warm :: "sdk_warm_description option"
  st_stream :: "(bool \<times> string) option"
  st_sse_status :: "string option"

record sdk_backup_description =
  xb_source_table_name :: string
  xb_source_table_id :: string
  xb_source_table_arn :: string
  xb_table_size_bytes :: int
  xb_item_count :: int
  xb_key_schema :: "(string \<times> string) list"
  xb_table_creation_datetime :: string
  xb_billing_mode :: "string option"
  xb_provisioned :: "(int \<times> int) option"
  xb_backup_name :: string
  xb_backup_arn :: string
  xb_backup_size_bytes :: int
  xb_backup_status :: string
  xb_backup_type :: string
  xb_backup_creation_datetime :: string
  xb_backup_expiry_datetime :: string

record sdk_backup_summary =
  xs_table_name :: string
  xs_backup_name :: string
  xs_backup_status :: string
  xs_backup_arn :: string
  xs_creation_datetime :: string
  xs_expiry_datetime :: string

record sdk_pitr_description =
  xp_status :: string
  xp_earliest :: string
  xp_latest :: string

type_synonym 'a sdk_outcome = "sdk_error + 'a"

record 'w sdk_client =
  sdk_GetItem :: "sdk_object \<Rightarrow> 'w \<Rightarrow> sdk_get_result sdk_outcome \<times> 'w"
  sdk_Query :: "sdk_object \<Rightarrow> 'w \<Rightarrow> sdk_page_result sdk_outcome \<times> 'w"
  sdk_Scan :: "sdk_object \<Rightarrow> 'w \<Rightarrow> sdk_page_result sdk_outcome \<times> 'w"
  sdk_SearchVectors :: "sdk_object \<Rightarrow> 'w \<Rightarrow> sdk_search_result sdk_outcome \<times> 'w"
  sdk_PutItem :: "sdk_object \<Rightarrow> 'w \<Rightarrow> sdk_write_result sdk_outcome \<times> 'w"
  sdk_UpdateItem :: "sdk_object \<Rightarrow> 'w \<Rightarrow> sdk_write_result sdk_outcome \<times> 'w"
  sdk_DeleteItem :: "sdk_object \<Rightarrow> 'w \<Rightarrow> sdk_write_result sdk_outcome \<times> 'w"
  sdk_TransactGetItems :: "sdk_object \<Rightarrow> 'w \<Rightarrow> sdk_item list sdk_outcome \<times> 'w"
  sdk_TransactWriteItems :: "sdk_object \<Rightarrow> 'w \<Rightarrow> unit sdk_outcome \<times> 'w"
  sdk_CreateTable :: "sdk_object \<Rightarrow> 'w \<Rightarrow> unit sdk_outcome \<times> 'w"
  sdk_UpdateTable :: "sdk_object \<Rightarrow> 'w \<Rightarrow> unit sdk_outcome \<times> 'w"
  sdk_UpdateTimeToLive :: "sdk_object \<Rightarrow> 'w \<Rightarrow> unit sdk_outcome \<times> 'w"
  sdk_UpdateContinuousBackups :: "sdk_object \<Rightarrow> 'w \<Rightarrow> unit sdk_outcome \<times> 'w"
  sdk_CreateBackup :: "sdk_object \<Rightarrow> 'w \<Rightarrow> unit sdk_outcome \<times> 'w"
  sdk_DeleteBackup :: "sdk_object \<Rightarrow> 'w \<Rightarrow> unit sdk_outcome \<times> 'w"
  sdk_DescribeBackup :: "sdk_object \<Rightarrow> 'w \<Rightarrow> sdk_backup_description sdk_outcome \<times> 'w"
  sdk_RestoreTableFromBackup :: "sdk_object \<Rightarrow> 'w \<Rightarrow> unit sdk_outcome \<times> 'w"
  sdk_RestoreTableToPointInTime :: "sdk_object \<Rightarrow> 'w \<Rightarrow> unit sdk_outcome \<times> 'w"
  sdk_DescribeLimits :: "sdk_object \<Rightarrow> 'w \<Rightarrow> describe_limits_out sdk_outcome \<times> 'w"
  sdk_ListBackups :: "sdk_object \<Rightarrow> 'w \<Rightarrow> (sdk_backup_summary list \<times> string) sdk_outcome \<times> 'w"
  sdk_DeleteTable :: "sdk_object \<Rightarrow> 'w \<Rightarrow> unit sdk_outcome \<times> 'w"
  sdk_ListTables :: "sdk_object \<Rightarrow> 'w \<Rightarrow> (string list \<times> string) sdk_outcome \<times> 'w"
  sdk_DescribeTable :: "sdk_object \<Rightarrow> 'w \<Rightarrow> sdk_table sdk_outcome \<times> 'w"
  sdk_DescribeTimeToLive :: "sdk_object \<Rightarrow> 'w \<Rightarrow> (string \<times> string) sdk_outcome \<times> 'w"
  sdk_DescribeContinuousBackups :: "sdk_object \<Rightarrow> 'w \<Rightarrow> sdk_pitr_description sdk_outcome \<times> 'w"
  sdk_DescribeTableReplicaAutoScaling :: "sdk_object \<Rightarrow> 'w \<Rightarrow> (string \<times> string) list sdk_outcome \<times> 'w"
  sdk_codec :: base64
  sdk_parses_time :: "string \<Rightarrow> bool"
  sdk_payload :: "string \<times> sdk_object \<Rightarrow> string"

section \<open>Calls\<close>

text \<open>A call whose failure is translated by \<open>bad\<close> and whose result by \<open>good\<close>.\<close>

definition translate :: "(sdk_error \<Rightarrow> error) \<Rightarrow> ('a \<Rightarrow> 'b) \<Rightarrow> 'a sdk_outcome \<times> 'w \<Rightarrow> 'b result \<times> 'w" where
  "translate bad good q = (case q of (Inl err, w) \<Rightarrow> (Inl (bad err), w) | (Inr res, w) \<Rightarrow> (Inr (good res), w))"

definition from_page :: "base64 \<Rightarrow> sdk_page_result \<Rightarrow> page_out" where
  "from_page b64 res =
     \<lparr>po_items = map (from_sdk_item b64) (pr_items res),
      po_last_evaluated_key =
        (if pr_last_evaluated_key res = [] then None else Some (from_sdk_item b64 (pr_last_evaluated_key res))),
      po_consumed_capacity = from_sdk_consumed_capacity (pr_consumed res)\<rparr>"

definition from_write :: "base64 \<Rightarrow> sdk_write_result \<Rightarrow> write_out" where
  "from_write b64 res =
     \<lparr>wo_attributes = (if wr_attributes res = [] then None else Some (from_sdk_item b64 (wr_attributes res))),
      wo_consumed_capacity = from_sdk_consumed_capacity (wr_consumed res)\<rparr>"

definition aws_get_item :: "'w sdk_client \<Rightarrow> get_item_in \<Rightarrow> ('w, get_item_out) client_call" where
  "aws_get_item sdk r w =
     translate from_sdk_error
       (\<lambda>res. \<lparr>go_item = (if gr_item res = [] then None else Some (from_sdk_item (sdk_codec sdk) (gr_item res))),
         go_consumed_capacity = from_sdk_consumed_capacity (gr_consumed res)\<rparr>)
       (sdk_GetItem sdk (build_get_item (sdk_codec sdk) r) w)"

definition aws_query :: "'w sdk_client \<Rightarrow> query_in \<Rightarrow> ('w, page_out) client_call" where
  "aws_query sdk r w =
     translate from_sdk_error (from_page (sdk_codec sdk)) (sdk_Query sdk (build_query (sdk_codec sdk) r) w)"

definition aws_scan :: "'w sdk_client \<Rightarrow> scan_in \<Rightarrow> ('w, page_out) client_call" where
  "aws_scan sdk r w =
     translate from_sdk_error (from_page (sdk_codec sdk)) (sdk_Scan sdk (build_scan (sdk_codec sdk) r) w)"

definition aws_put_item :: "'w sdk_client \<Rightarrow> put_item_in \<Rightarrow> ('w, write_out) client_call" where
  "aws_put_item sdk r w =
     translate from_sdk_error (from_write (sdk_codec sdk)) (sdk_PutItem sdk (build_put_item (sdk_codec sdk) r) w)"

definition aws_update_item :: "'w sdk_client \<Rightarrow> update_item_in \<Rightarrow> ('w, write_out) client_call" where
  "aws_update_item sdk r w =
     translate from_sdk_error (from_write (sdk_codec sdk)) (sdk_UpdateItem sdk (build_update_item (sdk_codec sdk) r) w)"

definition aws_delete_item :: "'w sdk_client \<Rightarrow> delete_item_in \<Rightarrow> ('w, write_out) client_call" where
  "aws_delete_item sdk r w =
     translate from_sdk_error (from_write (sdk_codec sdk)) (sdk_DeleteItem sdk (build_delete_item (sdk_codec sdk) r) w)"

definition aws_transact_get_items :: "'w sdk_client \<Rightarrow> transact_get list \<Rightarrow> ('w, item_row option list) client_call" where
  "aws_transact_get_items sdk rs w =
     translate transact_failed_error
       (map (\<lambda>item. if item = [] then None else Some (from_sdk_item (sdk_codec sdk) item)))
       (sdk_TransactGetItems sdk (build_transact_get_items (sdk_codec sdk) rs) w)"

definition aws_transact_write_items :: "'w sdk_client \<Rightarrow> transact_write_item list \<Rightarrow> ('w, unit) client_call" where
  "aws_transact_write_items sdk rs w =
     translate transact_failed_error id (sdk_TransactWriteItems sdk (build_transact_write_items (sdk_codec sdk) rs) w)"

definition aws_create_table :: "'w sdk_client \<Rightarrow> create_table_in \<Rightarrow> ('w, unit) client_call" where
  "aws_create_table sdk r w = translate plain_error id (sdk_CreateTable sdk (build_create_table r) w)"

definition aws_search_vectors :: "'w sdk_client \<Rightarrow> search_vectors_in \<Rightarrow> ('w, search_vectors_out) client_call" where
  "aws_search_vectors sdk r w =
     translate from_sdk_error
       (\<lambda>res. \<lparr>svo_results = map (\<lambda>(item, sco). (from_sdk_item (sdk_codec sdk) item, sco)) (sr_results res),
         svo_vector_capacity = Some \<lparr>vc_vector_search_request_bytes = Some (sr_search_request_bytes res),
           vc_vector_write_request_bytes = Some (sr_write_request_bytes res)\<rparr>\<rparr>)
       (sdk_SearchVectors sdk (build_search_vectors (sdk_codec sdk) r) w)"

definition aws_update_table :: "'w sdk_client \<Rightarrow> update_table_in \<Rightarrow> ('w, unit) client_call" where
  "aws_update_table sdk r w =
     translate (composed_error ''Update Table failed. '' ''. '') id (sdk_UpdateTable sdk (build_update_table r) w)"

definition dot_line_tab :: string where
  "dot_line_tab = [CHR ''.'', CHR 0x0A, CHR 0x09]"

definition aws_update_time_to_live :: "'w sdk_client \<Rightarrow> update_time_to_live_in \<Rightarrow> ('w, unit) client_call" where
  "aws_update_time_to_live sdk r w =
     translate (composed_error ''Error updating TTL. '' dot_line_tab) id
       (sdk_UpdateTimeToLive sdk (build_update_time_to_live r) w)"

definition aws_update_continuous_backups :: "'w sdk_client \<Rightarrow> update_continuous_backups_in \<Rightarrow> ('w, unit) client_call" where
  "aws_update_continuous_backups sdk r w =
     translate (composed_error ''Setting PITR failed. '' dot_line_tab) id
       (sdk_UpdateContinuousBackups sdk (build_update_continuous_backups r) w)"

section \<open>Backups, limits, tables\<close>

definition aws_create_backup :: "'w sdk_client \<Rightarrow> create_backup_in \<Rightarrow> ('w, unit) client_call" where
  "aws_create_backup sdk r w = translate plain_error id (sdk_CreateBackup sdk (build_create_backup r) w)"

definition aws_delete_backup :: "'w sdk_client \<Rightarrow> string \<Rightarrow> ('w, unit) client_call" where
  "aws_delete_backup sdk arn w = translate plain_error id (sdk_DeleteBackup sdk (build_delete_backup arn) w)"

definition from_backup :: "sdk_backup_description \<Rightarrow> describe_backup_out" where
  "from_backup b =
     \<lparr>db_source_table_name = c_str (xb_source_table_name b), db_source_table_id = c_str (xb_source_table_id b),
      db_source_table_arn = c_str (xb_source_table_arn b), db_table_size_bytes = xb_table_size_bytes b,
      db_item_count = xb_item_count b,
      db_key_schema = map (\<lambda>(kind, name). \<lparr>bk_key_type = c_str kind, bk_attribute_name = c_str name\<rparr>) (xb_key_schema b),
      db_table_creation_datetime = c_str (xb_table_creation_datetime b),
      db_billing_mode = map_option c_str (xb_billing_mode b), db_provisioned = xb_provisioned b,
      db_backup_name = c_str (xb_backup_name b), db_backup_arn = c_str (xb_backup_arn b),
      db_backup_size_bytes = xb_backup_size_bytes b, db_backup_status = c_str (xb_backup_status b),
      db_backup_type = c_str (xb_backup_type b),
      db_backup_creation_datetime = c_str (xb_backup_creation_datetime b),
      db_backup_expiry_datetime = c_str (xb_backup_expiry_datetime b)\<rparr>"

definition aws_describe_backup :: "'w sdk_client \<Rightarrow> string \<Rightarrow> ('w, describe_backup_out) client_call" where
  "aws_describe_backup sdk arn w = translate plain_error from_backup (sdk_DescribeBackup sdk (build_describe_backup arn) w)"

definition aws_restore_table_from_backup :: "'w sdk_client \<Rightarrow> restore_from_backup_in \<Rightarrow> ('w, unit) client_call" where
  "aws_restore_table_from_backup sdk r w =
     translate plain_error id (sdk_RestoreTableFromBackup sdk (build_restore_from_backup r) w)"

definition aws_restore_table_to_point_in_time :: "'w sdk_client \<Rightarrow> restore_to_pitr_in \<Rightarrow> ('w, unit) client_call" where
  "aws_restore_table_to_point_in_time sdk r w =
     (let (parsed, obj) = build_restore_to_pitr (sdk_parses_time sdk) r
      in if \<not> parsed then (fail_with invalid_argument (''Invalid restore timestamp: '' @ rp_restore_datetime r), w)
         else translate plain_error id (sdk_RestoreTableToPointInTime sdk obj w))"

definition aws_describe_limits :: "'w sdk_client \<Rightarrow> ('w, describe_limits_out) client_call" where
  "aws_describe_limits sdk w = translate plain_error id (sdk_DescribeLimits sdk build_describe_limits w)"

definition from_summary :: "sdk_backup_summary \<Rightarrow> backup_summary_row" where
  "from_summary s =
     \<lparr>bs_table_name = c_str (xs_table_name s), bs_backup_name = c_str (xs_backup_name s),
      bs_backup_status = c_str (xs_backup_status s), bs_backup_arn = c_str (xs_backup_arn s),
      bs_creation_datetime = c_str (xs_creation_datetime s), bs_expiry_datetime = c_str (xs_expiry_datetime s)\<rparr>"

definition aws_list_backups :: "'w sdk_client \<Rightarrow> list_backups_in \<Rightarrow> ('w, list_backups_out) client_call" where
  "aws_list_backups sdk r w =
     translate plain_error
       (\<lambda>(summaries, last_arn). \<lparr>lbo_summaries = map from_summary summaries,
         lbo_last_evaluated_backup_arn = (let cursor = c_str last_arn in if cursor = [] then None else Some cursor)\<rparr>)
       (sdk_ListBackups sdk (build_list_backups r) w)"

definition aws_delete_table :: "'w sdk_client \<Rightarrow> string \<Rightarrow> ('w, unit) client_call" where
  "aws_delete_table sdk name w = translate plain_error id (sdk_DeleteTable sdk (build_delete_table name) w)"

definition list_tables_request :: "string \<Rightarrow> sdk_object" where
  "list_tables_request start = (if start = [] then [] else [(''SetExclusiveStartTableName'', Arg_string start)])"

partial_function (option) list_tables_loop ::
    "'w sdk_client \<Rightarrow> string \<Rightarrow> string list \<Rightarrow> 'w \<Rightarrow> (string list result \<times> 'w) option" where
  "list_tables_loop sdk start out w =
     (case sdk_ListTables sdk (list_tables_request start) w of
        (Inl err, w') \<Rightarrow> Some (Inl (plain_error err), w')
      | (Inr (names, last_name), w') \<Rightarrow>
          (if last_name = [] then Some (Inr (out @ map c_str names), w')
           else list_tables_loop sdk last_name (out @ map c_str names) w'))"

definition aws_list_tables :: "'w sdk_client \<Rightarrow> 'w \<Rightarrow> (string list result \<times> 'w) option" where
  "aws_list_tables sdk w = list_tables_loop sdk '''' [] w"

section \<open>Descriptions\<close>

fun load_key_schema :: "sdk_key_element list \<Rightarrow> table_key_schema \<Rightarrow> table_key_schema" where
  "load_key_schema [] out = out"
| "load_key_schema (e # es) out =
     load_key_schema es
       (case ke_key_type e of
          Sdk_HASH \<Rightarrow> out\<lparr>hash_keys := hash_keys out @ [c_str (ke_attribute_name e)]\<rparr>
        | Sdk_RANGE \<Rightarrow> out\<lparr>range_keys := range_keys out @ [c_str (ke_attribute_name e)]\<rparr>
        | Sdk_other_key \<Rightarrow> out)"

definition loaded_key_schema :: "sdk_key_element list \<Rightarrow> table_key_schema" where
  "loaded_key_schema es = load_key_schema es \<lparr>hash_keys = [], range_keys = []\<rparr>"

definition from_sdk_scalar :: "string \<Rightarrow> scalar_type" where
  "from_sdk_scalar t = (if t = ''N'' then Scalar_n else if t = ''B'' then Scalar_b else Scalar_s)"

definition no_projection :: projection where
  "no_projection = \<lparr>pj_type = Projection_all, pj_non_key_attributes = []\<rparr>"

definition from_sdk_projection :: "sdk_projection \<Rightarrow> projection" where
  "from_sdk_projection p =
     (case sp_projection_type p of
        Sdk_KEYS_ONLY \<Rightarrow> \<lparr>pj_type = Projection_keys_only, pj_non_key_attributes = []\<rparr>
      | Sdk_INCLUDE \<Rightarrow> \<lparr>pj_type = Projection_include, pj_non_key_attributes = map c_str (sp_non_key_attributes p)\<rparr>
      | Sdk_ALL \<Rightarrow> no_projection
      | Sdk_other_projection \<Rightarrow> no_projection)"

definition loaded_projection :: "sdk_projection option \<Rightarrow> projection" where
  "loaded_projection p = (case p of Some q \<Rightarrow> from_sdk_projection q | None \<Rightarrow> no_projection)"

definition from_warm :: "sdk_warm_description \<Rightarrow> warm_throughput_description" where
  "from_warm wd =
     \<lparr>wd_read_units_per_second = sw_read_units wd, wd_write_units_per_second = sw_write_units wd,
      wd_status = c_str (sw_status wd)\<rparr>"

definition max_units :: "(sdk_on_demand \<Rightarrow> int option) \<Rightarrow> sdk_on_demand option \<Rightarrow> int" where
  "max_units units od = (case od of None \<Rightarrow> -1 | Some d \<Rightarrow> (case units d of Some n \<Rightarrow> n | None \<Rightarrow> -1))"

definition load_gsi_detail :: "sdk_gsi_description \<Rightarrow> secondary_index_schema" where
  "load_gsi_detail g =
     \<lparr>ix_index_name = c_str (gd_index_name g), ix_key_schema = loaded_key_schema (gd_key_schema g),
      ix_projection = loaded_projection (gd_projection g), ix_projection_set = (gd_projection g \<noteq> None),
      ix_index_status = c_str (gd_index_status g), ix_backfilling = gd_backfilling g,
      ix_provisioned_read_capacity_units = gd_read_capacity_units g,
      ix_provisioned_write_capacity_units = gd_write_capacity_units g,
      ix_on_demand_throughput_set = (gd_on_demand g \<noteq> None),
      ix_on_demand_max_read_request_units = max_units so_max_read (gd_on_demand g),
      ix_on_demand_max_write_request_units = max_units so_max_write (gd_on_demand g),
      ix_warm_throughput = map_option from_warm (gd_warm g)\<rparr>"

definition load_lsi :: "string \<times> sdk_key_element list \<Rightarrow> secondary_index_schema" where
  "load_lsi l =
     \<lparr>ix_index_name = c_str (fst l), ix_key_schema = loaded_key_schema (snd l),
      ix_projection = no_projection, ix_projection_set = False, ix_index_status = '''', ix_backfilling = False,
      ix_provisioned_read_capacity_units = 0, ix_provisioned_write_capacity_units = 0,
      ix_on_demand_throughput_set = False, ix_on_demand_max_read_request_units = -1,
      ix_on_demand_max_write_request_units = -1, ix_warm_throughput = None\<rparr>"

definition load_vector_index_detail :: "sdk_vector_description \<Rightarrow> vector_index_schema" where
  "load_vector_index_detail v =
     \<lparr>vi_index_name = c_str (xd_index_name v), vi_vector_attr = c_str (xd_attribute_name v),
      vi_dimensions = xd_dimensions v,
      vi_distance = (if xd_distance_function v = ''EUCLIDEAN'' then Euclidean
        else if xd_distance_function v = ''DOT_PRODUCT'' then Dot_product else Cosine),
      vi_search_schema = map (\<lambda>(attr, kind). \<lparr>se_attr = c_str attr,
        se_kind = (if kind = ''HASH'' then Search_hash else Inline_filter)\<rparr>) (xd_search_schema v),
      vi_projection = loaded_projection (xd_projection v), vi_projection_set = (xd_projection v \<noteq> None),
      vi_index_status = c_str (xd_index_status v)\<rparr>"

definition from_table :: "sdk_table \<Rightarrow> describe_table_out" where
  "from_table t =
     \<lparr>dt_table_name = c_str (st_table_name t), dt_key_schema = loaded_key_schema (st_key_schema t),
      dt_local_secondary_indexes = map load_lsi (st_local_indexes t),
      dt_global_secondary_indexes = map load_gsi_detail (st_global_indexes t),
      dt_vector_indexes = map load_vector_index_detail (st_vector_indexes t),
      dt_table_status = c_str (st_table_status t), dt_table_id = c_str (st_table_id t),
      dt_table_arn = c_str (st_table_arn t),
      dt_billing_mode_summary = map_option c_str (st_billing_mode_summary t),
      dt_provisioned_throughput_set = st_provisioned_throughput_set t,
      dt_table_class_summary = map_option c_str (st_table_class_summary t),
      dt_attribute_definitions =
        map (\<lambda>(name, kind). \<lparr>ad_name = c_str name, ad_type = from_sdk_scalar kind\<rparr>) (st_attribute_definitions t),
      dt_creation_date_time = c_str (st_creation_date_time t),
      dt_table_size_bytes = st_table_size_bytes t, dt_item_count = st_item_count t,
      dt_deletion_protection_enabled = st_deletion_protection_enabled t,
      dt_provisioned_read_capacity_units = st_read_capacity_units t,
      dt_provisioned_write_capacity_units = st_write_capacity_units t,
      dt_on_demand_throughput_set = (st_on_demand t \<noteq> None),
      dt_on_demand_max_read_request_units = max_units so_max_read (st_on_demand t),
      dt_on_demand_max_write_request_units = max_units so_max_write (st_on_demand t),
      dt_warm_throughput = map_option from_warm (st_warm t),
      dt_stream_view_type = (case st_stream t of Some (True, view) \<Rightarrow> Some (c_str view) | _ \<Rightarrow> None),
      dt_stream_specification_set = (st_stream t \<noteq> None),
      dt_sse_status = map_option c_str (st_sse_status t)\<rparr>"

definition aws_describe_table :: "'w sdk_client \<Rightarrow> string \<Rightarrow> ('w, describe_table_out) client_call" where
  "aws_describe_table sdk name w = translate plain_error from_table (sdk_DescribeTable sdk (describe_of_table name) w)"

definition aws_describe_time_to_live :: "'w sdk_client \<Rightarrow> string \<Rightarrow> ('w, time_to_live_out) client_call" where
  "aws_describe_time_to_live sdk name w =
     translate plain_error (\<lambda>(ttl, attr). \<lparr>tl_status = c_str ttl, tl_attribute_name = c_str attr\<rparr>)
       (sdk_DescribeTimeToLive sdk (describe_of_table name) w)"

definition from_pitr :: "sdk_pitr_description \<Rightarrow> continuous_backups_out" where
  "from_pitr p =
     \<lparr>pitr_status = c_str (xp_status p),
      earliest_restorable_date_time = (if xp_status p = ''ENABLED'' then c_str (xp_earliest p) else ''''),
      latest_restorable_date_time = (if xp_status p = ''ENABLED'' then c_str (xp_latest p) else '''')\<rparr>"

definition aws_describe_continuous_backups :: "'w sdk_client \<Rightarrow> string \<Rightarrow> ('w, continuous_backups_out) client_call" where
  "aws_describe_continuous_backups sdk name w =
     translate plain_error from_pitr (sdk_DescribeContinuousBackups sdk (describe_of_table name) w)"

definition aws_describe_table_replica_auto_scaling ::
    "'w sdk_client \<Rightarrow> string \<Rightarrow> ('w, replica_auto_scaling_description list) client_call" where
  "aws_describe_table_replica_auto_scaling sdk name w =
     translate plain_error (map (\<lambda>(reg, st). \<lparr>ra_region_name = c_str reg, ra_replica_status = c_str st\<rparr>))
       (sdk_DescribeTableReplicaAutoScaling sdk (describe_of_table name) w)"

definition aws_explain_request :: "'w sdk_client \<Rightarrow> explain_request \<Rightarrow> ('w, string) client_call" where
  "aws_explain_request sdk e w =
     (map_sum id (\<lambda>r. c_str (sdk_payload sdk r)) (sdk_request (sdk_codec sdk) (sdk_parses_time sdk) e), w)"

section \<open>The waiters\<close>

text \<open>What a poll decides; \<open>None\<close> is to go on polling.\<close>

definition gone_verdict :: "sdk_table sdk_outcome \<Rightarrow> unit result option" where
  "gone_verdict q =
     (case q of
        Inr _ \<Rightarrow> None
      | Inl err \<Rightarrow>
          (if sx_type err = RESOURCE_NOT_FOUND then Some (Inr ())
           else if \<not> sx_should_retry err then Some (Inl (plain_error err)) else None))"

definition bare_error :: "string \<Rightarrow> error" where
  "bare_error msg = \<lparr>err_code = service_error, err_message = msg, service_error_name = None, request_id = None\<rparr>"

definition active_verdict :: "string \<Rightarrow> sdk_table sdk_outcome \<Rightarrow> unit result option" where
  "active_verdict name q =
     (case q of
        Inr t \<Rightarrow>
          (if st_table_status t = ''ACTIVE'' then Some (Inr ())
           else if st_table_status t \<noteq> ''CREATING'' \<and> st_table_status t \<noteq> ''UPDATING''
           then Some (Inl (bare_error (''Table '' @ name @ '' is in state '' @ c_str (st_table_status t) @
             '' and will not become ACTIVE.'')))
           else None)
      | Inl err \<Rightarrow>
          (if sx_type err \<noteq> RESOURCE_NOT_FOUND \<and> \<not> sx_should_retry err then Some (Inl (plain_error err)) else None))"

text \<open>The budget, read only if there is one; times of the host are in seconds.\<close>

definition budget_spent :: "'h host_ops \<Rightarrow> nat option \<Rightarrow> real \<Rightarrow> 'h \<Rightarrow> bool \<times> 'h" where
  "budget_spent ops timeout start h =
     (case timeout of
        None \<Rightarrow> (False, h)
      | Some ms \<Rightarrow> (let (now, h') = clock ops h in (now - start \<ge> real ms / 1000, h')))"

partial_function (option) wait_loop ::
    "'w sdk_client \<Rightarrow> 'h host_ops \<Rightarrow> nat option \<Rightarrow> (sdk_table sdk_outcome \<Rightarrow> unit result option) \<Rightarrow> error \<Rightarrow> string \<Rightarrow>
     real \<Rightarrow> nat \<Rightarrow> 'w \<Rightarrow> 'h \<Rightarrow> (unit result \<times> 'w \<times> 'h) option" where
  "wait_loop sdk ops timeout verdict expired name start interval w h =
     (let (q, w') = sdk_DescribeTable sdk (describe_of_table name) w
      in case verdict q of
           Some r \<Rightarrow> Some (r, w', h)
         | None \<Rightarrow>
             (let (spent, h') = budget_spent ops timeout start h
              in if spent then Some (Inl expired, w', h')
                 else wait_loop sdk ops timeout verdict expired name start (min (interval * 2) 2000) w'
                   (sleep ops (real interval / 1000) h')))"

definition wait_from ::
    "'w sdk_client \<Rightarrow> 'h host_ops \<Rightarrow> nat option \<Rightarrow> (sdk_table sdk_outcome \<Rightarrow> unit result option) \<Rightarrow> error \<Rightarrow> string \<Rightarrow>
     'w \<Rightarrow> 'h \<Rightarrow> (unit result \<times> 'w \<times> 'h) option" where
  "wait_from sdk ops timeout verdict expired name w h =
     (let (start, h') = clock ops h in wait_loop sdk ops timeout verdict expired name start 100 w h')"

definition aws_wait_for_table_gone ::
    "'w sdk_client \<Rightarrow> 'h host_ops \<Rightarrow> nat option \<Rightarrow> string \<Rightarrow> 'w \<Rightarrow> 'h \<Rightarrow> (unit result \<times> 'w \<times> 'h) option" where
  "aws_wait_for_table_gone sdk ops timeout name w h =
     wait_from sdk ops timeout gone_verdict (bare_error (''Timed out waiting for table '' @ name @ '' to become gone'')) name w h"

definition aws_wait_for_table_active ::
    "'w sdk_client \<Rightarrow> 'h host_ops \<Rightarrow> nat option \<Rightarrow> string \<Rightarrow> 'w \<Rightarrow> 'h \<Rightarrow> (unit result \<times> 'w \<times> 'h) option" where
  "aws_wait_for_table_active sdk ops timeout name w h =
     wait_from sdk ops timeout (active_verdict name)
       (bare_error (''Timed out waiting for table '' @ name @ '' to become active'')) name w h"

section \<open>The connection to the service\<close>

text \<open>The members of the SDK's configuration the adapter writes; the others stay as they are.\<close>

record 'c client_configuration =
  cf_region :: string
  cf_endpoint_override :: string
  cf_user_agent :: string
  cf_other :: 'c

datatype credentials = Profile_credentials string | Default_chain

record 'c aws_adapter =
  aa_base_config :: "'c client_configuration option"
  aa_waiter_timeout :: "nat option"
  aa_profile :: string
  aa_client :: "credentials \<times> 'c client_configuration"

definition rebuild ::
    "'c client_configuration \<Rightarrow> string \<Rightarrow> string \<Rightarrow> string \<Rightarrow> 'c aws_adapter \<Rightarrow> 'c aws_adapter" where
  "rebuild defaults version reg endpoint aa =
     (let cfg = (case aa_base_config aa of Some c \<Rightarrow> c | None \<Rightarrow> defaults);
          cfg = (if reg \<noteq> [] then cfg\<lparr>cf_region := reg\<rparr> else cfg);
          cfg = (if endpoint \<noteq> [] then cfg\<lparr>cf_endpoint_override := endpoint\<rparr> else cfg);
          cfg = cfg\<lparr>cf_user_agent := ''ddbsh - version '' @ c_str version\<rparr>;
          cred = (if aa_profile aa \<noteq> [] then Profile_credentials (c_str (aa_profile aa)) else Default_chain)
      in aa\<lparr>aa_client := (cred, cfg)\<rparr>)"

definition new_adapter ::
    "'c client_configuration \<Rightarrow> string \<Rightarrow> string \<Rightarrow> string \<Rightarrow> 'c client_configuration option \<Rightarrow> nat option \<Rightarrow> string \<Rightarrow>
     'c aws_adapter" where
  "new_adapter defaults version reg endpoint base_config waiter_timeout profile =
     rebuild defaults version reg endpoint
       \<lparr>aa_base_config = base_config, aa_waiter_timeout = waiter_timeout, aa_profile = profile,
        aa_client = (Default_chain, defaults)\<rparr>"

definition aws_connect ::
    "'c client_configuration \<Rightarrow> string \<Rightarrow> string \<Rightarrow> string \<Rightarrow> 'c aws_adapter \<Rightarrow> unit result \<times> 'c aws_adapter" where
  "aws_connect defaults version reg endpoint aa = (Inr (), rebuild defaults version reg endpoint aa)"

section \<open>All pages of the table list\<close>

inductive table_pages :: "'w sdk_client \<Rightarrow> string \<Rightarrow> 'w \<Rightarrow> string list \<Rightarrow> sdk_error option \<Rightarrow> 'w \<Rightarrow> bool" for sdk where
  tables_failed: "sdk_ListTables sdk (list_tables_request start) w = (Inl e, w') \<Longrightarrow> table_pages sdk start w [] (Some e) w'"
| tables_last: "sdk_ListTables sdk (list_tables_request start) w = (Inr (names, []), w') \<Longrightarrow> table_pages sdk start w names None w'"
| tables_next: "sdk_ListTables sdk (list_tables_request start) w = (Inr (names, c # cs), w1) \<Longrightarrow>
    table_pages sdk (c # cs) w1 rest err w' \<Longrightarrow> table_pages sdk start w (names @ rest) err w'"

definition tables_result :: "string list \<Rightarrow> string list \<Rightarrow> sdk_error option \<Rightarrow> string list result" where
  "tables_result out names err = (case err of Some e \<Rightarrow> Inl (plain_error e) | None \<Rightarrow> Inr (out @ map c_str names))"

lemma tables_result_Nil:
  "tables_result [] names err = (case err of Some e \<Rightarrow> Inl (plain_error e) | None \<Rightarrow> Inr (map c_str names))"
  by (cases err) (simp_all add: tables_result_def)

lemma list_tables_complete:
  "table_pages sdk start w names err w' \<Longrightarrow> list_tables_loop sdk start out w = Some (tables_result out names err, w')"
proof (induction arbitrary: out rule: table_pages.induct)
  case (tables_next start w names c cs w1 rest err w')
  then have "list_tables_loop sdk (c # cs) (out @ map c_str names) w1 =
      Some (tables_result (out @ map c_str names) rest err, w')" by simp
  then show ?case using tables_next(1)
    by (subst list_tables_loop.simps) (simp add: tables_result_def split: option.split)
qed (subst list_tables_loop.simps, simp add: tables_result_def)+

lemma list_tables_sound:
  assumes run: "list_tables_loop sdk start out w = Some rw"
  shows "\<exists>names err. table_pages sdk start w names err (snd rw) \<and> fst rw = tables_result out names err"
proof -
  let ?Q = "\<lambda>sdk start out w rw. \<exists>names err. table_pages sdk start w names err (snd rw) \<and> fst rw = tables_result out names err"
  show ?thesis
  proof (rule list_tables_loop.raw_induct [where P = ?Q, OF _ run])
    fix rec and sdk :: "'a sdk_client" and start out w rw
    assume IH: "\<And>(sdk :: 'a sdk_client) start out w rw. rec sdk start out w = Some rw \<Longrightarrow> ?Q sdk start out w rw"
      and step: "(case sdk_ListTables sdk (list_tables_request start) w of
        (Inl err, w') \<Rightarrow> Some (Inl (plain_error err), w')
      | (Inr (names, last_name), w') \<Rightarrow>
          (if last_name = [] then Some (Inr (out @ map c_str names), w')
           else rec sdk last_name (out @ map c_str names) w')) = Some rw"
    obtain q w1 where call: "sdk_ListTables sdk (list_tables_request start) w = (q, w1)" by fastforce
    show "?Q sdk start out w rw"
    proof (cases q)
      case (Inl e)
      then have "rw = (tables_result out [] (Some e), w1)" using step call by (simp add: tables_result_def)
      then show ?thesis using tables_failed call Inl by fastforce
    next
      case (Inr page)
      obtain names last_name where page: "page = (names, last_name)" by fastforce
      show ?thesis
      proof (cases last_name)
        case Nil
        then have "rw = (tables_result out names None, w1)" using step call Inr page by (simp add: tables_result_def)
        then show ?thesis using tables_last call Inr page Nil by fastforce
      next
        case (Cons c cs)
        then have "rec sdk (c # cs) (out @ map c_str names) w1 = Some rw" using step call Inr page by simp
        from IH [OF this] obtain rest err where
          r: "table_pages sdk (c # cs) w1 rest err (snd rw)" "fst rw = tables_result (out @ map c_str names) rest err" by blast
        have "table_pages sdk start w (names @ rest) err (snd rw)"
          using tables_next [OF _ r(1)] call Inr page Cons by simp
        moreover have "fst rw = tables_result out (names @ rest) err"
          using r(2) by (simp add: tables_result_def split: option.split)
        ultimately show ?thesis by blast
      qed
    qed
  qed
qed

text \<open>C19: The list of tables is complete: the adapter follows the continuation of the service to its end and
  returns the names of all pages in order, each up to its first NUL, or the error of the page that failed; and it
  returns exactly when the pages end.\<close>

theorem list_tables_all_pages:
  "aws_list_tables sdk w = Some (r, w') \<longleftrightarrow>
     (\<exists>names err. table_pages sdk '''' w names err w' \<and>
        r = (case err of Some e \<Rightarrow> Inl (plain_error e) | None \<Rightarrow> Inr (map c_str names)))"
    (is "?l \<longleftrightarrow> ?r")
proof
  assume ?l
  then show ?r using list_tables_sound [of sdk "''''" "[]" w "(r, w')"]
    by (simp add: aws_list_tables_def tables_result_Nil)
next
  assume ?r
  then obtain names err where "table_pages sdk '''' w names err w'" "r = tables_result [] names err"
    by (auto simp: tables_result_Nil)
  then show ?l using list_tables_complete [of sdk "''''" w names err w' "[]"] by (simp add: aws_list_tables_def)
qed

section \<open>Waiting\<close>

text \<open>The answer of the poll that is the first to decide, after \<open>n\<close> that do not.\<close>

fun polled :: "'w sdk_client \<Rightarrow> (sdk_table sdk_outcome \<Rightarrow> unit result option) \<Rightarrow> string \<Rightarrow> nat \<Rightarrow> 'w \<Rightarrow> (unit result \<times> 'w) option" where
  "polled sdk verdict name 0 w =
     (let (q, w') = sdk_DescribeTable sdk (describe_of_table name) w in map_option (\<lambda>r. (r, w')) (verdict q))"
| "polled sdk verdict name (Suc n) w =
     (let (q, w') = sdk_DescribeTable sdk (describe_of_table name) w
      in if verdict q = None then polled sdk verdict name n w' else None)"

text \<open>The host after \<open>n\<close> rests: 0.1 seconds, doubled each time, at most 2.\<close>

definition backoff :: "nat \<Rightarrow> nat" where
  "backoff i = min (100 * 2 ^ i) 2000"

definition rested :: "'h host_ops \<Rightarrow> nat \<Rightarrow> nat \<Rightarrow> 'h \<Rightarrow> 'h" where
  "rested ops k n h = fold (\<lambda>i. sleep ops (real (backoff i) / 1000)) [k..<k + n] h"

lemma backoff_Suc: "min (backoff k * 2) 2000 = backoff (Suc k)"
  by (simp add: backoff_def min_def)

lemma rested_simps [simp]:
  "rested ops k 0 h = h"
  "rested ops k (Suc n) h = rested ops (Suc k) n (sleep ops (real (backoff k) / 1000) h)"
  by (simp_all add: rested_def upt_conv_Cons del: upt_Suc)

lemma wait_loop_complete:
  "polled sdk verdict name n w = Some (r, w') \<Longrightarrow>
     wait_loop sdk ops None verdict expired name start (backoff k) w h = Some (r, w', rested ops k n h)"
proof (induction n arbitrary: k w h)
  case 0
  obtain q w1 where call: "sdk_DescribeTable sdk (describe_of_table name) w = (q, w1)" by fastforce
  with 0 show ?case by (subst wait_loop.simps) auto
next
  case (Suc n)
  obtain q w1 where call: "sdk_DescribeTable sdk (describe_of_table name) w = (q, w1)" by fastforce
  then have v: "verdict q = None" "polled sdk verdict name n w1 = Some (r, w')"
    using Suc.prems by (auto split: if_splits)
  then show ?case using call Suc.IH [OF v(2), of "Suc k" "sleep ops (real (backoff k) / 1000) h"]
    by (subst wait_loop.simps) (simp add: budget_spent_def backoff_Suc)
qed

lemma wait_loop_sound:
  assumes run: "wait_loop sdk ops timeout verdict expired name start interval w h = Some rwh"
    and "timeout = None" and "interval = backoff k"
  shows "\<exists>n. polled sdk verdict name n w = Some (fst rwh, fst (snd rwh)) \<and> snd (snd rwh) = rested ops k n h"
proof -
  let ?Q = "\<lambda>sdk ops timeout verdict expired name start interval w h (rwh :: unit result \<times> 'a \<times> 'b).
    \<forall>k. timeout = None \<longrightarrow> interval = backoff k \<longrightarrow>
      (\<exists>n. polled sdk verdict name n w = Some (fst rwh, fst (snd rwh)) \<and> snd (snd rwh) = rested ops k n h)"
  have "?Q sdk ops timeout verdict expired name start interval w h rwh"
  proof (rule wait_loop.raw_induct [where P = ?Q, OF _ run])
    fix rec and sdk :: "'a sdk_client" and ops :: "'b host_ops" and timeout verdict expired name start interval w h rwh
    assume IH: "\<And>(sdk :: 'a sdk_client) (ops :: 'b host_ops) timeout verdict expired name start interval w h rwh.
        rec sdk ops timeout verdict expired name start interval w h = Some rwh \<Longrightarrow>
        ?Q sdk ops timeout verdict expired name start interval w h rwh"
      and step: "(let (q, w') = sdk_DescribeTable sdk (describe_of_table name) w
        in case verdict q of
           Some r \<Rightarrow> Some (r, w', h)
         | None \<Rightarrow>
             (let (spent, h') = budget_spent ops timeout start h
              in if spent then Some (Inl expired, w', h')
                 else rec sdk ops timeout verdict expired name start (min (interval * 2) 2000) w'
                   (sleep ops (real interval / 1000) h'))) = Some rwh"
    show "?Q sdk ops timeout verdict expired name start interval w h rwh"
    proof (intro allI impI)
      fix k assume t: "timeout = None" "interval = backoff k"
      obtain q w1 where call: "sdk_DescribeTable sdk (describe_of_table name) w = (q, w1)" by fastforce
      show "\<exists>n. polled sdk verdict name n w = Some (fst rwh, fst (snd rwh)) \<and> snd (snd rwh) = rested ops k n h"
      proof (cases "verdict q")
        case (Some r)
        then have "rwh = (r, w1, h)" using step call by simp
        then show ?thesis using Some call by (intro exI [of _ 0]) simp
      next
        case None
        let ?h = "sleep ops (real (backoff k) / 1000) h"
        have "rec sdk ops timeout verdict expired name start (backoff (Suc k)) w1 ?h = Some rwh"
          using step call None t by (simp add: budget_spent_def backoff_Suc)
        from IH [OF this, rule_format, OF t(1) refl] obtain n where
          "polled sdk verdict name n w1 = Some (fst rwh, fst (snd rwh))" "snd (snd rwh) = rested ops (Suc k) n ?h" by blast
        then show ?thesis using None call by (intro exI [of _ "Suc n"]) simp
      qed
    qed
  qed
  then show ?thesis using assms(2,3) by blast
qed

lemma wait_from_None:
  "wait_from sdk ops None verdict expired name w h = Some (r, w', h') \<longleftrightarrow>
     (\<exists>n. polled sdk verdict name n w = Some (r, w') \<and> h' = rested ops 0 n (snd (clock ops h)))"
proof -
  obtain start h1 where c: "clock ops h = (start, h1)" by fastforce
  have b: "backoff 0 = 100" by (simp add: backoff_def)
  have "wait_loop sdk ops None verdict expired name start 100 w h1 = Some (r, w', h') \<longleftrightarrow>
      (\<exists>n. polled sdk verdict name n w = Some (r, w') \<and> h' = rested ops 0 n h1)"
    using wait_loop_sound [of sdk ops None verdict expired name start "backoff 0" w h1 "(r, w', h')" 0]
      wait_loop_complete [of sdk verdict name _ w r w' ops expired start 0 h1] by (auto simp: b)
  then show ?thesis by (simp add: wait_from_def c)
qed

text \<open>With a budget the clock is read before each rest: the host after \<open>n\<close> readings and rests, and the time of the
  next reading.\<close>

fun watched :: "'h host_ops \<Rightarrow> nat \<Rightarrow> nat \<Rightarrow> 'h \<Rightarrow> 'h" where
  "watched ops k 0 h = h"
| "watched ops k (Suc n) h = watched ops (Suc k) n (sleep ops (real (backoff k) / 1000) (snd (clock ops h)))"

definition seen :: "'h host_ops \<Rightarrow> nat \<Rightarrow> nat \<Rightarrow> 'h \<Rightarrow> real" where
  "seen ops k n h = fst (clock ops (watched ops k n h))"

lemma seen_simps [simp]:
  "seen ops k 0 h = fst (clock ops h)"
  "seen ops k (Suc n) h = seen ops (Suc k) n (sleep ops (real (backoff k) / 1000) (snd (clock ops h)))"
  by (simp_all add: seen_def)

text \<open>The state of the service after \<open>n\<close> polls.\<close>

definition asked :: "'w sdk_client \<Rightarrow> string \<Rightarrow> nat \<Rightarrow> 'w \<Rightarrow> 'w" where
  "asked sdk name n = (\<lambda>w. snd (sdk_DescribeTable sdk (describe_of_table name) w)) ^^ n"

lemma asked_Suc: "sdk_DescribeTable sdk (describe_of_table name) w = (q, w1) \<Longrightarrow> asked sdk name (Suc n) w = asked sdk name n w1"
  by (simp add: asked_def funpow_Suc_right del: funpow.simps)

text \<open>
  A wait with a budget ends after \<open>n\<close> rests, each of them begun before the budget was spent: with the verdict of
  the first poll that decides, or, if the \<open>n + 1\<close> polls have not decided and the budget is spent, with the error.
\<close>

definition ended_after ::
    "'w sdk_client \<Rightarrow> 'h host_ops \<Rightarrow> (sdk_table sdk_outcome \<Rightarrow> unit result option) \<Rightarrow> error \<Rightarrow> string \<Rightarrow> nat \<Rightarrow> real \<Rightarrow>
     nat \<Rightarrow> nat \<Rightarrow> 'w \<Rightarrow> 'h \<Rightarrow> unit result \<Rightarrow> 'w \<Rightarrow> 'h \<Rightarrow> bool" where
  "ended_after sdk ops verdict expired name ms start k n w h r w' h' \<longleftrightarrow>
     (\<forall>i<n. seen ops k i h < start + real ms / 1000) \<and>
     (polled sdk verdict name n w = Some (r, w') \<and> h' = watched ops k n h \<or>
      (\<forall>i\<le>n. polled sdk verdict name i w = None) \<and> r = Inl expired \<and> w' = asked sdk name (Suc n) w \<and>
      start + real ms / 1000 \<le> seen ops k n h \<and> h' = snd (clock ops (watched ops k n h)))"

lemma ended_after_Suc:
  assumes call: "sdk_DescribeTable sdk (describe_of_table name) w = (q, w1)" and "verdict q = None"
    and "fst (clock ops h) < start + real ms / 1000"
    and "ended_after sdk ops verdict expired name ms start (Suc k) n w1 (sleep ops (real (backoff k) / 1000) (snd (clock ops h))) r w' h'"
  shows "ended_after sdk ops verdict expired name ms start k (Suc n) w h r w' h'"
proof -
  have polls: "polled sdk verdict name (Suc i) w = polled sdk verdict name i w1" "polled sdk verdict name 0 w = None" for i
    using assms(1,2) by simp_all
  have "(\<forall>i\<le>Suc n. polled sdk verdict name i w = None) \<longleftrightarrow> (\<forall>i\<le>n. polled sdk verdict name i w1 = None)"
    using polls by (metis Suc_le_mono le_SucE not_less_eq_eq old.nat.exhaust)
  moreover have "(\<forall>i<Suc n. seen ops k i h < start + real ms / 1000) \<longleftrightarrow>
      (\<forall>i<n. seen ops (Suc k) i (sleep ops (real (backoff k) / 1000) (snd (clock ops h))) < start + real ms / 1000)"
    using assms(3) by (auto simp: less_Suc_eq_0_disj)
  ultimately show ?thesis using assms(4) polls
    unfolding ended_after_def by (simp only: asked_Suc [OF call] watched.simps seen_simps) blast
qed

lemma wait_loop_stops:
  assumes call: "sdk_DescribeTable sdk (describe_of_table name) w = (q, w1)" and look: "clock ops h = (now, h1)"
    and stop: "\<not> (verdict q = None \<and> now < start + real ms / 1000)"
  shows "\<exists>n r w' h'. wait_loop sdk ops (Some ms) verdict expired name start (backoff k) w h = Some (r, w', h') \<and>
    ended_after sdk ops verdict expired name ms start k n w h r w' h'"
proof -
  let ?r = "case verdict q of Some r \<Rightarrow> r | None \<Rightarrow> Inl expired" and ?h = "case verdict q of Some r \<Rightarrow> h | None \<Rightarrow> h1"
  have "ended_after sdk ops verdict expired name ms start k 0 w h ?r w1 ?h"
    using assms by (auto simp: ended_after_def asked_def split: option.split)
  moreover have "wait_loop sdk ops (Some ms) verdict expired name start (backoff k) w h = Some (?r, w1, ?h)"
    using assms by (subst wait_loop.simps) (auto simp: budget_spent_def split: option.split)
  ultimately show ?thesis by blast
qed

lemma backoff_at_least: "100 \<le> backoff k"
  by (simp add: backoff_def)

context steady_host begin

text \<open>Each rest takes its time, whatever else takes time.\<close>

lemma seen_rests: "fst (clock ops h) + real (\<Sum>i<n. backoff (k + i)) / 1000 \<le> seen ops k n h"
proof (induction n arbitrary: k h)
  case (Suc n)
  let ?h = "sleep ops (real (backoff k) / 1000) (snd (clock ops h))"
  have "fst (clock ops h) + real (backoff k) / 1000 \<le> fst (clock ops ?h)" by (rule sleep_advances) simp
  then show ?case using Suc [of ?h "Suc k"] by (simp add: sum.lessThan_Suc_shift add_divide_distrib del: sum.lessThan_Suc)
qed simp

lemma wait_loop_ends:
  assumes "start + real ms / 1000 - fst (clock ops h) \<le> real m / 10"
  shows "\<exists>n r w' h'. wait_loop sdk ops (Some ms) verdict expired name start (backoff k) w h = Some (r, w', h') \<and>
    ended_after sdk ops verdict expired name ms start k n w h r w' h'"
  using assms
proof (induction m arbitrary: k w h)
  case 0
  obtain q w1 where call: "sdk_DescribeTable sdk (describe_of_table name) w = (q, w1)" by fastforce
  obtain now h1 where look: "clock ops h = (now, h1)" by fastforce
  show ?case using 0 look by (intro wait_loop_stops [OF call look]) simp
next
  case (Suc m)
  obtain q w1 where call: "sdk_DescribeTable sdk (describe_of_table name) w = (q, w1)" by fastforce
  obtain now h1 where look: "clock ops h = (now, h1)" by fastforce
  show ?case
  proof (cases "verdict q = None \<and> now < start + real ms / 1000")
    case False
    then show ?thesis using wait_loop_stops [OF call look] by blast
  next
    case True
    let ?h = "sleep ops (real (backoff k) / 1000) h1"
    have "now + real (backoff k) / 1000 \<le> fst (clock ops ?h)"
      using sleep_advances [of "real (backoff k) / 1000" h] look by simp
    moreover have "100 \<le> real (backoff k)" using backoff_at_least [of k] by linarith
    ultimately have "start + real ms / 1000 - fst (clock ops ?h) \<le> real m / 10"
      using Suc.prems look by (simp add: field_simps)
    from Suc.IH [OF this, of "Suc k" w1] obtain n r w' h' where
      r: "wait_loop sdk ops (Some ms) verdict expired name start (backoff (Suc k)) w1 ?h = Some (r, w', h')"
      "ended_after sdk ops verdict expired name ms start (Suc k) n w1 ?h r w' h'" by blast
    have "wait_loop sdk ops (Some ms) verdict expired name start (backoff k) w h = Some (r, w', h')"
      using call True look r(1) by (subst wait_loop.simps) (simp add: budget_spent_def backoff_Suc)
    moreover have "ended_after sdk ops verdict expired name ms start k (Suc n) w h r w' h'"
      using True look r(2) by (intro ended_after_Suc [OF call]) simp_all
    ultimately show ?thesis by blast
  qed
qed

text \<open>The rests before the last are within the budget, so it bounds the number of polls.\<close>

lemma ended_rests:
  assumes "ended_after sdk ops verdict expired name ms start 0 n w h r w' h'" and "start \<le> fst (clock ops h)" and "0 < n"
  shows "(\<Sum>i<n - 1. backoff i) < ms"
proof -
  have "seen ops 0 (n - 1) h < start + real ms / 1000" using assms(1,3) by (simp add: ended_after_def)
  then have "real (\<Sum>i<n - 1. backoff (0 + i)) / 1000 < real ms / 1000" using seen_rests [of h 0 "n - 1"] assms(2) by linarith
  then have "real (\<Sum>i<n - 1. backoff i) < real ms" by simp
  then show ?thesis by (simp only: of_nat_less_iff)
qed

lemma wait_from_ends:
  "\<exists>n r w' h'. wait_from sdk ops (Some ms) verdict expired name w h = Some (r, w', h') \<and>
     ended_after sdk ops verdict expired name ms (fst (clock ops h)) 0 n w (snd (clock ops h)) r w' h' \<and>
     (n = 0 \<or> (\<Sum>i<n - 1. backoff i) < ms)"
proof -
  let ?h = "snd (clock ops h)" and ?start = "fst (clock ops h)"
  have "?start + real ms / 1000 - fst (clock ops ?h) \<le> real ms / 10" using clock_steady [of h] by simp
  from wait_loop_ends [OF this, of sdk verdict expired name 0 w] obtain n r w' h' where
    r: "wait_loop sdk ops (Some ms) verdict expired name ?start (backoff 0) w ?h = Some (r, w', h')"
    "ended_after sdk ops verdict expired name ms ?start 0 n w ?h r w' h'" by blast
  have "n = 0 \<or> (\<Sum>i<n - 1. backoff i) < ms" using ended_rests [OF r(2) clock_steady] by blast
  moreover have "wait_from sdk ops (Some ms) verdict expired name w h = Some (r, w', h')"
    using r(1) by (cases "clock ops h") (simp add: wait_from_def backoff_def)
  ultimately show ?thesis using r(2) by blast
qed

end

text \<open>C17: Without a budget the waiters poll until the service decides: they return exactly if some poll decides,
  with the verdict of the first that does, and they rest 0.1 seconds before the second poll, twice as long
  before each further one, but never more than 2 seconds.  A table that stays in creation, or a service that
  answers every poll with a transient error, keeps them for ever.\<close>

theorem waiters_follow_service:
  "(aws_wait_for_table_active sdk ops None name w h = Some (r, w', h') \<longleftrightarrow>
     (\<exists>n. polled sdk (active_verdict name) name n w = Some (r, w') \<and> h' = rested ops 0 n (snd (clock ops h)))) \<and>
   (aws_wait_for_table_gone sdk ops None name w h = Some (r, w', h') \<longleftrightarrow>
     (\<exists>n. polled sdk gone_verdict name n w = Some (r, w') \<and> h' = rested ops 0 n (snd (clock ops h))))"
  by (simp add: aws_wait_for_table_active_def aws_wait_for_table_gone_def wait_from_None)

text \<open>C18: With a budget of \<open>ms\<close> milliseconds every wait returns, on any host whose clock does not go back and whose
  sleep takes at least the time asked for; polls may take any time.  It ends after some number \<open>n\<close> of rests,
  each begun before the budget was spent, with the verdict of the first poll that decides, or, when \<open>n + 1\<close> polls
  have not decided and only once the budget is spent, with an error that says so.  However long the polls take,
  all rests but the last fit into the budget, which bounds the number of polls; how long a poll takes the budget
  does not bound.\<close>

theorem waiters_keep_budget:
  assumes "steady_host ops"
  shows "(\<exists>n r w' h'. aws_wait_for_table_active sdk ops (Some ms) name w h = Some (r, w', h') \<and>
      ended_after sdk ops (active_verdict name) (bare_error (''Timed out waiting for table '' @ name @ '' to become active''))
        name ms (fst (clock ops h)) 0 n w (snd (clock ops h)) r w' h' \<and> (n = 0 \<or> (\<Sum>i<n - 1. backoff i) < ms)) \<and>
   (\<exists>n r w' h'. aws_wait_for_table_gone sdk ops (Some ms) name w h = Some (r, w', h') \<and>
      ended_after sdk ops gone_verdict (bare_error (''Timed out waiting for table '' @ name @ '' to become gone''))
        name ms (fst (clock ops h)) 0 n w (snd (clock ops h)) r w' h' \<and> (n = 0 \<or> (\<Sum>i<n - 1. backoff i) < ms))"
  unfolding aws_wait_for_table_active_def aws_wait_for_table_gone_def
  by (intro conjI steady_host.wait_from_ends [OF assms])

text \<open>A service that answers every call with a transient error, and counts the calls: the wait ends with the error
  of the budget, after at most 7 polls.\<close>

definition throttled_call :: "sdk_object \<Rightarrow> nat \<Rightarrow> 'a sdk_outcome \<times> nat" where
  "throttled_call p w = (Inl \<lparr>sx_type = Other_error, sx_message = '''', sx_exception_name = ''Throttling'',
     sx_request_id = '''', sx_should_retry = True\<rparr>, Suc w)"

definition throttling_sdk :: "nat sdk_client" where
  "throttling_sdk =
    \<lparr>sdk_GetItem = throttled_call, sdk_Query = throttled_call, sdk_Scan = throttled_call,
      sdk_SearchVectors = throttled_call, sdk_PutItem = throttled_call, sdk_UpdateItem = throttled_call,
      sdk_DeleteItem = throttled_call, sdk_TransactGetItems = throttled_call,
      sdk_TransactWriteItems = throttled_call, sdk_CreateTable = throttled_call,
      sdk_UpdateTable = throttled_call, sdk_UpdateTimeToLive = throttled_call,
      sdk_UpdateContinuousBackups = throttled_call, sdk_CreateBackup = throttled_call,
      sdk_DeleteBackup = throttled_call, sdk_DescribeBackup = throttled_call,
      sdk_RestoreTableFromBackup = throttled_call, sdk_RestoreTableToPointInTime = throttled_call,
      sdk_DescribeLimits = throttled_call, sdk_ListBackups = throttled_call, sdk_DeleteTable = throttled_call,
      sdk_ListTables = throttled_call, sdk_DescribeTable = throttled_call,
      sdk_DescribeTimeToLive = throttled_call, sdk_DescribeContinuousBackups = throttled_call,
      sdk_DescribeTableReplicaAutoScaling = throttled_call,
      sdk_codec = pair_codec, sdk_parses_time = (\<lambda>_. True), sdk_payload = (\<lambda>_. '''')\<rparr>"

theorem waiters_keep_budget_witness:
  "\<exists>polls h'. aws_wait_for_table_gone throttling_sdk (slow_host 1) (Some 5000) ''t'' 0 0 =
     Some (Inl (bare_error ''Timed out waiting for table t to become gone''), polls, h') \<and> polls \<le> 7"
proof -
  have undecided: "polled throttling_sdk gone_verdict ''t'' n w = None" for n w
    by (induction n arbitrary: w) (simp_all add: throttling_sdk_def throttled_call_def gone_verdict_def)
  have "(\<lambda>w. snd (sdk_DescribeTable throttling_sdk (describe_of_table ''t'') w)) = Suc"
    by (simp add: throttling_sdk_def throttled_call_def fun_eq_iff)
  then have count: "asked throttling_sdk ''t'' n 0 = n" for n
    by (induction n) (simp_all add: asked_def)
  have few: "n \<le> 6" if "n = 0 \<or> (\<Sum>i<n - 1. backoff i) < 5000" for n
  proof (rule ccontr)
    assume "\<not> n \<le> 6"
    then have "(\<Sum>i<6. backoff i) \<le> (\<Sum>i<n - 1. backoff i)" by (intro sum_mono2) auto
    then show False using that \<open>\<not> n \<le> 6\<close> by (simp add: backoff_def eval_nat_numeral)
  qed
  obtain n r w' h' where e: "aws_wait_for_table_gone throttling_sdk (slow_host 1) (Some 5000) ''t'' 0 0 = Some (r, w', h')"
    "ended_after throttling_sdk (slow_host 1) gone_verdict
       (bare_error (''Timed out waiting for table '' @ ''t'' @ '' to become gone'')) ''t'' 5000 (fst (clock (slow_host 1) 0)) 0 n 0
       (snd (clock (slow_host 1) 0)) r w' h'"
    "n = 0 \<or> (\<Sum>i<n - 1. backoff i) < 5000"
    using conjunct2 [OF waiters_keep_budget [OF slow_steady.steady_host_axioms [of 1], where sdk = throttling_sdk and ms = 5000 and name = "''t''" and w = 0 and h = 0]] by blast
  from e(2) have "r = Inl (bare_error ''Timed out waiting for table t to become gone'')" "w' = Suc n"
    unfolding ended_after_def undecided count by simp_all
  then show ?thesis using e(1) few [OF e(3)] by simp
qed


section \<open>What the engine relies on\<close>

lemma translate_failed:
  "(\<exists>e. fst (translate bad good q) = Inl e \<and> P e) \<longleftrightarrow> (\<exists>x. fst q = Inl x \<and> P (bad x))"
  by (cases q) (auto simp: translate_def split: sum.split)

lemma error_codes [simp]:
  "err_code (from_sdk_error x) = (if sx_type x = CONDITIONAL_CHECK_FAILED then conditional_check_failed else service_error)"
  "err_code (plain_error x) = service_error" "err_code (transact_failed_error x) = service_error"
  by (simp_all add: from_sdk_error_def plain_error_def transact_failed_error_def named_error_def)

text \<open>A write reports a failed condition exactly if the service does, so the executors that count failed
  conditions count all of them and nothing else; a transaction never does, whatever the service reports.\<close>

theorem failed_conditions_recognized:
  "(\<exists>e. fst (aws_put_item sdk p w) = Inl e \<and> err_code e = conditional_check_failed) =
     (\<exists>x. fst (sdk_PutItem sdk (build_put_item (sdk_codec sdk) p) w) = Inl x \<and> sx_type x = CONDITIONAL_CHECK_FAILED) \<and>
   (\<exists>e. fst (aws_update_item sdk u w) = Inl e \<and> err_code e = conditional_check_failed) =
     (\<exists>x. fst (sdk_UpdateItem sdk (build_update_item (sdk_codec sdk) u) w) = Inl x \<and> sx_type x = CONDITIONAL_CHECK_FAILED) \<and>
   (\<exists>e. fst (aws_delete_item sdk d w) = Inl e \<and> err_code e = conditional_check_failed) =
     (\<exists>x. fst (sdk_DeleteItem sdk (build_delete_item (sdk_codec sdk) d) w) = Inl x \<and> sx_type x = CONDITIONAL_CHECK_FAILED) \<and>
   (\<nexists>e. fst (aws_transact_write_items sdk ws w) = Inl e \<and> err_code e = conditional_check_failed)"
  by (auto simp: aws_put_item_def aws_update_item_def aws_delete_item_def aws_transact_write_items_def translate_failed)

text \<open>The continuations the adapter hands to the engine are never empty ones.\<close>

lemma continuations_not_empty:
  "po_last_evaluated_key (from_page b64 res) \<noteq> Some []"
  "fst (aws_list_backups sdk r w) = Inr page \<Longrightarrow> lbo_last_evaluated_backup_arn page \<noteq> Some []"
  by (auto simp: from_page_def from_sdk_item_def aws_list_backups_def translate_def Let_def
      split: sum.splits prod.splits if_splits)

text \<open>A key schema and a projection come back as they were sent, up to the names' first NUL.\<close>

lemma load_key_schema_append:
  "load_key_schema (xs @ ys) out = load_key_schema ys (load_key_schema xs out)"
  by (induction xs out rule: load_key_schema.induct) simp_all

lemma load_roles:
  "load_key_schema (map (\<lambda>name. \<lparr>ke_attribute_name = name, ke_key_type = Sdk_HASH\<rparr>) ns) out =
     out\<lparr>hash_keys := hash_keys out @ map c_str ns\<rparr>"
  "load_key_schema (map (\<lambda>name. \<lparr>ke_attribute_name = name, ke_key_type = Sdk_RANGE\<rparr>) ns) out =
     out\<lparr>range_keys := range_keys out @ map c_str ns\<rparr>"
  by (induction ns arbitrary: out) simp_all

lemma key_schema_reads_back:
  "loaded_key_schema (to_sdk_key_schema ks) = \<lparr>hash_keys = map c_str (ks_hash ks), range_keys = map c_str (ks_range ks)\<rparr>"
  by (simp add: loaded_key_schema_def to_sdk_key_schema_def load_key_schema_append load_roles)

lemma projection_reads_back:
  "from_sdk_projection (to_sdk_projection p) =
     \<lparr>pj_type = pj_type p, pj_non_key_attributes = (if pj_type p = Projection_include then map c_str (pj_non_key_attributes p) else [])\<rparr>"
  by (cases "pj_type p") (simp_all add: from_sdk_projection_def to_sdk_projection_def no_projection_def)

text \<open>A connection does not depend on the ones before, and always carries the program's user agent.\<close>

lemma rebuild_forgets: "rebuild defaults version r2 e2 (rebuild defaults version r1 e1 aa) = rebuild defaults version r2 e2 aa"
  by (simp add: rebuild_def Let_def)

lemma user_agent_always:
  "cf_user_agent (snd (aa_client (rebuild defaults version reg endpoint aa))) = ''ddbsh - version '' @ c_str version"
  by (simp add: rebuild_def Let_def)

end
