(* ===== verification/Shell.thy ===== *)
theory Shell
  imports Connection Aws_Client
begin

text \<open>
  The command line shell without its terminal (\<open>cli/repl.cpp\<close>, \<open>cli/main.cpp\<close>): lines are collected into a
  batch until a terminator line or the end of the input, each batch is parsed and run through the session,
  every fragment is printed as it is emitted, and the exit code is that of the last statement run.  The
  environment variables, the files, \<open>getopt\<close> and the lines read from the terminal are arguments.
\<close>

section \<open>Lines\<close>

definition is_ws :: "char \<Rightarrow> bool" where
  "is_ws c \<longleftrightarrow> c \<in> {CHR '' '', CHR 0x09, CHR 0x0D, CHR 0x0A, CHR 0x0C, CHR 0x0B}"

definition trim :: "string \<Rightarrow> string" where
  "trim s = rev (dropWhile is_ws (rev (dropWhile is_ws s)))"

definition lower :: "char \<Rightarrow> char" where
  "lower c = (if in_range (CHR ''A'') (CHR ''Z'') c then char_of (of_char c + (32::nat)) else c)"

definition iequals :: "string \<Rightarrow> string \<Rightarrow> bool" where
  "iequals a b \<longleftrightarrow> length a = length b \<and> list_all2 (\<lambda>x y. lower x = lower y) a b"

definition strip_quotes :: "string \<Rightarrow> string" where
  "strip_quotes s =
     (if 2 \<le> length s \<and> (hd s = CHR 0x22 \<or> hd s = CHR 0x27) \<and> last s = hd s then butlast (tl s) else s)"

record terminator =
  te_blank_line :: bool
  te_word :: string

definition default_terminator :: terminator where
  "default_terminator = \<lparr>te_blank_line = False, te_word = ''go''\<rparr>"

definition is_terminator_line :: "string \<Rightarrow> terminator \<Rightarrow> bool" where
  "is_terminator_line trimmed term =
     (if te_blank_line term then trimmed = [] else trimmed \<noteq> [] \<and> iequals trimmed (te_word term))"

definition is_blank :: "char \<Rightarrow> bool" where
  "is_blank c \<longleftrightarrow> c = CHR '' '' \<or> c = CHR 0x09"

text \<open>\<open>next_token\<close>: the token at the position and the text behind it.\<close>

definition next_token :: "string \<Rightarrow> string \<times> string" where
  "next_token s =
     (let t = dropWhile is_blank s in (takeWhile (\<lambda>c. \<not> is_blank c) t, dropWhile (\<lambda>c. \<not> is_blank c) t))"

text \<open>The terminator as given by \<open>set terminator\<close> or \<open>-t\<close>: none is a blank line.\<close>

definition terminator_of :: "string \<Rightarrow> terminator" where
  "terminator_of w = (if w = [] then \<lparr>te_blank_line = True, te_word = ''''\<rparr> else \<lparr>te_blank_line = False, te_word = w\<rparr>)"

definition try_set_terminator_directive :: "string \<Rightarrow> terminator option" where
  "try_set_terminator_directive trimmed =
     (let (t1, r1) = next_token trimmed; (t2, r2) = next_token r1
      in if iequals t1 ''set'' \<and> iequals t2 ''terminator'' then Some (terminator_of (strip_quotes (trim r2))) else None)"

text \<open>\<open>std::getline\<close> over a text: what is behind the last line end is a line if it is not empty.\<close>

fun getlines :: "string \<Rightarrow> string \<Rightarrow> string list" where
  "getlines line [] = (if line = [] then [] else [line])"
| "getlines line (c # cs) = (if c = newline then line # getlines [] cs else getlines (line @ [c]) cs)"

section \<open>A batch\<close>

datatype printed = Stdout string | Stderr string


definition print_error :: "error \<Rightarrow> printed" where
  "print_error e = Stderr (c_str (render_error e))"

definition print_fragment :: "exec_outcome \<Rightarrow> printed list" where
  "print_fragment fragment =
     Stdout (c_str (render_outcome fragment)) #
     (if render_outcome_stderr fragment = [] then [] else [Stderr (c_str (render_outcome_stderr fragment))])"

record batch_status =
  bs_quit :: bool
  bs_aborted :: bool
  bs_last_error :: "bool option"

definition new_status :: batch_status where
  "new_status = \<lparr>bs_quit = False, bs_aborted = False, bs_last_error = None\<rparr>"

text \<open>A statement with a sink of its own, whose fragments are printed.\<close>

definition run_statement ::
    "'h environment \<Rightarrow> 'w iddb_client \<Rightarrow> parsed_statement \<Rightarrow> ('w, 'h) session \<Rightarrow>
     (unit result \<times> printed list \<times> ('w, 'h) session) option" where
  "run_statement env client st sn =
     (case execute_stream env client st (sn\<lparr>sn_exec := (sn_exec sn)\<lparr>emitted := []\<rparr>\<rparr>) of
        None \<Rightarrow> None
      | Some (r, sn') \<Rightarrow>
          Some (r, concat (map print_fragment (emitted (sn_exec sn'))) @
              (case r of Inl e \<Rightarrow> [print_error e] | Inr _ \<Rightarrow> []), sn'))"

text \<open>The loop over the statements; the flag tells that it returned from the function.\<close>

fun run_statements ::
    "'h environment \<Rightarrow> 'w iddb_client \<Rightarrow> bool \<Rightarrow> parsed_statement list \<Rightarrow> batch_status \<Rightarrow> printed list \<Rightarrow> ('w, 'h) session \<Rightarrow>
     (bool \<times> batch_status \<times> printed list \<times> ('w, 'h) session) option" where
  "run_statements env client abort_on_error [] bst out sn = Some (False, bst, out, sn)"
| "run_statements env client abort_on_error (st # sts) bst out sn =
     (case run_statement env client st sn of
        None \<Rightarrow> None
      | Some (Inl e, ps, sn') \<Rightarrow>
          (let bst' = bst\<lparr>bs_last_error := Some True\<rparr>
           in if abort_on_error then Some (True, bst'\<lparr>bs_aborted := True\<rparr>, out @ ps, sn')
              else run_statements env client abort_on_error sts bst' (out @ ps) sn')
      | Some (Inr _, ps, sn') \<Rightarrow>
          (let bst' = bst\<lparr>bs_last_error := Some False\<rparr>
           in if kind_of (ps_command st) = Kind_quit then Some (True, bst'\<lparr>bs_quit := True\<rparr>, out @ ps, sn')
              else run_statements env client abort_on_error sts bst' (out @ ps) sn'))"

definition run_batch_text ::
    "('h, 'd) embedding \<Rightarrow> 'w iddb_client \<Rightarrow> bool \<Rightarrow> string \<Rightarrow> printed list \<Rightarrow> ('w, 'h) session \<Rightarrow>
     (batch_status \<times> printed list \<times> ('w, 'h) session) option" where
  "run_batch_text em client abort_on_error text out sn =
     (case parse_batch (em_driver em) [] (em_open em text) of
        None \<Rightarrow> None
      | Some batch \<Rightarrow>
          (case run_statements (em_env em) client abort_on_error (pb_statements batch) new_status out sn of
             None \<Rightarrow> None
           | Some (returned, bst, out', sn') \<Rightarrow>
               Some (bst,
                 out' @ (case pb_error batch of
                    Some e \<Rightarrow> (if returned then [] else [print_error e]) | None \<Rightarrow> []), sn')))"


section \<open>The loop over lines\<close>

record ('w, 'h) shell =
  sl_term :: terminator
  sl_buffer :: string
  sl_last_error :: "bool option"
  sl_printed :: "printed list"
  sl_session :: "('w, 'h) session"

text \<open>\<open>flush\<close>: the flag tells to stop.\<close>

definition flush ::
    "('h, 'd) embedding \<Rightarrow> 'w iddb_client \<Rightarrow> bool \<Rightarrow> ('w, 'h) shell \<Rightarrow> (bool \<times> ('w, 'h) shell) option" where
  "flush em client abort_on_error sl =
     (if sl_buffer sl = [] then Some (False, sl)
      else case run_batch_text em client abort_on_error (sl_buffer sl) (sl_printed sl) (sl_session sl) of
        None \<Rightarrow> None
      | Some (st, out, sn) \<Rightarrow>
          Some (bs_quit st \<or> bs_aborted st,
            sl\<lparr>sl_buffer := [], sl_printed := out, sl_session := sn,
               sl_last_error := (if bs_last_error st \<noteq> None then bs_last_error st else sl_last_error sl)\<rparr>))"

definition exit_code :: "bool option \<Rightarrow> nat" where
  "exit_code last_error = (if last_error = Some True then 1 else 0)"

fun run_lines ::
    "('h, 'd) embedding \<Rightarrow> 'w iddb_client \<Rightarrow> bool \<Rightarrow> string list \<Rightarrow> ('w, 'h) shell \<Rightarrow> ('w, 'h) shell option" where
  "run_lines em client abort_on_error [] sl = map_option snd (flush em client abort_on_error sl)"
| "run_lines em client abort_on_error (line # lines) sl =
     (let trimmed = trim line;
          directive = (if sl_buffer sl = [] then try_set_terminator_directive trimmed else None)
      in case directive of
           Some term \<Rightarrow> run_lines em client abort_on_error lines (sl\<lparr>sl_term := term\<rparr>)
         | None \<Rightarrow>
             (if is_terminator_line trimmed (sl_term sl)
              then (case flush em client abort_on_error sl of
                      None \<Rightarrow> None
                    | Some (stp, sl') \<Rightarrow> (if stp then Some sl' else run_lines em client abort_on_error lines sl'))
              else run_lines em client abort_on_error lines
                (sl\<lparr>sl_buffer := (if sl_buffer sl = [] then '''' else sl_buffer sl @ [newline]) @ line\<rparr>)))"

definition run_source ::
    "('h, 'd) embedding \<Rightarrow> 'w iddb_client \<Rightarrow> bool \<Rightarrow> terminator \<Rightarrow> string list \<Rightarrow> printed list \<Rightarrow> ('w, 'h) session \<Rightarrow>
     (nat \<times> terminator \<times> printed list \<times> ('w, 'h) session) option" where
  "run_source em client abort_on_error term lines out sn =
     map_option (\<lambda>sl. (exit_code (sl_last_error sl), sl_term sl, sl_printed sl, sl_session sl))
       (run_lines em client abort_on_error lines
         \<lparr>sl_term = term, sl_buffer = '''', sl_last_error = None, sl_printed = out, sl_session = sn\<rparr>)"

section \<open>The program\<close>

definition env_or :: "(string \<Rightarrow> string option) \<Rightarrow> string \<Rightarrow> string \<Rightarrow> string" where
  "env_or getenv name fallback = (case getenv name of Some v \<Rightarrow> (if v \<noteq> [] then v else fallback) | None \<Rightarrow> fallback)"

definition home_file :: "(string \<Rightarrow> string option) \<Rightarrow> string \<Rightarrow> string" where
  "home_file getenv file =
     (case getenv ''HOME'' of Some home \<Rightarrow> (if home \<noteq> [] then home @ file else '''') | None \<Rightarrow> '''')"

definition config_path :: "(string \<Rightarrow> string option) \<Rightarrow> string" where
  "config_path getenv =
     (case getenv ''DDBSH_CONFIG_FILE'' of
        Some p \<Rightarrow> (if p \<noteq> [] then p else home_file getenv ''/.ddbsh_config'')
      | None \<Rightarrow> home_file getenv ''/.ddbsh_config'')"

definition history_path :: "(string \<Rightarrow> string option) \<Rightarrow> string" where
  "history_path getenv = home_file getenv ''/.ddbsh_history''"

definition prompt :: "('w, 'h) session \<Rightarrow> string" where
  "prompt sn = (let (reg, overridden) = connection_hint sn in reg @ (if overridden then '' (*)'' else '''') @ ''> '')"

text \<open>The options \<open>getopt_long\<close> finds, in order.\<close>

datatype cli_option = Opt_q | Opt_e | Opt_d | Opt_c string | Opt_f string | Opt_t "string option" | Opt_unknown

record cli_options =
  op_quiet :: bool
  op_abort_on_error :: bool
  op_cmdstring :: "string option"
  op_inputfile :: "string option"
  op_term :: terminator

definition default_options :: cli_options where
  "default_options = \<lparr>op_quiet = False, op_abort_on_error = False, op_cmdstring = None, op_inputfile = None,
     op_term = default_terminator\<rparr>"

fun apply_option :: "cli_option \<Rightarrow> cli_options \<Rightarrow> cli_options option" where
  "apply_option Opt_q op = Some (op\<lparr>op_quiet := True\<rparr>)"
| "apply_option Opt_e op = Some (op\<lparr>op_abort_on_error := True\<rparr>)"
| "apply_option Opt_d op = Some op"
| "apply_option (Opt_c s) op = Some (op\<lparr>op_cmdstring := Some s\<rparr>)"
| "apply_option (Opt_f s) op = Some (op\<lparr>op_inputfile := Some s\<rparr>)"
| "apply_option (Opt_t w) op = Some (op\<lparr>op_term := terminator_of (case w of Some s \<Rightarrow> s | None \<Rightarrow> '''')\<rparr>)"
| "apply_option Opt_unknown op = None"

fun apply_options :: "cli_option list \<Rightarrow> cli_options \<Rightarrow> cli_options option" where
  "apply_options [] op = Some op"
| "apply_options (o1 # os) op = (case apply_option o1 op of None \<Rightarrow> None | Some op' \<Rightarrow> apply_options os op')"

definition usage :: string where
  "usage = ''Usage: ddbsh [-q] [-e] [-d] [-t[TERM]] [-c '' @ [CHR 0x22] @ ''<cmds>'' @ [CHR 0x22] @ '' | -f <file>]'' @ [newline]"

text \<open>What surrounds the program: the environment, the files, the text of \<open>perror\<close>, the terminal's lines.\<close>

record system =
  sy_getenv :: "string \<Rightarrow> string option"
  sy_file :: "string \<Rightarrow> string option"
  sy_perror :: "string \<Rightarrow> string"
  sy_stdin :: "string list"

definition initial_session :: "system \<Rightarrow> 'w \<Rightarrow> 'h \<Rightarrow> ('w, 'h) session" where
  "initial_session sys w h =
     \<lparr>sn_config = \<lparr>cfg_region = env_or (sy_getenv sys) ''AWS_REGION'' (env_or (sy_getenv sys) ''AWS_DEFAULT_REGION'' ''us-east-1''),
        cfg_endpoint = env_or (sy_getenv sys) ''DDBSH_ENDPOINT_OVERRIDE'' ''''\<rparr>,
      sn_exec = \<lparr>world = w, host = h, alias_prefix_counter = 0, emitted = []\<rparr>\<rparr>"

text \<open>The configuration file, if there is one: the code is that of its run.\<close>

definition run_config ::
    "('h, 'd) embedding \<Rightarrow> 'w iddb_client \<Rightarrow> system \<Rightarrow> ('w, 'h) session \<Rightarrow>
     (nat \<times> terminator \<times> printed list \<times> ('w, 'h) session) option" where
  "run_config em client sys sn =
     (case (if config_path (sy_getenv sys) = [] then None else sy_file sys (config_path (sy_getenv sys))) of
        None \<Rightarrow> Some (0, default_terminator, [], sn)
      | Some text \<Rightarrow> run_source em client True default_terminator (getlines [] text) [] sn)"

definition run_main ::
    "('h, 'd) embedding \<Rightarrow> 'w iddb_client \<Rightarrow> system \<Rightarrow> cli_options \<Rightarrow> printed list \<Rightarrow> ('w, 'h) session \<Rightarrow>
     (nat \<times> printed list \<times> ('w, 'h) session) option" where
  "run_main em client sys op out sn =
     (let out' = out @ (if op_quiet op then [] else [Stdout (''ddbsh - version '' @ c_str (env_version (em_env em)) @ [newline])]);
          run = (\<lambda>lines. map_option (\<lambda>(code, _, printed, sn'). (code, printed, sn'))
             (run_source em client (op_abort_on_error op) (op_term op) lines out' sn))
      in case op_cmdstring op of
           Some text \<Rightarrow> run (getlines [] text)
         | None \<Rightarrow>
             (case op_inputfile op of
                Some path \<Rightarrow>
                  (case sy_file sys path of
                     None \<Rightarrow> Some (1, out' @ [Stderr (sy_perror sys path)], sn)
                   | Some text \<Rightarrow> run (getlines [] text))
              | None \<Rightarrow> run (sy_stdin sys)))"

definition main ::
    "('h, 'd) embedding \<Rightarrow> 'w iddb_client \<Rightarrow> system \<Rightarrow> cli_option list \<Rightarrow> 'w \<Rightarrow> 'h \<Rightarrow>
     (nat \<times> printed list \<times> ('w, 'h) session) option" where
  "main em client sys opts w h =
     (let sn = initial_session sys w h
      in case apply_options opts default_options of
           None \<Rightarrow> Some (1, [Stderr usage], sn)
         | Some op \<Rightarrow>
             (if op_cmdstring op \<noteq> None \<and> op_inputfile op \<noteq> None
              then Some (1, [Stdout (''ddbsh: Cannot specify both -c and -f.'' @ [newline])], sn)
              else case run_config em client sys sn of
                None \<Rightarrow> None
              | Some (code, _, out, sn') \<Rightarrow>
                  (if code \<noteq> 0 then Some (1, out, sn') else run_main em client sys op out sn')))"


section \<open>What the shell runs\<close>

text \<open>The batches of the lines, terminators and directives taken out.\<close>

fun batches :: "terminator \<Rightarrow> string \<Rightarrow> string list \<Rightarrow> string list" where
  "batches term buffer [] = (if buffer = [] then [] else [buffer])"
| "batches term buffer (line # lines) =
     (case (if buffer = [] then try_set_terminator_directive (trim line) else None) of
        Some term' \<Rightarrow> batches term' buffer lines
      | None \<Rightarrow>
          (if is_terminator_line (trim line) term
           then (if buffer = [] then [] else [buffer]) @ batches term [] lines
           else batches term ((if buffer = [] then '''' else buffer @ [newline]) @ line) lines))"

text \<open>The statements of a batch in order, until one quits, or fails where that ends the run: whether it
  ended so, the success of each statement run, and what is printed.\<close>

fun run_in_order ::
    "'h environment \<Rightarrow> 'w iddb_client \<Rightarrow> bool \<Rightarrow> parsed_statement list \<Rightarrow> ('w, 'h) session \<Rightarrow>
     (bool \<times> bool list \<times> printed list \<times> ('w, 'h) session) option" where
  "run_in_order env client abort_on_error [] sn = Some (False, [], [], sn)"
| "run_in_order env client abort_on_error (st # sts) sn =
     (case run_statement env client st sn of
        None \<Rightarrow> None
      | Some (r, ps, sn') \<Rightarrow>
          (let ok = (case r of Inr _ \<Rightarrow> True | Inl _ \<Rightarrow> False)
           in if (if ok then kind_of (ps_command st) = Kind_quit else abort_on_error) then Some (True, [ok], ps, sn')
              else (case run_in_order env client abort_on_error sts sn' of
                None \<Rightarrow> None
              | Some (ended, oks, ps', sn'') \<Rightarrow> Some (ended, ok # oks, ps @ ps', sn''))))"

fun run_texts ::
    "('h, 'd) embedding \<Rightarrow> 'w iddb_client \<Rightarrow> bool \<Rightarrow> string list \<Rightarrow> ('w, 'h) session \<Rightarrow>
     (bool list \<times> printed list \<times> ('w, 'h) session) option" where
  "run_texts em client abort_on_error [] sn = Some ([], [], sn)"
| "run_texts em client abort_on_error (text # texts) sn =
     (case parse_batch (em_driver em) [] (em_open em text) of
        None \<Rightarrow> None
      | Some batch \<Rightarrow>
          (case run_in_order (em_env em) client abort_on_error (pb_statements batch) sn of
             None \<Rightarrow> None
           | Some (True, oks, ps, sn') \<Rightarrow> Some (oks, ps, sn')
           | Some (False, oks, ps, sn') \<Rightarrow>
               (case run_texts em client abort_on_error texts sn' of
                  None \<Rightarrow> None
                | Some (oks', ps', sn'') \<Rightarrow>
                    Some (oks @ oks', ps @ (case pb_error batch of Some e \<Rightarrow> [print_error e] | None \<Rightarrow> []) @ ps', sn''))))"

definition last_failed :: "bool list \<Rightarrow> bool option \<Rightarrow> bool option" where
  "last_failed oks err = (if oks = [] then err else Some (\<not> last oks))"

lemma last_failed_simps [simp]:
  "last_failed [] err = err" "last_failed (ok # oks) err = last_failed oks (Some (\<not> ok))"
  "last_failed (oks @ oks') err = last_failed oks' (last_failed oks err)"
  by (auto simp: last_failed_def)

definition status_ok :: "batch_status \<Rightarrow> bool" where
  "status_ok bst \<longleftrightarrow> \<not> bs_quit bst \<and> \<not> bs_aborted bst"

definition seen_status ::
    "bool \<times> batch_status \<times> printed list \<times> ('w, 'h) session \<Rightarrow> bool \<times> bool \<times> bool option \<times> printed list \<times> ('w, 'h) session" where
  "seen_status q = (case q of (returned, bst, out, sn) \<Rightarrow>
     (returned, bs_quit bst \<or> bs_aborted bst, bs_last_error bst, out, sn))"

definition expected_status ::
    "bool option \<Rightarrow> printed list \<Rightarrow> bool \<times> bool list \<times> printed list \<times> ('w, 'h) session \<Rightarrow>
     bool \<times> bool \<times> bool option \<times> printed list \<times> ('w, 'h) session" where
  "expected_status err out q = (case q of (ended, oks, ps, sn) \<Rightarrow> (ended, ended, last_failed oks err, out @ ps, sn))"

lemma status_simps [simp]:
  "seen_status (returned, bst, out, sn) = (returned, bs_quit bst \<or> bs_aborted bst, bs_last_error bst, out, sn)"
  "expected_status err out (ended, oks, ps, sn) = (ended, ended, last_failed oks err, out @ ps, sn)"
  by (simp_all add: seen_status_def expected_status_def)

lemma run_statements_in_order:
  assumes "status_ok bst"
  shows "map_option seen_status (run_statements env client abort_on_error sts bst out sn) =
    map_option (expected_status (bs_last_error bst) out) (run_in_order env client abort_on_error sts sn)"
  using assms
proof (induction sts arbitrary: bst out sn)
  case Nil
  then show ?case by (simp add: status_ok_def)
next
  case (Cons st sts)
  have IH: "map_option seen_status (run_statements env client abort_on_error sts (bst\<lparr>bs_last_error := Some b\<rparr>) out' sn') =
    map_option (expected_status (Some b) out') (run_in_order env client abort_on_error sts sn')" for b out' sn'
    using Cons.IH [of "bst\<lparr>bs_last_error := Some b\<rparr>" out' sn'] Cons.prems by (simp add: status_ok_def)
  show ?case
  proof (cases "run_statement env client st sn")
    case (Some q)
    obtain r ps sn' where q: "q = (r, ps, sn')" by (cases q) auto
    have ref: "map_option (expected_status (bs_last_error bst) out)
        (case run_in_order env client abort_on_error sts sn' of
           None \<Rightarrow> None | Some (ended, oks, ps', sn'') \<Rightarrow> Some (ended, ok # oks, ps @ ps', sn'')) =
      map_option (expected_status (Some (\<not> ok)) (out @ ps)) (run_in_order env client abort_on_error sts sn')" for ok
      by (auto split: option.split)
    show ?thesis
    proof (cases r)
      case (Inl e)
      then show ?thesis using Some q IH [of True "out @ ps" sn'] ref [of "case Inl e :: unit result of Inl _ \<Rightarrow> False | Inr _ \<Rightarrow> True"] Cons.prems
        by (cases abort_on_error) (simp_all add: Let_def status_ok_def)
    next
      case (Inr u)
      then show ?thesis using Some q IH [of False "out @ ps" sn'] ref [of "case Inr () :: unit result of Inl _ \<Rightarrow> False | Inr _ \<Rightarrow> True"] Cons.prems
        by (cases "kind_of (ps_command st) = Kind_quit") (simp_all add: Let_def status_ok_def)
    qed
  qed simp
qed


lemma run_in_order_status:
  assumes "run_statements env client abort_on_error sts new_status out sn = Some (returned, bst, out', sn')"
  shows "\<exists>oks ps. run_in_order env client abort_on_error sts sn = Some (returned, oks, ps, sn') \<and> out' = out @ ps \<and>
    (bs_quit bst \<or> bs_aborted bst \<longleftrightarrow> returned) \<and> bs_last_error bst = last_failed oks None"
proof -
  obtain ended oks ps sn2 where o: "run_in_order env client abort_on_error sts sn = Some (ended, oks, ps, sn2)"
    "seen_status (returned, bst, out', sn') = expected_status None out (ended, oks, ps, sn2)"
    using run_statements_in_order [of new_status env client abort_on_error sts out sn] assms
    by (cases "run_in_order env client abort_on_error sts sn") (auto simp: status_ok_def new_status_def)
  then show ?thesis by auto
qed

lemma run_in_order_diverges:
  assumes "run_statements env client abort_on_error sts new_status out sn = None"
  shows "run_in_order env client abort_on_error sts sn = None"
  using run_statements_in_order [of new_status env client abort_on_error sts out sn] assms
  by (simp add: status_ok_def new_status_def)


lemma flush_diverges:
  assumes "sl_buffer sl \<noteq> []" and "flush em client abort_on_error sl = None"
  shows "run_texts em client abort_on_error (sl_buffer sl # texts) (sl_session sl) = None"
  using assms
  by (auto simp: flush_def run_batch_text_def dest!: run_in_order_diverges split: option.splits)

lemma flush_runs_text:
  assumes "sl_buffer sl \<noteq> []" and "flush em client abort_on_error sl = Some (stp, sl')"
  shows "sl_buffer sl' = [] \<and> sl_term sl' = sl_term sl \<and>
    (\<exists>oks ps. sl_last_error sl' = last_failed oks (sl_last_error sl) \<and> sl_printed sl' = sl_printed sl @ ps \<and>
      run_texts em client abort_on_error (sl_buffer sl # texts) (sl_session sl) =
        (if stp then Some (oks, ps, sl_session sl')
         else map_option (\<lambda>(oks', ps', sn). (oks @ oks', ps @ ps', sn)) (run_texts em client abort_on_error texts (sl_session sl'))))"
proof -
  obtain batch returned bst out sn where
    b: "parse_batch (em_driver em) [] (em_open em (sl_buffer sl)) = Some batch" and
    r: "run_statements (em_env em) client abort_on_error (pb_statements batch) new_status (sl_printed sl) (sl_session sl) =
        Some (returned, bst, out, sn)" and
    f: "stp = (bs_quit bst \<or> bs_aborted bst)"
      "sl' = sl\<lparr>sl_buffer := [],
         sl_printed := out @ (case pb_error batch of Some e \<Rightarrow> (if returned then [] else [print_error e]) | None \<Rightarrow> []),
         sl_session := sn,
         sl_last_error := (if bs_last_error bst \<noteq> None then bs_last_error bst else sl_last_error sl)\<rparr>"
  proof (cases "parse_batch (em_driver em) [] (em_open em (sl_buffer sl))")
    case None
    then show thesis using assms by (simp add: flush_def run_batch_text_def)
  next
    case (Some batch)
    show thesis
    proof (cases "run_statements (em_env em) client abort_on_error (pb_statements batch) new_status (sl_printed sl) (sl_session sl)")
      case None
      then show thesis using Some assms by (simp add: flush_def run_batch_text_def)
    next
      case (Some q)
      obtain returned bst out sn where "q = (returned, bst, out, sn)" by (cases q)
      then show thesis using that [of batch returned bst out sn] Some \<open>parse_batch _ _ _ = Some batch\<close> assms
        by (auto simp: flush_def run_batch_text_def)
    qed
  qed
  obtain oks ps where o: "run_in_order (em_env em) client abort_on_error (pb_statements batch) (sl_session sl) =
      Some (returned, oks, ps, sn)" "out = sl_printed sl @ ps" "stp = returned" "bs_last_error bst = last_failed oks None"
    using run_in_order_status [OF r] f(1) by blast
  let ?err = "case pb_error batch of Some e \<Rightarrow> (if returned then [] else [print_error e]) | None \<Rightarrow> []"
  have "run_texts em client abort_on_error (sl_buffer sl # texts) (sl_session sl) =
        (if stp then Some (oks, ps @ ?err, sl_session sl')
         else map_option (\<lambda>(oks', ps', sn). (oks @ oks', (ps @ ?err) @ ps', sn))
           (run_texts em client abort_on_error texts (sl_session sl')))"
    using b o f(2) by (cases returned) (auto split: option.split)
  moreover have "sl_last_error sl' = last_failed oks (sl_last_error sl)"
    using f(2) o(4) by (simp add: last_failed_def)
  ultimately show ?thesis using f(2) o(2) by auto
qed

definition seen_shell :: "('w, 'h) shell \<Rightarrow> bool option \<times> printed list \<times> ('w, 'h) session" where
  "seen_shell sl = (sl_last_error sl, sl_printed sl, sl_session sl)"

definition expected_shell ::
    "bool option \<Rightarrow> printed list \<Rightarrow> bool list \<times> printed list \<times> ('w, 'h) session \<Rightarrow> bool option \<times> printed list \<times> ('w, 'h) session" where
  "expected_shell err out q = (case q of (oks, ps, sn) \<Rightarrow> (last_failed oks err, out @ ps, sn))"

lemma expected_shell_append:
  "map_option (expected_shell err out) (map_option (\<lambda>(oks', ps', sn). (oks @ oks', ps @ ps', sn)) r) =
     map_option (expected_shell (last_failed oks err) (out @ ps)) r"
  by (cases r) (auto simp: expected_shell_def)

lemma run_lines_batches:
  "map_option seen_shell (run_lines em client abort_on_error lines sl) =
     map_option (expected_shell (sl_last_error sl) (sl_printed sl))
       (run_texts em client abort_on_error (batches (sl_term sl) (sl_buffer sl) lines) (sl_session sl))"
proof (induction lines arbitrary: sl)
  case Nil
  show ?case
  proof (cases "sl_buffer sl = []")
    case True
    then show ?thesis by (simp add: flush_def seen_shell_def expected_shell_def)
  next
    case False
    show ?thesis
    proof (cases "flush em client abort_on_error sl")
      case None
      then show ?thesis using flush_diverges [OF False None, of "[]"] False by simp
    next
      case (Some q)
      obtain stp sl' where q: "q = (stp, sl')" by fastforce
      obtain oks ps where f: "sl_last_error sl' = last_failed oks (sl_last_error sl)" "sl_printed sl' = sl_printed sl @ ps"
          "run_texts em client abort_on_error [sl_buffer sl] (sl_session sl) = Some (oks, ps, sl_session sl')"
        using flush_runs_text [OF False, of em client abort_on_error stp sl' "[]"] Some q by auto
      have "batches (sl_term sl) (sl_buffer sl) [] = [sl_buffer sl]" using False by simp
      then show ?thesis using Some q f by (simp add: seen_shell_def expected_shell_def del: run_texts.simps)
    qed
  qed
next
  case (Cons line lines)
  let ?dir = "if sl_buffer sl = [] then try_set_terminator_directive (trim line) else None"
  show ?case
  proof (cases ?dir)
    case (Some t)
    then show ?thesis using Cons [of "sl\<lparr>sl_term := t\<rparr>"] by simp
  next
    case None
    show ?thesis
    proof (cases "is_terminator_line (trim line) (sl_term sl)")
      case False
      then show ?thesis using None
          Cons [of "sl\<lparr>sl_buffer := (if sl_buffer sl = [] then '''' else sl_buffer sl @ [newline]) @ line\<rparr>"] by simp
    next
      case True
      show ?thesis
      proof (cases "sl_buffer sl = []")
        case True
        then show ?thesis using None \<open>is_terminator_line _ _\<close> Cons [of sl] by (simp add: flush_def)
      next
        case False
        let ?rest = "batches (sl_term sl) [] lines"
        have bs: "batches (sl_term sl) (sl_buffer sl) (line # lines) = sl_buffer sl # ?rest"
          using False \<open>is_terminator_line _ _\<close> by simp
        show ?thesis
        proof (cases "flush em client abort_on_error sl")
          case None
          then show ?thesis
            using flush_diverges [OF False None, of ?rest] False bs \<open>is_terminator_line _ _\<close> by simp
        next
          case (Some q)
          obtain stp sl' where q: "q = (stp, sl')" by fastforce
          obtain oks ps where f: "sl_buffer sl' = []" "sl_term sl' = sl_term sl"
              "sl_last_error sl' = last_failed oks (sl_last_error sl)" "sl_printed sl' = sl_printed sl @ ps"
              "run_texts em client abort_on_error (sl_buffer sl # ?rest) (sl_session sl) =
                (if stp then Some (oks, ps, sl_session sl')
                 else map_option (\<lambda>(oks', ps', sn). (oks @ oks', ps @ ps', sn)) (run_texts em client abort_on_error ?rest (sl_session sl')))"
            using flush_runs_text [OF False, of em client abort_on_error stp sl' ?rest] Some q by blast
          show ?thesis
            unfolding bs f(5)
            using Some q False \<open>is_terminator_line _ _\<close> Cons [of sl'] f(1-4)
            by (cases stp) (simp_all add: expected_shell_append, simp add: seen_shell_def expected_shell_def)
        qed
      qed
    qed
  qed
qed

text \<open>C8: The shell runs the batches of its input in order.  The lines up to a terminator line are one text,
  and so are those behind the last; the statements of each text run in order until one quits or, under
  \<open>-e\<close>, fails; every fragment, every error and the parse error behind the statements of a text are printed
  in that order.  The exit code is 1 exactly if the last statement run failed, so neither an earlier failure
  nor a parse error changes it; and the shell returns exactly when every statement run returns.\<close>

theorem shell_runs_batches:
  "map_option (\<lambda>(code, term', out', sn'). (code, out', sn')) (run_source em client abort_on_error term lines out sn) =
     map_option (\<lambda>(oks, ps, sn'). (if oks \<noteq> [] \<and> \<not> last oks then 1 else 0, out @ ps, sn'))
       (run_texts em client abort_on_error (batches term [] lines) sn)"
proof -
  let ?sl = "\<lparr>sl_term = term, sl_buffer = [], sl_last_error = None, sl_printed = out, sl_session = sn\<rparr>"
  have code: "exit_code (last_failed oks None) = (if oks \<noteq> [] \<and> \<not> last oks then 1 else 0)" for oks
    by (simp add: exit_code_def last_failed_def)
  show ?thesis
    using run_lines_batches [of em client abort_on_error lines ?sl]
    by (cases "run_lines em client abort_on_error lines ?sl";
        cases "run_texts em client abort_on_error (batches term [] lines) sn")
      (auto simp: run_source_def seen_shell_def expected_shell_def code)
qed

end
