(* ===== verification/Database.thy ===== *)
theory Database
  imports Aws_Client
begin

text \<open>
  Opening a database on AWS and the lifetimes that go with it (\<^verbatim>\<open>aws/database.cpp\<close>,
  \<^verbatim>\<open>include/ddbsh/aws/database.hpp\<close>, \<^verbatim>\<open>aws_api_guard.hpp\<close>).  A \<^verbatim>\<open>Database\<close> holds a token that keeps the SDK
  initialised and a connection that owns a client of the SDK; all tokens share one \<^verbatim>\<open>SdkInit\<close>, whose
  constructor and destructor call the SDK.  The members are destroyed in reverse order and assigned in order,
  as C++ does.  What the program does to the SDK is the list of events.
\<close>

section \<open>Opening\<close>

record 'c open_options =
  oo_region :: string
  oo_endpoint :: string
  oo_profile :: "string option"
  oo_client_config :: "'c client_configuration option"
  oo_waiter_timeout :: "nat option"

definition open_adapter :: "'c client_configuration \<Rightarrow> string \<Rightarrow> 'c open_options \<Rightarrow> 'c aws_adapter" where
  "open_adapter defaults version opts =
     (let profile = (case oo_profile opts of Some p \<Rightarrow> p | None \<Rightarrow> '''')
      in if oo_client_config opts \<noteq> None \<or> oo_waiter_timeout opts \<noteq> None \<or> profile \<noteq> []
         then new_adapter defaults version (oo_region opts) (oo_endpoint opts)
           (Some (case oo_client_config opts of Some c \<Rightarrow> c | None \<Rightarrow> defaults)) (oo_waiter_timeout opts) profile
         else new_adapter defaults version (oo_region opts) (oo_endpoint opts) None None '''')"

definition open_plain :: "'c client_configuration \<Rightarrow> string \<Rightarrow> string \<Rightarrow> string \<Rightarrow> 'c aws_adapter" where
  "open_plain defaults version reg endpoint =
     open_adapter defaults version
       \<lparr>oo_region = reg, oo_endpoint = endpoint, oo_profile = None, oo_client_config = None, oo_waiter_timeout = None\<rparr>"

text \<open>Which constructor \<open>open\<close> takes makes no difference to the client it builds.\<close>

lemma open_adapter_client:
  "aa_client (open_adapter defaults version opts) =
     aa_client (new_adapter defaults version (oo_region opts) (oo_endpoint opts) (oo_client_config opts) None
       (case oo_profile opts of Some p \<Rightarrow> p | None \<Rightarrow> ''''))"
  by (auto simp: open_adapter_def new_adapter_def rebuild_def Let_def split: option.split)

section \<open>Lifetimes\<close>

datatype sdk_event = InitAPI | ShutdownAPI | Client_created | Client_destroyed

record database =
  sdk_token :: bool
  db_conn :: bool

record lifetimes =
  dbs :: "nat \<Rightarrow> database option"
  use_count :: nat
  guards :: nat
  events :: "sdk_event list"

definition no_databases :: lifetimes where
  "no_databases = \<lparr>dbs = Map.empty, use_count = 0, guards = 0, events = []\<rparr>"

definition log_events :: "sdk_event list \<Rightarrow> lifetimes \<Rightarrow> lifetimes" where
  "log_events es s = s\<lparr>events := events s @ es\<rparr>"

text \<open>\<open>acquire_sdk_token\<close>: the first token constructs the \<^verbatim>\<open>SdkInit\<close>; dropping the last destroys it.\<close>

definition acquire_sdk_token :: "lifetimes \<Rightarrow> lifetimes" where
  "acquire_sdk_token s = (log_events (if use_count s = 0 then [InitAPI] else []) s)\<lparr>use_count := Suc (use_count s)\<rparr>"

definition release_sdk_token :: "bool \<Rightarrow> lifetimes \<Rightarrow> lifetimes" where
  "release_sdk_token held s =
     (if held then (log_events (if use_count s = 1 then [ShutdownAPI] else []) s)\<lparr>use_count := use_count s - 1\<rparr> else s)"

definition drop_conn :: "bool \<Rightarrow> lifetimes \<Rightarrow> lifetimes" where
  "drop_conn held s = log_events (if held then [Client_destroyed] else []) s"

definition moved_from :: database where
  "moved_from = \<lparr>sdk_token = False, db_conn = False\<rparr>"

text \<open>What an embedder can do; a variable is a number.\<close>

datatype lifetime_op =
    Open nat
  | Move_construct nat nat
  | Move_assign nat nat
  | Destroy nat
  | Guard_up
  | Guard_down

fun lifetime_step :: "lifetime_op \<Rightarrow> lifetimes \<Rightarrow> lifetimes option" where
  "lifetime_step (Open k) s =
     (if dbs s k = None
      then Some (let s1 = log_events [Client_created] (acquire_sdk_token s)
        in s1\<lparr>dbs := (dbs s)(k \<mapsto> \<lparr>sdk_token = True, db_conn = True\<rparr>)\<rparr>)
      else None)"
| "lifetime_step (Move_construct k j) s =
     (case (dbs s k, dbs s j) of
        (None, Some d) \<Rightarrow> Some (s\<lparr>dbs := (dbs s)(k \<mapsto> d, j \<mapsto> moved_from)\<rparr>)
      | _ \<Rightarrow> None)"
| "lifetime_step (Move_assign k j) s =
     (case (dbs s k, dbs s j) of
        (Some old, Some d) \<Rightarrow>
          (if k = j then Some s
           else Some (let s1 = drop_conn (db_conn old) (release_sdk_token (sdk_token old) s)
             in s1\<lparr>dbs := (dbs s)(k \<mapsto> d, j \<mapsto> moved_from)\<rparr>))
      | _ \<Rightarrow> None)"
| "lifetime_step (Destroy k) s =
     (case dbs s k of
        None \<Rightarrow> None
      | Some d \<Rightarrow>
          Some (let s1 = release_sdk_token (sdk_token d) (drop_conn (db_conn d) s) in s1\<lparr>dbs := (dbs s)(k := None)\<rparr>))"
| "lifetime_step Guard_up s = Some ((log_events [InitAPI] s)\<lparr>guards := Suc (guards s)\<rparr>)"
| "lifetime_step Guard_down s =
     (if guards s = 0 then None else Some ((log_events [ShutdownAPI] s)\<lparr>guards := guards s - 1\<rparr>))"

section \<open>What the SDK asks for\<close>

text \<open>
  The depth of initialisation and the number of clients, as long as no client lives or dies outside.  Whether
  \<^verbatim>\<open>InitAPI\<close> may be called while the SDK is initialised is not the program's to say, and its comments differ
  (\<^verbatim>\<open>database.cpp\<close> calls the pair not safely nestable, and has the counts of a guard and of the shared token
  add up): \<open>nests\<close> is a parameter.
\<close>

fun sdk_event_step :: "bool \<Rightarrow> sdk_event \<Rightarrow> nat \<times> nat \<Rightarrow> (nat \<times> nat) option" where
  "sdk_event_step nests InitAPI (d, c) = (if d \<noteq> 0 \<and> \<not> nests then None else Some (Suc d, c))"
| "sdk_event_step nests ShutdownAPI (d, c) = (if d = 0 \<or> d = 1 \<and> c \<noteq> 0 then None else Some (d - 1, c))"
| "sdk_event_step nests Client_created (d, c) = (if d = 0 then None else Some (d, Suc c))"
| "sdk_event_step nests Client_destroyed (d, c) = (if d = 0 \<or> c = 0 then None else Some (d, c - 1))"

fun sdk_run :: "bool \<Rightarrow> sdk_event list \<Rightarrow> nat \<times> nat \<Rightarrow> (nat \<times> nat) option" where
  "sdk_run nests [] dc = Some dc"
| "sdk_run nests (e # es) dc = (case sdk_event_step nests e dc of None \<Rightarrow> None | Some dc' \<Rightarrow> sdk_run nests es dc')"

lemma sdk_run_append:
  "sdk_run nests (es @ es') dc = (case sdk_run nests es dc of None \<Rightarrow> None | Some dc' \<Rightarrow> sdk_run nests es' dc')"
  by (induction es arbitrary: dc) (auto split: option.split)

text \<open>
  What is to be avoided: to assign a moved-from database to the only one that holds a token while no guard is up,
  and, if initialisation does not nest, to put up a guard where the SDK is initialised or to open the first
  database under a guard.
\<close>

fun orderly :: "bool \<Rightarrow> lifetime_op \<Rightarrow> lifetimes \<Rightarrow> bool" where
  "orderly nests (Move_assign k j) s =
     (case (dbs s k, dbs s j) of
        (Some old, Some d) \<Rightarrow> k = j \<or> \<not> sdk_token old \<or> sdk_token d \<or> use_count s \<noteq> 1 \<or> guards s \<noteq> 0
      | _ \<Rightarrow> True)"
| "orderly nests (Open k) s = (nests \<or> guards s = 0 \<or> use_count s \<noteq> 0)"
| "orderly nests Guard_up s = (nests \<or> guards s = 0 \<and> use_count s = 0)"
| "orderly nests lop s = True"

fun lifetime_run :: "lifetime_op list \<Rightarrow> lifetimes \<Rightarrow> lifetimes option" where
  "lifetime_run [] s = Some s"
| "lifetime_run (lop # ops) s = (case lifetime_step lop s of None \<Rightarrow> None | Some s' \<Rightarrow> lifetime_run ops s')"

fun orderly_run :: "bool \<Rightarrow> lifetime_op list \<Rightarrow> lifetimes \<Rightarrow> bool" where
  "orderly_run nests [] s = True"
| "orderly_run nests (lop # ops) s \<longleftrightarrow>
     orderly nests lop s \<and> (case lifetime_step lop s of None \<Rightarrow> True | Some s' \<Rightarrow> orderly_run nests ops s')"

definition holders :: "lifetimes \<Rightarrow> nat set" where
  "holders s = {k. \<exists>d. dbs s k = Some d \<and> sdk_token d}"

definition lifetimes_ok :: "bool \<Rightarrow> lifetimes \<Rightarrow> bool" where
  "lifetimes_ok nests s \<longleftrightarrow> finite (holders s) \<and> use_count s = card (holders s) \<and>
     (\<forall>k d. dbs s k = Some d \<longrightarrow> db_conn d = sdk_token d) \<and>
     sdk_run nests (events s) (0, 0) = Some (guards s + (if use_count s = 0 then 0 else 1), use_count s)"


lemma lifetimes_okD:
  assumes "lifetimes_ok nests s"
  shows "finite (holders s)" "use_count s = card (holders s)" "dbs s k = Some d \<Longrightarrow> db_conn d = sdk_token d"
    "sdk_run nests (events s) (0, 0) = Some (guards s + (if use_count s = 0 then 0 else 1), use_count s)"
  using assms by (auto simp: lifetimes_ok_def)

lemma holder_iff: "dbs s k = Some d \<Longrightarrow> k \<in> holders s \<longleftrightarrow> sdk_token d"
  by (auto simp: holders_def)

lemma not_holder: "dbs s k = None \<Longrightarrow> k \<notin> holders s"
  by (auto simp: holders_def)

lemma holder_counted: "lifetimes_ok nests s \<Longrightarrow> k \<in> holders s \<Longrightarrow> 0 < use_count s"
  by (auto simp: lifetimes_ok_def card_gt_0_iff)

text \<open>The holders after an update of one variable.\<close>

lemma holders_upd:
  "holders (s\<lparr>dbs := m(k := x)\<rparr>) =
     (case x of Some d \<Rightarrow> (if sdk_token d then insert k else id) | None \<Rightarrow> id) (holders (s\<lparr>dbs := m\<rparr>) - {k})"
  by (auto simp: holders_def split: option.split)

lemma holders_simps [simp]:
  "holders (log_events es s) = holders s" "holders (s\<lparr>use_count := n\<rparr>) = holders s" "holders (s\<lparr>guards := n\<rparr>) = holders s"
  "holders (s\<lparr>dbs := m, use_count := n\<rparr>) = holders (s\<lparr>dbs := m\<rparr>)"
  "holders (s\<lparr>dbs := dbs s\<rparr>) = holders s"
  by (simp_all add: holders_def log_events_def)

lemma log_simps [simp]:
  "dbs (log_events es s) = dbs s" "use_count (log_events es s) = use_count s" "guards (log_events es s) = guards s"
  "events (log_events es s) = events s @ es"
  by (simp_all add: log_events_def)

lemma open_keeps:
  assumes ok: "lifetimes_ok nests s" and step: "lifetime_step (Open k) s = Some s'" and care: "orderly nests (Open k) s"
  shows "lifetimes_ok nests s'"
proof -
  have k: "dbs s k = None" and s': "s' = (log_events [Client_created] (acquire_sdk_token s))
      \<lparr>dbs := (dbs s)(k \<mapsto> \<lparr>sdk_token = True, db_conn = True\<rparr>)\<rparr>"
    using step by (auto simp: Let_def split: if_splits)
  have "holders s' = insert k (holders s)" using not_holder [OF k]
    by (auto simp: s' holders_def acquire_sdk_token_def)
  then show ?thesis using lifetimes_okD [OF ok] not_holder [OF k] care
    by (auto simp: lifetimes_ok_def s' acquire_sdk_token_def sdk_run_append split: if_splits)
qed

lemma destroy_keeps:
  assumes ok: "lifetimes_ok nests s" and step: "lifetime_step (Destroy k) s = Some s'"
  shows "lifetimes_ok nests s'"
proof -
  obtain d where d: "dbs s k = Some d" and s': "s' = (release_sdk_token (sdk_token d) (drop_conn (db_conn d) s))\<lparr>dbs := (dbs s)(k := None)\<rparr>"
    using step by (auto simp: Let_def split: option.splits)
  have h: "holders s' = holders s - {k}"
    by (auto simp: s' holders_def release_sdk_token_def drop_conn_def split: if_splits)
  have conn: "db_conn d = sdk_token d" using ok d by (rule lifetimes_okD(3))
  show ?thesis
  proof (cases "sdk_token d")
    case True
    then have k: "k \<in> holders s" using holder_iff [OF d] by simp
    then show ?thesis using lifetimes_okD [OF ok] holder_counted [OF ok k] True conn h
      by (auto simp: lifetimes_ok_def s' release_sdk_token_def drop_conn_def sdk_run_append card_Diff_singleton)
  next
    case False
    then have "k \<notin> holders s" using holder_iff [OF d] by simp
    then show ?thesis using lifetimes_okD [OF ok] False conn h
      by (auto simp: lifetimes_ok_def s' release_sdk_token_def drop_conn_def sdk_run_append)
  qed
qed

text \<open>A move passes a token on: as many hold one as before, but for the one that is overwritten.\<close>

lemma moved_holders:
  assumes "dbs s j = Some d" and "k \<noteq> j"
  shows "holders (s\<lparr>dbs := (dbs s)(k \<mapsto> d, j \<mapsto> moved_from)\<rparr>) =
    (if j \<in> holders s then insert k (holders s - {j}) else holders s - {k})"
  using assms by (auto simp: holders_def moved_from_def)

lemma moved_conns:
  assumes "lifetimes_ok nests s" and "dbs s j = Some d" and "((dbs s)(k \<mapsto> d, j \<mapsto> moved_from)) i = Some d'"
  shows "db_conn d' = sdk_token d'"
  using assms lifetimes_okD(3) [OF assms(1)] by (auto simp: moved_from_def split: if_splits)

lemma moved_card:
  assumes ok: "lifetimes_ok nests s" and "dbs s j = Some d" and "k \<noteq> j"
  shows "finite (holders (s\<lparr>dbs := (dbs s)(k \<mapsto> d, j \<mapsto> moved_from)\<rparr>))"
    "card (holders (s\<lparr>dbs := (dbs s)(k \<mapsto> d, j \<mapsto> moved_from)\<rparr>)) = card (holders s) - (if k \<in> holders s then 1 else 0)"
proof -
  note fin = lifetimes_okD(1) [OF ok]
  have pass: "Suc (card (holders s - {j})) = card (holders s)" if "j \<in> holders s"
    using fin that by (rule card_Suc_Diff1)
  show "finite (holders (s\<lparr>dbs := (dbs s)(k \<mapsto> d, j \<mapsto> moved_from)\<rparr>))"
    unfolding moved_holders [OF assms(2,3)] using fin by simp
  show "card (holders (s\<lparr>dbs := (dbs s)(k \<mapsto> d, j \<mapsto> moved_from)\<rparr>)) = card (holders s) - (if k \<in> holders s then 1 else 0)"
    unfolding moved_holders [OF assms(2,3)] using fin pass assms(3)
    by (auto simp: card_insert_if insert_absorb)
qed

lemma move_construct_keeps:
  assumes ok: "lifetimes_ok nests s" and step: "lifetime_step (Move_construct k j) s = Some s'"
  shows "lifetimes_ok nests s'"
proof -
  obtain d where k: "dbs s k = None" and j: "dbs s j = Some d" and s': "s' = s\<lparr>dbs := (dbs s)(k \<mapsto> d, j \<mapsto> moved_from)\<rparr>"
    using step by (auto split: option.splits)
  have "k \<noteq> j" using k j by auto
  from moved_card [OF ok j this] show ?thesis
    using not_holder [OF k] lifetimes_okD(2,4) [OF ok] moved_conns [OF ok j]
    by (auto simp: lifetimes_ok_def s')
qed

lemma move_assign_keeps:
  assumes ok: "lifetimes_ok nests s" and step: "lifetime_step (Move_assign k j) s = Some s'" and care: "orderly nests (Move_assign k j) s"
  shows "lifetimes_ok nests s'"
proof (cases "k = j")
  case True
  then show ?thesis using step ok by (auto split: option.splits)
next
  case False
  obtain old d where k: "dbs s k = Some old" and j: "dbs s j = Some d"
    and s': "s' = (drop_conn (db_conn old) (release_sdk_token (sdk_token old) s))\<lparr>dbs := (dbs s)(k \<mapsto> d, j \<mapsto> moved_from)\<rparr>"
    using step False by (auto simp: Let_def split: option.splits)
  let ?m = "s\<lparr>dbs := (dbs s)(k \<mapsto> d, j \<mapsto> moved_from)\<rparr>"
  have h: "holders s' = holders ?m"
    by (auto simp: s' holders_def release_sdk_token_def drop_conn_def split: if_splits)
  note card = moved_card [OF ok j False]
  have conns: "\<forall>i d'. dbs s' i = Some d' \<longrightarrow> db_conn d' = sdk_token d'"
    using moved_conns [OF ok j] by (simp add: s')
  have conn: "db_conn old = sdk_token old" using ok k by (rule lifetimes_okD(3))
  show ?thesis
  proof (cases "sdk_token old")
    case True
    then have kh: "k \<in> holders s" using holder_iff [OF k] by simp
    have pos: "0 < use_count s" using holder_counted [OF ok kh] .
    have many: "use_count s \<noteq> 1 \<or> guards s \<noteq> 0"
    proof (cases "sdk_token d")
      case True
      then have "{k, j} \<subseteq> holders s" using kh holder_iff [OF j] by simp
      from card_mono [OF lifetimes_okD(1) [OF ok] this] show ?thesis
        using False lifetimes_okD(2) [OF ok] by simp
    next
      case False
      then show ?thesis using care k j \<open>k \<noteq> j\<close> True by simp
    qed
    have f: "use_count s' = use_count s - 1" "guards s' = guards s"
      "events s' = events s @ (if use_count s = 1 then [ShutdownAPI] else []) @ [Client_destroyed]"
      using True conn by (simp_all add: s' release_sdk_token_def drop_conn_def)
    have "sdk_run nests (events s') (0, 0) = Some (guards s' + (if use_count s' = 0 then 0 else 1), use_count s')"
      using lifetimes_okD(4) [OF ok] many pos by (auto simp: f sdk_run_append)
    moreover have "use_count s' = card (holders s')" "finite (holders s')"
      using card kh lifetimes_okD(2) [OF ok] unfolding h f by simp_all
    ultimately show ?thesis using conns unfolding lifetimes_ok_def by blast
  next
    case no: False
    then have "k \<notin> holders s" using holder_iff [OF k] by simp
    moreover have f: "use_count s' = use_count s" "guards s' = guards s" "events s' = events s"
      using no conn by (simp_all add: s' release_sdk_token_def drop_conn_def)
    ultimately have "use_count s' = card (holders s')" "finite (holders s')"
      using card lifetimes_okD(2) [OF ok] unfolding h f by simp_all
    then show ?thesis using conns lifetimes_okD(4) [OF ok] unfolding lifetimes_ok_def f by blast
  qed
qed

lemma step_keeps:
  assumes ok: "lifetimes_ok nests s" and step: "lifetime_step lop s = Some s'" and care: "orderly nests lop s"
  shows "lifetimes_ok nests s'"
proof (cases lop)
  case Guard_up
  then show ?thesis using ok step care by (auto simp: lifetimes_ok_def sdk_run_append)
next
  case Guard_down
  then show ?thesis using ok step by (auto simp: lifetimes_ok_def sdk_run_append split: if_splits)
qed (use ok step care in \<open>auto intro: open_keeps move_construct_keeps move_assign_keeps destroy_keeps
    simp del: lifetime_step.simps orderly.simps\<close>)

text \<open>A step that is not orderly breaks the SDK's rule, and nothing after it repairs that.\<close>

lemma step_breaks:
  assumes ok: "lifetimes_ok nests s" and step: "lifetime_step lop s = Some s'" and care: "\<not> orderly nests lop s"
  shows "sdk_run nests (events s') (0, 0) = None"
proof -
  note run = lifetimes_okD(4) [OF ok]
  show ?thesis
  proof (cases lop)
    case (Open k)
    then show ?thesis using step care run
      by (auto simp: acquire_sdk_token_def sdk_run_append Let_def split: if_splits)
  next
    case (Move_assign k j)
    obtain old d where k: "dbs s k = Some old" and j: "dbs s j = Some d"
      and bad: "k \<noteq> j" "sdk_token old" "use_count s = 1" "guards s = 0"
      using care Move_assign by (auto split: option.splits)
    have "events s' = events s @ [ShutdownAPI, Client_destroyed]"
      using step Move_assign k j bad lifetimes_okD(3) [OF ok k] by (auto simp: release_sdk_token_def drop_conn_def)
    then show ?thesis using run bad by (simp add: sdk_run_append)
  next
    case Guard_up
    then show ?thesis using step care run by (auto simp: sdk_run_append)
  qed (use care in simp_all)
qed

lemma step_logs: "lifetime_step lop s = Some s' \<Longrightarrow> \<exists>es. events s' = events s @ es"
  by (cases lop) (auto simp: acquire_sdk_token_def release_sdk_token_def drop_conn_def Let_def
      split: option.splits if_splits)

lemma run_logs: "lifetime_run lops s = Some s' \<Longrightarrow> \<exists>es. events s' = events s @ es"
proof (induction lops arbitrary: s)
  case (Cons lop lops)
  then obtain s1 where "lifetime_step lop s = Some s1" "lifetime_run lops s1 = Some s'"
    by (auto split: option.splits)
  then show ?case using Cons.IH [of s1] step_logs [of lop s s1] by force
qed simp

lemma run_exact:
  assumes "lifetimes_ok nests s" and "lifetime_run lops s = Some s'"
  shows "if orderly_run nests lops s then lifetimes_ok nests s' else sdk_run nests (events s') (0, 0) = None"
  using assms
proof (induction lops arbitrary: s)
  case (Cons lop lops)
  then obtain s1 where step: "lifetime_step lop s = Some s1" and run: "lifetime_run lops s1 = Some s'"
    by (auto split: option.splits)
  show ?case
  proof (cases "orderly nests lop s")
    case True
    then show ?thesis using Cons.IH [OF step_keeps [OF Cons.prems(1) step True] run] step by simp
  next
    case False
    from run_logs [OF run] obtain es where "events s' = events s1 @ es" by blast
    then show ?thesis using step_breaks [OF Cons.prems(1) step False] False by (simp add: sdk_run_append)
  qed
qed simp

section \<open>Properties\<close>

text \<open>C20: The SDK is initialised as long as any database needs it, up to two exceptions that are named.  Take any
  sequence in which databases are opened, moved, assigned and destroyed, and guards put up and taken down.  It
  keeps the SDK's rules (a client is created, lives and is destroyed only while the SDK is initialised, which is
  not done again while it is unless initialisation nests) exactly if every step is orderly: no moved-from database
  is assigned to the last one that holds a token while no guard is up, for that shuts the SDK down before the
  client is destroyed; and, if initialisation does not nest, no guard stands when the first database is opened,
  and none is put up while the SDK is initialised, for a guard does not share the token.  Then the SDK is
  initialised once for each guard and once for all databases, and the clients that live are those of the databases
  that hold a token.\<close>

theorem sdk_outlives_clients:
  assumes "lifetime_run lops no_databases = Some s"
  shows "(sdk_run nests (events s) (0, 0) \<noteq> None \<longleftrightarrow> orderly_run nests lops no_databases) \<and>
    (orderly_run nests lops no_databases \<longrightarrow>
      sdk_run nests (events s) (0, 0) = Some (guards s + (if holders s = {} then 0 else 1), card (holders s)) \<and>
      {k. \<exists>d. dbs s k = Some d \<and> db_conn d} = holders s)"
proof -
  have "lifetimes_ok nests no_databases" by (simp add: lifetimes_ok_def no_databases_def holders_def)
  note exact = run_exact [OF this assms]
  show ?thesis
  proof (cases "orderly_run nests lops no_databases")
    case True
    then have "lifetimes_ok nests s" using exact by simp
    note ok = lifetimes_okD [OF this]
    have "use_count s = 0 \<longleftrightarrow> holders s = {}" using ok(1,2) by simp
    moreover have "{k. \<exists>d. dbs s k = Some d \<and> db_conn d} = holders s" using ok(3) by (auto simp: holders_def)
    ultimately show ?thesis using ok(2,4) True by (simp cong: if_cong)
  next
    case False
    then show ?thesis using exact by simp
  qed
qed

text \<open>Two databases, one assigned to the other; a moved-from one assigned to the last; and a guard beside the first.\<close>

lemmas lifetime_defs = no_databases_def acquire_sdk_token_def release_sdk_token_def drop_conn_def log_events_def
  moved_from_def Let_def

theorem sdk_outlives_clients_witness:
  "sdk_run False (events (the (lifetime_run [Open 1, Open 2, Move_assign 1 2] no_databases))) (0, 0) = Some (1, 1) \<and>
   sdk_run True (events (the (lifetime_run [Open 1, Move_construct 2 1, Move_assign 2 1] no_databases))) (0, 0) = None \<and>
   sdk_run False (events (the (lifetime_run [Guard_up, Open 1] no_databases))) (0, 0) = None"
proof -
  obtain s1 s2 s3 where run: "lifetime_run [Open 1, Open 2, Move_assign 1 2] no_databases = Some s1"
      "lifetime_run [Open 1, Move_construct 2 1, Move_assign 2 1] no_databases = Some s2"
      "lifetime_run [Guard_up, Open 1] no_databases = Some s3"
    and s1: "guards s1 = 0" "holders s1 = {1}"
    by (simp add: lifetime_defs holders_def)
  have o: "orderly_run False [Open 1, Open 2, Move_assign 1 2] no_databases"
    "\<not> orderly_run True [Open 1, Move_construct 2 1, Move_assign 2 1] no_databases"
    "\<not> orderly_run False [Guard_up, Open 1] no_databases"
    by (simp_all add: lifetime_defs)
  have "sdk_run False (events s1) (0, 0) = Some (1, 1)"
    using sdk_outlives_clients [OF run(1), of False] o(1) unfolding s1 by simp
  moreover have "sdk_run True (events s2) (0, 0) = None"
    using sdk_outlives_clients [OF run(2), of True] o(2) by blast
  moreover have "sdk_run False (events s3) (0, 0) = None"
    using sdk_outlives_clients [OF run(3), of False] o(3) by blast
  ultimately show ?thesis unfolding run option.sel by blast
qed

end
