(* ===== verification/Lexer.thy ===== *)
theory Lexer
  imports Prepared Aws_Values
begin

text \<open>
  The scanner (\<^verbatim>\<open>src/parser/lexer.l\<close>).  Its rules are regular expressions with an action; flex takes the
  longest text any rule matches and, among rules that match the same text, the first.  The rules are written
  down as they stand in the source, what a rule matches is an inductive relation, and the scanner computes the
  longest match by derivatives.
\<close>

section \<open>Regular expressions\<close>

datatype rexp =
    R_zero
  | R_eps
  | R_char "char \<Rightarrow> bool"
  | R_alt rexp rexp
  | R_seq rexp rexp
  | R_star rexp

inductive matches :: "rexp \<Rightarrow> string \<Rightarrow> bool" where
  m_eps: "matches R_eps []"
| m_char: "P c \<Longrightarrow> matches (R_char P) [c]"
| m_alt1: "matches r s \<Longrightarrow> matches (R_alt r q) s"
| m_alt2: "matches q s \<Longrightarrow> matches (R_alt r q) s"
| m_seq: "matches r s \<Longrightarrow> matches q t \<Longrightarrow> matches (R_seq r q) (s @ t)"
| m_star_stop: "matches (R_star r) []"
| m_star_step: "matches r s \<Longrightarrow> matches (R_star r) t \<Longrightarrow> matches (R_star r) (s @ t)"

inductive_simps matches_simps [simp]:
  "matches R_zero s" "matches R_eps s" "matches (R_char P) s" "matches (R_alt r q) s"


lemma matches_seq: "matches (R_seq r q) w \<longleftrightarrow> (\<exists>u v. w = u @ v \<and> matches r u \<and> matches q v)"
proof
  assume "matches (R_seq r q) w"
  then show "\<exists>u v. w = u @ v \<and> matches r u \<and> matches q v" by (cases rule: matches.cases) blast
qed (auto intro: m_seq)

fun nullable :: "rexp \<Rightarrow> bool" where
  "nullable R_zero = False"
| "nullable R_eps = True"
| "nullable (R_char P) = False"
| "nullable (R_alt r q) = (nullable r \<or> nullable q)"
| "nullable (R_seq r q) = (nullable r \<and> nullable q)"
| "nullable (R_star r) = True"

text \<open>Sequence and choice without the parts that cannot match.\<close>

fun mk_seq :: "rexp \<Rightarrow> rexp \<Rightarrow> rexp" where
  "mk_seq R_zero q = R_zero"
| "mk_seq R_eps q = q"
| "mk_seq r q = R_seq r q"

definition is_zero :: "rexp \<Rightarrow> bool" where
  "is_zero r = (case r of R_zero \<Rightarrow> True | _ \<Rightarrow> False)"

definition mk_alt :: "rexp \<Rightarrow> rexp \<Rightarrow> rexp" where
  "mk_alt r q = (if is_zero r then q else if is_zero q then r else R_alt r q)"

fun deriv :: "char \<Rightarrow> rexp \<Rightarrow> rexp" where
  "deriv c R_zero = R_zero"
| "deriv c R_eps = R_zero"
| "deriv c (R_char P) = (if P c then R_eps else R_zero)"
| "deriv c (R_alt r q) = mk_alt (deriv c r) (deriv c q)"
| "deriv c (R_seq r q) =
     (if nullable r then mk_alt (mk_seq (deriv c r) q) (deriv c q) else mk_seq (deriv c r) q)"
| "deriv c (R_star r) = mk_seq (deriv c r) (R_star r)"

text \<open>The length of the longest prefix that matches.\<close>

fun longest :: "rexp \<Rightarrow> string \<Rightarrow> nat option" where
  "longest r [] = (if nullable r then Some 0 else None)"
| "longest r (c # s) =
     (case (if is_zero r then None else longest (deriv c r) s) of
        Some n \<Rightarrow> Some (Suc n)
      | None \<Rightarrow> (if nullable r then Some 0 else None))"

subsection \<open>Derivatives compute what matches\<close>

lemma nullable_iff: "nullable r \<longleftrightarrow> matches r []"
  by (induction r) (auto simp: matches_seq intro: m_star_stop)

lemma is_zero_iff [simp]: "is_zero r \<longleftrightarrow> r = R_zero"
  by (cases r) (simp_all add: is_zero_def)

lemma mk_seq_matches [simp]: "matches (mk_seq r q) s \<longleftrightarrow> matches (R_seq r q) s"
  by (cases r) (auto simp: matches_seq)

lemma mk_alt_matches [simp]: "matches (mk_alt r q) s \<longleftrightarrow> matches r s \<or> matches q s"
  by (auto simp: mk_alt_def)

lemma star_Cons:
  "matches (R_star r) (c # s) \<longleftrightarrow> (\<exists>u v. s = u @ v \<and> matches r (c # u) \<and> matches (R_star r) v)" (is "?l \<longleftrightarrow> ?r")
proof
  have "matches q w \<Longrightarrow> q = R_star r \<Longrightarrow> w = c # s \<Longrightarrow> ?r" for q w
  proof (induction q w rule: matches.induct)
    case (m_star_step r' u v)
    then show ?case by (cases u) auto
  qed auto
  then show "?l \<Longrightarrow> ?r" by blast
next
  assume ?r
  then obtain u v where "s = u @ v" "matches r (c # u)" "matches (R_star r) v" by blast
  then show ?l using m_star_step [of r "c # u" v] by simp
qed

lemma seq_Cons:
  "matches (R_seq r q) (c # s) \<longleftrightarrow>
     (\<exists>u v. s = u @ v \<and> matches r (c # u) \<and> matches q v) \<or> matches r [] \<and> matches q (c # s)"
  unfolding matches_seq by (auto simp: Cons_eq_append_conv)

lemma deriv_matches: "matches (deriv c r) s \<longleftrightarrow> matches r (c # s)"
proof (induction r arbitrary: s)
  case (R_seq r q)
  then show ?case by (simp add: seq_Cons nullable_iff) (auto simp: matches_seq)
next
  case (R_star r)
  then show ?case by (auto simp: star_Cons matches_seq)
qed auto

lemma longest_Some:
  "longest r s = Some n \<Longrightarrow> n \<le> length s \<and> matches r (take n s)"
proof (induction r s arbitrary: n rule: longest.induct)
  case (2 r c s)
  then show ?case by (auto simp: nullable_iff deriv_matches split: option.splits if_splits)
qed (auto simp: nullable_iff split: if_splits)

lemma longest_max: "matches r (take m s) \<Longrightarrow> m \<le> length s \<Longrightarrow> \<exists>n. longest r s = Some n \<and> m \<le> n"
proof (induction r s arbitrary: m rule: longest.induct)
  case (2 r c s)
  show ?case
  proof (cases m)
    case 0
    then have "nullable r" using 2 by (simp add: nullable_iff)
    then show ?thesis using 0 by (auto split: option.split)
  next
    case (Suc k)
    then have "matches (deriv c r) (take k s)" "r \<noteq> R_zero" using 2 by (auto simp: deriv_matches)
    then obtain n where "longest (deriv c r) s = Some n" "k \<le> n" using 2 Suc by auto
    then show ?thesis using Suc \<open>r \<noteq> R_zero\<close> by simp
  qed
qed (auto simp: nullable_iff)

section \<open>The rules\<close>

datatype lex_action =
    Discard
  | Make_timestamp
  | Make_dquoted
  | Make_whole
  | Make_float
  | Make_word
  | Make_op string
  | Make_semicolon
  | Make_raw

definition R_one :: "char \<Rightarrow> rexp" where
  "R_one c = R_char (\<lambda>x. x = c)"

definition R_plus :: "rexp \<Rightarrow> rexp" where
  "R_plus r = R_seq r (R_star r)"

definition R_opt :: "rexp \<Rightarrow> rexp" where
  "R_opt r = R_alt r R_eps"

fun R_seqs :: "rexp list \<Rightarrow> rexp" where
  "R_seqs [] = R_eps"
| "R_seqs (r # rs) = (if rs = [] then r else R_seq r (R_seqs rs))"

definition R_text :: "string \<Rightarrow> rexp" where
  "R_text s = R_seqs (map R_one s)"

definition R_digit :: rexp where
  "R_digit = R_char is_digit"

definition dquote :: rexp where
  "dquote = R_char (\<lambda>c. c = CHR 0x22)"

definition not_dquote :: rexp where
  "not_dquote = R_char (\<lambda>c. c \<noteq> CHR 0x22)"

text \<open>The dot of flex: any character but the line end.\<close>

definition R_any :: rexp where
  "R_any = R_char (\<lambda>c. c \<noteq> CHR 0x0A)"

definition minus_sign :: rexp where
  "minus_sign = R_opt (R_one (CHR ''-''))"

definition exponent :: rexp where
  "exponent = R_seqs [R_one (CHR ''E''), R_opt (R_char (\<lambda>c. c = CHR ''-'' \<or> c = CHR ''+'')), R_plus R_digit]"

definition blank_rule :: rexp where
  "blank_rule = R_plus (R_char (\<lambda>c. c \<in> {CHR '' '', CHR 0x09, CHR 0x0D, CHR 0x0A}))"

definition timestamp_rule :: rexp where
  "timestamp_rule =
     R_seqs [dquote, R_digit, R_digit, R_digit, R_digit, R_one (CHR ''-''), R_digit, R_digit, R_one (CHR ''-''),
       R_digit, R_digit, R_one (CHR ''T''), R_digit, R_digit, R_one (CHR '':''), R_digit, R_digit, R_one (CHR '':''),
       R_digit, R_digit, R_one (CHR ''Z''), dquote]"

definition dquoted_rule :: rexp where
  "dquoted_rule = R_seqs [dquote, R_star (R_alt not_dquote (R_seq dquote dquote)), dquote]"

definition float_rule :: rexp where
  "float_rule =
     R_alt (R_seqs [minus_sign, R_plus R_digit, R_one (CHR ''.''), R_star R_digit])
     (R_alt (R_seqs [minus_sign, R_one (CHR ''.''), R_plus R_digit])
     (R_alt (R_seqs [minus_sign, R_plus R_digit, exponent])
     (R_alt (R_seqs [minus_sign, R_plus R_digit, R_one (CHR ''.''), R_star R_digit, exponent])
            (R_seqs [minus_sign, R_one (CHR ''.''), R_plus R_digit, exponent]))))"

definition word_rule :: rexp where
  "word_rule = R_seq (R_char is_name_char) (R_star (R_char (\<lambda>c. is_name_char c \<or> c = CHR ''-'')))"

definition lex_rules :: "(rexp \<times> lex_action) list" where
  "lex_rules =
     [(R_seqs [R_text ''--'', R_star R_any], Discard),
      (R_seqs [R_text ''//'', R_star R_any], Discard),
      (blank_rule, Discard),
      (timestamp_rule, Make_timestamp),
      (dquoted_rule, Make_dquoted),
      (R_seqs [minus_sign, R_char (\<lambda>c. is_digit c \<and> c \<noteq> CHR ''0''), R_star R_digit], Make_whole),
      (R_one (CHR ''0''), Make_whole),
      (float_rule, Make_float),
      (word_rule, Make_word),
      (R_text ''<='', Make_op ''T_LESS_THAN_OR_EQUAL''),
      (R_text ''>='', Make_op ''T_GREATER_THAN_OR_EQUAL''),
      (R_text ''<>'', Make_op ''T_NOT_EQUAL''),
      (R_text ''!='', Make_op ''T_NOT_EQUAL''),
      (R_text ''<'', Make_op ''T_LESS_THAN''),
      (R_text ''>'', Make_op ''T_GREATER_THAN''),
      (R_text ''='', Make_op ''T_EQUAL''),
      (R_text '';'', Make_semicolon),
      (R_any, Make_raw)]"

text \<open>The longest match, the first rule among equals.\<close>

fun best_rule :: "(rexp \<times> 'a) list \<Rightarrow> string \<Rightarrow> (nat \<times> 'a) option" where
  "best_rule [] s = None"
| "best_rule ((r, a) # rules) s =
     (case longest r s of
        None \<Rightarrow> best_rule rules s
      | Some n \<Rightarrow> (case best_rule rules s of Some (k, b) \<Rightarrow> (if k \<le> n then Some (n, a) else Some (k, b)) | None \<Rightarrow> Some (n, a)))"

section \<open>Tokens\<close>

text \<open>A symbol of the grammar: its name and its text.\<close>

datatype token = Token string string | Raw_char char

definition keyword_table :: "(string \<times> string) list" where
  "keyword_table =
   [(''access'', ''K_ACCESS''), (''add'', ''K_ADD''), (''aes256'', ''K_AES256''), (''all'', ''K_ALL''),
    (''alter'', ''K_ALTER''), (''and'', ''K_AND''), (''as'', ''K_AS''),
    (''attribute_exists'', ''K_ATTRIBUTE_EXISTS''), (''attribute_not_exists'', ''K_ATTRIBUTE_NOT_EXISTS''),
    (''attribute_type'', ''K_ATTRIBUTE_TYPE''), (''backup'', ''K_BACKUP''), (''backups'', ''K_BACKUPS''),
    (''begin'', ''K_BEGIN''), (''begins_with'', ''K_BEGINS_WITH''), (''between'', ''K_BETWEEN''),
    (''billing'', ''K_BILLING''), (''binary'', ''K_ATTRIBUTE_TYPE_BINARY''), (''both'', ''K_BOTH''),
    (''brief'', ''K_BRIEF''), (''called'', ''K_CALLED''), (''capacity'', ''K_CAPACITY''),
    (''check'', ''K_CHECK''), (''class'', ''K_CLASS''), (''commit'', ''K_COMMIT''),
    (''connect'', ''K_CONNECT''), (''consistent'', ''K_CONSISTENT''), (''consumed'', ''K_CONSUMED''),
    (''contains'', ''K_CONTAINS''), (''cosine'', ''K_COSINE''), (''create'', ''K_CREATE''),
    (''delete'', ''K_DELETE''), (''deletion'', ''K_DELETION''), (''demand'', ''K_DEMAND''),
    (''describe'', ''K_DESCRIBE''), (''dimensions'', ''K_DIMENSIONS''), (''disabled'', ''K_DISABLED''),
    (''distance'', ''K_DISTANCE''), (''dot_product'', ''K_DOT_PRODUCT''), (''drop'', ''K_DROP''),
    (''enabled'', ''K_ENABLED''), (''end'', ''K_COMMIT''), (''endpoint'', ''K_ENDPOINT''),
    (''euclidean'', ''K_EUCLIDEAN''), (''exists'', ''K_EXISTS''), (''explain'', ''K_EXPLAIN''),
    (''false'', ''K_FALSE''), (''filter'', ''K_FILTER''), (''from'', ''K_FROM''), (''global'', ''K_GLOBAL''),
    (''gsi'', ''K_GSI''), (''hash'', ''K_HASH''), (''help'', ''K_HELP''), (''if'', ''K_IF''),
    (''if_not_exists'', ''K_IF_NOT_EXISTS''), (''image'', ''K_IMAGE''), (''images'', ''K_IMAGES''),
    (''in'', ''K_IN''), (''include'', ''K_INCLUDE''), (''index'', ''K_INDEX''), (''indexes'', ''K_INDEXES''),
    (''infrequent'', ''K_INFREQUENT''), (''insert'', ''K_INSERT''), (''into'', ''K_INTO''), (''is'', ''K_IS''),
    (''key'', ''K_KEY''), (''keyid'', ''K_KEYID''), (''keys'', ''K_KEYS''), (''kms'', ''K_KMS''),
    (''like'', ''K_LIKE''), (''limit'', ''K_LIMIT''), (''limits'', ''K_LIMITS''), (''lsi'', ''K_LSI''),
    (''mode'', ''K_MODE''), (''nearest'', ''K_NEAREST''), (''new'', ''K_NEW''), (''not'', ''K_NOT''),
    (''nowait'', ''K_NOWAIT''), (''null'', ''K_NULL''), (''number'', ''K_ATTRIBUTE_TYPE_NUMBER''),
    (''numeric'', ''K_NUMBER''), (''old'', ''K_OLD''), (''on'', ''K_ON''), (''only'', ''K_ONLY''),
    (''or'', ''K_OR''), (''pitr'', ''K_PITR''), (''primary'', ''K_PRIMARY''),
    (''projecting'', ''K_PROJECTING''), (''protection'', ''K_PROTECTION''),
    (''provisioned'', ''K_PROVISIONED''), (''quit'', ''K_QUIT''), (''range'', ''K_RANGE''),
    (''ratelimit'', ''K_RATELIMIT''), (''rcu'', ''K_RCU''), (''remove'', ''K_REMOVE''),
    (''replace'', ''K_REPLACE''), (''replica'', ''K_REPLICA''), (''restore'', ''K_RESTORE''),
    (''return'', ''K_RETURN''), (''rollback'', ''K_ROLLBACK''), (''select'', ''K_SELECT''),
    (''search'', ''K_SEARCH''), (''set'', ''K_SET''), (''show'', ''K_SHOW''), (''size'', ''K_SIZE''),
    (''sse'', ''K_SSE''), (''standard'', ''K_STANDARD''), (''stream'', ''K_STREAM''),
    (''string'', ''K_ATTRIBUTE_TYPE_STRING''), (''table'', ''K_TABLE''), (''tables'', ''K_TABLES''),
    (''tags'', ''K_TAGS''), (''throughput'', ''K_THROUGHPUT''), (''to'', ''K_TO''), (''total'', ''K_TOTAL''),
    (''true'', ''K_TRUE''), (''ttl'', ''K_TTL''), (''unlimited'', ''K_UNLIMITED''), (''update'', ''K_UPDATE''),
    (''updated'', ''K_UPDATED''), (''upsert'', ''K_UPSERT''), (''values'', ''K_VALUES''),
    (''vector'', ''K_VECTOR''), (''version'', ''K_VERSION''), (''vsi'', ''K_VSI''), (''warm'', ''K_WARM''),
    (''wcu'', ''K_WCU''), (''where'', ''K_WHERE''), (''with'', ''K_WITH'')]"

definition tolower :: "char \<Rightarrow> char" where
  "tolower c = (if in_range (CHR ''A'') (CHR ''Z'') c then char_of (of_char c + (32::nat)) else c)"

definition ddbsh_keyword :: "string \<Rightarrow> string option" where
  "ddbsh_keyword text = map_of keyword_table (map tolower (c_str text))"

fun token_of :: "lex_action \<Rightarrow> string \<Rightarrow> token option" where
  "token_of Discard text = None"
| "token_of Make_timestamp text = Some (Token ''T_TIMESTAMP'' (c_str text))"
| "token_of Make_dquoted text = Some (Token ''T_DQUOTED_STRING'' (c_str text))"
| "token_of Make_whole text = Some (Token ''T_WHOLE_NUMBER'' (c_str text))"
| "token_of Make_float text = Some (Token ''T_FLOATING_POINT_NUMBER'' (c_str text))"
| "token_of Make_word text =
     Some (case ddbsh_keyword text of Some k \<Rightarrow> Token k '''' | None \<Rightarrow> Token ''T_UNQUOTED_STRING'' (c_str text))"
| "token_of (Make_op name) text = Some (Token name (c_str text))"
| "token_of Make_semicolon text = Some (Token ''SEMICOLON'' '''')"
| "token_of Make_raw text = Some (Raw_char (hd text))"

text \<open>One step of the scanner on the text that is left: the token, if any, and the text matched.  A text that
  no rule matched would be echoed one character at a time, as flex does.\<close>

definition lex_step :: "string \<Rightarrow> token option \<times> string" where
  "lex_step s =
     (case best_rule lex_rules s of
        Some (n, act) \<Rightarrow> (token_of act (take n s), take n s)
      | None \<Rightarrow> (None, take 1 s))"

section \<open>The scanner is the one flex documents\<close>

text \<open>What flex promises of a choice: a rule that matches, no rule that matches more, and no earlier rule
  that matches as much.\<close>

definition flex_choice :: "(rexp \<times> 'a) list \<Rightarrow> string \<Rightarrow> nat \<Rightarrow> 'a \<Rightarrow> bool" where
  "flex_choice rules s n a \<longleftrightarrow>
     n \<le> length s \<and>
     (\<exists>i < length rules. snd (rules ! i) = a \<and> matches (fst (rules ! i)) (take n s) \<and>
        (\<forall>j < length rules. \<forall>m \<le> length s.
           matches (fst (rules ! j)) (take m s) \<longrightarrow> m \<le> n \<and> (m = n \<longrightarrow> i \<le> j)))"

inductive flex_run :: "string \<Rightarrow> (token option \<times> string) list \<Rightarrow> bool" where
  flex_end: "flex_run [] []"
| flex_next: "flex_choice lex_rules s n act \<Longrightarrow> flex_run (drop n s) ts \<Longrightarrow>
    flex_run s ((token_of act (take n s), take n s) # ts)"

definition at_most :: "rexp \<Rightarrow> string \<Rightarrow> nat \<Rightarrow> bool" where
  "at_most r s n \<longleftrightarrow> (\<forall>m \<le> length s. matches r (take m s) \<longrightarrow> m \<le> n)"

lemma longest_is_Some:
  "longest r s = Some n \<longleftrightarrow> n \<le> length s \<and> matches r (take n s) \<and> at_most r s n"
proof
  assume l: "longest r s = Some n"
  have "m \<le> n" if "m \<le> length s" "matches r (take m s)" for m using longest_max [OF that(2,1)] l by simp
  then show "n \<le> length s \<and> matches r (take n s) \<and> at_most r s n" using longest_Some [OF l] by (simp add: at_most_def)
next
  assume r: "n \<le> length s \<and> matches r (take n s) \<and> at_most r s n"
  then obtain k where k: "longest r s = Some k" "n \<le> k" using longest_max by blast
  then have "k \<le> n" using r longest_Some [OF k(1)] by (auto simp: at_most_def)
  then show "longest r s = Some n" using k by simp
qed

lemma longest_is_None: "longest r s = None \<longleftrightarrow> (\<forall>m \<le> length s. \<not> matches r (take m s))"
proof
  assume "longest r s = None"
  then show "\<forall>m \<le> length s. \<not> matches r (take m s)" using longest_max by fastforce
next
  assume "\<forall>m \<le> length s. \<not> matches r (take m s)"
  then show "longest r s = None" using longest_Some by (cases "longest r s") blast+
qed

lemma flex_choice_length: "flex_choice rules s n b \<Longrightarrow> n \<le> length s"
  by (simp add: flex_choice_def)

lemma flex_choice_Cons:
  "flex_choice ((r, a) # rules) s n b \<longleftrightarrow>
     n \<le> length s \<and> matches r (take n s) \<and> a = b \<and> at_most r s n \<and> (\<forall>q \<in> set rules. at_most (fst q) s n) \<or>
     flex_choice rules s n b \<and> at_most r s n \<and> \<not> matches r (take n s)"
  by (auto simp: flex_choice_def at_most_def Ex_less_Suc2 All_less_Suc2 all_set_conv_all_nth)

lemma best_rule_bound:
  "(case best_rule rules s of Some (k, _) \<Rightarrow> k \<le> n | None \<Rightarrow> True) \<longleftrightarrow> (\<forall>q \<in> set rules. at_most (fst q) s n)"
proof (induction rules)
  case (Cons p rules)
  obtain r a where p: "p = (r, a)" by fastforce
  have "at_most r s n \<longleftrightarrow> (case longest r s of Some k \<Rightarrow> k \<le> n | None \<Rightarrow> True)"
  proof (cases "longest r s")
    case None
    then show ?thesis using longest_is_None [of r s] by (simp add: at_most_def)
  next
    case (Some k)
    then show ?thesis using longest_is_Some [of r s k] by (auto simp: at_most_def)
  qed
  then show ?case using Cons.IH by (auto simp: p split: option.splits)
qed simp

lemma best_rule_is_choice: "best_rule rules s = Some (n, b) \<longleftrightarrow> flex_choice rules s n b"
proof (induction rules)
  case Nil
  show ?case by (simp add: flex_choice_def)
next
  case (Cons p rules)
  obtain r a where p: "p = (r, a)" by fastforce
  note bound = best_rule_bound [symmetric]
  show ?case
  proof (cases "longest r s")
    case None
    then have none: "\<forall>m \<le> length s. \<not> matches r (take m s)" by (simp add: longest_is_None)
    then have "flex_choice ((r, a) # rules) s n b \<longleftrightarrow> flex_choice rules s n b"
      using flex_choice_length [of rules s n b] unfolding flex_choice_Cons at_most_def by blast
    then show ?thesis using Cons.IH None by (simp add: p)
  next
    case (Some k)
    then have k: "k \<le> length s" "matches r (take k s)" "at_most r s k" by (simp_all add: longest_is_Some)
    have here: "n \<le> length s \<and> matches r (take n s) \<and> at_most r s n \<longleftrightarrow> n = k"
      using Some longest_is_Some [of r s n] by auto
    have later: "flex_choice rules s n b \<and> at_most r s n \<and> \<not> matches r (take n s) \<longleftrightarrow> flex_choice rules s n b \<and> k < n"
      using k flex_choice_length [of rules s n b] unfolding at_most_def
      by (metis le_neq_implies_less less_imp_le order.trans not_le)
    have "flex_choice ((r, a) # rules) s n b \<longleftrightarrow>
        n = k \<and> a = b \<and> (\<forall>q \<in> set rules. at_most (fst q) s n) \<or> flex_choice rules s n b \<and> k < n"
      unfolding flex_choice_Cons using here later by blast
    then show ?thesis unfolding p bound Cons.IH [symmetric] using Some by (auto split: option.splits)
  qed
qed


subsection \<open>Every text is scanned\<close>

lemma rules_not_nullable: "\<forall>p \<in> set lex_rules. \<not> nullable (fst p)"
  by (simp add: lex_rules_def R_text_def R_one_def blank_rule_def R_plus_def timestamp_rule_def R_digit_def
      dquoted_rule_def dquote_def float_rule_def minus_sign_def R_opt_def exponent_def word_rule_def R_any_def)

lemma some_rule_matches:
  assumes "s \<noteq> []"
  shows "\<exists>p \<in> set lex_rules. matches (fst p) (take 1 s)"
proof -
  obtain c cs where s: "s = c # cs" using assms by (cases s) auto
  show ?thesis
  proof (cases "c = CHR 0x0A")
    case True
    have "matches blank_rule ([CHR 0x0A] @ [])" unfolding blank_rule_def R_plus_def
      by (rule m_seq) (auto intro: m_star_stop)
    moreover have "(blank_rule, Discard) \<in> set lex_rules" by (simp add: lex_rules_def)
    ultimately show ?thesis using s True by force
  next
    case False
    have "(R_any, Make_raw) \<in> set lex_rules" by (simp add: lex_rules_def)
    then show ?thesis using s False by (force simp: R_any_def)
  qed
qed

lemma lex_step_choice:
  assumes "s \<noteq> []"
  obtains n act where "flex_choice lex_rules s n act" "0 < n" "n \<le> length s"
    "lex_step s = (token_of act (take n s), take n s)"
proof -
  from some_rule_matches [OF assms] obtain p where p: "p \<in> set lex_rules" "matches (fst p) (take 1 s)" by blast
  have "1 \<le> length s" using assms by (cases s) auto
  then have "\<not> at_most (fst p) s 0" using p(2) by (auto simp: at_most_def)
  then obtain n act where b: "best_rule lex_rules s = Some (n, act)" "0 < n"
    using best_rule_bound [where n = 0 and rules = lex_rules and s = s] p(1) by (cases "best_rule lex_rules s") auto
  then have c: "flex_choice lex_rules s n act" by (simp add: best_rule_is_choice)
  have "lex_step s = (token_of act (take n s), take n s)" using b by (simp add: lex_step_def)
  then show ?thesis by (rule that [OF c b(2) flex_choice_length [OF c]])
qed

function scan_text :: "string \<Rightarrow> (token option \<times> string) list" where
  "scan_text s = (if s = [] then [] else lex_step s # scan_text (drop (length (snd (lex_step s))) s))"
  by pat_completeness auto

termination scan_text
proof (relation "measure length")
  fix s :: string
  assume "s \<noteq> []"
  then obtain n act where "0 < n" "n \<le> length s" "lex_step s = (token_of act (take n s), take n s)"
    by (rule lex_step_choice)
  then show "(drop (length (snd (lex_step s))) s, s) \<in> measure length" by (simp add: min_absorb2)
qed simp

declare scan_text.simps [simp del]

lemma choice_unique:
  assumes "flex_choice lex_rules s n act"
  shows "s \<noteq> [] \<and> lex_step s = (token_of act (take n s), take n s)"
proof
  show "lex_step s = (token_of act (take n s), take n s)"
    using assms by (simp add: lex_step_def best_rule_is_choice [symmetric])
  show "s \<noteq> []"
  proof
    assume "s = []"
    then obtain i where "i < length lex_rules" "matches (fst (lex_rules ! i)) []"
      using assms by (auto simp: flex_choice_def)
    then show False using rules_not_nullable nth_mem unfolding nullable_iff by blast
  qed
qed

lemma scan_Nil [simp]: "scan_text [] = []"
  by (simp add: scan_text.simps)

lemma scan_choice:
  assumes "flex_choice lex_rules s n act"
  shows "scan_text s = (token_of act (take n s), take n s) # scan_text (drop n s)"
  using choice_unique [OF assms] flex_choice_length [OF assms] by (subst scan_text.simps) (simp add: min_absorb2)

lemma scan_induct [case_names Nil step]:
  assumes "P []" and "\<And>s n act. flex_choice lex_rules s n act \<Longrightarrow> 0 < n \<Longrightarrow> P (drop n s) \<Longrightarrow> P s"
  shows "P s"
proof (induction s rule: length_induct)
  case (1 s)
  show ?case
  proof (cases "s = []")
    case False
    then obtain n act where "flex_choice lex_rules s n act" "0 < n" by (rule lex_step_choice)
    then show ?thesis using assms(2) 1 False by simp
  qed (simp add: assms(1))
qed

text \<open>Whatever the text, the scanner takes it apart in exactly one way, the one flex documents for the
  rules of the source: at each point the longest text that a rule matches, of the rules that match it the
  first one.  No character is left over, echoed or lost, comments and blanks included.\<close>

theorem scan_is_flex: "(flex_run s ts \<longleftrightarrow> ts = scan_text s) \<and> concat (map snd (scan_text s)) = s"
proof
  have "flex_run s (scan_text s)"
    by (induction s rule: scan_induct) (auto simp: scan_choice intro: flex_run.intros)
  moreover have "flex_run s ts \<Longrightarrow> ts = scan_text s"
    by (induction s ts rule: flex_run.induct) (simp_all add: scan_choice)
  ultimately show "flex_run s ts \<longleftrightarrow> ts = scan_text s" by blast
  show "concat (map snd (scan_text s)) = s"
    by (induction s rule: scan_induct) (simp_all add: scan_choice)
qed


section \<open>String literals\<close>

text \<open>A bound string is rendered as a literal; the scanner must take it as one token whatever it holds.\<close>

lemma star_body: "matches (R_star (R_alt not_dquote (R_seq dquote dquote))) s \<longleftrightarrow> paired s"
proof (induction s rule: paired.induct)
  case (3 c d cs)
  then show ?case
    by (cases "c = CHR 0x22") (auto simp: star_Cons matches_seq not_dquote_def dquote_def append_eq_Cons_conv Cons_eq_append_conv)
qed (auto simp: star_Cons matches_seq not_dquote_def dquote_def intro: m_star_stop)

lemma dquote_matches: "matches dquote s \<longleftrightarrow> s = [CHR 0x22]"
  by (auto simp: dquote_def)

lemma dquoted_matches: "matches dquoted_rule s \<longleftrightarrow> dquoted_lexeme s"
  by (auto simp: dquoted_rule_def dquoted_lexeme_def quoted_def matches_seq star_body dquote_matches)

lemma digit_plain: "is_digit c \<Longrightarrow> c \<noteq> CHR 0x22"
  by (auto simp: is_digit_def)

lemma timestamp_is_dquoted: "matches timestamp_rule s \<Longrightarrow> dquoted_lexeme s"
  unfolding dquoted_lexeme_def timestamp_rule_def R_seqs.simps
  by (auto simp: matches_seq dquote_def R_digit_def R_one_def quoted_def digit_plain)

lemma no_deriv_no_match: "deriv c r = R_zero \<Longrightarrow> \<not> matches r (c # s)"
  by (simp add: deriv_matches [symmetric])


lemma quote_starts:
  assumes "j < length lex_rules" and "matches (fst (lex_rules ! j)) (CHR 0x22 # s)"
  shows "j = 3 \<or> j = 4 \<or> s = []"
proof -
  have len: "length lex_rules = 18" by (simp add: lex_rules_def)
  have "\<forall>p \<in> set (zip [0..<18] lex_rules). fst p = 3 \<or> fst p = 4 \<or> fst p = 17 \<or> deriv (CHR 0x22) (fst (snd p)) = R_zero"
    by (simp add: upt_rec lex_rules_def R_text_def R_one_def blank_rule_def R_plus_def R_digit_def float_rule_def
        minus_sign_def R_opt_def exponent_def word_rule_def mk_alt_def is_zero_def is_digit_def is_name_char_def
        in_range_def less_eq_char_def)
  moreover have "(j, lex_rules ! j) \<in> set (zip [0..<18] lex_rules)"
    using assms(1) len by (force simp: set_zip)
  ultimately have "j = 3 \<or> j = 4 \<or> j = 17 \<or> deriv (CHR 0x22) (fst (lex_rules ! j)) = R_zero" by fastforce
  moreover have "lex_rules ! 17 = (R_any, Make_raw)" by (simp add: lex_rules_def)
  ultimately show ?thesis using assms no_deriv_no_match by (cases "j = 17") (auto simp: R_any_def)
qed


lemma literal_is_choice:
  assumes scans: "scans_as (lit @ rest) lit"
  shows "flex_choice lex_rules (lit @ rest) (length lit) (if matches timestamp_rule lit then Make_timestamp else Make_dquoted)"
proof -
  define i :: nat where "i = (if matches timestamp_rule lit then 3 else 4)"
  have rules: "lex_rules ! 3 = (timestamp_rule, Make_timestamp)" "lex_rules ! 4 = (dquoted_rule, Make_dquoted)"
    and len: "length lex_rules = 18" by (simp_all add: lex_rules_def)
  from scans obtain body where body: "lit = quoted body" "paired body" by (auto simp: scans_as_def dquoted_lexeme_def)
  have lit: "matches (fst (lex_rules ! i)) lit"
    using scans by (auto simp: i_def rules dquoted_matches scans_as_def)
  have "m \<le> length lit \<and> (m = length lit \<longrightarrow> i \<le> j)"
    if j: "j < length lex_rules" and m: "m \<le> length (lit @ rest)" "matches (fst (lex_rules ! j)) (take m (lit @ rest))" for j m
  proof (cases "j = 3 \<or> j = 4")
    case True
    then have d: "dquoted_lexeme (take m (lit @ rest))" using m(2) by (auto simp: rules dquoted_matches timestamp_is_dquoted)
    have "lit @ rest = take m (lit @ rest) @ drop m (lit @ rest)" by (simp del: take_append drop_append)
    then have "length (take m (lit @ rest)) \<le> length lit" using scans d unfolding scans_as_def by blast
    then show ?thesis using True m by (auto simp: i_def rules split: if_splits)
  next
    case False
    have "\<not> matches (fst (lex_rules ! j)) []"
      using rules_not_nullable nth_mem [OF j] unfolding nullable_iff by blast
    then obtain k where k: "m = Suc k" using m(2) by (cases m) auto
    then have "take k (tl (lit @ rest)) = []"
      using quote_starts [OF j, of "take k (tl (lit @ rest))"] m(2) False body(1) by (simp add: quoted_def)
    then show ?thesis using k m(1) body(1) by (auto simp: quoted_def)
  qed
  then have best: "\<forall>j < length lex_rules. \<forall>m \<le> length (lit @ rest).
      matches (fst (lex_rules ! j)) (take m (lit @ rest)) \<longrightarrow> m \<le> length lit \<and> (m = length lit \<longrightarrow> i \<le> j)" by blast
  have "i < length lex_rules" "snd (lex_rules ! i) = (if matches timestamp_rule lit then Make_timestamp else Make_dquoted)"
    by (simp_all add: i_def rules len)
  moreover have "matches (fst (lex_rules ! i)) (take (length lit) (lit @ rest))" using lit by simp
  ultimately show ?thesis unfolding flex_choice_def using best by (metis le_add1 length_append)
qed


text \<open>C10: A bound string cannot leave its literal: whatever it contains, quotes, semicolons, comments or line
  ends, the scanner takes exactly its literal as one token, as long as the template has no quote right
  after the placeholder.  The token is a timestamp if the literal has that shape, otherwise a string; its
  text is the whole literal exactly if the string has no NUL, and unquoting gives the string with its
  quotes doubled.\<close>

theorem bound_string_is_one_token:
  assumes "render_literal (S s) = Inr lit" and "take 1 rest \<noteq> [CHR 0x22]"
  shows "lex_step (lit @ rest) =
           (Some (Token (if matches timestamp_rule lit then ''T_TIMESTAMP'' else ''T_DQUOTED_STRING'') (c_str lit)), lit) \<and>
         (c_str lit = lit \<longleftrightarrow> CHR 0x00 \<notin> set s) \<and> unquote lit = double_quotes s"
proof -
  note lit = bound_string_scans_as [OF assms]
  have "CHR 0x00 \<notin> set lit \<longleftrightarrow> CHR 0x00 \<notin> set s" using assms(1) by (auto simp: quoted_def double_quotes_def)
  then show ?thesis using choice_unique [OF literal_is_choice [OF conjunct1 [OF lit]]] lit by (simp add: no_nul_def)
qed

theorem bound_string_is_one_token_witness:
  "lex_step (quoted (double_quotes [CHR '';'', CHR 0x22]) @ '';'') =
     (Some (Token ''T_DQUOTED_STRING'' (quoted [CHR '';'', CHR 0x22, CHR 0x22])), quoted [CHR '';'', CHR 0x22, CHR 0x22])"
proof -
  have "\<not> matches timestamp_rule (quoted [CHR '';'', CHR 0x22, CHR 0x22])"
    by (simp add: deriv_matches [symmetric] quoted_def timestamp_rule_def dquote_def R_digit_def is_digit_def mk_seq.simps)
  then show ?thesis
    using bound_string_is_one_token [of "[CHR '';'', CHR 0x22]" "quoted (double_quotes [CHR '';'', CHR 0x22])" "'';''"] by simp
qed


text \<open>A string of the shape of a timestamp is not a string token, wherever it stands; and a number with a
  leading zero is a word.\<close>

lemma timestamp_shape_is_no_string:
  "lex_step (quoted ''2024-01-31T12:00:00Z'') =
     (Some (Token ''T_TIMESTAMP'' (quoted ''2024-01-31T12:00:00Z'')), quoted ''2024-01-31T12:00:00Z'')"
  by code_simp

lemma leading_zero_is_a_word: "lex_step ''01,'' = (Some (Token ''T_UNQUOTED_STRING'' ''01''), ''01'')"
  by code_simp

text \<open>Keywords are found in any case.\<close>

lemma tolower_twice: "tolower (tolower c) = tolower c"
proof (cases "in_range (CHR ''A'') (CHR ''Z'') c")
  case True
  then have r: "65 \<le> (of_char c :: nat)" "of_char c \<le> (90::nat)" by (simp_all add: in_range_def less_eq_char_def)
  then have "of_char (tolower c) = of_char c + (32::nat)" using True by (simp add: tolower_def)
  then have "\<not> in_range (CHR ''A'') (CHR ''Z'') (tolower c)" using r by (simp add: in_range_def less_eq_char_def)
  then show ?thesis by (simp add: tolower_def [of "tolower c"])
qed (simp add: tolower_def)

lemma keyword_any_case: "map tolower s = map tolower t \<Longrightarrow> no_nul s \<Longrightarrow> no_nul t \<Longrightarrow> ddbsh_keyword s = ddbsh_keyword t"
  by (simp add: ddbsh_keyword_def c_str_id)

end
