(* ===== verification/Driver.thy ===== *)
theory Driver
  imports Lexer Session_Buffer
begin

text \<open>
  The driver of one parse (\<^verbatim>\<open>src/parser/driver.cpp\<close>, \<^verbatim>\<open>driver.hpp\<close>, \<^verbatim>\<open>lex_debug.cpp\<close>) and the parsing
  operations of the session on top of it (\<^verbatim>\<open>src/session.cpp\<close>).  The driver feeds the scanner, follows the line
  and the column, collects the result or the error of a statement and draws the caret under an offending
  lexeme.  The parser bison generates is a parameter: a function on the driver's state and its return code.
\<close>

section \<open>The driver\<close>

text \<open>The rest is the text the scanner has not matched yet.  The line and the column count characters of
  a text in memory, so they stay natural numbers.\<close>

record parse_driver =
  dr_input :: string
  dr_rest :: string
  dr_lexeme :: string
  dr_line :: nat
  dr_column :: nat
  dr_saw_eof :: bool
  dr_result :: "parsed_statement option"
  dr_error :: "error option"

definition new_driver :: "string \<Rightarrow> parse_driver" where
  "new_driver input =
     \<lparr>dr_input = input, dr_rest = input, dr_lexeme = [], dr_line = 1, dr_column = 1, dr_saw_eof = False,
      dr_result = None, dr_error = None\<rparr>"

text \<open>What the scanner's buffer is filled from: at most \<open>max_size\<close> bytes at the offset.\<close>

definition yy_read :: "string \<Rightarrow> nat \<Rightarrow> nat \<Rightarrow> string \<times> nat" where
  "yy_read input max_size off =
     (if length input \<le> off then ([], off)
      else let n = min (length input - off) max_size in (take n (drop off input), off + n))"

definition mark_eof :: "parse_driver \<Rightarrow> parse_driver" where
  "mark_eof d = d\<lparr>dr_saw_eof := True\<rparr>"

text \<open>A line feed and a carriage return each end a line.\<close>

fun advance :: "char \<Rightarrow> nat \<times> nat \<Rightarrow> nat \<times> nat" where
  "advance c (line, column) = (if c = CHR 0x0A \<or> c = CHR 0x0D then (line + 1, 1) else (line, column + 1))"

definition on_token :: "string \<Rightarrow> parse_driver \<Rightarrow> parse_driver" where
  "on_token text d =
     (let (l, c) = fold advance text (dr_line d, dr_column d)
      in d\<lparr>dr_lexeme := text, dr_line := l, dr_column := c\<rparr>)"

text \<open>One match: the token, if the rule returns one, and the driver told of the lexeme.\<close>

definition match_rule :: "parse_driver \<Rightarrow> token option \<times> parse_driver" where
  "match_rule d =
     (let (t, text) = lex_step (dr_rest d)
      in (t, (on_token text d)\<lparr>dr_rest := drop (length text) (dr_rest d)\<rparr>))"

lemma match_rule_shorter:
  assumes "dr_rest d \<noteq> []"
  shows "length (dr_rest (snd (match_rule d))) < length (dr_rest d)"
proof -
  from assms obtain n act where "0 < n" "n \<le> length (dr_rest d)"
    "lex_step (dr_rest d) = (token_of act (take n (dr_rest d)), take n (dr_rest d))" by (rule lex_step_choice)
  then show ?thesis by (simp add: match_rule_def min_absorb2)
qed

text \<open>The next token: rules without one are skipped; no token stands for the end of the input.\<close>

function ddbsh_lex :: "parse_driver \<Rightarrow> token option \<times> parse_driver" where
  "ddbsh_lex d =
     (if dr_rest d = [] then (None, mark_eof d)
      else case match_rule d of (Some t, d') \<Rightarrow> (Some t, d') | (None, d') \<Rightarrow> ddbsh_lex d')"
  by pat_completeness auto

termination ddbsh_lex
proof (relation "measure (\<lambda>d. length (dr_rest d))")
  fix d :: parse_driver and t d'
  assume "dr_rest d \<noteq> []" and "(t, d') = match_rule d"
  then show "(d', d) \<in> measure (\<lambda>d. length (dr_rest d))"
    using match_rule_shorter [of d] by (simp add: prod_eq_iff)
qed simp

declare ddbsh_lex.simps [simp del]

section \<open>Results and errors\<close>

definition empty_statement :: parsed_statement where
  "empty_statement = \<lparr>ps_command = EmptyCmd, ps_explain = False\<rparr>"

definition set_empty_result :: "parse_driver \<Rightarrow> parse_driver" where
  "set_empty_result d = d\<lparr>dr_result := Some empty_statement\<rparr>"

definition set_result :: "command_node \<Rightarrow> bool \<Rightarrow> parse_driver \<Rightarrow> parse_driver" where
  "set_result cmd explain d = d\<lparr>dr_result := Some \<lparr>ps_command = cmd, ps_explain = explain\<rparr>\<rparr>"

text \<open>The text from the start of a line on; the search for line ends stops at the last line.\<close>

fun skip_lines :: "nat \<Rightarrow> string \<Rightarrow> string" where
  "skip_lines 0 s = s"
| "skip_lines (Suc n) s = (if CHR 0x0A \<in> set s then skip_lines n (tl (dropWhile (\<lambda>c. c \<noteq> CHR 0x0A) s)) else s)"

definition source_line :: "parse_driver \<Rightarrow> string" where
  "source_line d =
     (let l = takeWhile (\<lambda>c. c \<noteq> CHR 0x0A) (skip_lines (dr_line d - 1) (dr_input d))
      in if l \<noteq> [] \<and> last l = CHR 0x0D then butlast l else l)"

definition caret_column :: "parse_driver \<Rightarrow> nat" where
  "caret_column d =
     (let n = length (dr_lexeme d); c = (if n < dr_column d then dr_column d - n else dr_column d)
      in if c < 1 then 1 else c)"

definition blanked :: "string \<Rightarrow> string" where
  "blanked s = map (\<lambda>c. if c = CHR 0x09 then c else CHR '' '') s"

definition build_caret :: "parse_driver \<Rightarrow> string" where
  "build_caret d =
     (let l = source_line d
      in if l = [] then []
         else l @ [CHR 0x0A] @ blanked (take (min (caret_column d - 1) (length l)) l) @ ''^'')"

definition set_error :: "string \<Rightarrow> parse_driver \<Rightarrow> parse_driver" where
  "set_error message d =
     (let composed = ''['' @ to_string (dr_line d) @ '', '' @ to_string (dr_column d) @ ''] '' @ message @ '' at '' @ dr_lexeme d;
          caret = build_caret d
      in d\<lparr>dr_error := Some \<lparr>err_code = parse_error,
             err_message = composed @ (if caret = [] then [] else [CHR 0x0A] @ caret),
             service_error_name = None, request_id = None\<rparr>\<rparr>)"

text \<open>The first semantic error of a statement is kept.\<close>

definition set_semantic_error :: "string \<Rightarrow> parse_driver \<Rightarrow> parse_driver" where
  "set_semantic_error message d =
     (if dr_error d = None
      then d\<lparr>dr_error := Some \<lparr>err_code = invalid_argument, err_message = message, service_error_name = None, request_id = None\<rparr>\<rparr>
      else d)"

section \<open>Parsing\<close>

type_synonym bison = "parse_driver \<Rightarrow> int \<times> parse_driver"

datatype step_kind = Statement_read | Empty_at_eof | Parse_failed

definition parse_next :: "bison \<Rightarrow> parse_driver \<Rightarrow> step_kind \<times> parse_driver" where
  "parse_next bison d =
     (let (rc, d') = bison (d\<lparr>dr_result := None, dr_error := None\<rparr>)
      in if rc \<noteq> 0 \<or> dr_error d' \<noteq> None then (Parse_failed, d')
         else case dr_result d' of
             None \<Rightarrow> (Empty_at_eof, d')
           | Some st \<Rightarrow>
               (if kind_of (ps_command st) = Kind_empty \<and> dr_saw_eof d' then Empty_at_eof else Statement_read, d'))"

definition parse :: "bison \<Rightarrow> parse_driver \<Rightarrow> bool \<times> parse_driver" where
  "parse bison d =
     (case parse_next bison d of
        (Parse_failed, d') \<Rightarrow> (False, d')
      | (Empty_at_eof, d') \<Rightarrow> (True, if dr_result d' = None then set_empty_result d' else d')
      | (Statement_read, d') \<Rightarrow> (True, d'))"

text \<open>The driver as the session's loop over a batch uses it, and the session's parse of one statement.\<close>

definition driver_step_of :: "bison \<Rightarrow> parse_driver driver" where
  "driver_step_of bison d =
     (case parse_next bison d of
        (Parse_failed, d') \<Rightarrow> Step_error (dr_error d')
      | (Empty_at_eof, d') \<Rightarrow> Step_empty_at_eof
      | (Statement_read, d') \<Rightarrow> Step_statement (the (dr_result d')) d')"

definition session_parse :: "bison \<Rightarrow> string \<Rightarrow> parsed_statement result" where
  "session_parse bison text =
     (case parse bison (new_driver text) of
        (False, d) \<Rightarrow> Inl (case dr_error d of Some e \<Rightarrow> e | None \<Rightarrow> default_parse_error)
      | (True, d) \<Rightarrow> Inr (the (dr_result d)))"

definition session_parse_batch :: "bison \<Rightarrow> string \<Rightarrow> parsed_batch option" where
  "session_parse_batch bison text = parse_batch (driver_step_of bison) [] (new_driver text)"

text \<open>\<open>Session::run\<close>: parse one statement and execute it, collected or streamed.\<close>

definition session_run ::
    "bison \<Rightarrow> 'h environment \<Rightarrow> 'w iddb_client \<Rightarrow> string \<Rightarrow> ('w, 'h) session \<Rightarrow> (exec_outcome result \<times> ('w, 'h) session) option" where
  "session_run bison env client text sn =
     (case session_parse bison text of Inl e \<Rightarrow> Some (Inl e, sn) | Inr st \<Rightarrow> execute_buffered env client st sn)"

definition session_run_sink ::
    "bison \<Rightarrow> 'h environment \<Rightarrow> 'w iddb_client \<Rightarrow> string \<Rightarrow> ('w, 'h) session \<Rightarrow> (unit result \<times> ('w, 'h) session) option" where
  "session_run_sink bison env client text sn =
     (case session_parse bison text of Inl e \<Rightarrow> Some (Inl e, sn) | Inr st \<Rightarrow> execute_stream env client st sn)"

section \<open>The token stream\<close>

text \<open>What a test sees of the tokens: the name of each with its lexeme, up to the first that the parser
  takes for the end; the names of the symbols belong to the generated parser.\<close>

function debug_tokens :: "(token \<Rightarrow> string option) \<Rightarrow> parse_driver \<Rightarrow> (string \<times> string) list" where
  "debug_tokens symbol_name d =
     (case ddbsh_lex d of
        (None, d') \<Rightarrow> []
      | (Some t, d') \<Rightarrow>
          (case symbol_name t of
             None \<Rightarrow> []
           | Some name \<Rightarrow> (name, dr_lexeme d') # debug_tokens symbol_name d'))"
  by pat_completeness auto

lemma ddbsh_lex_shorter: "ddbsh_lex d = (Some t, d') \<Longrightarrow> length (dr_rest d') < length (dr_rest d)"
proof (induction d rule: ddbsh_lex.induct)
  case (1 d)
  then have ne: "dr_rest d \<noteq> []" by (auto simp: ddbsh_lex.simps [of d] split: if_splits)
  obtain t1 d1 where m: "match_rule d = (t1, d1)" by fastforce
  then have s: "length (dr_rest d1) < length (dr_rest d)" using match_rule_shorter [OF ne] by simp
  show ?case
  proof (cases t1)
    case None
    then have "ddbsh_lex d1 = (Some t, d')" using 1(2) ne m by (simp add: ddbsh_lex.simps [of d])
    then show ?thesis using 1(1) [OF ne m [symmetric] None] s by simp
  qed (use 1(2) ne m s in \<open>simp add: ddbsh_lex.simps [of d]\<close>)
qed

termination debug_tokens
  by (relation "measure (\<lambda>(_, d). length (dr_rest d))") (auto dest: ddbsh_lex_shorter [OF sym])

declare debug_tokens.simps [simp del]

definition debug_lex :: "(token \<Rightarrow> string option) \<Rightarrow> string \<Rightarrow> (string \<times> string) list" where
  "debug_lex symbol_name input = debug_tokens symbol_name (new_driver input)"


section \<open>The scanner reads the input in order\<close>

text \<open>Portions of whatever size make up the input.\<close>

fun read_chunks :: "string \<Rightarrow> nat list \<Rightarrow> nat \<Rightarrow> string" where
  "read_chunks input [] off = []"
| "read_chunks input (m # ms) off =
     (let (bytes, off') = yy_read input m off in bytes @ read_chunks input ms off')"

lemma read_chunks_in_order: "off \<le> length input \<Longrightarrow> read_chunks input ms off = take (sum_list ms) (drop off input)"
proof (induction ms arbitrary: off)
  case (Cons m ms)
  show ?case
  proof (cases "length input \<le> off")
    case False
    then have "off + min (length input - off) m \<le> length input" by simp
    from Cons.IH [OF this] show ?thesis using False
      by (cases "length input - off \<le> m") (simp_all add: yy_read_def Let_def take_add add.commute)
  qed (use Cons in \<open>simp add: yy_read_def\<close>)
qed simp

text \<open>The tokens of a text: its lexemes whose rule returns one.\<close>

definition tokens_in :: "string \<Rightarrow> (token \<times> string) list" where
  "tokens_in s = List.map_filter (\<lambda>(t, l). map_option (\<lambda>t. (t, l)) t) (scan_text s)"

lemma tokens_Nil [simp]: "tokens_in [] = []"
  by (simp add: tokens_in_def List.map_filter_def)

lemma match_rule_scan:
  assumes "dr_rest d \<noteq> []" and "match_rule d = (t, d')"
  shows "scan_text (dr_rest d) = (t, dr_lexeme d') # scan_text (dr_rest d') \<and> dr_rest d = dr_lexeme d' @ dr_rest d'"
proof -
  from assms(1) obtain n act where n: "flex_choice lex_rules (dr_rest d) n act" "n \<le> length (dr_rest d)"
    "lex_step (dr_rest d) = (token_of act (take n (dr_rest d)), take n (dr_rest d))" by (rule lex_step_choice)
  then show ?thesis using assms(2) scan_choice [OF n(1)]
    by (auto simp: match_rule_def on_token_def min_absorb2 split: prod.splits)
qed

lemma ddbsh_lex_tokens:
  "(case ddbsh_lex d of
      (None, d') \<Rightarrow> tokens_in (dr_rest d) = [] \<and> dr_rest d' = [] \<and> dr_saw_eof d'
    | (Some t, d') \<Rightarrow> tokens_in (dr_rest d) = (t, dr_lexeme d') # tokens_in (dr_rest d'))"
proof (induction d rule: ddbsh_lex.induct)
  case (1 d)
  show ?case
  proof (cases "dr_rest d = []")
    case False
    obtain t d1 where m: "match_rule d = (t, d1)" by fastforce
    then have s: "tokens_in (dr_rest d) = (case t of None \<Rightarrow> [] | Some t \<Rightarrow> [(t, dr_lexeme d1)]) @ tokens_in (dr_rest d1)"
      using conjunct1 [OF match_rule_scan [OF False m]] by (simp add: tokens_in_def List.map_filter_def split: option.split)
    show ?thesis
    proof (cases t)
      case None
      then show ?thesis using 1 [OF False m [symmetric]] s False m
        by (simp add: ddbsh_lex.simps [of d] split: prod.splits option.splits)
    qed (use s False m in \<open>simp add: ddbsh_lex.simps [of d]\<close>)
  qed (simp add: ddbsh_lex.simps [of d] mark_eof_def)
qed

theorem debug_lex_is_scan:
  "debug_lex symbol_name input =
     map (\<lambda>(t, l). (the (symbol_name t), l)) (takeWhile (\<lambda>(t, l). symbol_name t \<noteq> None) (tokens_in input))"
proof -
  have "debug_tokens symbol_name d =
      map (\<lambda>(t, l). (the (symbol_name t), l)) (takeWhile (\<lambda>(t, l). symbol_name t \<noteq> None) (tokens_in (dr_rest d)))" for d
  proof (induction symbol_name d rule: debug_tokens.induct)
    case (1 symbol_name d)
    show ?case using ddbsh_lex_tokens [of d] 1
      by (subst debug_tokens.simps) (auto split: prod.splits option.splits)
  qed
  then show ?thesis by (simp add: debug_lex_def new_driver_def)
qed


section \<open>Where an error is reported\<close>

text \<open>The states of a driver: whatever the generated parser does, it does by these calls.\<close>

inductive driver_reach :: "string \<Rightarrow> parse_driver \<Rightarrow> bool" for input where
  r_open: "driver_reach input (new_driver input)"
| r_reset: "driver_reach input d \<Longrightarrow> driver_reach input (d\<lparr>dr_result := None, dr_error := None\<rparr>)"
| r_lex: "driver_reach input d \<Longrightarrow> driver_reach input (snd (ddbsh_lex d))"
| r_empty: "driver_reach input d \<Longrightarrow> driver_reach input (set_empty_result d)"
| r_result: "driver_reach input d \<Longrightarrow> driver_reach input (set_result cmd explain d)"
| r_error: "driver_reach input d \<Longrightarrow> driver_reach input (set_error message d)"
| r_semantic: "driver_reach input d \<Longrightarrow> driver_reach input (set_semantic_error message d)"

definition driver_ok :: "string \<Rightarrow> parse_driver \<Rightarrow> bool" where
  "driver_ok input d \<longleftrightarrow>
     dr_input d = input \<and> (dr_saw_eof d \<longrightarrow> dr_rest d = []) \<and>
     (\<exists>p. input = p @ dr_lexeme d @ dr_rest d \<and>
        fold advance (p @ dr_lexeme d) (1, 1) = (dr_line d, dr_column d))"

lemma match_rule_keeps:
  assumes "driver_ok input d" and "dr_rest d \<noteq> []" and m: "match_rule d = (t, d')"
  shows "driver_ok input d'"
proof -
  from assms(1) obtain p where p: "input = p @ dr_lexeme d @ dr_rest d"
    "fold advance (p @ dr_lexeme d) (1, 1) = (dr_line d, dr_column d)" by (auto simp: driver_ok_def)
  have "fold advance ((p @ dr_lexeme d) @ dr_lexeme d') (1, 1) = (dr_line d', dr_column d')"
    using m p(2) by (auto simp: match_rule_def on_token_def split: prod.splits)
  moreover have "dr_input d' = dr_input d" "dr_saw_eof d' = dr_saw_eof d"
    using m by (auto simp: match_rule_def on_token_def split: prod.splits)
  moreover have "input = (p @ dr_lexeme d) @ dr_lexeme d' @ dr_rest d'"
    using p(1) match_rule_scan [OF assms(2) m] by simp
  moreover have "dr_input d = input" "\<not> dr_saw_eof d" using assms(1,2) by (auto simp: driver_ok_def)
  ultimately show ?thesis unfolding driver_ok_def by metis
qed

lemma ddbsh_lex_keeps: "driver_ok input d \<Longrightarrow> driver_ok input (snd (ddbsh_lex d))"
proof (induction d rule: ddbsh_lex.induct)
  case (1 d)
  show ?case
  proof (cases "dr_rest d = []")
    case True
    then show ?thesis using 1(2) by (simp add: ddbsh_lex.simps [of d] driver_ok_def mark_eof_def)
  next
    case False
    obtain t d1 where m: "match_rule d = (t, d1)" by fastforce
    then have "driver_ok input d1" using match_rule_keeps 1(2) False by blast
    then show ?thesis using 1(1) [OF False m [symmetric]] False m by (cases t) (simp_all add: ddbsh_lex.simps [of d])
  qed
qed

lemma reach_ok: "driver_reach input d \<Longrightarrow> driver_ok input d"
proof (induction rule: driver_reach.induct)
  case (r_lex d)
  then show ?case by (simp add: ddbsh_lex_keeps)
qed (simp_all add: driver_ok_def new_driver_def set_empty_result_def set_result_def set_error_def
    set_semantic_error_def Let_def)

text \<open>The line is the number of line ends read, of both kinds: lines that end in both are counted twice.\<close>

definition line_ends :: "char \<Rightarrow> string \<Rightarrow> nat" where
  "line_ends c s = length (filter (\<lambda>x. x = c) s)"

fun last_line :: "string \<Rightarrow> string" where
  "last_line [] = []"
| "last_line (c # cs) = (if CHR 0x0A \<in> set cs then last_line cs else if c = CHR 0x0A then cs else c # cs)"

lemma fold_advance_line:
  "fst (fold advance s (l, c)) = l + line_ends (CHR 0x0A) s + line_ends (CHR 0x0D) s"
  by (induction s arbitrary: l c) (auto simp: line_ends_def)

lemma fold_advance_column:
  "CHR 0x0D \<notin> set s \<Longrightarrow>
   snd (fold advance s (l, c)) = (if CHR 0x0A \<in> set s then Suc (length (last_line s)) else c + length s)"
  by (induction s arbitrary: l c) auto

lemma last_line_plain: "CHR 0x0A \<notin> set s \<Longrightarrow> last_line s = s"
  by (cases s) auto

lemma last_line_append: "CHR 0x0A \<notin> set t \<Longrightarrow> last_line (s @ t) = last_line s @ t"
  by (induction s) (auto simp: last_line_plain)

lemma last_line_no_end: "CHR 0x0A \<notin> set (last_line s)"
  by (induction s) auto

lemma last_line_suffix: "\<exists>u. s = u @ last_line s \<and> (u = [] \<or> last u = CHR 0x0A)"
proof (induction s)
  case (Cons c s)
  then obtain u where u: "s = u @ last_line s" "u = [] \<or> last u = CHR 0x0A" by blast
  show ?case
  proof (cases "CHR 0x0A \<in> set s")
    case True
    then have "u \<noteq> []" using u last_line_no_end [of s] by auto
    then show ?thesis using True u by (intro exI [of _ "c # u"]) auto
  next
    case False
    then show ?thesis by (intro exI [of _ "if c = CHR 0x0A then [c] else []"]) auto
  qed
qed simp

lemma skip_lines_last: "skip_lines (line_ends (CHR 0x0A) s) (s @ t) = last_line s @ t"
proof (induction s)
  case (Cons c s)
  show ?case
  proof (cases "c = CHR 0x0A")
    case True
    then show ?thesis using Cons by (simp add: line_ends_def last_line_plain)
  next
    case False
    show ?thesis
    proof (cases "CHR 0x0A \<in> set s")
      case True
      then obtain n where "line_ends (CHR 0x0A) s = Suc n"
        by (cases "line_ends (CHR 0x0A) s") (auto simp: line_ends_def filter_empty_conv)
      then show ?thesis using Cons False True by (simp add: line_ends_def)
    next
      case nl: False
      then have "filter (\<lambda>x. x = CHR 0x0A) s = []" by (auto simp: filter_empty_conv)
      then show ?thesis using False nl by (simp add: line_ends_def)
    qed
  qed
qed (simp add: line_ends_def)


lemma line_ends_append [simp]: "line_ends c (s @ t) = line_ends c s + line_ends c t"
  by (simp add: line_ends_def)

lemma line_ends_none: "c \<notin> set s \<Longrightarrow> line_ends c s = 0"
  by (auto simp: line_ends_def filter_empty_conv)

text \<open>Where the driver stands: the lines before, the part of the line before the lexeme.\<close>

lemma driver_position:
  assumes "driver_reach input d" and "CHR 0x0D \<notin> set input" and "CHR 0x0A \<notin> set (dr_lexeme d)"
  obtains lines before where "dr_input d = input" "input = lines @ before @ dr_lexeme d @ dr_rest d"
    "lines = [] \<or> last lines = CHR 0x0A" "CHR 0x0A \<notin> set before"
    "dr_line d = Suc (line_ends (CHR 0x0A) lines)" "dr_column d = Suc (length before + length (dr_lexeme d))"
    "skip_lines (dr_line d - 1) (dr_input d) = before @ dr_lexeme d @ dr_rest d"
proof -
  let ?x = "dr_lexeme d"
  from reach_ok [OF assms(1)] obtain p where d: "dr_input d = input" "input = p @ ?x @ dr_rest d"
    "fold advance (p @ ?x) (1, 1) = (dr_line d, dr_column d)" by (auto simp: driver_ok_def)
  obtain u where u: "p = u @ last_line p" "u = [] \<or> last u = CHR 0x0A" using last_line_suffix by blast
  have ends: "line_ends (CHR 0x0A) p = line_ends (CHR 0x0A) u"
    using arg_cong [OF u(1), of "line_ends (CHR 0x0A)"] line_ends_none [OF last_line_no_end] by simp
  have cr: "CHR 0x0D \<notin> set (p @ ?x)" using assms(2) d(2) by simp
  have line: "dr_line d = Suc (line_ends (CHR 0x0A) p)"
    using fold_advance_line [of "p @ ?x" 1 1] line_ends_none [OF cr] d(3) line_ends_none [OF assms(3)] by simp
  have column: "dr_column d = Suc (length (last_line p) + length ?x)"
    using fold_advance_column [OF cr, of 1 1] d(3) assms(3)
    by (auto simp: last_line_append last_line_plain split: if_splits)
  have skip: "skip_lines (dr_line d - 1) (dr_input d) = last_line p @ ?x @ dr_rest d"
    using skip_lines_last [of p "?x @ dr_rest d"] d(1,2) line by simp
  have "input = u @ last_line p @ ?x @ dr_rest d" using d(2) u(1) by (metis append.assoc)
  then show ?thesis using that [of u "last_line p"] d(1) u(2) line ends column skip last_line_no_end by simp
qed

text \<open>C23: In a text without carriage returns, a syntax error reported at a lexeme within a line points at it:
  the message has the number of its line and the column just after it, the whole of its line, and under it
  a caret below the first character of the lexeme, tabs kept.\<close>

theorem error_points_at_lexeme:
  assumes "driver_reach input d" and "CHR 0x0D \<notin> set input"
    and "dr_lexeme d \<noteq> []" and "CHR 0x0A \<notin> set (dr_lexeme d)"
  shows "\<exists>lines before after.
    input = lines @ before @ dr_lexeme d @ dr_rest d \<and> (lines = [] \<or> last lines = CHR 0x0A) \<and>
    CHR 0x0A \<notin> set before \<and> after = takeWhile (\<lambda>c. c \<noteq> CHR 0x0A) (dr_rest d) \<and>
    map_option err_message (dr_error (set_error message d)) =
      Some (''['' @ to_string (Suc (line_ends (CHR 0x0A) lines)) @ '', '' @
        to_string (Suc (length before + length (dr_lexeme d))) @ ''] '' @ message @ '' at '' @ dr_lexeme d @ [CHR 0x0A] @
        before @ dr_lexeme d @ after @ [CHR 0x0A] @ blanked before @ ''^'')"
proof -
  let ?x = "dr_lexeme d" let ?after = "takeWhile (\<lambda>c. c \<noteq> CHR 0x0A) (dr_rest d)"
  obtain lines before where p: "dr_input d = input" "input = lines @ before @ ?x @ dr_rest d"
    "lines = [] \<or> last lines = CHR 0x0A" "CHR 0x0A \<notin> set before"
    "dr_line d = Suc (line_ends (CHR 0x0A) lines)" "dr_column d = Suc (length before + length ?x)"
    "skip_lines (dr_line d - 1) (dr_input d) = before @ ?x @ dr_rest d"
    using driver_position [OF assms(1,2,4)] by blast
  have "CHR 0x0A \<notin> set (before @ ?x)" using assms(4) p(4) by simp
  then have "takeWhile (\<lambda>c. c \<noteq> CHR 0x0A) ((before @ ?x) @ dr_rest d) = (before @ ?x) @ ?after"
    by (intro takeWhile_append2) auto
  then have raw: "takeWhile (\<lambda>c. c \<noteq> CHR 0x0A) (skip_lines (dr_line d - 1) (dr_input d)) = before @ ?x @ ?after"
    unfolding p(7) by simp
  have "CHR 0x0D \<notin> set (before @ ?x @ ?after)" using assms(2) p(2) by (auto dest: set_takeWhileD)
  then have "last (before @ ?x @ ?after) \<noteq> CHR 0x0D" using assms(3) last_in_set [of "before @ ?x @ ?after"] by auto
  then have src: "source_line d = before @ ?x @ ?after" unfolding source_line_def raw Let_def by argo
  have "caret_column d = Suc (length before)" using p(6) by (simp add: caret_column_def)
  then have "build_caret d = before @ ?x @ ?after @ [CHR 0x0A] @ blanked before @ ''^''"
    using assms(3) by (simp add: build_caret_def src)
  then have "map_option err_message (dr_error (set_error message d)) =
      Some (''['' @ to_string (Suc (line_ends (CHR 0x0A) lines)) @ '', '' @
        to_string (Suc (length before + length ?x)) @ ''] '' @ message @ '' at '' @ ?x @ [CHR 0x0A] @
        before @ ?x @ ?after @ [CHR 0x0A] @ blanked before @ ''^'')"
    using assms(3) p(5,6) by (simp add: set_error_def Let_def)
  then show ?thesis using p(2,3,4) by blast
qed

theorem error_points_at_lexeme_witness:
  "\<exists>d. dr_lexeme d = ''frm'' \<and>
     map_option err_message (dr_error (set_error ''syntax error'' d)) =
       Some (''[1, 13] syntax error at frm'' @ [CHR 0x0A] @ ''select * frm t'' @ [CHR 0x0A] @ ''         ^'')"
proof -
  define d where "d = snd (ddbsh_lex (snd (ddbsh_lex (snd (ddbsh_lex (new_driver ''select * frm t''))))))"
  have reach: "driver_reach ''select * frm t'' d" unfolding d_def by (intro driver_reach.intros)
  have d: "dr_lexeme d = ''frm''" "dr_rest d = '' t''" unfolding d_def by code_simp+
  have cr: "CHR 0x0D \<notin> set ''select * frm t''" and x: "dr_lexeme d \<noteq> []" "CHR 0x0A \<notin> set (dr_lexeme d)"
    by (simp_all add: d)
  from error_points_at_lexeme [OF reach cr x, of "''syntax error''"]
  obtain lines before after where e: "''select * frm t'' = lines @ before @ dr_lexeme d @ dr_rest d"
    "lines = [] \<or> last lines = CHR 0x0A" "after = takeWhile (\<lambda>c. c \<noteq> CHR 0x0A) (dr_rest d)"
    "map_option err_message (dr_error (set_error ''syntax error'' d)) =
      Some (''['' @ to_string (Suc (line_ends (CHR 0x0A) lines)) @ '', '' @
        to_string (Suc (length before + length (dr_lexeme d))) @ ''] '' @ ''syntax error'' @ '' at '' @ dr_lexeme d @ [CHR 0x0A] @
        before @ dr_lexeme d @ after @ [CHR 0x0A] @ blanked before @ ''^'')" by blast
  have lb: "lines @ before = ''select * ''" using e(1) append_same_eq [of "lines @ before" "''frm t''" "''select * ''"] by (simp add: d)
  have "CHR 0x0A \<notin> set (lines @ before)" unfolding lb by simp
  then have "lines = []" using e(2) last_in_set by fastforce
  then have "before = ''select * ''" "lines = []" using lb by simp_all
  then show ?thesis using d(1) e(3,4) by (intro exI [of _ d]) (simp add: d(2) line_ends_def blanked_def to_string.simps digit_def)
qed


text \<open>In general both kinds of line ends count, so a text whose lines end in both has its lines counted
  twice, while the line shown is looked up by line feeds only: an error on the second line is reported on
  the third, with the text of the third line above the caret.\<close>

lemma lines_counted:
  assumes "driver_reach input d"
  shows "\<exists>p. input = p @ dr_rest d \<and> dr_line d = 1 + line_ends (CHR 0x0A) p + line_ends (CHR 0x0D) p"
proof -
  from reach_ok [OF assms] obtain p where p: "input = p @ dr_lexeme d @ dr_rest d"
    "fold advance (p @ dr_lexeme d) (1, 1) = (dr_line d, dr_column d)" by (auto simp: driver_ok_def)
  then have "input = (p @ dr_lexeme d) @ dr_rest d \<and>
      dr_line d = 1 + line_ends (CHR 0x0A) (p @ dr_lexeme d) + line_ends (CHR 0x0D) (p @ dr_lexeme d)"
    using fold_advance_line [of "p @ dr_lexeme d" 1 1] by simp
  then show ?thesis by blast
qed

lemma crlf_shows_wrong_line:
  "let d = snd (ddbsh_lex (snd (ddbsh_lex (new_driver (''a'' @ [CHR 0x0D, CHR 0x0A] @ ''b'' @ [CHR 0x0D, CHR 0x0A] @ ''c'')))))
   in dr_lexeme d = ''b'' \<and> dr_line d = 3 \<and> build_caret d = ''c'' @ [CHR 0x0A] @ ''^''"
  by code_simp

section \<open>A batch is parsed to its end\<close>

text \<open>What is known of a generated parser: it reads at least one token where there is one, and the end of
  the input alone is no statement.\<close>

definition reads_statements :: "bison \<Rightarrow> bool" where
  "reads_statements bison \<longleftrightarrow>
     (\<forall>d. dr_rest d \<noteq> [] \<longrightarrow> length (dr_rest (snd (bison d))) < length (dr_rest d)) \<and>
     (\<forall>d. dr_rest d = [] \<longrightarrow>
        (let (rc, d') = bison d
         in rc \<noteq> 0 \<or> dr_error d' \<noteq> None \<or>
            dr_saw_eof d' \<and> (\<forall>st. dr_result d' = Some st \<longrightarrow> kind_of (ps_command st) = Kind_empty)))"

lemma parse_next_rest: "dr_rest (snd (parse_next bison d)) = dr_rest (snd (bison (d\<lparr>dr_result := None, dr_error := None\<rparr>)))"
  by (simp add: parse_next_def split: prod.split option.split)

lemma driver_reads_on:
  assumes "reads_statements bison"
  shows "\<exists>sts err. driver_reads (driver_step_of bison) d sts err"
proof (induction "length (dr_rest d)" arbitrary: d rule: less_induct)
  case less
  obtain k d' where p: "parse_next bison d = (k, d')" by fastforce
  show ?case
  proof (cases k)
    case Statement_read
    define d0 where "d0 = d\<lparr>dr_result := None, dr_error := None\<rparr>"
    have d0: "dr_rest d0 = dr_rest d" by (simp add: d0_def)
    have "dr_rest d0 \<noteq> []"
      using assms p Statement_read unfolding reads_statements_def parse_next_def d0_def [symmetric]
      by (fastforce simp: Let_def split: prod.splits option.splits if_splits)
    then have "length (dr_rest (snd (bison d0))) < length (dr_rest d0)" using assms by (simp add: reads_statements_def)
    then have "length (dr_rest d') < length (dr_rest d)" using parse_next_rest [of bison d] p d0 by (simp add: d0_def)
    then obtain sts err where "driver_reads (driver_step_of bison) d' sts err" using less by blast
    moreover have "driver_step_of bison d = Step_statement (the (dr_result d')) d'"
      using p Statement_read by (simp add: driver_step_of_def)
    ultimately show ?thesis by (blast intro: driver_reads.intros)
  next
    case Empty_at_eof
    then have "driver_step_of bison d = Step_empty_at_eof" using p by (simp add: driver_step_of_def)
    then show ?thesis by (blast intro: driver_reads.intros)
  next
    case Parse_failed
    then have "driver_step_of bison d = Step_error (dr_error d')" using p by (simp add: driver_step_of_def)
    then show ?thesis by (cases "dr_error d'") (auto intro: driver_reads.intros)
  qed
qed

text \<open>C22: Parsing a batch always returns, if the generated parser reads at least one token per statement and
  takes no statement from the end of the input: with the statements the driver read before its first
  error, and that error, or all of them and none.\<close>

theorem batch_is_parsed:
  assumes "reads_statements bison"
  shows "\<exists>b. session_parse_batch bison text = Some b \<and>
    driver_reads (driver_step_of bison) (new_driver text) (pb_statements b) (pb_error b)"
proof -
  from driver_reads_on [OF assms] obtain sts err where
    r: "driver_reads (driver_step_of bison) (new_driver text) sts err" by blast
  from parse_batch_reads [OF r, of "[]"] r show ?thesis by (auto simp: session_parse_batch_def)
qed


text \<open>A parser of statements without content: it reads one token.\<close>

definition one_token_parser :: bison where
  "one_token_parser d = (0, set_empty_result (snd (ddbsh_lex d)))"

lemma one_token_reads: "reads_statements one_token_parser"
proof -
  have "length (dr_rest (snd (ddbsh_lex d))) < length (dr_rest d)" if "dr_rest d \<noteq> []" for d
    using that ddbsh_lex_shorter [of d] ddbsh_lex_tokens [of d] by (cases "ddbsh_lex d"; cases "fst (ddbsh_lex d)") auto
  then show ?thesis
    by (simp add: reads_statements_def one_token_parser_def set_empty_result_def empty_statement_def
        ddbsh_lex.simps mark_eof_def)
qed

theorem batch_is_parsed_witness:
  "\<exists>b. session_parse_batch one_token_parser '';;'' = Some b \<and>
    driver_reads (driver_step_of one_token_parser) (new_driver '';;'') (pb_statements b) (pb_error b)"
  by (rule batch_is_parsed [OF one_token_reads])

text \<open>Parsing one statement is taking the first of the batch; a text without one is the empty statement.\<close>

lemma run_needs_a_statement:
  assumes "session_parse bison s = Inl e"
  shows "session_run bison env client s sn = Some (Inl e, sn)" "session_run_sink bison env client s sn = Some (Inl e, sn)"
  using assms by (simp_all add: session_run_def session_run_sink_def)

lemma parse_takes_first:
  "(case driver_step_of bison (new_driver text) of
      Step_statement st d \<Rightarrow> session_parse bison text = Inr st
    | Step_error e \<Rightarrow> session_parse bison text = Inl (case e of Some e \<Rightarrow> e | None \<Rightarrow> default_parse_error)
    | Step_empty_at_eof \<Rightarrow> \<exists>st. session_parse bison text = Inr st \<and> kind_of (ps_command st) = Kind_empty)"
  by (auto simp: driver_step_of_def session_parse_def parse_def parse_next_def set_empty_result_def empty_statement_def
      Let_def split: prod.splits option.splits step_kind.splits if_splits)

end
