(* ===== verification/Grammar.thy ===== *)
theory Grammar
  imports Driver
begin

text \<open>
  The productions of the grammar for literals (\<^verbatim>\<open>src/parser/grammar.yy\<close>): a nonterminal is an inductive
  relation between the tokens it derives and its semantic value, a production one rule.  A parser by
  recursive descent decides them, which makes the value of a literal unique; with the scanner this gives
  the text of a bound value back as the value.
\<close>

section \<open>Productions\<close>

inductive g_string :: "token list \<Rightarrow> string \<Rightarrow> bool" where
  string_quoted: "g_string [Token ''T_DQUOTED_STRING'' s] (unquote s)"
| string_bare: "g_string [Token ''T_UNQUOTED_STRING'' s] s"

inductive lee_rhs :: "token list \<Rightarrow> value \<Rightarrow> bool"
  and lee_rhs_list :: "token list \<Rightarrow> value list \<Rightarrow> bool"
  and map_element_list :: "token list \<Rightarrow> (string \<times> value) list \<Rightarrow> bool" where
  rhs_whole: "lee_rhs [Token ''T_WHOLE_NUMBER'' s] (N s)"
| rhs_float: "lee_rhs [Token ''T_FLOATING_POINT_NUMBER'' s] (N s)"
| rhs_string: "lee_rhs [Token ''T_DQUOTED_STRING'' s] (S (unquote s))"
| rhs_list: "lee_rhs_list ts vs \<Longrightarrow> lee_rhs (Raw_char (CHR ''['') # ts @ [Raw_char (CHR '']'')]) (L vs)"
| rhs_true: "lee_rhs [Token ''K_TRUE'' []] (BOOL True)"
| rhs_false: "lee_rhs [Token ''K_FALSE'' []] (BOOL False)"
| rhs_map: "map_element_list ts kvs \<Longrightarrow> lee_rhs (Raw_char (CHR ''{'') # ts @ [Raw_char (CHR ''}'')]) (M kvs)"
| rhs_null: "lee_rhs [Token ''K_NULL'' []] NUL"
| rhs_empty_list: "lee_rhs [Raw_char (CHR ''[''), Raw_char (CHR '']'')] (L [])"
| rhs_empty_map: "lee_rhs [Raw_char (CHR ''{''), Raw_char (CHR ''}'')] (M [])"
| list_one: "lee_rhs ts v \<Longrightarrow> lee_rhs_list ts [v]"
| list_more: "lee_rhs_list ts vs \<Longrightarrow> lee_rhs us v \<Longrightarrow> lee_rhs_list (ts @ Raw_char (CHR '','') # us) (vs @ [v])"
| map_one: "g_string ss k \<Longrightarrow> lee_rhs ts v \<Longrightarrow> map_element_list (ss @ Raw_char (CHR '':'') # ts) [(k, v)]"
| map_more: "map_element_list us kvs \<Longrightarrow> g_string ss k \<Longrightarrow> lee_rhs ts v \<Longrightarrow>
    map_element_list (us @ Raw_char (CHR '','') # ss @ Raw_char (CHR '':'') # ts) (kvs @ [(k, v)])"

text \<open>A value to insert: the same without the empty collections on the outside.\<close>

inductive insert_value :: "token list \<Rightarrow> value \<Rightarrow> bool" where
  ins_whole: "insert_value [Token ''T_WHOLE_NUMBER'' s] (N s)"
| ins_float: "insert_value [Token ''T_FLOATING_POINT_NUMBER'' s] (N s)"
| ins_string: "insert_value [Token ''T_DQUOTED_STRING'' s] (S (unquote s))"
| ins_list: "lee_rhs_list ts vs \<Longrightarrow> insert_value (Raw_char (CHR ''['') # ts @ [Raw_char (CHR '']'')]) (L vs)"
| ins_true: "insert_value [Token ''K_TRUE'' []] (BOOL True)"
| ins_false: "insert_value [Token ''K_FALSE'' []] (BOOL False)"
| ins_null: "insert_value [Token ''K_NULL'' []] NUL"
| ins_map: "map_element_list ts kvs \<Longrightarrow> insert_value (Raw_char (CHR ''{'') # ts @ [Raw_char (CHR ''}'')]) (M kvs)"

section \<open>A literal has one value\<close>

lemma rhs_list_nonempty: "lee_rhs_list ts vs \<Longrightarrow> vs \<noteq> []"
  by (cases rule: lee_rhs_list.cases) auto

lemma map_list_nonempty: "map_element_list ts kvs \<Longrightarrow> kvs \<noteq> []"
  by (cases rule: map_element_list.cases) auto

lemma insert_value_iff: "insert_value ts v \<longleftrightarrow> lee_rhs ts v \<and> v \<noteq> L [] \<and> v \<noteq> M []"
proof
  assume "insert_value ts v"
  then show "lee_rhs ts v \<and> v \<noteq> L [] \<and> v \<noteq> M []"
    by (cases rule: insert_value.cases)
      (auto intro: lee_rhs_lee_rhs_list_map_element_list.intros dest: rhs_list_nonempty map_list_nonempty)
next
  assume "lee_rhs ts v \<and> v \<noteq> L [] \<and> v \<noteq> M []"
  then have "lee_rhs ts v" "v \<noteq> L []" "v \<noteq> M []" by simp_all
  then show "insert_value ts v" by (cases rule: lee_rhs.cases) (auto intro: insert_value.intros)
qed

text \<open>Both lists are elements between commas; read from the front they are as follows.\<close>

inductive separated :: "(token list \<Rightarrow> 'a \<Rightarrow> bool) \<Rightarrow> token list \<Rightarrow> 'a list \<Rightarrow> bool" for E where
  sep_one: "E ts v \<Longrightarrow> separated E ts [v]"
| sep_cons: "E ts v \<Longrightarrow> separated E us vs \<Longrightarrow> separated E (ts @ Raw_char (CHR '','') # us) (v # vs)"

definition map_element :: "token list \<Rightarrow> string \<times> value \<Rightarrow> bool" where
  "map_element ts kv \<longleftrightarrow> (\<exists>ss us. ts = ss @ Raw_char (CHR '':'') # us \<and> g_string ss (fst kv) \<and> lee_rhs us (snd kv))"

lemma map_elementI: "g_string ss k \<Longrightarrow> lee_rhs us v \<Longrightarrow> map_element (ss @ Raw_char (CHR '':'') # us) (k, v)"
  unfolding map_element_def by auto

lemma separated_snoc:
  "separated E ts vs \<Longrightarrow> E us v \<Longrightarrow> separated E (ts @ Raw_char (CHR '','') # us) (vs @ [v])"
  by (induction rule: separated.induct) (auto intro: separated.intros)

lemma rhs_list_separated: "lee_rhs_list ts vs \<longleftrightarrow> separated lee_rhs ts vs"
proof
  show "lee_rhs_list ts vs \<Longrightarrow> separated lee_rhs ts vs"
    by (induction ts vs rule: lee_rhs_lee_rhs_list_map_element_list.inducts(2)
        [where ?P1.0 = "\<lambda>_ _. True" and ?P3.0 = "\<lambda>_ _. True"]) (auto intro: sep_one separated_snoc)
next
  have cons: "lee_rhs t v \<Longrightarrow> lee_rhs_list (t @ Raw_char (CHR '','') # us) (v # vs)" if "lee_rhs_list us vs" for t v us vs
    using that
  proof (induction us vs rule: lee_rhs_lee_rhs_list_map_element_list.inducts(2)
      [where ?P1.0 = "\<lambda>_ _. True" and ?P3.0 = "\<lambda>_ _. True"])
    case (list_one ts w)
    then show ?case using list_more [of t "[v]" ts w] by (simp add: lee_rhs_lee_rhs_list_map_element_list.list_one)
  next
    case (list_more ts ws us w)
    then show ?case using lee_rhs_lee_rhs_list_map_element_list.list_more [of "t @ Raw_char (CHR '','') # ts" "v # ws" us w]
      by simp
  qed auto
  show "separated lee_rhs ts vs \<Longrightarrow> lee_rhs_list ts vs"
    by (induction rule: separated.induct) (auto intro: list_one cons)
qed

lemma map_list_separated: "map_element_list ts kvs \<longleftrightarrow> separated map_element ts kvs"
proof
  show "map_element_list ts kvs \<Longrightarrow> separated map_element ts kvs"
    by (induction ts kvs rule: lee_rhs_lee_rhs_list_map_element_list.inducts(3)
        [where ?P1.0 = "\<lambda>_ _. True" and ?P2.0 = "\<lambda>_ _. True"])
      (auto intro!: sep_one separated_snoc map_elementI)
next
  have one: "map_element ts kv \<Longrightarrow> map_element_list ts [kv]" for ts kv
    by (cases kv) (auto simp: map_element_def intro: map_one)
  have cons: "map_element t kv \<Longrightarrow> map_element_list (t @ Raw_char (CHR '','') # us) (kv # kvs)"
    if "map_element_list us kvs" for t kv us kvs
    using that
  proof (induction us kvs rule: lee_rhs_lee_rhs_list_map_element_list.inducts(3)
      [where ?P1.0 = "\<lambda>_ _. True" and ?P2.0 = "\<lambda>_ _. True"])
    case (map_one ss k ts v)
    then show ?case using map_more [OF one, of t kv ss k ts v] by simp
  next
    case (map_more us kvs ss k ts v)
    then show ?case
      using lee_rhs_lee_rhs_list_map_element_list.map_more [of "t @ Raw_char (CHR '','') # us" "kv # kvs" ss k ts v] by simp
  qed auto
  show "separated map_element ts kvs \<Longrightarrow> map_element_list ts kvs"
    by (induction rule: separated.induct) (auto intro: one cons)
qed

text \<open>Elements that are never a part of each other make lists with the same property, up to a token that
  closes the list.\<close>

definition prefix_free :: "(token list \<Rightarrow> 'a \<Rightarrow> bool) \<Rightarrow> nat \<Rightarrow> bool" where
  "prefix_free E n \<longleftrightarrow>
     (\<forall>t v t' v' r r'. length t \<le> n \<longrightarrow> E t v \<longrightarrow> E t' v' \<longrightarrow> t @ r = t' @ r' \<longrightarrow> t = t' \<and> v = v')"

lemma prefix_freeD:
  "prefix_free E n \<Longrightarrow> length t \<le> n \<Longrightarrow> E t v \<Longrightarrow> E t' v' \<Longrightarrow> t @ r = t' @ r' \<Longrightarrow> t = t' \<and> v = v' \<and> r = r'"
  unfolding prefix_free_def by (metis same_append_eq)

lemma separated_unique:
  assumes E: "prefix_free E n" and close: "close \<noteq> Raw_char (CHR '','')"
  shows "separated E ts vs \<Longrightarrow> length ts \<le> n \<Longrightarrow> separated E ts' vs' \<Longrightarrow>
    ts @ close # r = ts' @ close # r' \<Longrightarrow> ts = ts' \<and> vs = vs'"
proof (induction arbitrary: ts' vs' rule: separated.induct)
  case (sep_one ts v)
  from sep_one.prems(2) show ?case
  proof (cases rule: separated.cases)
    case (sep_one v')
    then show ?thesis using prefix_freeD [OF E] \<open>E ts v\<close> local.sep_one(1) sep_one.prems by metis
  next
    case (sep_cons t v' us ws)
    then have "ts @ close # r = t @ Raw_char (CHR '','') # us @ close # r'" using sep_one.prems by simp
    then show ?thesis using prefix_freeD [OF E] \<open>E ts v\<close> sep_cons close sep_one.prems(1) by (metis list.inject)
  qed
next
  case (sep_cons ts v us vs)
  have len: "length ts \<le> n" "length us \<le> n" using sep_cons.prems(1) by simp_all
  from sep_cons.prems(2) show ?case
  proof (cases rule: separated.cases)
    case (sep_one v')
    have "ts @ Raw_char (CHR '','') # us @ close # r = ts' @ close # r'" using sep_cons.prems by simp
    then show ?thesis using prefix_freeD [OF E len(1) \<open>E ts v\<close>] sep_one close by (metis list.inject)
  next
    case (sep_cons t v' us' ws)
    have "ts @ Raw_char (CHR '','') # us @ close # r = t @ Raw_char (CHR '','') # us' @ close # r'"
      using sep_cons(1) \<open>(ts @ Raw_char (CHR '','') # us) @ close # r = ts' @ close # r'\<close> by simp
    then have "ts = t" "v = v'" "us @ close # r = us' @ close # r'"
      using prefix_freeD [OF E len(1) \<open>E ts v\<close> sep_cons(3)] by auto
    then show ?thesis using sep_cons \<open>length us \<le> n\<close> sep_cons.IH by simp
  qed
qed


lemma closed_unique:
  assumes "prefix_free E n" and "close \<noteq> Raw_char (CHR '','')"
    and heads: "\<And>ts vs. separated E ts vs \<Longrightarrow> \<exists>t us. ts = t # us \<and> t \<noteq> close"
    and "ts = [] \<and> vs = [] \<or> separated E ts vs" and "length ts \<le> n" and "ts' = [] \<and> vs' = [] \<or> separated E ts' vs'"
    and "ts @ close # r = ts' @ close # r'"
  shows "ts = ts' \<and> vs = vs'"
  using assms(4,6)
proof (elim disjE)
  assume "separated E ts vs" "separated E ts' vs'"
  then show ?thesis using separated_unique [OF assms(1,2)] assms(5,7) by blast
qed (use heads assms(7) in fastforce)+

inductive_simps rhs_token: "lee_rhs (Token k s # us) v"
inductive_simps rhs_raw: "lee_rhs (Raw_char c # us) v"

lemma rhs_head: "lee_rhs ts v \<Longrightarrow> \<exists>t us. ts = t # us \<and> t \<noteq> Raw_char (CHR '']'') \<and> t \<noteq> Raw_char (CHR ''}'')"
  by (cases rule: lee_rhs.cases) auto

lemma g_string_head: "g_string ss k \<Longrightarrow> \<exists>n s. ss = [Token n s]"
  by (auto elim: g_string.cases)

lemma g_string_unique: "g_string ss k \<Longrightarrow> g_string ss' k' \<Longrightarrow> ss @ r = ss' @ r' \<Longrightarrow> ss = ss' \<and> k = k' \<and> r = r'"
  by (auto elim!: g_string.cases)

lemma rhs_list_head: "lee_rhs_list ts vs \<Longrightarrow> \<exists>t us. ts = t # us \<and> t \<noteq> Raw_char (CHR '']'')"
  unfolding rhs_list_separated by (induction rule: separated.induct) (use rhs_head in fastforce)+

lemma map_list_head: "map_element_list ts kvs \<Longrightarrow> \<exists>t us. ts = t # us \<and> t \<noteq> Raw_char (CHR ''}'')"
  unfolding map_list_separated
  by (induction rule: separated.induct) (auto simp: map_element_def dest!: g_string_head)

lemma rhs_bracket:
  "lee_rhs (Raw_char (CHR ''['') # us) v \<Longrightarrow>
   \<exists>ts vs. us = ts @ [Raw_char (CHR '']'')] \<and> v = L vs \<and> (ts = [] \<and> vs = [] \<or> lee_rhs_list ts vs)"
  by (auto simp: rhs_raw)

lemma rhs_brace:
  "lee_rhs (Raw_char (CHR ''{'') # us) v \<Longrightarrow>
   \<exists>ts kvs. us = ts @ [Raw_char (CHR ''}'')] \<and> v = M kvs \<and> (ts = [] \<and> kvs = [] \<or> map_element_list ts kvs)"
  by (auto simp: rhs_raw)

lemma map_element_prefix_free:
  assumes "prefix_free lee_rhs n"
  shows "prefix_free map_element n"
  unfolding prefix_free_def
proof (intro allI impI)
  fix t :: "token list" and kv t' kv' r r'
  assume len: "length t \<le> n" and "map_element t kv" "map_element t' kv'" and eq: "t @ r = t' @ r'"
  then obtain ss us ss' us' where u: "t = ss @ Raw_char (CHR '':'') # us" "g_string ss (fst kv)" "lee_rhs us (snd kv)"
    and u': "t' = ss' @ Raw_char (CHR '':'') # us'" "g_string ss' (fst kv')" "lee_rhs us' (snd kv')"
    unfolding map_element_def by blast
  have "ss @ Raw_char (CHR '':'') # us @ r = ss' @ Raw_char (CHR '':'') # us' @ r'" using eq u(1) u'(1) by simp
  from g_string_unique [OF u(2) u'(2) this] have "ss = ss' \<and> fst kv = fst kv' \<and> us @ r = us' @ r'" by simp
  moreover have "length us \<le> n" using len u(1) by simp
  ultimately show "t = t' \<and> kv = kv'" using prefix_freeD [OF assms _ u(3) u'(3)] u u' by (auto simp: prod_eq_iff)
qed

lemma rhs_prefix_free: "prefix_free lee_rhs n"
proof (induction n)
  case 0
  then show ?case unfolding prefix_free_def using rhs_head by fastforce
next
  case (Suc n)
  have lists: "ts = [] \<and> vs = [] \<or> lee_rhs_list ts vs \<Longrightarrow> length ts \<le> n \<Longrightarrow> ts' = [] \<and> vs' = [] \<or> lee_rhs_list ts' vs' \<Longrightarrow>
      ts @ Raw_char (CHR '']'') # r = ts' @ Raw_char (CHR '']'') # r' \<Longrightarrow> ts = ts' \<and> vs = vs'" for ts vs ts' vs' r r'
    unfolding rhs_list_separated by (rule closed_unique [OF Suc _ rhs_list_head [unfolded rhs_list_separated]]) simp_all
  have maps: "ts = [] \<and> vs = [] \<or> map_element_list ts vs \<Longrightarrow> length ts \<le> n \<Longrightarrow> ts' = [] \<and> vs' = [] \<or> map_element_list ts' vs' \<Longrightarrow>
      ts @ Raw_char (CHR ''}'') # r = ts' @ Raw_char (CHR ''}'') # r' \<Longrightarrow> ts = ts' \<and> vs = vs'" for ts vs ts' vs' r r'
    unfolding map_list_separated
    by (rule closed_unique [OF map_element_prefix_free [OF Suc] _ map_list_head [unfolded map_list_separated]]) simp_all
  show ?case unfolding prefix_free_def
  proof (intro allI impI)
    fix t v t' v' r r'
    assume len: "length t \<le> Suc n" and t: "lee_rhs t v" and t': "lee_rhs t' v'" and eq: "t @ r = t' @ r'"
    obtain h us where u: "t = h # us" using rhs_head [OF t] by blast
    then obtain us' where u': "t' = h # us'" "us @ r = us' @ r'" using rhs_head [OF t'] eq by auto
    show "t = t' \<and> v = v'"
    proof (cases h)
      case (Token k s)
      then show ?thesis using t t' u u' by (auto simp: rhs_token)
    next
      case (Raw_char c)
      have "c = CHR ''['' \<or> c = CHR ''{''" using t u Raw_char by (auto simp: rhs_raw)
      then show ?thesis
      proof
        assume c: "c = CHR ''[''"
        obtain ts vs where ts: "us = ts @ [Raw_char (CHR '']'')]" "v = L vs" "ts = [] \<and> vs = [] \<or> lee_rhs_list ts vs"
          using t rhs_bracket unfolding u Raw_char c by blast
        obtain ts' vs' where ts': "us' = ts' @ [Raw_char (CHR '']'')]" "v' = L vs'" "ts' = [] \<and> vs' = [] \<or> lee_rhs_list ts' vs'"
          using t' rhs_bracket unfolding u' Raw_char c by blast
        have "length ts \<le> n" using len u ts(1) by simp
        then show ?thesis using lists [OF ts(3) _ ts'(3), of r r'] u u' ts(1,2) ts'(1,2) by simp
      next
        assume c: "c = CHR ''{''"
        obtain ts vs where ts: "us = ts @ [Raw_char (CHR ''}'')]" "v = M vs" "ts = [] \<and> vs = [] \<or> map_element_list ts vs"
          using t rhs_brace unfolding u Raw_char c by blast
        obtain ts' vs' where ts': "us' = ts' @ [Raw_char (CHR ''}'')]" "v' = M vs'" "ts' = [] \<and> vs' = [] \<or> map_element_list ts' vs'"
          using t' rhs_brace unfolding u' Raw_char c by blast
        have "length ts \<le> n" using len u ts(1) by simp
        then show ?thesis using maps [OF ts(3) _ ts'(3), of r r'] u u' ts(1,2) ts'(1,2) by simp
      qed
    qed
  qed
qed

lemma literal_value_unique: "lee_rhs ts v \<Longrightarrow> lee_rhs ts w \<Longrightarrow> v = w"
  using prefix_freeD [OF rhs_prefix_free, of ts "length ts" v ts w "[]" "[]"] by simp


section \<open>Lexemes before a delimiter\<close>

definition token_list :: "string \<Rightarrow> token list" where
  "token_list s = map fst (tokens_in s)"

lemma token_list_Nil [simp]: "token_list [] = []"
  by (simp add: token_list_def)

lemma token_list_choice:
  assumes "flex_choice lex_rules (l @ rest) (length l) act"
  shows "token_list (l @ rest) = (case token_of act l of None \<Rightarrow> [] | Some t \<Rightarrow> [t]) @ token_list rest"
  using scan_choice [OF assms]
  by (simp add: token_list_def tokens_in_def List.map_filter_def split: option.split)

text \<open>The characters a rule can use.\<close>

fun uses_only :: "(char \<Rightarrow> bool) \<Rightarrow> rexp \<Rightarrow> bool" where
  "uses_only P R_zero = True"
| "uses_only P R_eps = True"
| "uses_only P (R_char Q) = (\<forall>c. Q c \<longrightarrow> P c)"
| "uses_only P (R_alt r q) = (uses_only P r \<and> uses_only P q)"
| "uses_only P (R_seq r q) = (uses_only P r \<and> uses_only P q)"
| "uses_only P (R_star r) = uses_only P r"

lemma uses_only_matches: "matches r s \<Longrightarrow> uses_only P r \<Longrightarrow> list_all P s"
  by (induction rule: matches.induct) auto

lemma stops_before:
  assumes "matches r (take m (l @ rest))" and "m \<le> length (l @ rest)" and "uses_only P r" and "\<forall>c cs. rest = c # cs \<longrightarrow> \<not> P c"
  shows "m \<le> length l"
proof (rule ccontr)
  assume "\<not> m \<le> length l"
  then obtain k where k: "m = length l + Suc k" using less_imp_Suc_add [of "length l" m] by auto
  then obtain c cs where "rest = c # cs" using assms(2) by (cases rest) auto
  then show False using uses_only_matches [OF assms(1,3)] k assms(4) by simp
qed

fun starts :: "char \<Rightarrow> rexp \<Rightarrow> bool" where
  "starts c R_zero = False"
| "starts c R_eps = False"
| "starts c (R_char P) = P c"
| "starts c (R_alt r q) = (starts c r \<or> starts c q)"
| "starts c (R_seq r q) = (starts c r \<or> nullable r \<and> starts c q)"
| "starts c (R_star r) = starts c r"

lemma starts_matches: "matches r s \<Longrightarrow> s = c # t \<Longrightarrow> starts c r"
proof (induction arbitrary: t rule: matches.induct)
  case (m_seq r s q u)
  then show ?case by (cases s) (auto simp: nullable_iff)
next
  case (m_star_step r s u)
  then show ?case by (cases s) auto
qed auto

lemma choice_from:
  assumes i: "i < length lex_rules" "lex_rules ! i = (r, act)" "matches r (c # cs)"
    and from_c: "\<forall>p \<in> set (zip [0..<18] lex_rules). fst p \<in> J \<or> \<not> starts c (fst (snd p))"
    and later: "\<forall>j \<in> J. i \<le> j \<or> \<not> matches (fst (lex_rules ! j)) (c # cs)"
    and short: "\<forall>j \<in> J. \<forall>m. matches (fst (lex_rules ! j)) (take m ((c # cs) @ rest)) \<longrightarrow> m \<le> length ((c # cs) @ rest) \<longrightarrow> m \<le> length (c # cs)"
  shows "flex_choice lex_rules ((c # cs) @ rest) (length (c # cs)) act"
proof -
  let ?s = "(c # cs) @ rest"
  have len: "length lex_rules = 18" by (simp add: lex_rules_def)
  have "m \<le> length (c # cs) \<and> (m = length (c # cs) \<longrightarrow> i \<le> j)"
    if j: "j < length lex_rules" and m: "m \<le> length ?s" "matches (fst (lex_rules ! j)) (take m ?s)" for j m
  proof -
    have "\<not> matches (fst (lex_rules ! j)) []"
      using rules_not_nullable nth_mem [OF j] unfolding nullable_iff by blast
    then obtain k where "m = Suc k" using m(2) by (cases m) auto
    then have "starts c (fst (lex_rules ! j))" using m(2) starts_matches by fastforce
    moreover have "(j, lex_rules ! j) \<in> set (zip [0..<18] lex_rules)" using j len by (force simp: set_zip)
    ultimately have "j \<in> J" using from_c by fastforce
    then have "m \<le> length (c # cs)" using short m by blast
    moreover have "i \<le> j" if "m = length (c # cs)"
    proof -
      have "take m ?s = c # cs" using that by simp
      then show ?thesis using later \<open>j \<in> J\<close> m(2) by metis
    qed
    ultimately show ?thesis by blast
  qed
  moreover have "matches (fst (lex_rules ! i)) (take (length (c # cs)) ?s)" using i by simp
  moreover have "length (c # cs) \<le> length ?s" by simp
  ultimately show ?thesis unfolding flex_choice_def using i(1,2) by (metis snd_conv)
qed

lemmas rule_defs = lex_rules_def R_text_def R_one_def blank_rule_def R_plus_def timestamp_rule_def R_digit_def
  dquoted_rule_def dquote_def float_rule_def minus_sign_def R_opt_def exponent_def word_rule_def
lemmas start_defs = rule_defs R_any_def Prepared.is_digit_def is_name_char_def in_range_def less_eq_char_def upt_rec

lemma any_rule: "lex_rules ! 17 = (R_any, Make_raw)" "17 < length lex_rules"
  by (simp_all add: lex_rules_def)

lemma any_takes_one: "matches R_any (take m s) \<Longrightarrow> m \<le> length s \<Longrightarrow> m = 1"
proof -
  assume "matches R_any (take m s)" and m: "m \<le> length s"
  then obtain c where "take m s = [c]" by (auto simp: R_any_def)
  then have "length (take m s) = 1" using arg_cong [of _ _ length] by fastforce
  then show "m = 1" using m unfolding length_take by (simp only: min_absorb2)
qed

text \<open>The delimiters of a literal are tokens of their own; a blank is none.\<close>

lemma delimiter_token:
  assumes "c \<in> set ''[](){},:''"
  shows "token_list (c # rest) = Raw_char c # token_list rest"
proof -
  have "\<forall>c \<in> set ''[](){},:''. \<forall>p \<in> set (zip [0..<18] lex_rules). fst p \<in> {17} \<or> \<not> starts c (fst (snd p))"
    by (simp add: start_defs)
  then have from_c: "\<forall>p \<in> set (zip [0..<18] lex_rules). fst p \<in> {17} \<or> \<not> starts c (fst (snd p))" using assms by blast
  have "matches R_any [c]" using assms by (auto simp: R_any_def)
  then have "flex_choice lex_rules ([c] @ rest) (length [c]) Make_raw"
    using choice_from [OF any_rule(2,1) _ from_c, of "[]" rest] any_takes_one [of _ "c # rest"] by (auto simp: any_rule)
  from token_list_choice [OF this] show ?thesis by simp
qed

definition blank :: "char \<Rightarrow> bool" where
  "blank c \<longleftrightarrow> c \<in> {CHR '' '', CHR 0x09, CHR 0x0D, CHR 0x0A}"

lemma blank_skipped:
  assumes "\<forall>c cs. rest = c # cs \<longrightarrow> \<not> blank c"
  shows "token_list (CHR '' '' # rest) = token_list rest"
proof -
  let ?s = "[CHR '' ''] @ rest"
  have from_c: "\<forall>p \<in> set (zip [0..<18] lex_rules). fst p \<in> {2, 17} \<or> \<not> starts (CHR '' '') (fst (snd p))"
    by (simp add: start_defs)
  have rule: "2 < length lex_rules" "lex_rules ! 2 = (blank_rule, Discard)" by (simp_all add: lex_rules_def)
  have "uses_only blank blank_rule" by (simp add: blank_rule_def R_plus_def blank_def)
  then have "m \<le> length [CHR '' '']" if "matches blank_rule (take m ?s)" "m \<le> length ?s" for m
    using stops_before [OF that, of blank] assms by blast
  moreover have "matches blank_rule ([CHR '' ''] @ [])" unfolding blank_rule_def R_plus_def
    by (rule m_seq) (auto intro: m_star_stop)
  ultimately have "flex_choice lex_rules ?s (length [CHR '' '']) Discard"
    using choice_from [OF rule _ from_c, of "[]" rest] any_takes_one [of _ ?s] by (auto simp: any_rule rule)
  from token_list_choice [OF this] show ?thesis by simp
qed


text \<open>Words and numbers end where no character of theirs follows.\<close>

definition wordish :: "char \<Rightarrow> bool" where
  "wordish c \<longleftrightarrow> is_name_char c \<or> c \<in> {CHR ''-'', CHR ''.'', CHR ''+''}"

definition delimited :: "string \<Rightarrow> bool" where
  "delimited rest \<longleftrightarrow> (\<forall>c cs. rest = c # cs \<longrightarrow> \<not> wordish c \<and> c \<noteq> CHR 0x22)"

lemma delimitedI: "c \<in> set '',]}'' \<Longrightarrow> delimited (c # rest)"
  by (auto simp: delimited_def wordish_def is_name_char_def Prepared.is_digit_def in_range_def less_eq_char_def)

lemma delimited_Nil [simp]: "delimited []"
  by (simp add: delimited_def)

lemma wordish_rules:
  "lex_rules ! 5 = (R_seqs [minus_sign, R_char (\<lambda>c. Prepared.is_digit c \<and> c \<noteq> CHR ''0''), R_star R_digit], Make_whole)"
  "lex_rules ! 6 = (R_one (CHR ''0''), Make_whole)" "lex_rules ! 7 = (float_rule, Make_float)"
  "lex_rules ! 8 = (word_rule, Make_word)" "length lex_rules = 18"
  by (simp_all add: lex_rules_def)

lemma digit_wordish: "Prepared.is_digit c \<Longrightarrow> wordish c"
  by (simp add: wordish_def is_name_char_def)

lemma wordish_uses: "j \<in> {5, 6, 7, 8} \<Longrightarrow> uses_only wordish (fst (lex_rules ! j))"
proof -
  have "wordish (CHR ''E'')" "wordish (CHR ''-'')" "wordish (CHR ''.'')" "wordish (CHR ''+'')" "wordish (CHR ''0'')"
    by (simp_all add: wordish_def is_name_char_def in_range_def less_eq_char_def Prepared.is_digit_def)
  then show "j \<in> {5, 6, 7, 8} \<Longrightarrow> uses_only wordish (fst (lex_rules ! j))"
    by (auto simp: wordish_rules float_rule_def exponent_def word_rule_def minus_sign_def R_opt_def R_plus_def R_one_def
        R_digit_def digit_wordish) (auto simp: wordish_def)
qed

lemma wordish_short:
  assumes "delimited rest" and "j \<in> {5, 6, 7, 8, 17}" and "l \<noteq> []"
    and "matches (fst (lex_rules ! j)) (take m (l @ rest))" and "m \<le> length (l @ rest)"
  shows "m \<le> length l"
proof (cases "j = 17")
  case True
  then show ?thesis using any_takes_one [of m "l @ rest"] assms any_rule by (cases l) auto
next
  case False
  then have "uses_only wordish (fst (lex_rules ! j))" using assms(2) wordish_uses by blast
  then show ?thesis using stops_before [OF assms(4,5)] assms(1) unfolding delimited_def by blast
qed

lemma star_chars: "list_all P s \<Longrightarrow> matches (R_star (R_char P)) s"
proof (induction s)
  case (Cons c s)
  then show ?case using m_star_step [OF m_char [of P c]] by simp
qed (simp add: m_star_stop)

lemma word_matches: "is_name_char c \<Longrightarrow> list_all is_name_char cs \<Longrightarrow> matches word_rule (c # cs)"
  unfolding word_rule_def
  using m_seq [OF m_char [of is_name_char c] star_chars [of "\<lambda>c. is_name_char c \<or> c = CHR ''-''" cs]] by (simp add: list_all_iff)

lemma literal_word_token:
  assumes w: "w \<in> {''true'', ''false'', ''null''}" and rest: "delimited rest"
  shows "token_list (w @ rest) = the (token_of Make_word w) # token_list rest"
proof -
  obtain c cs where cs: "w = c # cs" "c \<in> set ''tfn''" using w by auto
  have "\<forall>c \<in> set ''tfn''. \<forall>p \<in> set (zip [0..<18] lex_rules). fst p \<in> {8, 17} \<or> \<not> starts c (fst (snd p))"
    by (simp add: start_defs)
  then have from_c: "\<forall>p \<in> set (zip [0..<18] lex_rules). fst p \<in> {8, 17} \<or> \<not> starts c (fst (snd p))" using cs(2) by blast
  have "list_all is_name_char w" using w by (auto simp: is_name_char_def in_range_def less_eq_char_def)
  then have m: "matches word_rule (c # cs)" using cs(1) word_matches by simp
  have "flex_choice lex_rules ((c # cs) @ rest) (length (c # cs)) Make_word"
  proof (rule choice_from [OF _ wordish_rules(4) m from_c])
    show "\<forall>j \<in> {8, 17}. \<forall>m. matches (fst (lex_rules ! j)) (take m ((c # cs) @ rest)) \<longrightarrow>
        m \<le> length ((c # cs) @ rest) \<longrightarrow> m \<le> length (c # cs)"
      using wordish_short [OF rest _ list.distinct(2) [of c cs]] by blast
  qed (simp_all add: wordish_rules(5))
  from token_list_choice [OF this] show ?thesis using cs(1) by simp
qed


text \<open>The numbers of the scanner.\<close>

definition whole_text :: "string \<Rightarrow> bool" where
  "whole_text s \<longleftrightarrow> matches (fst (lex_rules ! 5)) s \<or> matches (fst (lex_rules ! 6)) s"

definition number_text :: "string \<Rightarrow> bool" where
  "number_text s \<longleftrightarrow> whole_text s \<or> matches float_rule s"

definition number_token :: "string \<Rightarrow> token" where
  "number_token s = Token (if whole_text s then ''T_WHOLE_NUMBER'' else ''T_FLOATING_POINT_NUMBER'') s"

lemma number_wordish: "number_text s \<Longrightarrow> list_all wordish s"
  using uses_only_matches wordish_uses [of 5] wordish_uses [of 6] wordish_uses [of 7]
  unfolding number_text_def whole_text_def wordish_rules by auto

lemma number_start:
  assumes "number_text s"
  shows "\<exists>c cs. s = c # cs \<and> (Prepared.is_digit c \<or> c = CHR ''.'' \<or> c = CHR ''-'' \<and> take 1 cs \<noteq> [CHR ''-''])"
proof -
  obtain j where j: "j \<in> {5, 6, 7}" "matches (fst (lex_rules ! j)) s"
    using assms unfolding number_text_def whole_text_def wordish_rules by (metis fst_conv insert_iff wordish_rules)
  have "j < length lex_rules" using j(1) by (auto simp: wordish_rules)
  then have "\<not> matches (fst (lex_rules ! j)) []" using rules_not_nullable nth_mem unfolding nullable_iff by blast
  then obtain c cs where s: "s = c # cs" using j(2) by (cases s) auto
  have "starts c (fst (lex_rules ! j))" using starts_matches [OF j(2) s] .
  then have c: "Prepared.is_digit c \<or> c = CHR ''.'' \<or> c = CHR ''-''"
    using j(1) by (auto simp: wordish_rules float_rule_def exponent_def minus_sign_def R_opt_def R_plus_def R_one_def
        R_digit_def Prepared.is_digit_def)
  have "\<not> starts (CHR ''-'') (deriv (CHR ''-'') (fst (lex_rules ! j)))"
    using j(1) by (auto simp: wordish_rules float_rule_def exponent_def minus_sign_def R_opt_def R_plus_def R_one_def
        R_digit_def Prepared.is_digit_def mk_alt_def is_zero_def)
  then have "c = CHR ''-'' \<Longrightarrow> take 1 cs \<noteq> [CHR ''-'']"
    using j(2) s starts_matches unfolding deriv_matches [symmetric] by (cases cs) (auto simp: deriv_matches [symmetric])
  then show ?thesis using s c by blast
qed

lemma comment_rule: "lex_rules ! 0 = (R_seqs [R_text ''--'', R_star R_any], Discard)"
  by (simp add: lex_rules_def)

lemma comment_starts: "matches (fst (lex_rules ! 0)) s \<Longrightarrow> take 2 s = ''--''"
  by (auto simp: comment_rule R_text_def R_one_def matches_seq)


lemma number_not_comment:
  assumes "number_text s" and "delimited rest"
  shows "\<not> matches (fst (lex_rules ! 0)) (take m (s @ rest))"
proof
  assume "matches (fst (lex_rules ! 0)) (take m (s @ rest))"
  then have dashes: "take 2 (take m (s @ rest)) = ''--''" by (rule comment_starts)
  have "length (take 2 (take m (s @ rest))) = 2" unfolding dashes by simp
  then have "2 \<le> m" by (simp del: take_append)
  then have "take 2 (s @ rest) = ''--''" using dashes by (simp add: min_absorb1 del: take_append)
  moreover obtain c cs where s: "s = c # cs" "Prepared.is_digit c \<or> c = CHR ''.'' \<or> c = CHR ''-'' \<and> take 1 cs \<noteq> [CHR ''-'']"
    using number_start [OF assms(1)] by blast
  ultimately have c: "c = CHR ''-''" "take 1 (cs @ rest) = [CHR ''-'']" by (simp_all add: numeral_2_eq_2)
  then have "take 1 cs \<noteq> [CHR ''-'']" using s(2) by (auto simp: Prepared.is_digit_def)
  then have "cs = []" "take 1 rest = [CHR ''-'']" using c(2) by (cases cs; simp)+
  then show False using assms(2) by (cases rest) (auto simp: delimited_def wordish_def)
qed

lemma number_tokens:
  assumes s: "number_text s" and rest: "delimited rest"
  shows "token_list (s @ rest) = number_token s # token_list rest"
proof -
  let ?J = "{0, 5, 6, 7, 8, 17} :: nat set"
  obtain c cs where cs: "s = c # cs" and "Prepared.is_digit c \<or> c = CHR ''.'' \<or> c = CHR ''-''"
    using number_start [OF s] by blast
  then have c: "c \<in> set ''0123456789.-''" unfolding Prepared.is_digit_def list.set insert_iff empty_iff by blast
  have "c \<notin> set ''/ <>!=;'' \<and> c \<notin> {CHR 0x22, CHR 0x09, CHR 0x0D, CHR 0x0A}" using c by auto
  then have from_c: "\<forall>p \<in> set (zip [0..<18] lex_rules). fst p \<in> ?J \<or> \<not> starts c (fst (snd p))"
    by (simp add: rule_defs upt_rec)
  define i :: nat where "i = (if matches (fst (lex_rules ! 5)) s then 5 else if matches (fst (lex_rules ! 6)) s then 6 else 7)"
  have m: "matches (fst (lex_rules ! i)) (c # cs)"
    using s cs by (auto simp: i_def number_text_def whole_text_def wordish_rules(3))
  have act: "lex_rules ! i = (fst (lex_rules ! i), if whole_text s then Make_whole else Make_float)"
    by (auto simp: i_def whole_text_def wordish_rules)
  have zero: "\<not> matches (fst (lex_rules ! 0)) (take m ((c # cs) @ rest))" for m
    using number_not_comment [OF s rest] cs by simp
  have "flex_choice lex_rules ((c # cs) @ rest) (length (c # cs)) (if whole_text s then Make_whole else Make_float)"
  proof (rule choice_from [OF _ act m from_c])
    show "i < length lex_rules" by (simp add: i_def wordish_rules(5))
    show "\<forall>j \<in> ?J. i \<le> j \<or> \<not> matches (fst (lex_rules ! j)) (c # cs)"
      using zero [of "length (c # cs)"] cs by (auto simp: i_def)
    show "\<forall>j \<in> ?J. \<forall>m. matches (fst (lex_rules ! j)) (take m ((c # cs) @ rest)) \<longrightarrow>
        m \<le> length ((c # cs) @ rest) \<longrightarrow> m \<le> length (c # cs)"
      using wordish_short [OF rest _ list.distinct(2) [of c cs]] zero by blast
  qed
  moreover have "c_str s = s"
    using number_wordish [OF s] by (auto simp: no_nul_def list_all_iff wordish_def is_name_char_def in_range_def
        Prepared.is_digit_def less_eq_char_def)
  ultimately show ?thesis using token_list_choice [of "c # cs" rest] cs by (simp add: number_token_def)
qed

lemma string_tokens:
  assumes "CHR 0x22 \<notin> set s" and "CHR 0x00 \<notin> set s" and "\<not> matches timestamp_rule (quoted s)"
    and "take 1 rest \<noteq> [CHR 0x22]"
  shows "token_list (quoted s @ rest) = Token ''T_DQUOTED_STRING'' (quoted s) # token_list rest"
proof -
  have d: "double_quotes s = s" using assms(1) by (simp add: double_quotes_same)
  have "c_str (quoted s) = quoted s" using assms(2) by (simp add: no_nul_def quoted_def)
  moreover have "scans_as (quoted s @ rest) (quoted s)"
    using bound_string_scans_as [of s "quoted s" rest] d assms(4) by simp
  ultimately show ?thesis using token_list_choice [OF literal_is_choice] assms(3) by fastforce
qed


section \<open>Literals read back\<close>

definition plain_text :: "string \<Rightarrow> bool" where
  "plain_text s \<longleftrightarrow> CHR 0x22 \<notin> set s \<and> CHR 0x00 \<notin> set s \<and> \<not> matches timestamp_rule (quoted s)"

text \<open>The values with a literal of their own: scalars without a quote, a NUL or the shape of a timestamp,
  numbers in the syntax of the scanner, and collections of such.\<close>

fun plain_value :: "value \<Rightarrow> bool" where
  "plain_value (S s) = plain_text s"
| "plain_value (N s) = number_text s"
| "plain_value (BOOL b) = True"
| "plain_value NUL = True"
| "plain_value (L vs) = list_all plain_value vs"
| "plain_value (M kvs) = list_all (\<lambda>kv. plain_text (fst kv) \<and> plain_value (snd kv)) kvs"
| "plain_value (B s) = False"
| "plain_value (SS ss) = False"
| "plain_value (NS ss) = False"
| "plain_value (BS ss) = False"

text \<open>The text \<open>f\<close> prints for \<open>x\<close> scans, before a delimiter, to tokens that \<open>E\<close> reads as \<open>x\<close>.\<close>

definition reads_back :: "('a \<Rightarrow> string result) \<Rightarrow> (token list \<Rightarrow> 'a \<Rightarrow> bool) \<Rightarrow> 'a \<Rightarrow> bool" where
  "reads_back f E x \<longleftrightarrow>
     (\<exists>c cs ts. f x = Inr (c # cs) \<and> \<not> blank c \<and> E ts x \<and>
        (\<forall>rest. delimited rest \<longrightarrow> token_list ((c # cs) @ rest) = ts @ token_list rest))"

lemma comma_tokens: "\<not> blank c \<Longrightarrow> token_list ('', '' @ c # rest) = Raw_char (CHR '','') # token_list (c # rest)"
  using delimiter_token [of "CHR '',''" "CHR '' '' # c # rest"] blank_skipped [of "c # rest"] by simp

lemma join_reads_back:
  assumes "xs \<noteq> []" and "\<forall>x \<in> set xs. reads_back f E x"
  shows "reads_back (\<lambda>xs. map_sum id (join_with '', '') (all_results (map f xs))) (separated E) xs"
  using assms
proof (induction xs rule: list_nonempty_induct)
  case (single x)
  then obtain c cs ts where "f x = Inr (c # cs)" "\<not> blank c" "E ts x"
    "\<forall>rest. delimited rest \<longrightarrow> token_list ((c # cs) @ rest) = ts @ token_list rest" by (auto simp: reads_back_def)
  then show ?case unfolding reads_back_def
    by (intro exI [of _ c] exI [of _ cs] exI [of _ ts]) (simp add: sep_one)
next
  case (cons x xs)
  obtain c cs ts where x: "f x = Inr (c # cs)" "\<not> blank c" "E ts x"
    "\<And>rest. delimited rest \<Longrightarrow> token_list ((c # cs) @ rest) = ts @ token_list rest"
    using cons.prems by (auto simp: reads_back_def)
  obtain ss d ds us where xs: "all_results (map f xs) = Inr ss" "join_with '', '' ss = d # ds" "\<not> blank d" "separated E us xs"
    "\<And>rest. delimited rest \<Longrightarrow> token_list ((d # ds) @ rest) = us @ token_list rest"
    using cons.IH cons.prems by (cases "all_results (map f xs)") (auto simp: reads_back_def)
  have "ss \<noteq> []" using xs(2) by auto
  then have joined: "join_with '', '' ((c # cs) # ss) = (c # cs) @ '', '' @ d # ds" using xs(2) by (cases ss) auto
  have "token_list (((c # cs) @ '', '' @ d # ds) @ rest) = (ts @ Raw_char (CHR '','') # us) @ token_list rest" if "delimited rest" for rest
    using x(4) [OF delimitedI [of "CHR '',''"], of "CHR '' '' # d # ds @ rest"] comma_tokens [OF xs(3)] xs(5) [OF that] by simp
  moreover have "separated E (ts @ Raw_char (CHR '','') # us) (x # xs)" using x(3) xs(4) by (rule sep_cons)
  ultimately show ?case unfolding reads_back_def using x(1,2) xs(1) joined
    by (intro exI [of _ c] exI [of _ "cs @ '', '' @ d # ds"] exI [of _ "ts @ Raw_char (CHR '','') # us"]) simp
qed


lemma unquote_quoted: "unquote (quoted s) = s"
  by (simp add: unquote_def quoted_def)

lemma delimited_no_quote: "delimited rest \<Longrightarrow> take 1 rest \<noteq> [CHR 0x22]"
  by (cases rest) (auto simp: delimited_def)

lemma text_tokens:
  "plain_text s \<Longrightarrow> take 1 rest \<noteq> [CHR 0x22] \<Longrightarrow>
   token_list (quoted (double_quotes s) @ rest) = Token ''T_DQUOTED_STRING'' (quoted s) # token_list rest"
  using string_tokens [of s rest] double_quotes_same [of s] by (simp add: plain_text_def)

lemma reads_backI:
  "f x = Inr (c # cs) \<Longrightarrow> \<not> blank c \<Longrightarrow> E ts x \<Longrightarrow>
   (\<And>rest. delimited rest \<Longrightarrow> token_list ((c # cs) @ rest) = ts @ token_list rest) \<Longrightarrow> reads_back f E x"
  unfolding reads_back_def by blast

lemma not_blank: "c \<in> set ''[{'' \<or> c = CHR 0x22 \<or> wordish c \<Longrightarrow> \<not> blank c"
  by (auto simp: blank_def wordish_def is_name_char_def Prepared.is_digit_def in_range_def less_eq_char_def)

lemma element_reads_back:
  assumes "plain_text (fst kv)" and "reads_back render_literal lee_rhs (snd kv)"
  shows "reads_back (\<lambda>kv. map_sum id (\<lambda>t. quoted (double_quotes (fst kv)) @ '':'' @ t) (render_literal (snd kv))) map_element kv"
proof -
  let ?k = "double_quotes (fst kv)"
  from assms(2) obtain c cs ts where v: "render_literal (snd kv) = Inr (c # cs)" "lee_rhs ts (snd kv)"
    "\<And>rest. delimited rest \<Longrightarrow> token_list ((c # cs) @ rest) = ts @ token_list rest" by (auto simp: reads_back_def)
  have g: "g_string [Token ''T_DQUOTED_STRING'' (quoted (fst kv))] (fst kv)"
    using string_quoted [of "quoted (fst kv)"] by (simp add: unquote_quoted)
  show ?thesis
  proof (rule reads_backI)
    show "map_sum id (\<lambda>t. quoted ?k @ '':'' @ t) (render_literal (snd kv)) =
        Inr (CHR 0x22 # ?k @ CHR 0x22 # CHR '':'' # c # cs)" using v(1) by (simp add: quoted_def)
    show "\<not> blank (CHR 0x22)" by (simp add: not_blank)
    show "map_element ([Token ''T_DQUOTED_STRING'' (quoted (fst kv))] @ Raw_char (CHR '':'') # ts) kv"
      using map_elementI [OF g v(2)] by simp
    show "token_list ((CHR 0x22 # ?k @ CHR 0x22 # CHR '':'' # c # cs) @ rest) =
        ([Token ''T_DQUOTED_STRING'' (quoted (fst kv))] @ Raw_char (CHR '':'') # ts) @ token_list rest" if "delimited rest" for rest
      using text_tokens [OF assms(1), of "CHR '':'' # c # cs @ rest"] delimiter_token [of "CHR '':''"] v(3) [OF that]
      by (simp add: quoted_def)
  qed
qed

lemma bracketed_reads_back:
  assumes "xs \<noteq> []" and "\<forall>x \<in> set xs. reads_back f E x" and "op \<in> set ''[{''" and "cl \<in> set '']}''"
    and derives: "\<And>ts. separated E ts xs \<Longrightarrow> lee_rhs (Raw_char op # ts @ [Raw_char cl]) v"
    and prints: "render_literal v = map_sum id (\<lambda>ss. [op] @ join_with '', '' ss @ [cl]) (all_results (map f xs))"
  shows "reads_back render_literal lee_rhs v"
proof -
  obtain ss c cs ts where j: "all_results (map f xs) = Inr ss" "join_with '', '' ss = c # cs" "separated E ts xs"
    "\<And>rest. delimited rest \<Longrightarrow> token_list ((c # cs) @ rest) = ts @ token_list rest"
    using join_reads_back [OF assms(1,2)] by (cases "all_results (map f xs)") (auto simp: reads_back_def)
  show ?thesis
  proof (rule reads_backI [where f = render_literal and E = lee_rhs and x = v, OF _ _ derives [OF j(3)]])
    show "render_literal v = Inr (op # c # cs @ [cl])" using prints j by simp
    show "\<not> blank op" using assms(3) not_blank by blast
    have "token_list ((c # cs) @ cl # rest) = ts @ token_list (cl # rest)" for rest
      using j(4) [OF delimitedI [of cl rest]] assms(4) by auto
    then show "token_list ((op # c # cs @ [cl]) @ rest) = (Raw_char op # ts @ [Raw_char cl]) @ token_list rest" for rest
      using delimiter_token [of op "(c # cs) @ cl # rest"] delimiter_token [of cl rest] assms(3,4) by auto
  qed
qed


lemma literal_reads_back: "plain_value v \<Longrightarrow> reads_back render_literal lee_rhs v"
proof (induction v)
  case (S s)
  have "lee_rhs [Token ''T_DQUOTED_STRING'' (quoted s)] (S s)" using rhs_string [of "quoted s"] by (simp add: unquote_quoted)
  moreover have "render_literal (S s) = Inr (CHR 0x22 # double_quotes s @ [CHR 0x22])" by (simp add: quoted_def)
  ultimately show ?case using text_tokens [of s] delimited_no_quote S not_blank [of "CHR 0x22"]
    by (intro reads_backI [of render_literal "S s" _ _ lee_rhs]) (auto simp: quoted_def)
next
  case (N s)
  then obtain c cs where s: "s = c # cs" using number_start [of s] by auto
  then have "\<not> blank c" using number_wordish [of s] N not_blank by simp
  moreover have "lee_rhs [number_token s] (N s)" by (auto simp: number_token_def intro: rhs_whole rhs_float)
  ultimately show ?case using s N number_tokens [of s]
    by (intro reads_backI [of render_literal "N s" c cs lee_rhs]) auto
next
  case (BOOL b)
  let ?w = "if b then ''true'' else ''false''"
  have "token_of Make_word ''true'' = Some (Token ''K_TRUE'' [])" "token_of Make_word ''false'' = Some (Token ''K_FALSE'' [])"
    by code_simp+
  then have "lee_rhs [the (token_of Make_word ?w)] (BOOL b)" by (auto intro: rhs_true rhs_false)
  then show ?case using literal_word_token [of ?w] not_blank [of "CHR ''t''"] not_blank [of "CHR ''f''"]
    by (intro reads_backI [of render_literal "BOOL b" "hd ?w" "tl ?w" lee_rhs]) (auto simp: wordish_def is_name_char_def in_range_def less_eq_char_def)
next
  case NUL
  have "token_of Make_word ''null'' = Some (Token ''K_NULL'' [])" by code_simp
  then show ?case using literal_word_token [of "''null''"] not_blank [of "CHR ''n''"]
    by (intro reads_backI [of render_literal NUL "CHR ''n''" "''ull''" lee_rhs])
      (auto simp: wordish_def is_name_char_def in_range_def less_eq_char_def intro: rhs_null)
next
  case (L vs)
  show ?case
  proof (cases "vs = []")
    case True
    then show ?thesis using delimiter_token not_blank
      by (intro reads_backI [of render_literal "L vs" "CHR ''[''" "'']''" lee_rhs]) (auto intro: rhs_empty_list)
  next
    case False
    then show ?thesis using L rhs_list
      by (intro bracketed_reads_back [of vs render_literal lee_rhs "CHR ''[''" "CHR '']''"])
        (auto simp: list_all_iff rhs_list_separated)
  qed
next
  case (M kvs)
  show ?case
  proof (cases "kvs = []")
    case True
    then show ?thesis using delimiter_token not_blank
      by (intro reads_backI [of render_literal "M kvs" "CHR ''{''" "''}''" lee_rhs]) (auto intro: rhs_empty_map)
  next
    case False
    have "\<forall>kv \<in> set kvs. reads_back (\<lambda>kv. map_sum id (\<lambda>t. quoted (double_quotes (fst kv)) @ '':'' @ t)
        (render_literal (snd kv))) map_element kv"
    proof
      fix kv
      assume kv: "kv \<in> set kvs"
      then have p: "plain_text (fst kv)" "plain_value (snd kv)" using M.prems by (auto simp: list_all_iff)
      have "reads_back render_literal lee_rhs (snd kv)" using M.IH [OF kv _ p(2)] by (cases kv) simp
      then show "reads_back (\<lambda>kv. map_sum id (\<lambda>t. quoted (double_quotes (fst kv)) @ '':'' @ t)
          (render_literal (snd kv))) map_element kv" by (rule element_reads_back [OF p(1)])
    qed
    then show ?thesis using False rhs_map
      by (intro bracketed_reads_back [where E = map_element and op = "CHR ''{''" and cl = "CHR ''}''" and xs = kvs])
        (auto simp: map_list_separated)
  qed
qed simp_all

text \<open>C12: Binding a value is putting its text into the statement and parsing it again, and that gives the
  value back: the literal of a value without binary data, sets, quotes, NULs and strings of the shape of a
  timestamp, with numbers in the scanner's syntax, scans before a delimiter to tokens of its own, which the
  grammar reads as that value and no other.\<close>

theorem bound_value_parses_back:
  assumes "plain_value v"
  shows "\<exists>lit ts. render_literal v = Inr lit \<and>
    (\<forall>rest. delimited rest \<longrightarrow> token_list (lit @ rest) = ts @ token_list rest) \<and> (\<forall>w. lee_rhs ts w \<longleftrightarrow> w = v)"
proof -
  from literal_reads_back [OF assms] obtain c cs ts where r: "render_literal v = Inr (c # cs)" "lee_rhs ts v"
    "\<forall>rest. delimited rest \<longrightarrow> token_list ((c # cs) @ rest) = ts @ token_list rest" unfolding reads_back_def by blast
  then have "\<forall>w. lee_rhs ts w \<longleftrightarrow> w = v" using literal_value_unique by blast
  then show ?thesis using r by blast
qed


theorem bound_value_parses_back_witness:
  "\<exists>ts. token_list (''[-1.5, null]'' @ '')'') = ts @ token_list '')'' \<and>
    (\<forall>w. lee_rhs ts w \<longleftrightarrow> w = L [N ''-1.5'', NUL])"
proof -
  have "matches float_rule ''-1.5''"
    by (simp add: deriv_matches [symmetric] nullable_iff [symmetric] float_rule_def exponent_def minus_sign_def R_opt_def
        R_plus_def R_one_def R_digit_def Prepared.is_digit_def mk_alt_def is_zero_def)
  then have "plain_value (L [N ''-1.5'', NUL])" by (simp add: number_text_def)
  from bound_value_parses_back [OF this] obtain lit ts where l: "render_literal (L [N ''-1.5'', NUL]) = Inr lit"
    "\<forall>rest. delimited rest \<longrightarrow> token_list (lit @ rest) = ts @ token_list rest" "\<forall>w. lee_rhs ts w \<longleftrightarrow> w = L [N ''-1.5'', NUL]"
    by blast
  have "render_literal (L [N ''-1.5'', NUL]) = Inr ''[-1.5, null]''" by code_simp
  then have "lit = ''[-1.5, null]''" using l(1) by simp
  moreover have "delimited '')''"
    by (simp add: delimited_def wordish_def is_name_char_def Prepared.is_digit_def in_range_def less_eq_char_def)
  ultimately show ?thesis using l(2,3) by blast
qed

end
