(* ===== verification/Scan_Text.thy ===== *)
theory Scan_Text
  imports Grammar
begin

text \<open>
  How the scanner reads text put together from pieces: fixed words, quoted names, numbers and bare names.  Each
  piece has its tokens whatever delimiter follows, so that the tokens of a statement are those of its pieces.
\<close>

section \<open>Blanks\<close>

text \<open>Leading blanks are skipped.\<close>

lemma blanks_before:
  assumes u: "list_all blank (c # u)" and v: "\<forall>d ds. v = d # ds \<longrightarrow> \<not> blank d"
  shows "token_list ((c # u) @ v) = token_list v"
proof -
  have "\<forall>c \<in> {CHR '' '', CHR 0x09, CHR 0x0D, CHR 0x0A}. \<forall>p \<in> set (zip [0..<18] lex_rules). fst p \<in> {2, 17} \<or> \<not> starts c (fst (snd p))"
    by (simp add: start_defs)
  then have from_c: "\<forall>p \<in> set (zip [0..<18] lex_rules). fst p \<in> {2, 17} \<or> \<not> starts c (fst (snd p))"
    using u unfolding blank_def list.pred_inject by blast
  have rule: "2 < length lex_rules" "lex_rules ! 2 = (blank_rule, Discard)" by (simp_all add: lex_rules_def)
  have uses: "uses_only blank blank_rule" by (simp add: blank_rule_def R_plus_def blank_def)
  have "matches blank_rule ([c] @ u)" unfolding blank_rule_def R_plus_def
    using u by (intro m_seq m_char star_chars) (auto simp: blank_def list_all_iff)
  then have "flex_choice lex_rules ((c # u) @ v) (length (c # u)) Discard"
  proof (intro choice_from [OF rule _ from_c])
    show "\<forall>j \<in> {2, 17}. \<forall>m. matches (fst (lex_rules ! j)) (take m ((c # u) @ v)) \<longrightarrow>
        m \<le> length ((c # u) @ v) \<longrightarrow> m \<le> length (c # u)"
    proof (intro ballI allI impI)
      fix j m
      assume j: "j \<in> {2, 17}" "matches (fst (lex_rules ! j)) (take m ((c # u) @ v))" "m \<le> length ((c # u) @ v)"
      show "m \<le> length (c # u)"
      proof (cases "j = 17")
        case True
        then show ?thesis using any_takes_one [OF _ j(3)] j(2) any_rule(1) by simp
      next
        case False
        then show ?thesis using stops_before [OF _ j(3) uses v] j(1,2) rule(2) by simp
      qed
    qed
  qed simp_all
  from token_list_choice [OF this] show ?thesis by simp
qed

lemma blank_first: "blank c \<Longrightarrow> token_list (c # rest) = token_list rest"
proof -
  assume c: "blank c"
  define b v where "b = takeWhile blank rest" and "v = dropWhile blank rest"
  have rest: "rest = b @ v" by (simp add: b_def v_def)
  have v: "\<forall>d ds. v = d # ds \<longrightarrow> \<not> blank d" unfolding v_def by (metis hd_dropWhile list.distinct(1) list.sel(1))
  have b: "list_all blank b" unfolding b_def list_all_iff using set_takeWhileD by fast
  have "token_list ((c # b) @ v) = token_list v" using b c by (intro blanks_before [OF _ v]) simp
  moreover have "token_list (b @ v) = token_list v"
  proof (cases b)
    case (Cons d ds)
    then show ?thesis using blanks_before [OF _ v, of d ds] b by simp
  qed simp
  ultimately show ?thesis unfolding rest by simp
qed

section \<open>Pieces\<close>

text \<open>A piece that scans alike before a delimiter, and one that does before any text.\<close>

definition scans :: "string \<Rightarrow> token list \<Rightarrow> bool" where
  "scans s ts \<longleftrightarrow> (\<forall>rest. delimited rest \<longrightarrow> token_list (s @ rest) = ts @ token_list rest)"

definition scans_always :: "string \<Rightarrow> token list \<Rightarrow> bool" where
  "scans_always s ts \<longleftrightarrow> (\<forall>rest. token_list (s @ rest) = ts @ token_list rest)"

lemma scans_always_scans: "scans_always s ts \<Longrightarrow> scans s ts"
  by (simp add: scans_def scans_always_def)

lemma scans_always_Nil [simp]: "scans_always [] []"
  by (simp add: scans_always_def)

lemma scans_always_append: "scans_always s ts \<Longrightarrow> scans_always t us \<Longrightarrow> scans_always (s @ t) (ts @ us)"
  by (simp add: scans_always_def)

lemma scans_append: "scans_always s ts \<Longrightarrow> scans t us \<Longrightarrow> scans (s @ t) (ts @ us)"
  by (simp add: scans_def scans_always_def)

lemma delimited_append: "delimited t \<Longrightarrow> t \<noteq> [] \<Longrightarrow> delimited (t @ rest)"
  by (cases t) (auto simp: delimited_def)

lemma scans_then_always:
  "scans s ts \<Longrightarrow> scans_always t us \<Longrightarrow> delimited t \<Longrightarrow> t \<noteq> [] \<Longrightarrow> scans_always (s @ t) (ts @ us)"
  by (simp add: scans_def scans_always_def delimited_append)

lemma scans_then: "scans s ts \<Longrightarrow> scans t us \<Longrightarrow> delimited t \<Longrightarrow> t \<noteq> [] \<Longrightarrow> scans (s @ t) (ts @ us)"
  by (simp add: scans_def delimited_append)

lemma delimited_Cons: "c \<in> set '',:;()[]{} '' \<Longrightarrow> delimited (c # rest)"
  by (auto simp: delimited_def wordish_def is_name_char_def Prepared.is_digit_def in_range_def less_eq_char_def)

lemma scans_quoted: "plain_text s \<Longrightarrow> scans (quoted s) [Token ''T_DQUOTED_STRING'' (quoted s)]"
  using string_tokens [of s] delimited_no_quote by (simp add: scans_def plain_text_def)

lemma scans_number: "number_text s \<Longrightarrow> scans s [number_token s]"
  using number_tokens by (simp add: scans_def)

text \<open>Words: a letter, then letters, digits, underscores and hyphens.\<close>

definition bare_word :: "string \<Rightarrow> bool" where
  "bare_word w \<longleftrightarrow> (\<exists>c cs. w = c # cs \<and> is_name_char c \<and> \<not> Prepared.is_digit c \<and>
     list_all (\<lambda>c. is_name_char c \<or> c = CHR ''-'') cs)"

lemma scans_word:
  assumes "bare_word w"
  shows "scans w [the (token_of Make_word w)]"
proof -
  obtain c cs where w: "w = c # cs" "is_name_char c" "\<not> Prepared.is_digit c"
    "list_all (\<lambda>c. is_name_char c \<or> c = CHR ''-'') cs" using assms by (auto simp: bare_word_def)
  have "\<forall>d \<in> set ''/ <>!=;-.'' \<union> {CHR 0x22, CHR 0x09, CHR 0x0D, CHR 0x0A}. \<not> is_name_char d"
    by (simp add: is_name_char_def Prepared.is_digit_def in_range_def less_eq_char_def)
  then have "c \<notin> set ''/ <>!=;-.'' \<and> c \<notin> {CHR 0x22, CHR 0x09, CHR 0x0D, CHR 0x0A}" using w(2) by blast
  moreover have "Prepared.is_digit (CHR ''0'')" by (simp add: Prepared.is_digit_def)
  ultimately have "c \<notin> set ''/ <>!=;-.'' \<and> c \<notin> {CHR 0x22, CHR 0x09, CHR 0x0D, CHR 0x0A} \<and> c \<noteq> CHR ''0''"
    using w(3) by metis
  then have from_c: "\<forall>p \<in> set (zip [0..<18] lex_rules). fst p \<in> {8, 17} \<or> \<not> starts c (fst (snd p))"
    using w(3) by (simp add: rule_defs upt_rec)
  have m: "matches word_rule ([c] @ cs)" unfolding word_rule_def using w(2,4) by (intro m_seq m_char star_chars) auto
  have "flex_choice lex_rules ((c # cs) @ rest) (length (c # cs)) Make_word" if "delimited rest" for rest
  proof (rule choice_from [OF _ wordish_rules(4) _ from_c])
    show "\<forall>j \<in> {8, 17}. \<forall>m. matches (fst (lex_rules ! j)) (take m ((c # cs) @ rest)) \<longrightarrow>
        m \<le> length ((c # cs) @ rest) \<longrightarrow> m \<le> length (c # cs)"
      using wordish_short [OF that _ list.distinct(2) [of c cs]] by blast
  qed (use m in \<open>simp_all add: wordish_rules(5)\<close>)
  from token_list_choice [OF this] show ?thesis unfolding scans_def w(1) by simp
qed

text \<open>Evaluation of a keyword: a capital letter and its small one differ in one bit.\<close>

lemma raised_bit: "of_char (Char b0 b1 b2 b3 b4 True b6 b7) = of_char (Char b0 b1 b2 b3 b4 False b6 b7) + (32 :: nat)"
  by (simp only: of_char_Char horner_sum_simps of_bool_eq) simp

lemma upper_bits: "in_range (CHR ''A'') (CHR ''Z'') (Char b0 b1 b2 b3 b4 b5 b6 b7) \<Longrightarrow> \<not> b5"
  by (cases b5; cases b6; cases b7) (auto simp: in_range_def less_eq_char_def of_bool_def split: if_splits)

lemma tolower_code [code]:
  "tolower (Char b0 b1 b2 b3 b4 b5 b6 b7) =
     Char b0 b1 b2 b3 b4 (b5 \<or> in_range (CHR ''A'') (CHR ''Z'') (Char b0 b1 b2 b3 b4 b5 b6 b7)) b6 b7"
proof (cases "in_range (CHR ''A'') (CHR ''Z'') (Char b0 b1 b2 b3 b4 b5 b6 b7)")
  case True
  then have "\<not> b5" by (rule upper_bits)
  then have "tolower (Char b0 b1 b2 b3 b4 b5 b6 b7) = char_of (of_char (Char b0 b1 b2 b3 b4 True b6 b7) :: nat)"
    using True by (simp only: tolower_def if_True raised_bit simp_thms)
  then show ?thesis using True by (simp only: char_of_char simp_thms)
qed (simp add: tolower_def)

lemma delimited_code [code]: "delimited s = (case s of [] \<Rightarrow> True | c # _ \<Rightarrow> \<not> wordish c \<and> c \<noteq> CHR 0x22)"
  by (simp add: delimited_def split: list.split)

text \<open>Fixed text of words, blanks, commas and parentheses.\<close>

function fixed_tokens :: "string \<Rightarrow> token list option" where
  "fixed_tokens [] = Some []"
| "fixed_tokens (c # s) =
     (if c = CHR '' '' then fixed_tokens s
      else if c \<in> set ''(),'' then map_option (Cons (Raw_char c)) (fixed_tokens s)
      else if is_name_char c \<and> \<not> Prepared.is_digit c \<and> delimited (dropWhile is_name_char s)
      then map_option (Cons (the (token_of Make_word (c # takeWhile is_name_char s)))) (fixed_tokens (dropWhile is_name_char s))
      else None)"
  by pat_completeness auto

termination fixed_tokens
  by (relation "measure length") (auto simp: le_imp_less_Suc length_dropWhile_le)

declare fixed_tokens.simps [simp del]

definition ends_delimited :: "string \<Rightarrow> bool" where
  "ends_delimited s \<longleftrightarrow> s = [] \<or> last s \<in> set '' (),''"

lemma fixed_tokens_scan:
  "fixed_tokens s = Some ts \<Longrightarrow> ends_delimited s \<or> delimited rest \<Longrightarrow> token_list (s @ rest) = ts @ token_list rest"
proof (induction s arbitrary: ts rule: fixed_tokens.induct)
  case (2 c s)
  note eq = fixed_tokens.simps(2) [of c s]
  have ends: "ends_delimited t \<or> delimited rest" if "c # s = u @ t" for t u
    using that 2(5) by (auto simp: ends_delimited_def)
  consider (blank) "c = CHR '' ''" | (punct) "c \<noteq> CHR '' ''" "c \<in> set ''(),''" | (word) "c \<noteq> CHR '' ''" "c \<notin> set ''(),''" by blast
  then show ?case
  proof cases
    case blank
    then show ?thesis using 2(1) [OF blank] 2(4) ends [of "[c]" s] blank_first [of c "s @ rest"] eq
      by (simp add: blank_def)
  next
    case punct
    then have "token_list (c # s @ rest) = Raw_char c # token_list (s @ rest)"
      using delimiter_token [of c] by auto
    then show ?thesis using 2(2) [OF punct] 2(4) ends [of "[c]" s] eq punct by auto
  next
    case word
    define w v where "w = takeWhile is_name_char s" and "v = dropWhile is_name_char s"
    have s: "s = w @ v" by (simp add: w_def v_def)
    have c: "is_name_char c \<and> \<not> Prepared.is_digit c \<and> delimited v" using 2(4) eq word by (auto simp: v_def split: if_splits)
    obtain us where us: "fixed_tokens v = Some us" "ts = the (token_of Make_word (c # w)) # us"
      using 2(4) eq word c by (auto simp: v_def w_def)
    have "bare_word (c # w)" using c by (auto simp: bare_word_def w_def list_all_iff dest: set_takeWhileD)
    moreover have "delimited (v @ rest)"
    proof (cases v)
      case Nil
      then have "is_name_char (last (c # s))" using c s unfolding w_def by (cases "s = []") (auto, metis last_in_set set_takeWhileD)
      moreover have "\<forall>d \<in> set '' (),''. \<not> is_name_char d"
        by (simp add: is_name_char_def Prepared.is_digit_def in_range_def less_eq_char_def)
      ultimately have "\<not> ends_delimited (c # s)" unfolding ends_delimited_def by blast
      then show ?thesis using 2(5) Nil by simp
    qed (use c in \<open>simp add: delimited_def\<close>)
    ultimately have "token_list ((c # w) @ v @ rest) = [the (token_of Make_word (c # w))] @ token_list (v @ rest)"
      using scans_word unfolding scans_def by blast
    moreover have "token_list (v @ rest) = us @ token_list rest"
      using 2(3) [OF word, folded v_def] c us(1) ends [of "c # w" v] s by simp
    ultimately show ?thesis using us(2) s by simp
  qed
qed (simp add: fixed_tokens.simps)

lemma scans_fixed: "fixed_tokens s = Some ts \<Longrightarrow> ends_delimited s \<Longrightarrow> scans_always s ts"
  by (simp add: scans_always_def fixed_tokens_scan)

lemma scans_phrase: "fixed_tokens s = Some ts \<Longrightarrow> scans s ts"
  by (simp add: scans_def fixed_tokens_scan)

text \<open>A name the grammar takes without quotes: a word that is no keyword.\<close>

definition bare_name :: "string \<Rightarrow> bool" where
  "bare_name w \<longleftrightarrow> bare_word w \<and> ddbsh_keyword w = None"

lemma scans_bare_name: "bare_name w \<Longrightarrow> scans w [Token ''T_UNQUOTED_STRING'' w]"
proof -
  assume w: "bare_name w"
  moreover have "\<not> is_name_char (CHR 0x00)"
    by (simp add: is_name_char_def Prepared.is_digit_def in_range_def less_eq_char_def)
  ultimately have "CHR 0x00 \<notin> set w" unfolding bare_name_def bare_word_def list_all_iff by auto
  then show ?thesis using scans_word [of w] w by (simp add: bare_name_def c_str_id no_nul_def)
qed

text \<open>Pieces joined by commas.\<close>

lemma scans_joined:
  assumes "xs \<noteq> []" and "\<And>x. x \<in> set xs \<Longrightarrow> \<exists>ts. scans (f x) ts \<and> E ts x"
  shows "\<exists>ts. scans (join_with '', '' (map f xs)) ts \<and> separated E ts xs"
  using assms
proof (induction xs rule: list_nonempty_induct)
  case (single x)
  then show ?case by (auto intro: sep_one)
next
  case (cons x xs)
  obtain ts where x: "scans (f x) ts" "E ts x" using cons.prems by auto
  obtain us where xs: "scans (join_with '', '' (map f xs)) us" "separated E us xs" using cons.IH cons.prems by auto
  have "scans_always '', '' [Raw_char (CHR '','')]"
    by (rule scans_fixed) (simp_all add: fixed_tokens.simps ends_delimited_def)
  from scans_then [OF x(1) scans_append [OF this xs(1)]] have
    "scans (f x @ '', '' @ join_with '', '' (map f xs)) (ts @ [Raw_char (CHR '','')] @ us)" by (simp add: delimited_Cons)
  moreover have "join_with '', '' (map f (x # xs)) = f x @ '', '' @ join_with '', '' (map f xs)"
    using cons.hyps by (cases xs) auto
  ultimately show ?case using sep_cons [OF x(2) xs(2)] by fastforce
qed

end
