(* ===== verification/Ddl_Grammar.thy ===== *)
theory Ddl_Grammar
  imports Scan_Text
begin

text \<open>
  The productions of the grammar for CREATE TABLE (\<^verbatim>\<open>src/parser/grammar.yy\<close>) with their actions, and the numbers
  the actions read (\<^verbatim>\<open>src/parser/ast.hpp\<close>).  SHOW CREATE TABLE prints a statement that is meant to be read by
  this grammar; that it is, and as what, is proved here.
\<close>

section \<open>Numbers of the actions\<close>

text \<open>\<open>strtoll\<close>: blanks, a sign, digits; a value out of range becomes the nearest in range.\<close>

definition clamp_ll :: "int \<Rightarrow> int" where
  "clamp_ll i = max (- (2 ^ 63)) (min (2 ^ 63 - 1) i)"

definition parse_ll :: "string \<Rightarrow> int" where
  "parse_ll s =
     (let (neg, r) = take_sign (dropWhile (\<lambda>c. c \<in> set '' '' \<or> c \<in> {CHR 0x09, CHR 0x0A, CHR 0x0B, CHR 0x0C, CHR 0x0D}) (c_str s));
          n = digits_val (takeWhile Prepared.is_digit r)
      in clamp_ll (if neg then - n else n))"

section \<open>Productions\<close>

definition kw :: "string \<Rightarrow> token" where
  "kw k = Token k []"

definition whole :: "string \<Rightarrow> token" where
  "whole s = Token ''T_WHOLE_NUMBER'' s"

definition comma :: token where
  "comma = Raw_char (CHR '','')"

definition in_parens :: "token list \<Rightarrow> token list" where
  "in_parens ts = Raw_char (CHR ''('') # ts @ [Raw_char (CHR '')'')]"

text \<open>The lists of the grammar all have this shape, and its optional clauses this one.\<close>

inductive comma_list :: "(token list \<Rightarrow> 'a \<Rightarrow> bool) \<Rightarrow> token list \<Rightarrow> 'a list \<Rightarrow> bool" for E where
  cl_one: "E ts v \<Longrightarrow> comma_list E ts [v]"
| cl_more: "comma_list E ts vs \<Longrightarrow> E us v \<Longrightarrow> comma_list E (ts @ comma # us) (vs @ [v])"

inductive optional :: "'a \<Rightarrow> ('b \<Rightarrow> 'a) \<Rightarrow> (token list \<Rightarrow> 'b \<Rightarrow> bool) \<Rightarrow> token list \<Rightarrow> 'a \<Rightarrow> bool" for absent wrap E where
  opt_present: "E ts v \<Longrightarrow> optional absent wrap E ts (wrap v)"
| opt_absent: "optional absent wrap E [] absent"

inductive if_not_exists_clause :: "token list \<Rightarrow> bool \<Rightarrow> bool" where
  ine_absent: "if_not_exists_clause [] False"
| ine_present: "if_not_exists_clause [kw ''K_IF'', kw ''K_NOT'', kw ''K_EXISTS''] True"

inductive nowait_clause :: "token list \<Rightarrow> bool \<Rightarrow> bool" where
  nw_absent: "nowait_clause [] False"
| nw_present: "nowait_clause [kw ''K_NOWAIT''] True"

inductive attribute_type :: "token list \<Rightarrow> scalar_type \<Rightarrow> bool" where
  at_number: "attribute_type [kw ''K_ATTRIBUTE_TYPE_NUMBER''] Scalar_n"
| at_string: "attribute_type [kw ''K_ATTRIBUTE_TYPE_STRING''] Scalar_s"
| at_binary: "attribute_type [kw ''K_ATTRIBUTE_TYPE_BINARY''] Scalar_b"

inductive attribute_name_type :: "token list \<Rightarrow> attribute_def \<Rightarrow> bool" where
  ant: "g_string ss name \<Longrightarrow> attribute_type ts t \<Longrightarrow> attribute_name_type (ss @ ts) \<lparr>ad_name = name, ad_type = t\<rparr>"

inductive key_attr_group :: "token list \<Rightarrow> string list \<Rightarrow> bool" where
  kag_one: "g_string ss a \<Longrightarrow> key_attr_group ss [a]"
| kag_list: "comma_list g_string ts as \<Longrightarrow> key_attr_group (in_parens ts) as"

inductive key_role :: "token list \<Rightarrow> bool \<times> string list \<Rightarrow> bool" where
  kr_hash: "key_attr_group ts as \<Longrightarrow> key_role (ts @ [kw ''K_HASH'']) (True, as)"
| kr_range: "key_attr_group ts as \<Longrightarrow> key_role (ts @ [kw ''K_RANGE'']) (False, as)"

definition no_keys :: key_schema where
  "no_keys = \<lparr>ks_hash = [], ks_range = []\<rparr>"

inductive key_role_list :: "token list \<Rightarrow> key_schema \<Rightarrow> bool" where
  krl_one: "key_role ts (h, as) \<Longrightarrow> key_role_list ts (add_key_role no_keys h as)"
| krl_more: "key_role_list ts ks \<Longrightarrow> key_role us (h, as) \<Longrightarrow> key_role_list (ts @ comma # us) (add_key_role ks h as)"

inductive g_key_schema :: "token list \<Rightarrow> key_schema \<Rightarrow> bool" where
  g_ks: "key_role_list ts ks \<Longrightarrow> g_key_schema (in_parens ts) ks"

definition no_limits :: on_demand_throughput where
  "no_limits = \<lparr>od_max_read_request_units = None, od_max_write_request_units = None\<rparr>"

definition on_demand :: "on_demand_throughput \<Rightarrow> billing_mode_and_throughput" where
  "on_demand od = \<lparr>bm_mode = Pay_per_request, bm_rcu = 0, bm_wcu = 0, bm_od = od\<rparr>"

definition provisioned :: "int \<Rightarrow> int \<Rightarrow> billing_mode_and_throughput" where
  "provisioned r w = \<lparr>bm_mode = Provisioned, bm_rcu = r, bm_wcu = w, bm_od = no_limits\<rparr>"

definition limits :: "int \<Rightarrow> int \<Rightarrow> on_demand_throughput" where
  "limits r w = \<lparr>od_max_read_request_units = Some r, od_max_write_request_units = Some w\<rparr>"

definition units :: "string \<Rightarrow> string \<Rightarrow> string \<Rightarrow> string \<Rightarrow> token list" where
  "units a unit_a b unit_b = in_parens [whole a, kw unit_a, comma, whole b, kw unit_b]"

inductive billing_mode_and_throughput_g :: "token list \<Rightarrow> billing_mode_and_throughput \<Rightarrow> bool" where
  bm_demand: "billing_mode_and_throughput_g [kw ''K_BILLING'', kw ''K_MODE'', kw ''K_ON'', kw ''K_DEMAND''] (on_demand no_limits)"
| bm_demand_rw: "billing_mode_and_throughput_g
    ([kw ''K_BILLING'', kw ''K_MODE'', kw ''K_ON'', kw ''K_DEMAND'', kw ''K_THROUGHPUT''] @ units r ''K_RCU'' w ''K_WCU'')
    (on_demand (limits (parse_ll r) (parse_ll w)))"
| bm_demand_wr: "billing_mode_and_throughput_g
    ([kw ''K_BILLING'', kw ''K_MODE'', kw ''K_ON'', kw ''K_DEMAND'', kw ''K_THROUGHPUT''] @ units w ''K_WCU'' r ''K_RCU'')
    (on_demand (limits (parse_ll r) (parse_ll w)))"
| bm_unlimited: "billing_mode_and_throughput_g
    [kw ''K_BILLING'', kw ''K_MODE'', kw ''K_ON'', kw ''K_DEMAND'', kw ''K_THROUGHPUT'', kw ''K_UNLIMITED'']
    (on_demand (limits (- 1) (- 1)))"
| bm_provisioned_rw: "billing_mode_and_throughput_g
    ([kw ''K_BILLING'', kw ''K_MODE'', kw ''K_PROVISIONED''] @ units r ''K_RCU'' w ''K_WCU'') (provisioned (parse_ll r) (parse_ll w))"
| bm_provisioned_wr: "billing_mode_and_throughput_g
    ([kw ''K_BILLING'', kw ''K_MODE'', kw ''K_PROVISIONED''] @ units w ''K_WCU'' r ''K_RCU'') (provisioned (parse_ll r) (parse_ll w))"

inductive warm_throughput_g :: "token list \<Rightarrow> warm_throughput \<Rightarrow> bool" where
  wt_rw: "warm_throughput_g ([kw ''K_WARM'', kw ''K_THROUGHPUT''] @ units r ''K_RCU'' w ''K_WCU'')
    \<lparr>wt_read_units_per_second = parse_ll r, wt_write_units_per_second = parse_ll w\<rparr>"
| wt_wr: "warm_throughput_g ([kw ''K_WARM'', kw ''K_THROUGHPUT''] @ units w ''K_WCU'' r ''K_RCU'')
    \<lparr>wt_read_units_per_second = parse_ll r, wt_write_units_per_second = parse_ll w\<rparr>"

inductive index_projection :: "token list \<Rightarrow> projection \<Rightarrow> bool" where
  ip_all: "index_projection [kw ''K_PROJECTING'', kw ''K_ALL''] \<lparr>pj_type = Projection_all, pj_non_key_attributes = []\<rparr>"
| ip_keys: "index_projection [kw ''K_PROJECTING'', kw ''K_KEYS'', kw ''K_ONLY'']
    \<lparr>pj_type = Projection_keys_only, pj_non_key_attributes = []\<rparr>"
| ip_include: "comma_list g_string ts as \<Longrightarrow> index_projection ([kw ''K_PROJECTING'', kw ''K_INCLUDE''] @ in_parens ts)
    \<lparr>pj_type = Projection_include, pj_non_key_attributes = as\<rparr>"

inductive g_gsi :: "token list \<Rightarrow> gsi \<Rightarrow> bool" where
  gsi_rule: "g_string ss name \<Longrightarrow> g_key_schema ks key \<Longrightarrow> index_projection ps p \<Longrightarrow>
    optional None Some billing_mode_and_throughput_g bs billing \<Longrightarrow> optional None Some warm_throughput_g ws warm \<Longrightarrow>
    g_gsi (ss @ kw ''K_ON'' # ks @ ps @ bs @ ws)
      \<lparr>gsi_name = name, gsi_key_schema = key, gsi_projection = p, gsi_billing = billing, gsi_warm = warm\<rparr>"

inductive g_lsi :: "token list \<Rightarrow> lsi \<Rightarrow> bool" where
  lsi_rule: "g_string ss name \<Longrightarrow> g_key_schema ks key \<Longrightarrow> index_projection ps p \<Longrightarrow>
    g_lsi (ss @ kw ''K_ON'' # ks @ ps) \<lparr>lsi_name = name, lsi_key_schema = key, lsi_projection = p\<rparr>"

inductive vector_distance_function :: "token list \<Rightarrow> vector_distance \<Rightarrow> bool" where
  vdf_cosine: "vector_distance_function [kw ''K_COSINE''] Cosine"
| vdf_euclidean: "vector_distance_function [kw ''K_EUCLIDEAN''] Euclidean"
| vdf_dot: "vector_distance_function [kw ''K_DOT_PRODUCT''] Dot_product"

inductive vector_search_schema_element :: "token list \<Rightarrow> search_schema_elem \<Rightarrow> bool" where
  vse_hash: "g_string ss a \<Longrightarrow> vector_search_schema_element (ss @ [kw ''K_HASH'']) \<lparr>se_attr = a, se_kind = Search_hash\<rparr>"
| vse_filter: "g_string ss a \<Longrightarrow> vector_search_schema_element (ss @ [kw ''K_FILTER'']) \<lparr>se_attr = a, se_kind = Inline_filter\<rparr>"

inductive search_key :: "token list \<Rightarrow> search_schema_elem list \<Rightarrow> bool" where
  sk_rule: "comma_list vector_search_schema_element ts es \<Longrightarrow> search_key ([kw ''K_SEARCH'', kw ''K_KEY''] @ in_parens ts) es"

inductive vector_index :: "token list \<Rightarrow> vector_index_def \<Rightarrow> bool" where
  vi_rule: "g_string ss name \<Longrightarrow> g_string as attr \<Longrightarrow> vector_distance_function ds fn \<Longrightarrow>
    optional [] id search_key ks es \<Longrightarrow> index_projection ps p \<Longrightarrow>
    vector_index (ss @ kw ''K_ON'' # as @ [kw ''K_DIMENSIONS'', whole n, kw ''K_DISTANCE''] @ ds @ ks @ ps)
      \<lparr>vd_index_name = name, vd_vector_attr = attr, vd_dimensions = parse_ll n, vd_distance = fn,
       vd_search_schema = es, vd_projection = p\<rparr>"

inductive vsi_keyword :: "token list \<Rightarrow> bool" where
  vsi_short: "vsi_keyword [kw ''K_VSI'']"
| vsi_vector: "vsi_keyword [kw ''K_VECTOR'']"
| vsi_vector_index: "vsi_keyword [kw ''K_VECTOR'', kw ''K_INDEX'']"

inductive gsi_clause :: "token list \<Rightarrow> gsi list \<Rightarrow> bool" where
  gsi_clause_rule: "comma_list g_gsi ts gs \<Longrightarrow> gsi_clause (kw ''K_GSI'' # in_parens ts) gs"

inductive lsi_clause :: "token list \<Rightarrow> lsi list \<Rightarrow> bool" where
  lsi_clause_rule: "comma_list g_lsi ts ls \<Longrightarrow> lsi_clause (kw ''K_LSI'' # in_parens ts) ls"

inductive vsi_clause :: "token list \<Rightarrow> vector_index_def list \<Rightarrow> bool" where
  vsi_clause_rule: "vsi_keyword ks \<Longrightarrow> comma_list vector_index ts vs \<Longrightarrow> vsi_clause (ks @ in_parens ts) vs"

inductive stream_view_type_g :: "token list \<Rightarrow> stream_view_type \<Rightarrow> bool" where
  sv_keys: "stream_view_type_g [kw ''K_KEYS'', kw ''K_ONLY''] Stream_keys_only"
| sv_new: "stream_view_type_g [kw ''K_NEW'', kw ''K_IMAGE''] New_image"
| sv_old: "stream_view_type_g [kw ''K_OLD'', kw ''K_IMAGE''] Old_image"
| sv_both: "stream_view_type_g [kw ''K_BOTH'', kw ''K_IMAGES''] New_and_old_images"

inductive stream_specification :: "token list \<Rightarrow> stream_spec \<Rightarrow> bool" where
  st_view: "stream_view_type_g ts v \<Longrightarrow> stream_specification (kw ''K_STREAM'' # in_parens ts) \<lparr>ss_enabled = True, ss_view_type = v\<rparr>"
| st_disabled: "stream_specification [kw ''K_STREAM'', kw ''K_DISABLED''] \<lparr>ss_enabled = False, ss_view_type = Stream_keys_only\<rparr>"

inductive sse_specification :: "token list \<Rightarrow> sse_spec \<Rightarrow> bool" where
  sse_disabled: "sse_specification [kw ''K_SSE'', kw ''K_DISABLED''] \<lparr>sse_enabled = False, sse_kms_master_key_id = None, sse_sse_type = None\<rparr>"
| sse_kms: "g_string ss k \<Longrightarrow> sse_specification (kw ''K_SSE'' # in_parens (kw ''K_KEYID'' # ss @ [kw ''K_KMS'']))
    \<lparr>sse_enabled = True, sse_kms_master_key_id = Some k, sse_sse_type = Some Kms\<rparr>"
| sse_aes: "g_string ss k \<Longrightarrow> sse_specification (kw ''K_SSE'' # in_parens (kw ''K_KEYID'' # ss @ [kw ''K_AES256'']))
    \<lparr>sse_enabled = True, sse_kms_master_key_id = Some k, sse_sse_type = Some Aes256\<rparr>"

inductive g_table_class :: "token list \<Rightarrow> table_class \<Rightarrow> bool" where
  tc_standard: "g_table_class [kw ''K_TABLE'', kw ''K_CLASS'', kw ''K_STANDARD''] Standard"
| tc_infrequent: "g_table_class [kw ''K_TABLE'', kw ''K_CLASS'', kw ''K_STANDARD'', kw ''K_INFREQUENT'', kw ''K_ACCESS'']
    Standard_infrequent_access"

inductive deletion_protection :: "token list \<Rightarrow> bool \<Rightarrow> bool" where
  dp_on: "deletion_protection [kw ''K_DELETION'', kw ''K_PROTECTION'', kw ''K_ENABLED''] True"
| dp_off: "deletion_protection [kw ''K_DELETION'', kw ''K_PROTECTION'', kw ''K_DISABLED''] False"

inductive table_tag :: "token list \<Rightarrow> tag \<Rightarrow> bool" where
  tag_rule: "g_string ss k \<Longrightarrow> g_string ts v \<Longrightarrow> table_tag (ss @ Raw_char (CHR '':'') # ts) \<lparr>tag_key = k, tag_value = v\<rparr>"

inductive table_tags :: "token list \<Rightarrow> tag list \<Rightarrow> bool" where
  tags_rule: "comma_list table_tag ts tags \<Longrightarrow> table_tags (kw ''K_TAGS'' # in_parens ts) tags"

inductive create_table_command :: "token list \<Rightarrow> create_table_cmd \<Rightarrow> bool" where
  create_rule:
    "if_not_exists_clause t3 ine \<Longrightarrow> nowait_clause t4 nw \<Longrightarrow> g_string t5 name \<Longrightarrow>
     comma_list attribute_name_type t7 attrs \<Longrightarrow> g_key_schema t9 key \<Longrightarrow>
     optional None Some billing_mode_and_throughput_g t10 billing \<Longrightarrow> optional None Some warm_throughput_g t11 warm \<Longrightarrow>
     optional [] id gsi_clause t12 gsis \<Longrightarrow> optional [] id lsi_clause t13 lsis \<Longrightarrow> optional [] id vsi_clause t14 vsis \<Longrightarrow>
     optional None Some stream_specification t15 stream \<Longrightarrow> optional None Some sse_specification t16 sse \<Longrightarrow>
     optional Standard id g_table_class t17 cls \<Longrightarrow> optional False id deletion_protection t18 dp \<Longrightarrow>
     optional [] id table_tags t19 tags \<Longrightarrow>
     create_table_command
       ([kw ''K_CREATE'', kw ''K_TABLE''] @ t3 @ t4 @ t5 @ in_parens t7 @ [kw ''K_PRIMARY'', kw ''K_KEY''] @ t9 @ t10 @ t11 @ t12 @
        t13 @ t14 @ t15 @ t16 @ t17 @ t18 @ t19)
       \<lparr>cr_table_name = name, cr_if_not_exists = ine, cr_nowait = nw, cr_attribute_definitions = attrs, cr_key_schema = key,
        cr_billing = billing, cr_warm = warm, cr_gsis = gsis, cr_lsis = lsis, cr_vector_indexes = vsis, cr_stream = stream,
        cr_sse = sse, cr_table_class = cls, cr_deletion_protection = dp, cr_tags = tags\<rparr>"

section \<open>The statement a table is shown as\<close>

definition shown_keys :: "table_key_schema \<Rightarrow> key_schema" where
  "shown_keys ks = \<lparr>ks_hash = hash_keys ks, ks_range = range_keys ks\<rparr>"

definition shown_projection :: "projection \<Rightarrow> projection" where
  "shown_projection p = (if pj_type p = Projection_include then p else p\<lparr>pj_non_key_attributes := []\<rparr>)"

definition shown_gsi :: "bool \<Rightarrow> secondary_index_schema \<Rightarrow> gsi" where
  "shown_gsi demand g =
     \<lparr>gsi_name = ix_index_name g, gsi_key_schema = shown_keys (ix_key_schema g),
      gsi_projection = shown_projection (ix_projection g),
      gsi_billing = Some (if demand then on_demand no_limits
        else provisioned (ix_provisioned_read_capacity_units g) (ix_provisioned_write_capacity_units g)),
      gsi_warm = None\<rparr>"

definition shown_lsi :: "secondary_index_schema \<Rightarrow> lsi" where
  "shown_lsi l = \<lparr>lsi_name = ix_index_name l, lsi_key_schema = shown_keys (ix_key_schema l),
     lsi_projection = shown_projection (ix_projection l)\<rparr>"

definition all_attributes :: projection where
  "all_attributes = \<lparr>pj_type = Projection_all, pj_non_key_attributes = []\<rparr>"

definition shown_vsi :: "vector_index_schema \<Rightarrow> vector_index_def" where
  "shown_vsi v =
     \<lparr>vd_index_name = vi_index_name v, vd_vector_attr = vi_vector_attr v, vd_dimensions = vi_dimensions v,
      vd_distance = vi_distance v, vd_search_schema = vi_search_schema v,
      vd_projection = (if vi_projection_set v then shown_projection (vi_projection v) else all_attributes)\<rparr>"

definition shown_billing :: "describe_table_out \<Rightarrow> billing_mode_and_throughput option" where
  "shown_billing td =
     (if dt_billing_mode_summary td = Some ''PAY_PER_REQUEST'' then Some (on_demand no_limits)
      else if dt_billing_mode_summary td = Some ''PROVISIONED'' \<or> dt_billing_mode_summary td = None \<and> dt_provisioned_throughput_set td
      then Some (provisioned (dt_provisioned_read_capacity_units td) (dt_provisioned_write_capacity_units td))
      else None)"

definition shown_view :: "string \<Rightarrow> stream_view_type" where
  "shown_view v =
     (if v = ''NEW_IMAGE'' then New_image else if v = ''OLD_IMAGE'' then Old_image
      else if v = ''KEYS_ONLY'' then Stream_keys_only else New_and_old_images)"

definition shown_stream :: "describe_table_out \<Rightarrow> stream_spec option" where
  "shown_stream td =
     (if \<not> dt_stream_specification_set td then None
      else Some (case dt_stream_view_type td of
          None \<Rightarrow> \<lparr>ss_enabled = False, ss_view_type = Stream_keys_only\<rparr>
        | Some v \<Rightarrow> \<lparr>ss_enabled = True, ss_view_type = shown_view v\<rparr>))"

definition shown_table :: "show_create_table_cmd \<Rightarrow> describe_table_out \<Rightarrow> create_table_cmd" where
  "shown_table cmd td =
     \<lparr>cr_table_name = dt_table_name td, cr_if_not_exists = sc_if_not_exists cmd, cr_nowait = sc_nowait cmd,
      cr_attribute_definitions = dt_attribute_definitions td, cr_key_schema = shown_keys (dt_key_schema td),
      cr_billing = shown_billing td, cr_warm = None,
      cr_gsis = map (shown_gsi (table_on_demand td)) (dt_global_secondary_indexes td),
      cr_lsis = map shown_lsi (dt_local_secondary_indexes td), cr_vector_indexes = map shown_vsi (dt_vector_indexes td),
      cr_stream = shown_stream td, cr_sse = None,
      cr_table_class = (if dt_table_class_summary td = Some ''STANDARD_INFREQUENT_ACCESS'' then Standard_infrequent_access else Standard),
      cr_deletion_protection = dt_deletion_protection_enabled td, cr_tags = []\<rparr>"

text \<open>The descriptions whose statement can be read: names that fit between quotes, keys everywhere, numbers of
  a \<open>long long\<close>, and projected attributes that need no quotes, since the statement gives them none.\<close>

definition keys_ok :: "table_key_schema \<Rightarrow> bool" where
  "keys_ok ks \<longleftrightarrow> (hash_keys ks \<noteq> [] \<or> range_keys ks \<noteq> []) \<and> list_all plain_text (hash_keys ks @ range_keys ks)"

definition projection_ok :: "projection \<Rightarrow> bool" where
  "projection_ok p \<longleftrightarrow> (pj_type p = Projection_include \<longrightarrow>
     pj_non_key_attributes p \<noteq> [] \<and> list_all bare_name (pj_non_key_attributes p))"

definition index_ok :: "secondary_index_schema \<Rightarrow> bool" where
  "index_ok g \<longleftrightarrow> plain_text (ix_index_name g) \<and> keys_ok (ix_key_schema g) \<and> projection_ok (ix_projection g) \<and>
     in_long_long (ix_provisioned_read_capacity_units g) \<and> in_long_long (ix_provisioned_write_capacity_units g)"

definition vector_ok :: "vector_index_schema \<Rightarrow> bool" where
  "vector_ok v \<longleftrightarrow> plain_text (vi_index_name v) \<and> plain_text (vi_vector_attr v) \<and> in_long_long (vi_dimensions v) \<and>
     list_all (\<lambda>e. plain_text (se_attr e)) (vi_search_schema v) \<and> (vi_projection_set v \<longrightarrow> projection_ok (vi_projection v))"

definition description_ok :: "describe_table_out \<Rightarrow> bool" where
  "description_ok td \<longleftrightarrow> plain_text (dt_table_name td) \<and> dt_attribute_definitions td \<noteq> [] \<and>
     list_all (\<lambda>a. plain_text (ad_name a)) (dt_attribute_definitions td) \<and> keys_ok (dt_key_schema td) \<and>
     in_long_long (dt_provisioned_read_capacity_units td) \<and> in_long_long (dt_provisioned_write_capacity_units td) \<and>
     list_all index_ok (dt_global_secondary_indexes td) \<and> list_all index_ok (dt_local_secondary_indexes td) \<and>
     list_all vector_ok (dt_vector_indexes td) \<and>
     (case dt_stream_view_type td of None \<Rightarrow> True
      | Some v \<Rightarrow> v \<in> set [''NEW_IMAGE'', ''OLD_IMAGE'', ''KEYS_ONLY'', ''NEW_AND_OLD_IMAGES''])"


section \<open>Reading the pieces\<close>

lemma comma_list_separated: "separated E ts vs \<Longrightarrow> comma_list E ts vs"
proof (induction rule: separated.induct)
  case (sep_cons ts v us vs)
  have "comma_list E us vs \<Longrightarrow> comma_list E (ts @ comma # us) (v # vs)"
  proof (induction us vs rule: comma_list.induct)
    case (cl_one us w)
    then show ?case using cl_more [OF comma_list.cl_one [of E ts v] , of us w] sep_cons by simp
  next
    case (cl_more us vs xs w)
    then show ?case using comma_list.cl_more [of E "ts @ comma # us" "v # vs" xs w] by simp
  qed
  then show ?case using sep_cons by (simp add: comma_def)
qed (simp add: cl_one)

lemma scans_list:
  assumes "xs \<noteq> []" and "\<And>x. x \<in> set xs \<Longrightarrow> \<exists>ts. scans (f x) ts \<and> E ts (g x)"
  shows "\<exists>ts. scans (join_with '', '' (map f xs)) ts \<and> comma_list E ts (map g xs)"
proof -
  from scans_joined [OF assms(1), of f "\<lambda>ts x. E ts (g x)"] assms(2)
  obtain ts where ts: "scans (join_with '', '' (map f xs)) ts" "separated (\<lambda>ts x. E ts (g x)) ts xs" by blast
  from ts(2) have "separated E ts (map g xs)" by (induction rule: separated.induct) (auto intro: separated.intros)
  then show ?thesis using ts(1) comma_list_separated by blast
qed

lemma in_quotes_quoted: "in_quotes s = quoted s"
  by (simp add: in_quotes_def quoted_def)

lemma quoted_name:
  assumes "plain_text s"
  shows "\<exists>ts. scans (in_quotes s) ts \<and> g_string ts s"
  using scans_quoted [OF assms] string_quoted [of "quoted s"] unfolding in_quotes_quoted unquote_quoted by blast

lemma clamp_in_range: "in_long_long i \<Longrightarrow> clamp_ll i = i"
  by (simp add: clamp_ll_def in_long_long_def)

lemma digit_not_special:
  assumes "Prepared.is_digit c"
  shows "c \<noteq> CHR ''-'' \<and> c \<noteq> CHR ''+'' \<and> c \<noteq> CHR 0x00 \<and>
    \<not> (c \<in> set '' '' \<or> c \<in> {CHR 0x09, CHR 0x0A, CHR 0x0B, CHR 0x0C, CHR 0x0D})"
  using assms unfolding Prepared.is_digit_def by (simp only: list.set insert_iff empty_iff) (elim disjE FalseE; simp)

lemma from_chars_parse_ll:
  assumes "from_chars_ll s = Some i"
  shows "parse_ll s = i"
proof -
  define neg where "neg = (case s of c # _ \<Rightarrow> c = CHR ''-'' | [] \<Rightarrow> False)"
  define ds where "ds = (if neg then tl s else s)"
  have ds: "ds \<noteq> []" "list_all Prepared.is_digit ds" "i = (if neg then - digits_val ds else digits_val ds)" "in_long_long i"
    using assms by (auto simp: from_chars_ll_def neg_def [symmetric] ds_def Let_def split: if_splits)
  have s: "s = (if neg then CHR ''-'' # ds else ds)" by (cases s) (auto simp: neg_def ds_def)
  obtain d dr where d: "ds = d # dr" "Prepared.is_digit d" using ds(1,2) by (cases ds) auto
  have "\<forall>c \<in> set ds. c \<noteq> CHR 0x00" using ds(2) digit_not_special unfolding list_all_iff by blast
  then have "c_str s = s" by (auto simp: no_nul_def s)
  moreover have "dropWhile (\<lambda>c. c \<in> set '' '' \<or> c \<in> {CHR 0x09, CHR 0x0A, CHR 0x0B, CHR 0x0C, CHR 0x0D}) s = s"
    using digit_not_special [OF d(2)] by (simp add: s d(1))
  moreover have "take_sign s = (neg, ds)" using digit_not_special [OF d(2)] by (simp add: take_sign_def s d(1))
  moreover have "takeWhile Prepared.is_digit ds = ds" using ds(2) by (simp add: takeWhile_eq_all_conv list_all_iff)
  ultimately have "parse_ll s = clamp_ll i" by (simp only: parse_ll_def Let_def prod.case ds(3))
  then show ?thesis using ds(4) by (simp add: clamp_in_range)
qed

lemma printed_parse_ll: "in_long_long i \<Longrightarrow> parse_ll (to_string_int i) = i"
  using as_int_reads_back [of i] by (intro from_chars_parse_ll) (simp add: in_long_long_def)

lemma to_string_leading: "n \<noteq> 0 \<Longrightarrow> \<exists>c cs. to_string n = c # cs \<and> c \<noteq> CHR ''0''"
proof (induction n rule: to_string.induct)
  case (1 n)
  show ?case
  proof (cases "n < 10")
    case True
    then have "to_string n = [digit n]" by (simp add: to_string.simps [of n])
    moreover have "digit n \<noteq> CHR ''0''" using digit_val_digit [OF True] 1(2) by (auto simp: digit_val_def)
    ultimately show ?thesis by simp
  next
    case False
    then have "n div 10 \<noteq> 0" "to_string n = to_string (n div 10) @ [digit (n mod 10)]" by (simp_all add: to_string.simps [of n])
    then show ?thesis using 1(1) [OF False] by auto
  qed
qed

lemma whole_digits:
  assumes "n \<noteq> 0"
  shows "matches (fst (lex_rules ! 5)) (to_string n)" "matches (fst (lex_rules ! 5)) (CHR ''-'' # to_string n)"
proof -
  obtain c cs where c: "to_string n = c # cs" "c \<noteq> CHR ''0''" using to_string_leading [OF assms] by blast
  have "list_all Prepared.is_digit (c # cs)"
    using to_string_chars [of n] unfolding c(1) list_all_iff Prepared.is_digit_def by blast
  then have m: "matches (R_seq (R_char (\<lambda>c. Prepared.is_digit c \<and> c \<noteq> CHR ''0'')) (R_star R_digit)) ([c] @ cs)"
    using c(2) unfolding R_digit_def by (intro m_seq m_char star_chars) auto
  have "matches minus_sign []" "matches minus_sign ''-''" by (auto simp: minus_sign_def R_opt_def R_one_def)
  from m_seq [OF this(1) m] m_seq [OF this(2) m]
  show "matches (fst (lex_rules ! 5)) (to_string n)" "matches (fst (lex_rules ! 5)) (CHR ''-'' # to_string n)"
    by (simp_all add: wordish_rules(1) c(1))
qed

lemma printed_whole: "whole_text (to_string_int i)"
proof (cases "i = 0")
  case True
  then have "to_string_int i = ''0''" by (simp add: to_string_int_def to_string.simps [of 0] digit_def)
  then show ?thesis by (simp add: whole_text_def wordish_rules(2) R_one_def)
next
  case False
  then show ?thesis using whole_digits [of "nat i"] whole_digits [of "nat (- i)"]
    by (auto simp: whole_text_def to_string_int_def)
qed

lemma scans_printed: "scans (to_string_int i) [whole (to_string_int i)]"
  using scans_number [of "to_string_int i"] printed_whole [of i] by (simp add: number_text_def number_token_def whole_def)

lemma scans_wrapped:
  assumes "scans_always s ts" and "scans t us" and "scans_always u vs" and "delimited u" and "u \<noteq> []"
  shows "scans_always (s @ t @ u) (ts @ us @ vs)"
  using scans_always_append [OF assms(1) scans_then_always [OF assms(2-5)]] .

text \<open>The fixed pieces of the statement, scanned by evaluation: those that scan alike before any text, and those
  that end in a word.\<close>

definition fixed_pieces :: "(string \<times> token list) list \<Rightarrow> bool" where
  "fixed_pieces ps = list_all (\<lambda>p. fixed_tokens (fst p) = Some (snd p) \<and> ends_delimited (fst p)) ps"

definition fixed_phrases :: "(string \<times> token list) list \<Rightarrow> bool" where
  "fixed_phrases ps = list_all (\<lambda>p. fixed_tokens (fst p) = Some (snd p)) ps"

lemma piece: "fixed_pieces ps \<Longrightarrow> i < length ps \<Longrightarrow> scans_always (fst (ps ! i)) (snd (ps ! i))"
  by (simp add: fixed_pieces_def list_all_length scans_fixed)

lemma phrase: "fixed_phrases ps \<Longrightarrow> i < length ps \<Longrightarrow> scans (fst (ps ! i)) (snd (ps ! i))"
  by (simp add: fixed_phrases_def list_all_length scans_phrase)

lemma punctuation: "fixed_pieces
  [(''('', [Raw_char (CHR ''('')]),
   (''( '', [Raw_char (CHR ''('')]),
   ('')'', [Raw_char (CHR '')'')]),
   ('') '', [Raw_char (CHR '')'')]),
   ('' )'', [Raw_char (CHR '')'')]),
   ('' ) '', [Raw_char (CHR '')'')]),
   ('', '', [comma]),
   ('' '', []),
   ('' ('', [Raw_char (CHR ''('')]),
   ('') PRIMARY KEY '', [Raw_char (CHR '')''), kw ''K_PRIMARY'', kw ''K_KEY''])]"
  by code_simp

lemmas open_paren = piece [OF punctuation, of 0, simplified] piece [OF punctuation, of 1, simplified]
lemmas close_paren = piece [OF punctuation, of 2, simplified] piece [OF punctuation, of 3, simplified] piece [OF punctuation, of 4, simplified] piece [OF punctuation, of 5, simplified]
lemmas comma_piece = piece [OF punctuation, of 6, simplified]
lemmas blank_piece = piece [OF punctuation, of 7, simplified]
lemmas table_parts = piece [OF punctuation, of 8, simplified] piece [OF punctuation, of 9, simplified]

lemma index_pieces: "fixed_pieces
  [(''PROJECTING INCLUDE ('', [kw ''K_PROJECTING'', kw ''K_INCLUDE'', Raw_char (CHR ''('')]),
   (''BILLING MODE PROVISIONED ( '', [kw ''K_BILLING'', kw ''K_MODE'', kw ''K_PROVISIONED'', Raw_char (CHR ''('')]),
   ('' RCU, '', [kw ''K_RCU'', comma]),
   ('' WCU ) '', [kw ''K_WCU'', Raw_char (CHR '')'')]),
   (''BILLING MODE ON DEMAND '', [kw ''K_BILLING'', kw ''K_MODE'', kw ''K_ON'', kw ''K_DEMAND'']),
   ('' ON '', [kw ''K_ON'']),
   (''GSI ('', [kw ''K_GSI'', Raw_char (CHR ''('')]),
   (''LSI ('', [kw ''K_LSI'', Raw_char (CHR ''('')]),
   (''VSI ('', [kw ''K_VSI'', Raw_char (CHR ''('')]),
   ('' DIMENSIONS '', [kw ''K_DIMENSIONS'']),
   ('' DISTANCE '', [kw ''K_DISTANCE'']),
   ('' SEARCH KEY ( '', [kw ''K_SEARCH'', kw ''K_KEY'', Raw_char (CHR ''('')])]"
  by code_simp

lemmas include_word = piece [OF index_pieces, of 0, simplified]
lemmas billing_words = piece [OF index_pieces, of 1, simplified] piece [OF index_pieces, of 2, simplified] piece [OF index_pieces, of 3, simplified] piece [OF index_pieces, of 4, simplified]
lemmas on_word = piece [OF index_pieces, of 5, simplified]
lemmas index_words = piece [OF index_pieces, of 6, simplified] piece [OF index_pieces, of 7, simplified] piece [OF index_pieces, of 8, simplified]
lemmas vector_words = piece [OF index_pieces, of 9, simplified] piece [OF index_pieces, of 10, simplified] piece [OF index_pieces, of 11, simplified]

lemma table_pieces: "fixed_pieces
  [(''CREATE TABLE '', [kw ''K_CREATE'', kw ''K_TABLE'']),
   (''IF NOT EXISTS '', [kw ''K_IF'', kw ''K_NOT'', kw ''K_EXISTS'']),
   (''NOWAIT '', [kw ''K_NOWAIT'']),
   (''STREAM ( NEW IMAGE ) '', [kw ''K_STREAM'', Raw_char (CHR ''(''), kw ''K_NEW'', kw ''K_IMAGE'', Raw_char (CHR '')'')]),
   (''STREAM ( OLD IMAGE ) '', [kw ''K_STREAM'', Raw_char (CHR ''(''), kw ''K_OLD'', kw ''K_IMAGE'', Raw_char (CHR '')'')]),
   (''STREAM ( KEYS ONLY ) '', [kw ''K_STREAM'', Raw_char (CHR ''(''), kw ''K_KEYS'', kw ''K_ONLY'', Raw_char (CHR '')'')]),
   (''STREAM ( BOTH IMAGES ) '', [kw ''K_STREAM'', Raw_char (CHR ''(''), kw ''K_BOTH'', kw ''K_IMAGES'', Raw_char (CHR '')'')]),
   (''STREAM DISABLED '', [kw ''K_STREAM'', kw ''K_DISABLED'']),
   (''TABLE CLASS STANDARD INFREQUENT ACCESS '', [kw ''K_TABLE'', kw ''K_CLASS'', kw ''K_STANDARD'', kw ''K_INFREQUENT'', kw ''K_ACCESS'']),
   (''TABLE CLASS STANDARD '', [kw ''K_TABLE'', kw ''K_CLASS'', kw ''K_STANDARD''])]"
  by code_simp

lemmas create_words = piece [OF table_pieces, of 0, simplified] piece [OF table_pieces, of 1, simplified] piece [OF table_pieces, of 2, simplified]
lemmas stream_words = piece [OF table_pieces, of 3, simplified] piece [OF table_pieces, of 4, simplified] piece [OF table_pieces, of 5, simplified] piece [OF table_pieces, of 6, simplified] piece [OF table_pieces, of 7, simplified]
lemmas class_words = piece [OF table_pieces, of 8, simplified] piece [OF table_pieces, of 9, simplified]

lemma ending_words: "fixed_phrases
  [('' HASH'', [kw ''K_HASH'']),
   ('' RANGE'', [kw ''K_RANGE'']),
   ('' FILTER'', [kw ''K_FILTER'']),
   (''PROJECTING ALL'', [kw ''K_PROJECTING'', kw ''K_ALL'']),
   (''PROJECTING KEYS ONLY'', [kw ''K_PROJECTING'', kw ''K_KEYS'', kw ''K_ONLY'']),
   (''COSINE'', [kw ''K_COSINE'']),
   (''EUCLIDEAN'', [kw ''K_EUCLIDEAN'']),
   (''DOT_PRODUCT'', [kw ''K_DOT_PRODUCT'']),
   ('' string'', [kw ''K_ATTRIBUTE_TYPE_STRING'']),
   ('' number'', [kw ''K_ATTRIBUTE_TYPE_NUMBER'']),
   ('' binary'', [kw ''K_ATTRIBUTE_TYPE_BINARY'']),
   (''DELETION PROTECTION ENABLED'', [kw ''K_DELETION'', kw ''K_PROTECTION'', kw ''K_ENABLED'']),
   (''DELETION PROTECTION DISABLED'', [kw ''K_DELETION'', kw ''K_PROTECTION'', kw ''K_DISABLED''])]"
  by code_simp

lemmas role_words = phrase [OF ending_words, of 0, simplified] phrase [OF ending_words, of 1, simplified] phrase [OF ending_words, of 2, simplified]
lemmas projection_words = phrase [OF ending_words, of 3, simplified] phrase [OF ending_words, of 4, simplified]
lemmas distance_words = phrase [OF ending_words, of 5, simplified] phrase [OF ending_words, of 6, simplified] phrase [OF ending_words, of 7, simplified]
lemmas type_words = phrase [OF ending_words, of 8, simplified] phrase [OF ending_words, of 9, simplified] phrase [OF ending_words, of 10, simplified]
lemmas deletion_words = phrase [OF ending_words, of 11, simplified] phrase [OF ending_words, of 12, simplified]

section \<open>Keys\<close>

lemma names_read:
  assumes "as \<noteq> []" and "list_all plain_text as"
  shows "\<exists>ts. scans (join_with '', '' (map in_quotes as)) ts \<and> comma_list g_string ts as"
  using scans_list [OF assms(1), of in_quotes g_string id] quoted_name assms(2) by (simp add: list_all_iff)

lemma role_reads:
  assumes "as \<noteq> []" and "list_all plain_text as" and "scans ('' '' @ k) [t]"
  shows "\<exists>ts. key_attr_group ts as \<and> scans (role_text as k) (ts @ [t])"
proof (cases "\<exists>a. as = [a]")
  case True
  then obtain a where a: "as = [a]" by blast
  obtain ts where ts: "scans (in_quotes a) ts" "g_string ts a" using quoted_name [of a] assms(2) a by auto
  have "scans (in_quotes a @ '' '' @ k) (ts @ [t])" using scans_then [OF ts(1) assms(3)] by (simp add: delimited_Cons)
  then show ?thesis using kag_one [OF ts(2)] by (auto simp: role_text_def a)
next
  case False
  obtain ts where ts: "scans (join_with '', '' (map in_quotes as)) ts" "comma_list g_string ts as"
    using names_read [OF assms(1,2)] by blast
  have "role_text as k = (''('' @ join_with '', '' (map in_quotes as) @ '')'') @ '' '' @ k"
    using False by (simp add: role_text_def split: list.split)
  moreover have "scans_always (''('' @ join_with '', '' (map in_quotes as) @ '')'') (in_parens ts)"
    using scans_wrapped [OF open_paren(1) ts(1) close_paren(1)] by (simp add: delimited_Cons in_parens_def)
  ultimately show ?thesis using kag_list [OF ts(2)] scans_append [OF _ assms(3)] by metis
qed

lemma keys_read:
  assumes "keys_ok ks"
  shows "\<exists>ts. scans (key_description ks) ts \<and> key_role_list ts (shown_keys ks)"
proof -
  have hash: "\<exists>ts. scans (role_text (hash_keys ks) ''HASH'') ts \<and> key_role ts (True, hash_keys ks)" if "hash_keys ks \<noteq> []"
    using role_reads [OF that, of "''HASH''" "kw ''K_HASH''"] assms role_words(1) kr_hash by (fastforce simp: keys_ok_def)
  have range: "\<exists>ts. scans (role_text (range_keys ks) ''RANGE'') ts \<and> key_role ts (False, range_keys ks)" if "range_keys ks \<noteq> []"
    using role_reads [OF that, of "''RANGE''" "kw ''K_RANGE''"] assms role_words(2) kr_range by (fastforce simp: keys_ok_def)
  consider "range_keys ks = []" "hash_keys ks \<noteq> []" | "hash_keys ks = []" "range_keys ks \<noteq> []"
    | "hash_keys ks \<noteq> []" "range_keys ks \<noteq> []" using assms by (auto simp: keys_ok_def)
  then show ?thesis
  proof cases
    case 1
    then show ?thesis using hash krl_one
      by (fastforce simp: key_description_def shown_keys_def no_keys_def add_key_role_def)
  next
    case 2
    then show ?thesis using range krl_one
      by (fastforce simp: key_description_def shown_keys_def no_keys_def add_key_role_def)
  next
    case 3
    obtain ts where ts: "scans (role_text (hash_keys ks) ''HASH'') ts" "key_role ts (True, hash_keys ks)" using hash 3 by blast
    obtain us where us: "scans (role_text (range_keys ks) ''RANGE'') us" "key_role us (False, range_keys ks)" using range 3 by blast
    have "scans (key_description ks) (ts @ [comma] @ us)"
      using scans_then [OF ts(1) scans_append [OF comma_piece us(1)]] 3 by (simp add: key_description_def delimited_Cons)
    then show ?thesis using krl_more [OF krl_one [OF ts(2)] us(2)]
      by (auto simp: shown_keys_def no_keys_def add_key_role_def)
  qed
qed

lemma key_schema_reads:
  assumes "keys_ok ks"
  shows "\<exists>ts. g_key_schema ts (shown_keys ks) \<and> scans_always (''('' @ key_description ks @ '') '') ts \<and>
    scans_always (''( '' @ key_description ks @ '' ) '') ts"
proof -
  obtain ts where ts: "scans (key_description ks) ts" "key_role_list ts (shown_keys ks)" using keys_read [OF assms] by blast
  from scans_wrapped [OF open_paren(1) ts(1) close_paren(2)] scans_wrapped [OF open_paren(2) ts(1) close_paren(4)] g_ks [OF ts(2)]
  show ?thesis by (auto simp: delimited_Cons in_parens_def)
qed

section \<open>Indexes\<close>

lemma projection_reads:
  assumes "projection_ok p"
  shows "\<exists>ts. scans (projection_ddl p) ts \<and> index_projection ts (shown_projection p)"
proof (cases "pj_type p")
  case Projection_all
  then have "shown_projection p = \<lparr>pj_type = Projection_all, pj_non_key_attributes = []\<rparr>"
    by (cases p) (simp add: shown_projection_def)
  then show ?thesis using projection_words(1) ip_all Projection_all by (auto simp: projection_ddl_def)
next
  case Projection_keys_only
  then have "shown_projection p = \<lparr>pj_type = Projection_keys_only, pj_non_key_attributes = []\<rparr>"
    by (cases p) (simp add: shown_projection_def)
  then show ?thesis using projection_words(2) ip_keys Projection_keys_only by (auto simp: projection_ddl_def)
next
  case Projection_include
  define as where "as = pj_non_key_attributes p"
  have p: "shown_projection p = \<lparr>pj_type = Projection_include, pj_non_key_attributes = as\<rparr>"
    using Projection_include by (cases p) (simp add: shown_projection_def as_def)
  have as: "as \<noteq> []" "list_all bare_name as" using assms Projection_include by (simp_all add: projection_ok_def as_def)
  obtain ts where ts: "scans (join_with '', '' as) ts" "comma_list g_string ts as"
    using scans_list [OF as(1), of id g_string id] scans_bare_name string_bare as(2) by (fastforce simp: list_all_iff)
  have "scans (projection_ddl p) ([kw ''K_PROJECTING'', kw ''K_INCLUDE''] @ in_parens ts)"
    using scans_always_scans [OF scans_wrapped [OF include_word ts(1) close_paren(1)]] Projection_include
    by (simp add: projection_ddl_def as_def [symmetric] in_parens_def delimited_Cons)
  then show ?thesis using ip_include [OF ts(2)] p by metis
qed

lemma provisioned_reads:
  assumes "in_long_long r" and "in_long_long w"
  shows "\<exists>ts. scans_always (billing_mode_provisioned r w) ts \<and> billing_mode_and_throughput_g ts (provisioned r w)"
proof -
  have "scans_always (''BILLING MODE PROVISIONED ( '' @ to_string_int r @ '' RCU, '')
      ([kw ''K_BILLING'', kw ''K_MODE'', kw ''K_PROVISIONED'', Raw_char (CHR ''('')] @ [whole (to_string_int r)] @ [kw ''K_RCU'', comma])"
    by (rule scans_wrapped [OF billing_words(1) scans_printed billing_words(2)]) (simp_all add: delimited_Cons)
  from scans_wrapped [OF this scans_printed billing_words(3)]
  have "scans_always (billing_mode_provisioned r w)
      ([kw ''K_BILLING'', kw ''K_MODE'', kw ''K_PROVISIONED''] @ units (to_string_int r) ''K_RCU'' (to_string_int w) ''K_WCU'')"
    by (simp add: billing_mode_provisioned_def delimited_Cons units_def in_parens_def)
  then show ?thesis using bm_provisioned_rw printed_parse_ll assms by metis
qed

lemma index_reads:
  assumes "index_ok g"
  shows "\<exists>ss ks ps. scans_always (index_ddl g) (ss @ kw ''K_ON'' # ks @ ps) \<and> g_string ss (ix_index_name g) \<and>
    g_key_schema ks (shown_keys (ix_key_schema g)) \<and> index_projection ps (shown_projection (ix_projection g))"
proof -
  obtain ss where ss: "scans (in_quotes (ix_index_name g)) ss" "g_string ss (ix_index_name g)"
    using quoted_name assms index_ok_def by metis
  obtain ks where ks: "g_key_schema ks (shown_keys (ix_key_schema g))"
    "scans_always (''( '' @ key_description (ix_key_schema g) @ '' ) '') ks"
    using key_schema_reads assms index_ok_def by metis
  obtain ps where ps: "scans (projection_ddl (ix_projection g)) ps" "index_projection ps (shown_projection (ix_projection g))"
    using projection_reads assms index_ok_def by metis
  have "scans_always (in_quotes (ix_index_name g) @ '' ON '') (ss @ [kw ''K_ON''])"
    using scans_then_always [OF ss(1) on_word] by (simp add: delimited_Cons)
  moreover have "scans_always (projection_ddl (ix_projection g) @ '' '') (ps @ [])"
    using scans_then_always [OF ps(1) blank_piece] by (simp add: delimited_Cons)
  ultimately have "scans_always (index_ddl g) (ss @ kw ''K_ON'' # ks @ ps)"
    using scans_always_append [OF _ scans_always_append [OF ks(2)]] by (force simp: index_ddl_def)
  then show ?thesis using ss(2) ks(1) ps(2) by blast
qed

lemma lsi_reads: "index_ok l \<Longrightarrow> \<exists>ts. scans (index_ddl l) ts \<and> g_lsi ts (shown_lsi l)"
  using index_reads [of l] lsi_rule scans_always_scans unfolding shown_lsi_def by blast

definition gsi_ddl :: "bool \<Rightarrow> secondary_index_schema \<Rightarrow> string" where
  "gsi_ddl demand g = index_ddl g @
     (if \<not> demand then billing_mode_provisioned (ix_provisioned_read_capacity_units g) (ix_provisioned_write_capacity_units g)
      else billing_mode_on_demand)"

lemma gsi_reads:
  assumes "index_ok g"
  shows "\<exists>ts. scans (gsi_ddl demand g) ts \<and> g_gsi ts (shown_gsi demand g)"
proof -
  obtain ss ks ps where i: "scans_always (index_ddl g) (ss @ kw ''K_ON'' # ks @ ps)" "g_string ss (ix_index_name g)"
    "g_key_schema ks (shown_keys (ix_key_schema g))" "index_projection ps (shown_projection (ix_projection g))"
    using index_reads [OF assms] by blast
  obtain bs where bs: "scans_always (if \<not> demand then billing_mode_provisioned (ix_provisioned_read_capacity_units g)
      (ix_provisioned_write_capacity_units g) else billing_mode_on_demand) bs"
    "billing_mode_and_throughput_g bs (if demand then on_demand no_limits
      else provisioned (ix_provisioned_read_capacity_units g) (ix_provisioned_write_capacity_units g))"
    using provisioned_reads [of "ix_provisioned_read_capacity_units g" "ix_provisioned_write_capacity_units g"] assms
      billing_words(4) bm_demand by (cases demand) (auto simp: index_ok_def billing_mode_on_demand_def)
  have "g_gsi (ss @ kw ''K_ON'' # ks @ ps @ bs @ []) (shown_gsi demand g)"
    unfolding shown_gsi_def by (intro gsi_rule i(2-4) opt_present bs(2) opt_absent)
  moreover have "scans (gsi_ddl demand g) (ss @ kw ''K_ON'' # ks @ ps @ bs @ [])"
    using scans_always_scans [OF scans_always_append [OF i(1) bs(1)]] by (simp add: gsi_ddl_def)
  ultimately show ?thesis by blast
qed

definition search_element_ddl :: "search_schema_elem \<Rightarrow> string" where
  "search_element_ddl e = in_quotes (se_attr e) @ '' '' @ (if se_kind e = Search_hash then ''HASH'' else ''FILTER'')"

lemma search_element_reads:
  assumes "plain_text (se_attr e)"
  shows "\<exists>ts. scans (search_element_ddl e) ts \<and> vector_search_schema_element ts e"
proof -
  obtain ss where ss: "scans (in_quotes (se_attr e)) ss" "g_string ss (se_attr e)" using quoted_name [OF assms] by blast
  have e: "e = \<lparr>se_attr = se_attr e, se_kind = se_kind e\<rparr>" by simp
  show ?thesis
  proof (cases "se_kind e")
    case Search_hash
    then have "scans (search_element_ddl e) (ss @ [kw ''K_HASH''])"
      using scans_then [OF ss(1) role_words(1)] by (simp add: search_element_ddl_def delimited_Cons)
    then show ?thesis using vse_hash [OF ss(2)] e Search_hash by metis
  next
    case Inline_filter
    then have "scans (search_element_ddl e) (ss @ [kw ''K_FILTER''])"
      using scans_then [OF ss(1) role_words(3)] by (simp add: search_element_ddl_def delimited_Cons)
    then show ?thesis using vse_filter [OF ss(2)] e Inline_filter by metis
  qed
qed

definition search_ddl :: "search_schema_elem list \<Rightarrow> string" where
  "search_ddl es =
     (if es = [] then [] else '' SEARCH KEY ( '' @ join_with '', '' (map search_element_ddl es) @ '' )'') @ '' ''"

lemma search_reads:
  assumes "list_all (\<lambda>e. plain_text (se_attr e)) es"
  shows "\<exists>ks. scans_always (search_ddl es) ks \<and> optional [] id search_key ks es"
proof (cases "es = []")
  case True
  then show ?thesis using blank_piece opt_absent [of "[]" id search_key] by (auto simp: search_ddl_def)
next
  case False
  obtain ts where ts: "scans (join_with '', '' (map search_element_ddl es)) ts" "comma_list vector_search_schema_element ts es"
    using scans_list [OF False, of search_element_ddl vector_search_schema_element id] search_element_reads assms
    by (auto simp: list_all_iff)
  have "scans_always (search_ddl es) ([kw ''K_SEARCH'', kw ''K_KEY''] @ in_parens ts)"
    using scans_wrapped [OF vector_words(3) ts(1) close_paren(4)] False by (simp add: search_ddl_def in_parens_def delimited_Cons)
  moreover have "optional [] id search_key ([kw ''K_SEARCH'', kw ''K_KEY''] @ in_parens ts) (id es)"
    by (intro opt_present sk_rule ts(2))
  ultimately show ?thesis by auto
qed

lemma distance_reads: "\<exists>ts. scans (vsi_distance_ddl d) ts \<and> vector_distance_function ts d"
  using distance_words vdf_cosine vdf_euclidean vdf_dot by (cases d) (auto simp: vsi_distance_ddl_def)

lemma vsi_ddl_parts:
  "vsi_ddl v = (in_quotes (vi_index_name v) @ '' ON '') @ (in_quotes (vi_vector_attr v) @ '' DIMENSIONS '') @
     (to_string_int (vi_dimensions v) @ '' DISTANCE '') @ (vsi_distance_ddl (vi_distance v) @ search_ddl (vi_search_schema v)) @
     projection_ddl (vd_projection (shown_vsi v))"
  by (simp add: vsi_ddl_def search_ddl_def search_element_ddl_def [abs_def] shown_vsi_def projection_ddl_def shown_projection_def all_attributes_def
      split: projection_type.split)

lemma shown_projection_ok: "vector_ok v \<Longrightarrow> \<exists>ps. scans (projection_ddl (vd_projection (shown_vsi v))) ps \<and>
    index_projection ps (vd_projection (shown_vsi v))"
  using projection_reads [of "vd_projection (shown_vsi v)"]
  by (auto simp: vector_ok_def shown_vsi_def shown_projection_def projection_ok_def all_attributes_def)

lemma search_ddl_delimited: "delimited (search_ddl es)" "search_ddl es \<noteq> []"
  by (simp_all add: search_ddl_def delimited_Cons)

lemma vsi_reads:
  assumes "vector_ok v"
  shows "\<exists>ts. scans (vsi_ddl v) ts \<and> vector_index ts (shown_vsi v)"
proof -
  obtain ss where ss: "scans (in_quotes (vi_index_name v)) ss" "g_string ss (vi_index_name v)"
    using quoted_name assms vector_ok_def by metis
  obtain as where as: "scans (in_quotes (vi_vector_attr v)) as" "g_string as (vi_vector_attr v)"
    using quoted_name assms vector_ok_def by metis
  obtain ds where ds: "scans (vsi_distance_ddl (vi_distance v)) ds" "vector_distance_function ds (vi_distance v)"
    using distance_reads by blast
  obtain ks where ks: "scans_always (search_ddl (vi_search_schema v)) ks" "optional [] id search_key ks (vi_search_schema v)"
    using search_reads assms vector_ok_def by metis
  obtain ps where ps: "scans (projection_ddl (vd_projection (shown_vsi v))) ps" "index_projection ps (vd_projection (shown_vsi v))"
    using shown_projection_ok [OF assms] by blast
  let ?n = "to_string_int (vi_dimensions v)"
  have a: "scans_always (in_quotes (vi_index_name v) @ '' ON '') (ss @ [kw ''K_ON''])"
    using scans_then_always [OF ss(1) on_word] by (simp add: delimited_Cons)
  have b: "scans_always (in_quotes (vi_vector_attr v) @ '' DIMENSIONS '') (as @ [kw ''K_DIMENSIONS''])"
    using scans_then_always [OF as(1) vector_words(1)] by (simp add: delimited_Cons)
  have c: "scans_always (?n @ '' DISTANCE '') ([whole ?n] @ [kw ''K_DISTANCE''])"
    using scans_then_always [OF scans_printed vector_words(2)] by (simp add: delimited_Cons)
  have d: "scans_always (vsi_distance_ddl (vi_distance v) @ search_ddl (vi_search_schema v)) (ds @ ks)"
    using scans_then_always [OF ds(1) ks(1) search_ddl_delimited] .
  have "scans (vsi_ddl v) (ss @ kw ''K_ON'' # as @ [kw ''K_DIMENSIONS'', whole ?n, kw ''K_DISTANCE''] @ ds @ ks @ ps)"
    using scans_append [OF a scans_append [OF b scans_append [OF c scans_append [OF d ps(1)]]]] unfolding vsi_ddl_parts by simp
  moreover have "shown_vsi v = \<lparr>vd_index_name = vi_index_name v, vd_vector_attr = vi_vector_attr v, vd_dimensions = parse_ll ?n,
      vd_distance = vi_distance v, vd_search_schema = vi_search_schema v, vd_projection = vd_projection (shown_vsi v)\<rparr>"
    using assms by (simp add: shown_vsi_def vector_ok_def printed_parse_ll)
  ultimately show ?thesis using vi_rule [OF ss(2) as(2) ds(2) ks(2) ps(2), of ?n] by metis
qed

section \<open>The whole statement\<close>

lemma opt_some: "E ts v \<Longrightarrow> optional None Some E ts (Some v)"
  by (rule opt_present)

lemma opt_id: "E ts v \<Longrightarrow> optional a id E ts v"
  using opt_present [of E ts v a id] by simp

lemma clause_reads:
  assumes "scans_always w (ws @ [Raw_char (CHR ''('')])" and "\<And>x. x \<in> set xs \<Longrightarrow> \<exists>ts. scans (f x) ts \<and> E ts (g x)"
    and "\<And>ts vs. comma_list E ts vs \<Longrightarrow> C (ws @ in_parens ts) vs"
  shows "\<exists>ts. scans_always (if xs = [] then [] else w @ join_with '', '' (map f xs) @ '') '') ts \<and> optional [] id C ts (map g xs)"
proof (cases "xs = []")
  case True
  then show ?thesis using opt_absent [of "[]" id C] by (intro exI [of _ "[]"]) simp
next
  case False
  from scans_list [of xs f E g, OF this assms(2)]
  obtain ts where ts: "scans (join_with '', '' (map f xs)) ts" "comma_list E ts (map g xs)" by blast
  have "scans_always (w @ join_with '', '' (map f xs) @ '') '') (ws @ in_parens ts)"
    using scans_wrapped [OF assms(1) ts(1) close_paren(2)] by (simp add: in_parens_def delimited_Cons)
  moreover have "optional [] id C (ws @ in_parens ts) (map g xs)" by (intro opt_id assms(3) ts(2))
  ultimately show ?thesis using False by auto
qed

lemma gsis_read:
  assumes "list_all index_ok gs"
  shows "\<exists>ts. scans_always (show_gsis gs demand) ts \<and> optional [] id gsi_clause ts (map (shown_gsi demand) gs)"
  using clause_reads [of "''GSI (''" "[kw ''K_GSI'']" gs "gsi_ddl demand" g_gsi "shown_gsi demand" gsi_clause]
    index_words(1) gsi_reads gsi_clause_rule assms
  by (auto simp: show_gsis_def gsi_ddl_def [abs_def] list_all_iff)

lemma lsis_read:
  assumes "list_all index_ok ls"
  shows "\<exists>ts. scans_always (show_lsis ls) ts \<and> optional [] id lsi_clause ts (map shown_lsi ls)"
  using clause_reads [of "''LSI (''" "[kw ''K_LSI'']" ls index_ddl g_lsi shown_lsi lsi_clause]
    index_words(2) lsi_reads lsi_clause_rule assms
  by (auto simp: show_lsis_def list_all_iff)

lemma vsis_read:
  assumes "list_all vector_ok vs"
  shows "\<exists>ts. scans_always (show_vsis vs) ts \<and> optional [] id vsi_clause ts (map shown_vsi vs)"
  using clause_reads [of "''VSI (''" "[kw ''K_VSI'']" vs vsi_ddl vector_index shown_vsi vsi_clause]
    index_words(3) vsi_reads vsi_clause_rule [OF vsi_short] assms
  by (auto simp: show_vsis_def list_all_iff)

lemma attribute_reads:
  assumes "plain_text (ad_name a)"
  shows "\<exists>ts. scans (attribute_ddl a) ts \<and> attribute_name_type ts a"
proof -
  obtain ss where ss: "scans (in_quotes (ad_name a)) ss" "g_string ss (ad_name a)" using quoted_name [OF assms] by blast
  obtain w t where w: "attribute_ddl a = in_quotes (ad_name a) @ w" "scans w [t]" "attribute_type [t] (ad_type a)"
    "delimited w" "w \<noteq> []"
    using type_words at_number at_string at_binary by (cases "ad_type a") (auto simp: attribute_ddl_def delimited_Cons)
  have "a = \<lparr>ad_name = ad_name a, ad_type = ad_type a\<rparr>" by simp
  then have "attribute_name_type (ss @ [t]) a" using ant [OF ss(2) w(3)] by metis
  then show ?thesis using scans_then [OF ss(1) w(2,4,5)] w(1) by auto
qed

lemma billing_reads:
  assumes "description_ok td"
  shows "\<exists>ts. scans_always (billing_ddl td) ts \<and> optional None Some billing_mode_and_throughput_g ts (shown_billing td)"
proof -
  let ?r = "dt_provisioned_read_capacity_units td" and ?w = "dt_provisioned_write_capacity_units td"
  obtain ps where ps: "scans_always (billing_mode_provisioned ?r ?w) ps" "billing_mode_and_throughput_g ps (provisioned ?r ?w)"
    using provisioned_reads [of ?r ?w] assms by (auto simp: description_ok_def)
  have none: "\<exists>ts. scans_always [] ts \<and> optional None Some billing_mode_and_throughput_g ts None"
    using opt_absent [of None Some billing_mode_and_throughput_g] by (intro exI [of _ "[]"]) simp
  have prov: "\<exists>ts. scans_always (billing_mode_provisioned ?r ?w) ts \<and>
      optional None Some billing_mode_and_throughput_g ts (Some (provisioned ?r ?w))"
    using ps(1) opt_some [of billing_mode_and_throughput_g, OF ps(2)] by blast
  have dem: "\<exists>ts. scans_always billing_mode_on_demand ts \<and>
      optional None Some billing_mode_and_throughput_g ts (Some (on_demand no_limits))"
    using billing_words(4) opt_some [of billing_mode_and_throughput_g, OF bm_demand] unfolding billing_mode_on_demand_def by blast
  show ?thesis
    by (cases "dt_billing_mode_summary td") (simp_all add: billing_ddl_def shown_billing_def Let_def none prov dem)
qed

definition stream_ddl :: "describe_table_out \<Rightarrow> string" where
  "stream_ddl td = (if dt_stream_specification_set td
     then (case dt_stream_view_type td of Some v \<Rightarrow> ''STREAM ( '' @ stream_view_words v @ '' ) '' | None \<Rightarrow> ''STREAM DISABLED '')
     else '''')"

lemma view_reads:
  assumes "v \<in> set [''NEW_IMAGE'', ''OLD_IMAGE'', ''KEYS_ONLY'', ''NEW_AND_OLD_IMAGES'']"
  shows "\<exists>ts. scans_always (''STREAM ( '' @ stream_view_words v @ '' ) '') ts \<and>
    stream_specification ts \<lparr>ss_enabled = True, ss_view_type = shown_view v\<rparr>"
proof -
  consider "v = ''NEW_IMAGE''" | "v = ''OLD_IMAGE''" | "v = ''KEYS_ONLY''" | "v = ''NEW_AND_OLD_IMAGES''" using assms by auto
  then show ?thesis
  proof cases
    case 1
    then have "stream_view_words v = ''NEW IMAGE''" "shown_view v = New_image" by (simp_all add: stream_view_words_def shown_view_def)
    then show ?thesis using stream_words(1) st_view [OF sv_new] by (auto simp: in_parens_def)
  next
    case 2
    then have "stream_view_words v = ''OLD IMAGE''" "shown_view v = Old_image" by (simp_all add: stream_view_words_def shown_view_def)
    then show ?thesis using stream_words(2) st_view [OF sv_old] by (auto simp: in_parens_def)
  next
    case 3
    then have "stream_view_words v = ''KEYS ONLY''" "shown_view v = Stream_keys_only"
      by (simp_all add: stream_view_words_def shown_view_def)
    then show ?thesis using stream_words(3) st_view [OF sv_keys] by (auto simp: in_parens_def)
  next
    case 4
    then have "stream_view_words v = ''BOTH IMAGES''" "shown_view v = New_and_old_images"
      by (simp_all add: stream_view_words_def shown_view_def)
    then show ?thesis using stream_words(4) st_view [OF sv_both] by (auto simp: in_parens_def)
  qed
qed

lemma stream_reads:
  assumes "description_ok td"
  shows "\<exists>ts. scans_always (stream_ddl td) ts \<and> optional None Some stream_specification ts (shown_stream td)"
proof (cases "dt_stream_specification_set td")
  case False
  then show ?thesis using opt_absent [of None Some stream_specification]
    by (intro exI [of _ "[]"]) (simp add: stream_ddl_def shown_stream_def)
next
  case True
  have "\<exists>ts. scans_always (stream_ddl td) ts \<and> stream_specification ts (the (shown_stream td))"
  proof (cases "dt_stream_view_type td")
    case None
    then show ?thesis using stream_words(5) st_disabled True by (auto simp: stream_ddl_def shown_stream_def)
  next
    case (Some v)
    have v: "v \<in> set [''NEW_IMAGE'', ''OLD_IMAGE'', ''KEYS_ONLY'', ''NEW_AND_OLD_IMAGES'']"
      using assms Some by (simp add: description_ok_def)
    then show ?thesis using view_reads [of v] True Some by (simp add: stream_ddl_def shown_stream_def)
  qed
  moreover have "shown_stream td = Some (the (shown_stream td))" using True by (simp add: shown_stream_def)
  ultimately show ?thesis using opt_some [of stream_specification] by metis
qed

lemma class_reads: "\<exists>ts. scans_always (if b then ''TABLE CLASS STANDARD INFREQUENT ACCESS '' else ''TABLE CLASS STANDARD '') ts \<and>
    optional Standard id g_table_class ts (if b then Standard_infrequent_access else Standard)"
  using class_words opt_id [of g_table_class, OF tc_standard] opt_id [of g_table_class, OF tc_infrequent] by (cases b) auto

lemma deletion_reads: "\<exists>ts. scans (if b then ''DELETION PROTECTION ENABLED'' else ''DELETION PROTECTION DISABLED'') ts \<and>
    optional False id deletion_protection ts b"
  using deletion_words opt_id [of deletion_protection, OF dp_on] opt_id [of deletion_protection, OF dp_off] by (cases b) auto

lemma not_exists_reads: "\<exists>ts. scans_always (if b then ''IF NOT EXISTS '' else '''') ts \<and> if_not_exists_clause ts b"
proof (cases b)
  case True
  then show ?thesis using create_words(2) ine_present by auto
next
  case False
  then show ?thesis using ine_absent by (intro exI [of _ "[]"]) simp
qed

lemma nowait_reads: "\<exists>ts. scans_always (if b then ''NOWAIT '' else '''') ts \<and> nowait_clause ts b"
proof (cases b)
  case True
  then show ?thesis using create_words(3) nw_present by auto
next
  case False
  then show ?thesis using nw_absent by (intro exI [of _ "[]"]) simp
qed

lemma table_head_reads:
  assumes "description_ok td"
  shows "\<exists>ss as. scans_always (in_quotes (dt_table_name td) @ '' ('') (ss @ [Raw_char (CHR ''('')]) \<and> g_string ss (dt_table_name td) \<and>
    scans_always (join_with '', '' (map attribute_ddl (dt_attribute_definitions td)) @ '') PRIMARY KEY '')
      (as @ [Raw_char (CHR '')''), kw ''K_PRIMARY'', kw ''K_KEY'']) \<and>
    comma_list attribute_name_type as (dt_attribute_definitions td)"
proof -
  obtain ss where ss: "scans (in_quotes (dt_table_name td)) ss" "g_string ss (dt_table_name td)"
    using quoted_name assms description_ok_def by metis
  have "\<exists>ts. scans (join_with '', '' (map attribute_ddl (dt_attribute_definitions td))) ts \<and>
      comma_list attribute_name_type ts (map id (dt_attribute_definitions td))"
    using assms attribute_reads by (intro scans_list) (auto simp: description_ok_def list_all_iff)
  then obtain as where as: "scans (join_with '', '' (map attribute_ddl (dt_attribute_definitions td))) as"
    "comma_list attribute_name_type as (dt_attribute_definitions td)" by auto
  show ?thesis using scans_then_always [OF ss(1) table_parts(1)] scans_then_always [OF as(1) table_parts(2)] ss(2) as(2)
    by (auto simp: delimited_Cons)
qed

text \<open>The clauses after the primary key, each with its own production.\<close>

definition clauses_ddl :: "describe_table_out \<Rightarrow> string" where
  "clauses_ddl td = billing_ddl td @ show_gsis (dt_global_secondary_indexes td) (table_on_demand td) @
     show_lsis (dt_local_secondary_indexes td) @ show_vsis (dt_vector_indexes td) @ stream_ddl td @
     (if dt_table_class_summary td = Some ''STANDARD_INFREQUENT_ACCESS''
      then ''TABLE CLASS STANDARD INFREQUENT ACCESS '' else ''TABLE CLASS STANDARD '') @
     (if dt_deletion_protection_enabled td then ''DELETION PROTECTION ENABLED'' else ''DELETION PROTECTION DISABLED'')"

lemma reconstruct_parts:
  "reconstruct_ddl cmd td =
     ''CREATE TABLE '' @ (if sc_if_not_exists cmd then ''IF NOT EXISTS '' else '''') @ (if sc_nowait cmd then ''NOWAIT '' else '''') @
     (in_quotes (dt_table_name td) @ '' ('') @ (join_with '', '' (map attribute_ddl (dt_attribute_definitions td)) @ '') PRIMARY KEY '') @
     (''('' @ key_description (dt_key_schema td) @ '') '') @ clauses_ddl td"
  by (simp add: reconstruct_ddl_def clauses_ddl_def stream_ddl_def)

lemma clauses_read:
  assumes "description_ok td"
  shows "\<exists>t10 t12 t13 t14 t15 t17 t18. scans (clauses_ddl td) (t10 @ t12 @ t13 @ t14 @ t15 @ t17 @ t18) \<and>
    optional None Some billing_mode_and_throughput_g t10 (cr_billing (shown_table cmd td)) \<and>
    optional [] id gsi_clause t12 (cr_gsis (shown_table cmd td)) \<and> optional [] id lsi_clause t13 (cr_lsis (shown_table cmd td)) \<and>
    optional [] id vsi_clause t14 (cr_vector_indexes (shown_table cmd td)) \<and>
    optional None Some stream_specification t15 (cr_stream (shown_table cmd td)) \<and>
    optional Standard id g_table_class t17 (cr_table_class (shown_table cmd td)) \<and>
    optional False id deletion_protection t18 (cr_deletion_protection (shown_table cmd td))"
proof -
  obtain t10 where t10: "scans_always (billing_ddl td) t10" "optional None Some billing_mode_and_throughput_g t10 (shown_billing td)"
    using billing_reads [OF assms] by blast
  obtain t12 where t12: "scans_always (show_gsis (dt_global_secondary_indexes td) (table_on_demand td)) t12"
    "optional [] id gsi_clause t12 (map (shown_gsi (table_on_demand td)) (dt_global_secondary_indexes td))"
    using gsis_read assms description_ok_def by metis
  obtain t13 where t13: "scans_always (show_lsis (dt_local_secondary_indexes td)) t13"
    "optional [] id lsi_clause t13 (map shown_lsi (dt_local_secondary_indexes td))" using lsis_read assms description_ok_def by metis
  obtain t14 where t14: "scans_always (show_vsis (dt_vector_indexes td)) t14"
    "optional [] id vsi_clause t14 (map shown_vsi (dt_vector_indexes td))" using vsis_read assms description_ok_def by metis
  obtain t15 where t15: "scans_always (stream_ddl td) t15" "optional None Some stream_specification t15 (shown_stream td)"
    using stream_reads [OF assms] by blast
  let ?b = "dt_table_class_summary td = Some ''STANDARD_INFREQUENT_ACCESS''"
  obtain t17 where t17: "scans_always (if ?b then ''TABLE CLASS STANDARD INFREQUENT ACCESS '' else ''TABLE CLASS STANDARD '') t17"
    "optional Standard id g_table_class t17 (if ?b then Standard_infrequent_access else Standard)" using class_reads by blast
  obtain t18 where t18: "scans (if dt_deletion_protection_enabled td then ''DELETION PROTECTION ENABLED'' else ''DELETION PROTECTION DISABLED'') t18"
    "optional False id deletion_protection t18 (dt_deletion_protection_enabled td)" using deletion_reads by blast
  from scans_append [OF t10(1) scans_append [OF t12(1) scans_append [OF t13(1)
      scans_append [OF t14(1) scans_append [OF t15(1) scans_append [OF t17(1) t18(1)]]]]]]
  have "scans (clauses_ddl td) (t10 @ t12 @ t13 @ t14 @ t15 @ t17 @ t18)" unfolding clauses_ddl_def .
  then show ?thesis using t10(2) t12(2) t13(2) t14(2) t15(2) t17(2) t18(2)
    unfolding shown_table_def create_table_cmd.simps by blast
qed

text \<open>C13: SHOW CREATE TABLE prints a statement that the scanner and the grammar read back as the CREATE TABLE
  command of the table it describes: the same name, attributes, keys, billing, secondary and vector indexes,
  stream, class and protection.  It holds for the descriptions whose names have no quote and no timestamp's
  shape, whose numbers fit a \<open>long long\<close> and whose projected attributes are plain words that are no keyword.\<close>

theorem show_create_table_reads_back:
  assumes "description_ok td"
  shows "create_table_command (token_list (reconstruct_ddl cmd td)) (shown_table cmd td)"
proof -
  obtain t3 where t3: "scans_always (if sc_if_not_exists cmd then ''IF NOT EXISTS '' else '''') t3" "if_not_exists_clause t3 (sc_if_not_exists cmd)"
    using not_exists_reads by blast
  obtain t4 where t4: "scans_always (if sc_nowait cmd then ''NOWAIT '' else '''') t4" "nowait_clause t4 (sc_nowait cmd)"
    using nowait_reads by blast
  obtain t5 t7 where h: "scans_always (in_quotes (dt_table_name td) @ '' ('') (t5 @ [Raw_char (CHR ''('')])" "g_string t5 (dt_table_name td)"
    "scans_always (join_with '', '' (map attribute_ddl (dt_attribute_definitions td)) @ '') PRIMARY KEY '')
      (t7 @ [Raw_char (CHR '')''), kw ''K_PRIMARY'', kw ''K_KEY''])"
    "comma_list attribute_name_type t7 (dt_attribute_definitions td)" using table_head_reads [OF assms] by blast
  obtain t9 where t9: "g_key_schema t9 (shown_keys (dt_key_schema td))" "scans_always (''('' @ key_description (dt_key_schema td) @ '') '') t9"
    using key_schema_reads assms description_ok_def by metis
  obtain t10 t12 t13 t14 t15 t17 t18 where c: "scans (clauses_ddl td) (t10 @ t12 @ t13 @ t14 @ t15 @ t17 @ t18)"
    "optional None Some billing_mode_and_throughput_g t10 (cr_billing (shown_table cmd td))"
    "optional [] id gsi_clause t12 (cr_gsis (shown_table cmd td))" "optional [] id lsi_clause t13 (cr_lsis (shown_table cmd td))"
    "optional [] id vsi_clause t14 (cr_vector_indexes (shown_table cmd td))"
    "optional None Some stream_specification t15 (cr_stream (shown_table cmd td))"
    "optional Standard id g_table_class t17 (cr_table_class (shown_table cmd td))"
    "optional False id deletion_protection t18 (cr_deletion_protection (shown_table cmd td))"
    using clauses_read [OF assms, of cmd] by blast
  note whole_text = scans_append [OF create_words(1) scans_append [OF t3(1) scans_append [OF t4(1) scans_append [OF h(1)
    scans_append [OF h(3) scans_append [OF t9(2) c(1)]]]]]]
  have "token_list (reconstruct_ddl cmd td) = [kw ''K_CREATE'', kw ''K_TABLE''] @ t3 @ t4 @ t5 @ in_parens t7 @
      [kw ''K_PRIMARY'', kw ''K_KEY''] @ t9 @ t10 @ [] @ t12 @ t13 @ t14 @ t15 @ [] @ t17 @ t18 @ []"
    using whole_text [folded reconstruct_parts, unfolded scans_def, rule_format, of "[]"] by (simp add: in_parens_def)
  moreover note create_rule [OF t3(2) t4(2) h(2,4) t9(1) c(2) opt_absent c(3-6) opt_absent c(7,8) opt_absent]
  ultimately show ?thesis by (simp add: shown_table_def)
qed

text \<open>Names of letters, digits, underscores and hyphens that start with no digit fit between quotes.\<close>

lemma plain_word:
  assumes "bare_word w"
  shows "plain_text w"
proof -
  obtain c cs where w: "w = c # cs" "\<not> Prepared.is_digit c" "is_name_char c" "list_all (\<lambda>c. is_name_char c \<or> c = CHR ''-'') cs"
    using assms by (auto simp: bare_word_def)
  have "\<forall>d \<in> {CHR 0x22, CHR 0x00}. \<not> is_name_char d \<and> d \<noteq> CHR ''-''"
    by (simp add: is_name_char_def Prepared.is_digit_def in_range_def less_eq_char_def)
  then have "CHR 0x22 \<notin> set w" "CHR 0x00 \<notin> set w" using w unfolding list_all_iff by auto
  moreover have "\<not> matches timestamp_rule (quoted w)"
  proof
    assume "matches timestamp_rule (quoted w)"
    then have "matches (deriv (CHR 0x22) timestamp_rule) (c # cs @ [CHR 0x22])" by (simp add: deriv_matches quoted_def w(1))
    from starts_matches [OF this] have "starts c (deriv (CHR 0x22) timestamp_rule)" by simp
    then show False using w(2) by (simp add: timestamp_rule_def dquote_def R_one_def R_digit_def)
  qed
  ultimately show ?thesis by (simp add: plain_text_def)
qed

text \<open>A table with a composite key, a projected index, a vector index and a stream.\<close>

definition example_table :: describe_table_out where
  "example_table =
     \<lparr>dt_table_name = ''orders'', dt_key_schema = \<lparr>hash_keys = [''customer''], range_keys = [''placed'']\<rparr>,
      dt_local_secondary_indexes = [],
      dt_global_secondary_indexes =
        [\<lparr>ix_index_name = ''by-day'', ix_key_schema = \<lparr>hash_keys = [''day'', ''shop''], range_keys = []\<rparr>,
          ix_projection = \<lparr>pj_type = Projection_include, pj_non_key_attributes = [''amount'', ''currency'']\<rparr>,
          ix_projection_set = True, ix_index_status = ''ACTIVE'', ix_backfilling = False,
          ix_provisioned_read_capacity_units = 5, ix_provisioned_write_capacity_units = 0,
          ix_on_demand_throughput_set = False, ix_on_demand_max_read_request_units = 0,
          ix_on_demand_max_write_request_units = 0, ix_warm_throughput = None\<rparr>],
      dt_vector_indexes =
        [\<lparr>vi_index_name = ''near'', vi_vector_attr = ''embedding'', vi_dimensions = 128, vi_distance = Dot_product,
          vi_search_schema = [\<lparr>se_attr = ''shop'', se_kind = Search_hash\<rparr>],
          vi_projection = \<lparr>pj_type = Projection_keys_only, pj_non_key_attributes = []\<rparr>, vi_projection_set = True,
          vi_index_status = ''ACTIVE''\<rparr>],
      dt_table_status = ''ACTIVE'', dt_table_id = ''1'', dt_table_arn = ''arn'', dt_billing_mode_summary = Some ''PROVISIONED'',
      dt_provisioned_throughput_set = True, dt_table_class_summary = None,
      dt_attribute_definitions = [\<lparr>ad_name = ''customer'', ad_type = Scalar_s\<rparr>, \<lparr>ad_name = ''placed'', ad_type = Scalar_n\<rparr>,
        \<lparr>ad_name = ''day'', ad_type = Scalar_s\<rparr>, \<lparr>ad_name = ''shop'', ad_type = Scalar_b\<rparr>],
      dt_creation_date_time = '''', dt_table_size_bytes = 0, dt_item_count = 0, dt_deletion_protection_enabled = True,
      dt_provisioned_read_capacity_units = 10, dt_provisioned_write_capacity_units = 1, dt_on_demand_throughput_set = False,
      dt_on_demand_max_read_request_units = 0, dt_on_demand_max_write_request_units = 0, dt_warm_throughput = None,
      dt_stream_view_type = Some ''NEW_AND_OLD_IMAGES'', dt_stream_specification_set = True, dt_sse_status = None\<rparr>"

lemma bare_word_code [code]: "bare_word w = (case w of [] \<Rightarrow> False | c # cs \<Rightarrow>
    is_name_char c \<and> \<not> Prepared.is_digit c \<and> list_all (\<lambda>c. is_name_char c \<or> c = CHR ''-'') cs)"
  by (auto simp: bare_word_def split: list.split)

theorem show_create_table_reads_back_witness:
  "create_table_command (token_list (reconstruct_ddl \<lparr>sc_if_not_exists = True, sc_nowait = False, sc_table = ''orders''\<rparr> example_table))
     (shown_table \<lparr>sc_if_not_exists = True, sc_nowait = False, sc_table = ''orders''\<rparr> example_table)"
proof (rule show_create_table_reads_back)
  have "list_all bare_word [''orders'', ''customer'', ''placed'', ''by-day'', ''day'', ''shop'', ''near'', ''embedding''] \<and>
      list_all bare_name [''amount'', ''currency'']" by code_simp
  then have "list_all plain_text [''orders'', ''customer'', ''placed'', ''by-day'', ''day'', ''shop'', ''near'', ''embedding'']"
    "list_all bare_name [''amount'', ''currency'']" using plain_word by (auto simp: list_all_iff)
  then show "description_ok example_table"
    by (simp add: example_table_def description_ok_def keys_ok_def index_ok_def vector_ok_def projection_ok_def in_long_long_def)
qed

text \<open>The statement puts no quotes around the projected attributes: one whose name is a keyword is read as the
  keyword, and no projection of the grammar has those tokens.\<close>

lemma keyword_projection_tokens:
  "token_list (projection_ddl \<lparr>pj_type = Projection_include, pj_non_key_attributes = [''total'']\<rparr>) =
     [kw ''K_PROJECTING'', kw ''K_INCLUDE''] @ in_parens [kw ''K_TOTAL'']"
proof -
  have "fixed_tokens ''PROJECTING INCLUDE (total)'' = Some ([kw ''K_PROJECTING'', kw ''K_INCLUDE''] @ in_parens [kw ''K_TOTAL''])"
    by code_simp
  from scans_phrase [OF this] show ?thesis by (auto simp: scans_def projection_ddl_def dest: spec [of _ "[]"])
qed

lemma one_in_list: "comma_list E [t] vs \<Longrightarrow> t \<noteq> comma \<Longrightarrow> \<exists>v. E [t] v"
  by (erule comma_list.cases) (auto simp: append_eq_Cons_conv Cons_eq_append_conv)

theorem keyword_projection_unreadable:
  "\<not> index_projection (token_list (projection_ddl \<lparr>pj_type = Projection_include, pj_non_key_attributes = [''total'']\<rparr>)) p"
proof
  assume "index_projection (token_list (projection_ddl \<lparr>pj_type = Projection_include, pj_non_key_attributes = [''total'']\<rparr>)) p"
  then have "\<exists>as. comma_list g_string [kw ''K_TOTAL''] as" unfolding keyword_projection_tokens
    by (cases rule: index_projection.cases) (auto simp: in_parens_def kw_def)
  then obtain v where "g_string [kw ''K_TOTAL''] v" using one_in_list [of g_string "kw ''K_TOTAL''"] by (auto simp: comma_def kw_def)
  then show False by (cases rule: g_string.cases) (simp_all add: kw_def)
qed

end
