(* ===== verification/Alter_Grammar.thy ===== *)
theory Alter_Grammar
  imports Ddl_Grammar
begin

text \<open>
  The productions of the grammar for ALTER TABLE (\<^verbatim>\<open>src/parser/grammar.yy\<close>) with their actions, and what every
  command they build asks of the service.
\<close>

section \<open>Changes of indexes and replicas\<close>

definition index_update :: "gsi_action \<Rightarrow> string \<Rightarrow> gsi_update" where
  "index_update action name =
     \<lparr>gu_action = action, gu_index_name = name, gu_key_schema = None, gu_projection = None, gu_billing = None, gu_warm = None\<rparr>"

inductive alter_table_gsi_create :: "token list \<Rightarrow> gsi_update \<Rightarrow> bool" where
  agc: "g_string ss name \<Longrightarrow> g_key_schema ks key \<Longrightarrow> index_projection ps p \<Longrightarrow>
    optional None Some billing_mode_and_throughput_g bs billing \<Longrightarrow> optional None Some warm_throughput_g ws warm \<Longrightarrow>
    alter_table_gsi_create (ss @ kw ''K_ON'' # ks @ ps @ bs @ ws)
      ((index_update Gsi_create name)\<lparr>gu_key_schema := Some key, gu_projection := Some p, gu_billing := billing, gu_warm := warm\<rparr>)"

inductive alter_table_gsi_drop :: "token list \<Rightarrow> gsi_update \<Rightarrow> bool" where
  agd: "g_string ss name \<Longrightarrow> alter_table_gsi_drop ss (index_update Gsi_drop name)"

inductive alter_table_gsi_update_element :: "token list \<Rightarrow> gsi_update \<Rightarrow> bool" where
  agu_billing: "g_string ss name \<Longrightarrow> billing_mode_and_throughput_g bs b \<Longrightarrow>
    alter_table_gsi_update_element (ss @ kw ''K_SET'' # bs) ((index_update Gsi_update name)\<lparr>gu_billing := Some b\<rparr>)"
| agu_warm: "g_string ss name \<Longrightarrow> warm_throughput_g ws w \<Longrightarrow>
    alter_table_gsi_update_element (ss @ kw ''K_SET'' # ws) ((index_update Gsi_update name)\<lparr>gu_warm := Some w\<rparr>)"

definition alter_table_gsi_update :: "token list \<Rightarrow> gsi_update list \<Rightarrow> bool" where
  "alter_table_gsi_update = comma_list alter_table_gsi_update_element"

inductive provisioned_throughput_override_g :: "token list \<Rightarrow> provisioned_throughput_override \<Rightarrow> bool" where
  pto: "provisioned_throughput_override_g (in_parens [whole n, kw ''K_RCU'']) \<lparr>po_read_capacity_units = parse_ll n\<rparr>"

inductive replica_gsi_specification_list_entry :: "token list \<Rightarrow> replica_gsi \<Rightarrow> bool" where
  rge: "g_string ss name \<Longrightarrow> provisioned_throughput_override_g ts o' \<Longrightarrow>
    replica_gsi_specification_list_entry (ss @ ts) \<lparr>rg_index_name = name, rg_throughput_override = o'\<rparr>"

inductive replica_gsi_specification :: "token list \<Rightarrow> replica_gsi list \<Rightarrow> bool" where
  rgs: "comma_list replica_gsi_specification_list_entry ts gs \<Longrightarrow> replica_gsi_specification (kw ''K_GSI'' # in_parens ts) gs"

section \<open>The statement\<close>

text \<open>A command that names its table only; every action fills in what its clause provides.\<close>

definition alter_of :: "string \<Rightarrow> alter_table_cmd" where
  "alter_of t =
     \<lparr>al_table = t, al_billing = None, al_warm = None, al_sse = None, al_stream = None, al_table_class = None,
      al_deletion_protection = None, al_attribute_definitions = [], al_gsi_updates = [], al_vector_index_updates = [],
      al_ignored_gsi_on_demand = False\<rparr>"

definition replica_change :: "replica_action \<Rightarrow> string \<Rightarrow> replica_update" where
  "replica_change action region =
     \<lparr>ru_action = action, ru_region = region, ru_table_class = None, ru_throughput_override = None, ru_replica_gsis = []\<rparr>"

definition alter_table :: "token list \<Rightarrow> token list" where
  "alter_table ss = [kw ''K_ALTER'', kw ''K_TABLE''] @ ss"

text \<open>The action of the combined form keeps the updates of the indexes only if the table stays provisioned.\<close>

definition billing_with_updates ::
    "string \<Rightarrow> billing_mode_and_throughput \<Rightarrow> warm_throughput option \<Rightarrow> gsi_update list \<Rightarrow> alter_table_cmd" where
  "billing_with_updates t b w us =
     (if bm_mode b = Provisioned then (alter_of t)\<lparr>al_billing := Some b, al_warm := w, al_gsi_updates := us\<rparr>
      else (alter_of t)\<lparr>al_billing := Some b, al_warm := w, al_ignored_gsi_on_demand := True\<rparr>)"

inductive alter_table_command :: "token list \<Rightarrow> command_node \<Rightarrow> bool" where
  alter_billing: "g_string ss t \<Longrightarrow> billing_mode_and_throughput_g bs b \<Longrightarrow> optional None Some warm_throughput_g ws w \<Longrightarrow>
    alter_table_command (alter_table ss @ kw ''K_SET'' # bs @ ws) (AlterTableCmd ((alter_of t)\<lparr>al_billing := Some b, al_warm := w\<rparr>))"
| alter_warm: "g_string ss t \<Longrightarrow> warm_throughput_g ws w \<Longrightarrow>
    alter_table_command (alter_table ss @ kw ''K_SET'' # ws) (AlterTableCmd ((alter_of t)\<lparr>al_warm := Some w\<rparr>))"
| alter_sse: "g_string ss t \<Longrightarrow> sse_specification ts s \<Longrightarrow>
    alter_table_command (alter_table ss @ kw ''K_SET'' # ts) (AlterTableCmd ((alter_of t)\<lparr>al_sse := Some s\<rparr>))"
| alter_class: "g_string ss t \<Longrightarrow> g_table_class ts c \<Longrightarrow>
    alter_table_command (alter_table ss @ kw ''K_SET'' # ts) (AlterTableCmd ((alter_of t)\<lparr>al_table_class := Some c\<rparr>))"
| alter_stream: "g_string ss t \<Longrightarrow> stream_specification ts s \<Longrightarrow>
    alter_table_command (alter_table ss @ kw ''K_SET'' # ts) (AlterTableCmd ((alter_of t)\<lparr>al_stream := Some s\<rparr>))"
| alter_deletion: "g_string ss t \<Longrightarrow> deletion_protection ts d \<Longrightarrow>
    alter_table_command (alter_table ss @ kw ''K_SET'' # ts) (AlterTableCmd ((alter_of t)\<lparr>al_deletion_protection := Some d\<rparr>))"
| alter_create_gsi: "g_string ss t \<Longrightarrow> comma_list attribute_name_type as attrs \<Longrightarrow> alter_table_gsi_create ts u \<Longrightarrow>
    alter_table_command (alter_table ss @ in_parens as @ [kw ''K_CREATE'', kw ''K_GSI''] @ ts)
      (AlterTableCmd ((alter_of t)\<lparr>al_attribute_definitions := attrs, al_gsi_updates := [u]\<rparr>))"
| alter_drop_gsi: "g_string ss t \<Longrightarrow> alter_table_gsi_drop ts u \<Longrightarrow>
    alter_table_command (alter_table ss @ [kw ''K_DROP'', kw ''K_GSI''] @ ts) (AlterTableCmd ((alter_of t)\<lparr>al_gsi_updates := [u]\<rparr>))"
| alter_create_vsi: "g_string ss t \<Longrightarrow> comma_list attribute_name_type as attrs \<Longrightarrow> vsi_keyword ks \<Longrightarrow> vector_index ts v \<Longrightarrow>
    alter_table_command (alter_table ss @ in_parens as @ kw ''K_CREATE'' # ks @ ts)
      (AlterTableCmd ((alter_of t)\<lparr>al_attribute_definitions := attrs, al_vector_index_updates := [\<lparr>vu_create = Some v, vu_drop = None\<rparr>]\<rparr>))"
| alter_create_vsi_empty: "g_string ss t \<Longrightarrow> vsi_keyword ks \<Longrightarrow> vector_index ts v \<Longrightarrow>
    alter_table_command (alter_table ss @ in_parens [] @ kw ''K_CREATE'' # ks @ ts)
      (AlterTableCmd ((alter_of t)\<lparr>al_vector_index_updates := [\<lparr>vu_create = Some v, vu_drop = None\<rparr>]\<rparr>))"
| alter_create_vsi_bare: "g_string ss t \<Longrightarrow> vsi_keyword ks \<Longrightarrow> vector_index ts v \<Longrightarrow>
    alter_table_command (alter_table ss @ kw ''K_CREATE'' # ks @ ts)
      (AlterTableCmd ((alter_of t)\<lparr>al_vector_index_updates := [\<lparr>vu_create = Some v, vu_drop = None\<rparr>]\<rparr>))"
| alter_drop_vsi: "g_string ss t \<Longrightarrow> vsi_keyword ks \<Longrightarrow> g_string ts name \<Longrightarrow>
    alter_table_command (alter_table ss @ kw ''K_DROP'' # ks @ ts)
      (AlterTableCmd ((alter_of t)\<lparr>al_vector_index_updates := [\<lparr>vu_create = None, vu_drop = Some name\<rparr>]\<rparr>))"
| alter_billing_gsi: "g_string ss t \<Longrightarrow> billing_mode_and_throughput_g bs b \<Longrightarrow> optional None Some warm_throughput_g ws w \<Longrightarrow>
    alter_table_gsi_update us gs \<Longrightarrow>
    alter_table_command (alter_table ss @ kw ''K_SET'' # bs @ ws @ [kw ''K_UPDATE'', kw ''K_GSI''] @ in_parens us)
      (AlterTableCmd (billing_with_updates t b w gs))"
| alter_update_gsi: "g_string ss t \<Longrightarrow> alter_table_gsi_update us gs \<Longrightarrow>
    alter_table_command (alter_table ss @ [kw ''K_UPDATE'', kw ''K_GSI''] @ in_parens us) (AlterTableCmd ((alter_of t)\<lparr>al_gsi_updates := gs\<rparr>))"
| alter_ttl_off: "g_string ss t \<Longrightarrow>
    alter_table_command (alter_table ss @ [kw ''K_SET'', kw ''K_TTL'', kw ''K_DISABLED''])
      (AlterTtlCmd \<lparr>at_table = t, at_enabled = False, at_attribute = []\<rparr>)"
| alter_ttl_on: "g_string ss t \<Longrightarrow> g_string as a \<Longrightarrow>
    alter_table_command (alter_table ss @ [kw ''K_SET'', kw ''K_TTL''] @ in_parens as)
      (AlterTtlCmd \<lparr>at_table = t, at_enabled = True, at_attribute = a\<rparr>)"
| alter_pitr_on: "g_string ss t \<Longrightarrow>
    alter_table_command (alter_table ss @ [kw ''K_SET'', kw ''K_PITR'', kw ''K_ENABLED'']) (AlterPitrCmd \<lparr>ap_table = t, ap_enabled = True\<rparr>)"
| alter_pitr_off: "g_string ss t \<Longrightarrow>
    alter_table_command (alter_table ss @ [kw ''K_SET'', kw ''K_PITR'', kw ''K_DISABLED'']) (AlterPitrCmd \<lparr>ap_table = t, ap_enabled = False\<rparr>)"
| alter_drop_replica: "g_string ss t \<Longrightarrow> g_string rs r \<Longrightarrow>
    alter_table_command (alter_table ss @ [kw ''K_DROP'', kw ''K_REPLICA''] @ rs)
      (AlterReplicaCmd \<lparr>ar_table = t, ar_replica = replica_change Replica_drop r\<rparr>)"
| alter_add_replica: "g_string ss t \<Longrightarrow> g_string rs r \<Longrightarrow> optional Standard id g_table_class cs c \<Longrightarrow>
    optional None Some provisioned_throughput_override_g os o' \<Longrightarrow> optional [] id replica_gsi_specification gs gsis \<Longrightarrow>
    alter_table_command (alter_table ss @ [kw ''K_ADD'', kw ''K_REPLICA''] @ rs @ cs @ os @ gs)
      (AlterReplicaCmd \<lparr>ar_table = t, ar_replica = (replica_change Replica_add r)
         \<lparr>ru_table_class := Some c, ru_throughput_override := o', ru_replica_gsis := gsis\<rparr>\<rparr>)"
| alter_update_replica: "g_string ss t \<Longrightarrow> g_string rs r \<Longrightarrow> optional Standard id g_table_class cs c \<Longrightarrow>
    optional None Some provisioned_throughput_override_g os o' \<Longrightarrow> optional [] id replica_gsi_specification gs gsis \<Longrightarrow>
    alter_table_command (alter_table ss @ [kw ''K_UPDATE'', kw ''K_REPLICA''] @ rs @ cs @ os @ gs)
      (AlterReplicaCmd \<lparr>ar_table = t, ar_replica = (replica_change Replica_update r)
         \<lparr>ru_table_class := Some c, ru_throughput_override := o', ru_replica_gsis := gsis\<rparr>\<rparr>)"

section \<open>What a statement asks of the service\<close>

definition alter_request :: "command_node \<Rightarrow> update_table_in option" where
  "alter_request c = (case c of AlterTableCmd a \<Rightarrow> Some (make_alter_request a) | AlterReplicaCmd a \<Rightarrow> Some (replica_request a) | _ \<Rightarrow> None)"

text \<open>An update of an index sets what its action needs: a new index its keys and projection, a change either its
  capacity or its warm throughput, and a removal nothing.\<close>

definition index_update_ok :: "gsi_update \<Rightarrow> bool" where
  "index_update_ok u =
     (case gu_action u of
        Gsi_create \<Rightarrow> gu_key_schema u \<noteq> None \<and> gu_projection u \<noteq> None
      | Gsi_update \<Rightarrow> gu_key_schema u = None \<and> gu_projection u = None \<and> (gu_billing u = None) \<noteq> (gu_warm u = None)
      | Gsi_drop \<Rightarrow> gu_key_schema u = None \<and> gu_projection u = None \<and> gu_billing u = None \<and> gu_warm u = None)"

definition vector_update_ok :: "vector_index_update_def \<Rightarrow> bool" where
  "vector_update_ok v \<longleftrightarrow> (vu_create v = None) \<noteq> (vu_drop v = None)"

definition replica_ok :: "replica_update \<Rightarrow> bool" where
  "replica_ok r \<longleftrightarrow> (ru_table_class r = None \<longleftrightarrow> ru_action r = Replica_drop) \<and>
     (ru_action r = Replica_drop \<longrightarrow> ru_throughput_override r = None \<and> ru_replica_gsis r = [])"

definition creates_index :: "update_table_in \<Rightarrow> bool" where
  "creates_index r \<longleftrightarrow> list_ex (\<lambda>u. gu_action u = Gsi_create) (ut_gsi_updates r) \<or>
     list_ex (\<lambda>v. vu_create v \<noteq> None) (ut_vector_index_updates r)"

definition asks_something :: "update_table_in \<Rightarrow> bool" where
  "asks_something r \<longleftrightarrow> ut_billing r \<noteq> None \<or> ut_warm r \<noteq> None \<or> ut_sse r \<noteq> None \<or> ut_stream r \<noteq> None \<or>
     ut_table_class r \<noteq> None \<or> ut_deletion_protection r \<noteq> None \<or> ut_gsi_updates r \<noteq> [] \<or>
     ut_vector_index_updates r \<noteq> [] \<or> ut_replica r \<noteq> None"

definition request_ok :: "update_table_in \<Rightarrow> bool" where
  "request_ok r \<longleftrightarrow> asks_something r \<and> list_all index_update_ok (ut_gsi_updates r) \<and>
     list_all vector_update_ok (ut_vector_index_updates r) \<and> pred_option replica_ok (ut_replica r) \<and>
     (ut_attribute_definitions r \<noteq> [] \<longrightarrow> creates_index r) \<and>
     length (filter (\<lambda>u. gu_action u \<noteq> Gsi_update) (ut_gsi_updates r)) + length (ut_vector_index_updates r) \<le> 1 \<and>
     (\<forall>b. ut_billing r = Some b \<and> bm_mode b = Pay_per_request \<longrightarrow> ut_gsi_updates r = [])"

inductive_cases gsi_createE: "alter_table_gsi_create ts u"
inductive_cases gsi_dropE: "alter_table_gsi_drop ts u"
inductive_cases gsi_elementE: "alter_table_gsi_update_element ts u"

lemma created_ok: "alter_table_gsi_create ts u \<Longrightarrow> index_update_ok u \<and> gu_action u = Gsi_create"
  by (elim gsi_createE) (simp add: index_update_ok_def index_update_def)

lemma dropped_ok: "alter_table_gsi_drop ts u \<Longrightarrow> index_update_ok u \<and> gu_action u = Gsi_drop"
  by (elim gsi_dropE) (simp add: index_update_ok_def index_update_def)

lemma changed_ok: "alter_table_gsi_update_element ts u \<Longrightarrow> index_update_ok u \<and> gu_action u = Gsi_update"
  by (elim gsi_elementE) (simp_all add: index_update_ok_def index_update_def)

lemma comma_list_all: "comma_list E ts vs \<Longrightarrow> (\<And>ts v. E ts v \<Longrightarrow> P v) \<Longrightarrow> vs \<noteq> [] \<and> list_all P vs"
  by (induction rule: comma_list.induct) auto

lemma updates_ok:
  assumes "alter_table_gsi_update us gs"
  shows "gs \<noteq> []" "list_all index_update_ok gs" "filter (\<lambda>u. gu_action u \<noteq> Gsi_update) gs = []"
  using comma_list_all [of alter_table_gsi_update_element us gs "\<lambda>u. index_update_ok u \<and> gu_action u = Gsi_update"] changed_ok assms
  by (auto simp: alter_table_gsi_update_def list_all_iff)

lemmas request_simps = alter_request_def make_alter_request_def replica_request_def alter_of_def request_ok_def asks_something_def
  creates_index_def vector_update_ok_def replica_ok_def replica_change_def billing_with_updates_def

text \<open>Every ALTER TABLE statement gives a well-formed UpdateTable request: it asks for something, sets what each
  change of an index, vector index or replica needs and nothing else, creates or drops at most one index,
  declares attributes only for a new index, and changes no index of a table that it sets to on-demand capacity.\<close>

lemma alter_requests_ok:
  assumes "alter_table_command ts c" and "alter_request c = Some r"
  shows "request_ok r"
  using assms
proof (induction rule: alter_table_command.induct)
  case (alter_create_gsi ss t as attrs ts u)
  then show ?case using created_ok [of ts u] by (auto simp: request_simps)
next
  case (alter_drop_gsi ss t ts u)
  then show ?case using dropped_ok [of ts u] by (auto simp: request_simps)
next
  case (alter_billing_gsi ss t bs b ws w us gs)
  then show ?case using updates_ok [of us gs] by (auto simp: request_simps split: if_splits)
next
  case (alter_update_gsi ss t us gs)
  then show ?case using updates_ok [of us gs] by (auto simp: request_simps)
qed (auto simp: request_simps)

end
