(* ===== verification/Where_Grammar.thy ===== *)
theory Where_Grammar
  imports Where_Plan Table_Schema
begin

text \<open>
  The productions of the grammar for WHERE clauses (\<^verbatim>\<open>src/parser/grammar.yy\<close>) as the syntax tree they derive,
  a constructor per production, and their actions as functions on it.  Beside what the actions build stands
  what the clause says when it is read as logic; the precedences the grammar declares are a predicate on
  syntax trees.
\<close>

section \<open>Syntax\<close>

datatype path =
    Path_name string
  | Path_index path string
  | Path_dot path path

datatype element =
    Compare path string "value"
  | Is_null path
  | Is_not_null path
  | Between path "value" "value"
  | In_list path "value list"
  | Attribute_exists path
  | Attribute_not_exists path
  | Attribute_type path scalar_type
  | Begins_with path string
  | Contains path string
  | Size path string "value"

datatype where_syntax =
    W_Element element
  | W_Not where_syntax
  | W_Parens where_syntax
  | W_And where_syntax where_syntax
  | W_Or where_syntax where_syntax

text \<open>\<open>%left K_OR\<close>, \<open>%left K_AND\<close>, \<open>%left K_NOT\<close>, from loose to tight: the operand of a negation is neither a
  conjunction nor a disjunction, conjunctions and disjunctions lean to the left.\<close>

fun is_or :: "where_syntax \<Rightarrow> bool" where
  "is_or (W_Or a b) = True"
| "is_or w = False"

fun is_and :: "where_syntax \<Rightarrow> bool" where
  "is_and (W_And a b) = True"
| "is_and w = False"

fun by_precedence :: "where_syntax \<Rightarrow> bool" where
  "by_precedence (W_Element e) = True"
| "by_precedence (W_Not w) = (by_precedence w \<and> \<not> is_and w \<and> \<not> is_or w)"
| "by_precedence (W_Parens w) = by_precedence w"
| "by_precedence (W_And a b) = (by_precedence a \<and> by_precedence b \<and> \<not> is_or a \<and> \<not> is_or b \<and> \<not> is_and b)"
| "by_precedence (W_Or a b) = (by_precedence a \<and> by_precedence b \<and> \<not> is_or b)"

section \<open>Actions\<close>

fun path_text :: "path \<Rightarrow> string" where
  "path_text (Path_name s) = s"
| "path_text (Path_index p n) = path_text p @ ''['' @ n @ '']''"
| "path_text (Path_dot p q) = path_text p @ ''.'' @ path_text q"

definition type_token :: "scalar_type \<Rightarrow> string" where
  "type_token t = (case t of Scalar_n \<Rightarrow> ''N'' | Scalar_s \<Rightarrow> ''S'' | Scalar_b \<Rightarrow> ''B'')"

fun build_element :: "element \<Rightarrow> lexpr" where
  "build_element (Compare p op v) = mk_comparison (path_text p) op v"
| "build_element (Is_null p) = mk_comparison (path_text p) ''='' null_value"
| "build_element (Is_not_null p) = mk_is_not_null (path_text p)"
| "build_element (Between p lo hi) = Leaf no_flags (LogicalBetween (path_text p) lo hi)"
| "build_element (In_list p vs) = Leaf no_flags (LogicalIn (path_text p) vs)"
| "build_element (Attribute_exists p) = mk_attribute_exists (path_text p) True"
| "build_element (Attribute_not_exists p) = mk_attribute_exists (path_text p) False"
| "build_element (Attribute_type p t) = Leaf no_flags (LogicalAttributeType (path_text p) (type_token t))"
| "build_element (Begins_with p s) = Leaf no_flags (LogicalBeginsWith (path_text p) (string_value s))"
| "build_element (Contains p s) = Leaf no_flags (LogicalContains (path_text p) (string_value s))"
| "build_element (Size p op v) = mk_comparison (''size('' @ path_text p @ '')'') op v"

fun build_where :: "where_syntax \<Rightarrow> lexpr" where
  "build_where (W_Element e) = build_element e"
| "build_where (W_Not w) = negate (build_where w)"
| "build_where (W_Parens w) = set_paren_group (build_where w)"
| "build_where (W_And a b) = make_and (build_where a) (build_where b)"
| "build_where (W_Or a b) = make_or (build_where a) (build_where b)"

section \<open>What a clause says\<close>

text \<open>\<open>sat\<close> says which predicates hold of an item.\<close>

definition compares :: "(leaf \<Rightarrow> bool) \<Rightarrow> string \<Rightarrow> string \<Rightarrow> value \<Rightarrow> bool" where
  "compares sat lhs op v = (if op = ''!='' then \<not> sat (LogicalComparison lhs ''='' v) else sat (LogicalComparison lhs op v))"

fun element_says :: "(leaf \<Rightarrow> bool) \<Rightarrow> element \<Rightarrow> bool" where
  "element_says sat (Compare p op v) = compares sat (path_text p) op v"
| "element_says sat (Is_null p) = compares sat (path_text p) ''='' null_value"
| "element_says sat (Is_not_null p) =
     (\<not> compares sat (path_text p) ''='' null_value \<and> sat (LogicalAttributeExists (path_text p)))"
| "element_says sat (Between p lo hi) = sat (LogicalBetween (path_text p) lo hi)"
| "element_says sat (In_list p vs) = sat (LogicalIn (path_text p) vs)"
| "element_says sat (Attribute_exists p) = sat (LogicalAttributeExists (path_text p))"
| "element_says sat (Attribute_not_exists p) = (\<not> sat (LogicalAttributeExists (path_text p)))"
| "element_says sat (Attribute_type p t) = sat (LogicalAttributeType (path_text p) (type_token t))"
| "element_says sat (Begins_with p s) = sat (LogicalBeginsWith (path_text p) (string_value s))"
| "element_says sat (Contains p s) = sat (LogicalContains (path_text p) (string_value s))"
| "element_says sat (Size p op v) = compares sat (''size('' @ path_text p @ '')'') op v"

fun clause_says :: "(leaf \<Rightarrow> bool) \<Rightarrow> where_syntax \<Rightarrow> bool" where
  "clause_says sat (W_Element e) = element_says sat e"
| "clause_says sat (W_Not w) = (\<not> clause_says sat w)"
| "clause_says sat (W_Parens w) = clause_says sat w"
| "clause_says sat (W_And a b) = (clause_says sat a \<and> clause_says sat b)"
| "clause_says sat (W_Or a b) = (clause_says sat a \<or> clause_says sat b)"

text \<open>A negated \<open>IS NOT NULL\<close> without parentheses, however many negations there are.\<close>

fun not_null_under :: "bool \<Rightarrow> where_syntax \<Rightarrow> bool" where
  "not_null_under neg (W_Element (Is_not_null p)) = (\<not> neg)"
| "not_null_under neg (W_Not w) = not_null_under (\<not> neg) w"
| "not_null_under neg w = False"

text \<open>No conjunction joins two of them.\<close>

fun splices_nothing :: "where_syntax \<Rightarrow> bool" where
  "splices_nothing (W_Element e) = True"
| "splices_nothing (W_Not w) = splices_nothing w"
| "splices_nothing (W_Parens w) = splices_nothing w"
| "splices_nothing (W_And a b) =
     (splices_nothing a \<and> splices_nothing b \<and> \<not> (not_null_under True a \<and> not_null_under True b))"
| "splices_nothing (W_Or a b) = (splices_nothing a \<and> splices_nothing b)"

section \<open>What the actions build\<close>

lemma element_eval: "eval sat (build_element e) = element_says sat e"
  by (cases e) (auto simp: compares_def mk_comparison_def mk_attribute_exists_def mk_is_not_null_def no_flags_def eval_make_and
      negate_def is_negated_def)

text \<open>The trees that can be spliced under their negation.\<close>

definition bare_and :: "bool \<Rightarrow> lexpr \<Rightarrow> bool" where
  "bare_and neg e \<longleftrightarrow> (\<exists>f es. e = LogicalAnd f es \<and> m_negate f = neg \<and> \<not> m_parens f)"

definition bare_negated_or :: "lexpr \<Rightarrow> bool" where
  "bare_negated_or e \<longleftrightarrow> (\<exists>f es. e = LogicalOr f es \<and> m_negate f \<and> \<not> m_parens f)"

lemma splices_bare: "splices_negated_and a b \<longleftrightarrow> bare_and True a \<and> bare_and True b"
  "splices_negated_or a b \<longleftrightarrow> bare_negated_or a \<and> bare_negated_or b"
  by (cases a; cases b; auto simp: bare_and_def bare_negated_or_def)+

lemma bare_negate: "bare_and neg (negate e) = bare_and (\<not> neg) e"
  by (cases e) (auto simp: bare_and_def negate_def is_negated_def)

lemma bare_paren [simp]: "\<not> bare_and neg (set_paren_group e)" "\<not> bare_negated_or (set_paren_group e)"
  by (cases e; simp add: bare_and_def bare_negated_or_def set_paren_group_def)+

lemma make_and_bare: "\<not> splices_negated_and a b \<Longrightarrow> \<not> bare_and True (make_and a b)"
  by (cases a; cases b) (auto simp: bare_and_def no_flags_def)


definition bare_or :: "lexpr \<Rightarrow> bool" where
  "bare_or e \<longleftrightarrow> (\<exists>f es. e = LogicalOr f es \<and> \<not> m_parens f)"

lemma bare_or_simps [simp]:
  "bare_or (negate e) = bare_or e" "\<not> bare_or (set_paren_group e)" "\<not> bare_or (make_and a b)"
  "\<not> bare_or (build_element el)"
proof -
  show "bare_or (negate e) = bare_or e" by (cases e) (simp_all add: bare_or_def negate_def)
  show "\<not> bare_or (set_paren_group e)" by (cases e) (simp_all add: bare_or_def set_paren_group_def)
  show and_case: "\<not> bare_or (make_and a b)" for a b by (cases a; cases b) (simp_all add: bare_or_def)
  show "\<not> bare_or (build_element el)"
    by (cases el) (simp_all add: and_case mk_is_not_null_def, simp_all add: bare_or_def mk_comparison_def mk_attribute_exists_def negate_def)
qed

lemma bare_or_built: "by_precedence w \<Longrightarrow> bare_or (build_where w) \<Longrightarrow> is_or w"
  by (induction w) auto

lemma make_or_bare: "\<not> splices_negated_or a b \<Longrightarrow> \<not> bare_negated_or (make_or a b)"
  by (cases a; cases b) (auto simp: bare_negated_or_def no_flags_def)

lemma bare_and_element: "bare_and neg (build_element e) = not_null_under neg (W_Element e)"
  by (cases e) (auto simp: bare_and_def mk_is_not_null_def mk_comparison_def mk_attribute_exists_def negate_def
      no_flags_def is_negated_def)

lemma bare_and_built:
  "by_precedence w \<Longrightarrow> \<not> is_and w \<Longrightarrow> \<not> is_or w \<Longrightarrow> bare_and neg (build_where w) = not_null_under neg w"
  by (induction w arbitrary: neg) (simp_all add: bare_and_element bare_negate)

text \<open>In a clause that joins no two negated \<open>IS NOT NULL\<close> tests, no factory splices a negation.\<close>

lemma built_unspliced:
  "by_precedence w \<Longrightarrow> splices_nothing w \<Longrightarrow>
   (bare_and True (build_where w) \<longrightarrow> not_null_under True w) \<and> \<not> bare_negated_or (build_where w)"
proof (induction w)
  case (W_Element e)
  then show ?case using bare_or_simps(4) [of e] by (auto simp: bare_and_element bare_or_def bare_negated_or_def)
next
  case (W_Not w)
  then have "\<not> bare_or (build_where (W_Not w))" using bare_or_built by auto
  moreover have "bare_and True (build_where (W_Not w)) = not_null_under True (W_Not w)"
    using W_Not.prems by (intro bare_and_built) auto
  ultimately show ?case by (auto simp: bare_or_def bare_negated_or_def)
next
  case (W_And a b)
  then have "\<not> splices_negated_and (build_where a) (build_where b)" by (auto simp: splices_bare)
  then show ?case using make_and_bare bare_or_simps(3) [of "build_where a" "build_where b"]
    by (auto simp: bare_or_def bare_negated_or_def)
next
  case (W_Or a b)
  then have "\<not> splices_negated_or (build_where a) (build_where b)" by (auto simp: splices_bare)
  moreover have "\<not> bare_and neg (make_or x y)" for neg x y by (cases x; cases y) (auto simp: bare_and_def)
  ultimately show ?case using make_or_bare by auto
qed simp

text \<open>C3: A WHERE clause is read as it says.  For every clause parsed by the declared precedences, however NOT,
  AND, OR and parentheses nest, the tree the actions build has the truth value of the clause, unless AND
  joins two unparenthesised negated \<open>IS NOT NULL\<close> tests: there the tree is satisfied when one of them is.\<close>

theorem where_tree_says_clause:
  assumes "by_precedence w"
  shows "(splices_nothing w \<longrightarrow> eval sat (build_where w) = clause_says sat w) \<and>
    eval sat (build_where (W_And (W_Not (W_Element (Is_not_null p))) (W_Not (W_Element (Is_not_null q))))) =
      (\<not> element_says sat (Is_not_null p) \<or> \<not> element_says sat (Is_not_null q))"
proof
  show "splices_nothing w \<longrightarrow> eval sat (build_where w) = clause_says sat w"
  proof
    show "splices_nothing w \<Longrightarrow> eval sat (build_where w) = clause_says sat w"
      using assms
    proof (induction w)
      case (W_And a b)
      then have "\<not> splices_negated_and (build_where a) (build_where b)"
        using built_unspliced [of a] built_unspliced [of b] by (auto simp: splices_bare)
      then show ?case using W_And by (simp add: eval_make_and)
    next
      case (W_Or a b)
      then have "\<not> splices_negated_or (build_where a) (build_where b)"
        using built_unspliced [of a] by (auto simp: splices_bare)
      then show ?case using W_Or by (simp add: eval_make_or)
    qed (simp_all add: element_eval)
  qed
  have "bare_and True (build_where (W_Not (W_Element (Is_not_null x))))" for x
    by (simp add: bare_negate bare_and_element del: build_element.simps)
  then show "eval sat (build_where (W_And (W_Not (W_Element (Is_not_null p))) (W_Not (W_Element (Is_not_null q))))) =
      (\<not> element_says sat (Is_not_null p) \<or> \<not> element_says sat (Is_not_null q))"
    by (simp add: eval_make_and splices_bare element_eval del: build_element.simps element_says.simps)
qed


theorem where_tree_says_clause_witness:
  "eval (\<lambda>l. l = LogicalComparison ''c'' ''='' (N ''2''))
     (build_where (W_And (W_Not (W_Parens (W_Or (W_Element (Is_null (Path_name ''a''))) (W_Element (Is_not_null (Path_name ''b''))))))
        (W_Element (Compare (Path_name ''c'') ''='' (N ''2'')))))"
  using where_tree_says_clause
    [of "W_And (W_Not (W_Parens (W_Or (W_Element (Is_null (Path_name ''a''))) (W_Element (Is_not_null (Path_name ''b''))))))
        (W_Element (Compare (Path_name ''c'') ''='' (N ''2'')))" "\<lambda>l. l = LogicalComparison ''c'' ''='' (N ''2'')"]
  by (simp add: compares_def del: build_where.simps)

end
