(* ===== verification/Statement_Grammar.thy ===== *)
theory Statement_Grammar
  imports Alter_Grammar Where_Grammar
begin

text \<open>
  The productions of the grammar for the other statements (\<^verbatim>\<open>src/parser/grammar.yy\<close>) with their actions, up to the
  whole input of one statement.  An action that records a semantic error gives its message beside the command.
  What the executors and the planner rely on in a command is proved of every command the grammar reads.
\<close>

section \<open>Names, paths and clauses\<close>

definition parse_double :: "string \<Rightarrow> real" where
  "parse_double s = (case stod (c_str s) of Some x \<Rightarrow> x | None \<Rightarrow> 0)"

text \<open>\<open>static_cast<int>\<close> of a \<open>long long\<close>.\<close>

definition to_int :: "int \<Rightarrow> int" where
  "to_int i = signed_take_bit 31 i"

definition raw :: "char \<Rightarrow> token" where
  "raw c = Raw_char c"

definition semicolon :: token where
  "semicolon = Token ''SEMICOLON'' []"

inductive g_path :: "token list \<Rightarrow> path \<Rightarrow> bool" where
  path_name: "g_string ts s \<Longrightarrow> g_path ts (Path_name s)"
| path_index: "g_path ts p \<Longrightarrow> g_path (ts @ [raw (CHR ''[''), whole n, raw (CHR '']'')]) (Path_index p n)"
| path_dot: "g_path ts p \<Longrightarrow> g_path us q \<Longrightarrow> g_path (ts @ raw (CHR ''.'') # us) (Path_dot p q)"

inductive lee_lhs :: "token list \<Rightarrow> string \<Rightarrow> bool" where
  lhs: "g_path ts p \<Longrightarrow> lee_lhs ts (path_text p)"

inductive comparison_op :: "token list \<Rightarrow> string \<Rightarrow> bool" where
  comparison: "k \<in> set [''T_EQUAL'', ''T_GREATER_THAN'', ''T_GREATER_THAN_OR_EQUAL'', ''T_LESS_THAN'', ''T_LESS_THAN_OR_EQUAL'', ''T_NOT_EQUAL''] \<Longrightarrow>
    comparison_op [Token k s] s"

inductive logical_expression_element :: "token list \<Rightarrow> element \<Rightarrow> bool" where
  el_compare: "g_path ps p \<Longrightarrow> comparison_op os op \<Longrightarrow> lee_rhs vs v \<Longrightarrow> logical_expression_element (ps @ os @ vs) (Compare p op v)"
| el_null: "g_path ps p \<Longrightarrow> logical_expression_element (ps @ [kw ''K_IS'', kw ''K_NULL'']) (Is_null p)"
| el_not_null: "g_path ps p \<Longrightarrow> logical_expression_element (ps @ [kw ''K_IS'', kw ''K_NOT'', kw ''K_NULL'']) (Is_not_null p)"
| el_between: "g_path ps p \<Longrightarrow> lee_rhs ls lo \<Longrightarrow> lee_rhs hs hi \<Longrightarrow>
    logical_expression_element (ps @ kw ''K_BETWEEN'' # ls @ kw ''K_AND'' # hs) (Between p lo hi)"
| el_in: "g_path ps p \<Longrightarrow> lee_rhs_list vs values \<Longrightarrow> logical_expression_element (ps @ kw ''K_IN'' # in_parens vs) (In_list p values)"
| el_exists: "g_path ps p \<Longrightarrow> logical_expression_element (kw ''K_ATTRIBUTE_EXISTS'' # in_parens ps) (Attribute_exists p)"
| el_not_exists: "g_path ps p \<Longrightarrow> logical_expression_element (kw ''K_ATTRIBUTE_NOT_EXISTS'' # in_parens ps) (Attribute_not_exists p)"
| el_type: "g_path ps p \<Longrightarrow> attribute_type ts t \<Longrightarrow>
    logical_expression_element (kw ''K_ATTRIBUTE_TYPE'' # in_parens (ps @ comma # ts)) (Attribute_type p t)"
| el_begins: "g_path ps p \<Longrightarrow> g_string ss s \<Longrightarrow>
    logical_expression_element (kw ''K_BEGINS_WITH'' # in_parens (ps @ comma # ss)) (Begins_with p s)"
| el_contains: "g_path ps p \<Longrightarrow> g_string ss s \<Longrightarrow>
    logical_expression_element (kw ''K_CONTAINS'' # in_parens (ps @ comma # ss)) (Contains p s)"
| el_size: "g_path ps p \<Longrightarrow> comparison_op os op \<Longrightarrow> lee_rhs vs v \<Longrightarrow>
    logical_expression_element (kw ''K_SIZE'' # in_parens ps @ os @ vs) (Size p op v)"

inductive logical_expression :: "token list \<Rightarrow> where_syntax \<Rightarrow> bool" where
  le_element: "logical_expression_element ts e \<Longrightarrow> logical_expression ts (W_Element e)"
| le_not: "logical_expression ts w \<Longrightarrow> logical_expression (kw ''K_NOT'' # ts) (W_Not w)"
| le_parens: "logical_expression ts w \<Longrightarrow> logical_expression (in_parens ts) (W_Parens w)"
| le_and: "logical_expression ts a \<Longrightarrow> logical_expression us b \<Longrightarrow> logical_expression (ts @ kw ''K_AND'' # us) (W_And a b)"
| le_or: "logical_expression ts a \<Longrightarrow> logical_expression us b \<Longrightarrow> logical_expression (ts @ kw ''K_OR'' # us) (W_Or a b)"

text \<open>The tree of a clause is the one that the declared precedences choose.\<close>

inductive where_clause :: "token list \<Rightarrow> lexpr \<Rightarrow> bool" where
  where_rule: "logical_expression ts w \<Longrightarrow> by_precedence w \<Longrightarrow> where_clause (kw ''K_WHERE'' # ts) (build_where w)"

definition rate_limit_of :: "real \<Rightarrow> real \<Rightarrow> rate_limit" where
  "rate_limit_of r w = \<lparr>rl_rcu = r, rl_wcu = w\<rparr>"

inductive ratelimit :: "token list \<Rightarrow> rate_limit \<Rightarrow> bool" where
  rl_rw: "ratelimit ([kw ''K_WITH'', kw ''K_RATELIMIT''] @ units r ''K_RCU'' w ''K_WCU'') (rate_limit_of (parse_double r) (parse_double w))"
| rl_wr: "ratelimit ([kw ''K_WITH'', kw ''K_RATELIMIT''] @ units w ''K_WCU'' r ''K_RCU'') (rate_limit_of (parse_double r) (parse_double w))"
| rl_r: "ratelimit ([kw ''K_WITH'', kw ''K_RATELIMIT''] @ in_parens [whole r, kw ''K_RCU'']) (rate_limit_of (parse_double r) 0)"
| rl_w: "ratelimit ([kw ''K_WITH'', kw ''K_RATELIMIT''] @ in_parens [whole w, kw ''K_WCU'']) (rate_limit_of 0 (parse_double w))"

inductive optional_return_value :: "token list \<Rightarrow> ast_return_value \<Rightarrow> bool" where
  rv_all_old: "optional_return_value [kw ''K_RETURN'', kw ''K_VALUES'', kw ''K_ALL'', kw ''K_OLD''] Ast_rv_all_old"
| rv_all_new: "optional_return_value [kw ''K_RETURN'', kw ''K_VALUES'', kw ''K_ALL'', kw ''K_NEW''] Ast_rv_all_new"
| rv_updated_old: "optional_return_value [kw ''K_RETURN'', kw ''K_VALUES'', kw ''K_UPDATED'', kw ''K_OLD''] Ast_rv_updated_old"
| rv_updated_new: "optional_return_value [kw ''K_RETURN'', kw ''K_VALUES'', kw ''K_UPDATED'', kw ''K_NEW''] Ast_rv_updated_new"
| rv_none: "optional_return_value [] Ast_rv_none"

inductive optional_return_consumed_capacity :: "token list \<Rightarrow> ast_return_consumed_capacity \<Rightarrow> bool" where
  rcc_none: "optional_return_consumed_capacity [] Ast_rcc_none"
| rcc_indexes: "optional_return_consumed_capacity [kw ''K_RETURN'', kw ''K_CONSUMED'', kw ''K_CAPACITY'', kw ''K_INDEXES''] Ast_rcc_indexes"
| rcc_total: "optional_return_consumed_capacity [kw ''K_RETURN'', kw ''K_CONSUMED'', kw ''K_CAPACITY'', kw ''K_TOTAL''] Ast_rcc_total"

inductive table_optional_index_name :: "token list \<Rightarrow> string \<times> string option \<Rightarrow> bool" where
  table_index: "g_string ss t \<Longrightarrow> g_string ts i \<Longrightarrow> table_optional_index_name (ss @ raw (CHR ''.'') # ts) (t, Some i)"
| table_only: "g_string ss t \<Longrightarrow> table_optional_index_name ss (t, None)"

inductive flag_clause :: "string list \<Rightarrow> token list \<Rightarrow> bool \<Rightarrow> bool" for ks where
  flag_absent: "flag_clause ks [] False"
| flag_present: "flag_clause ks (map kw ks) True"

inductive string_clause :: "string list \<Rightarrow> token list \<Rightarrow> string \<Rightarrow> bool" for ks where
  sc_absent: "string_clause ks [] []"
| sc_present: "g_string ss s \<Longrightarrow> string_clause ks (map kw ks @ ss) s"

section \<open>Reading and writing items\<close>

inductive select_projection :: "token list \<Rightarrow> string list \<Rightarrow> bool" where
  proj_all: "select_projection [raw (CHR ''*'')] []"
| proj_list: "comma_list lee_lhs ts as \<Longrightarrow> select_projection ts as"

inductive optional_vector_search_clause :: "token list \<Rightarrow> value option \<times> int option \<Rightarrow> bool" where
  vs_none: "optional_vector_search_clause [] (None, None)"
| vs_nearest: "lee_rhs ts v \<Longrightarrow>
    optional_vector_search_clause ([kw ''K_NEAREST'', whole n, kw ''K_TO''] @ ts) (Some v, Some (to_int (parse_ll n)))"

text \<open>The action of SELECT: a limit and an explicit capacity report exclude each other.\<close>

definition both_limits :: string where
  "both_limits = ''You cannot specify both a ratelimit and a return_consumed_capacity.''"

definition select_action :: "select_cmd \<Rightarrow> command_node \<times> string option" where
  "select_action cmd =
     (if sel_ratelimit cmd \<noteq> None \<and> sel_rcc cmd \<noteq> Ast_rcc_none then (EmptyCmd, Some both_limits) else (SelectCmd cmd, None))"

inductive select_command :: "token list \<Rightarrow> command_node \<times> string option \<Rightarrow> bool" where
  select_rule: "flag_clause [''K_CONSISTENT''] t2 consistent \<Longrightarrow> select_projection t3 projection \<Longrightarrow>
    table_optional_index_name t5 (table, index) \<Longrightarrow> optional None Some where_clause t6 clause \<Longrightarrow>
    optional_vector_search_clause t7 (vector, topk) \<Longrightarrow> optional_return_consumed_capacity t8 rcc \<Longrightarrow>
    optional None Some ratelimit t9 rate \<Longrightarrow>
    select_command (kw ''K_SELECT'' # t2 @ t3 @ kw ''K_FROM'' # t5 @ t6 @ t7 @ t8 @ t9)
      (select_action \<lparr>sel_consistent = consistent, sel_projection = projection, sel_table = table, sel_index = index,
         sel_where = clause, sel_rcc = rcc, sel_ratelimit = rate, sel_exists_mode = Exists_none,
         sel_search_vector = vector, sel_topk = topk\<rparr>)"

fun set_exists_mode :: "exists_mode \<Rightarrow> command_node \<times> string option \<Rightarrow> command_node \<times> string option" where
  "set_exists_mode m (SelectCmd s, err) = (SelectCmd (s\<lparr>sel_exists_mode := m\<rparr>), err)"
| "set_exists_mode m r = r"

inductive exists_command :: "token list \<Rightarrow> command_node \<times> string option \<Rightarrow> bool" where
  ex_exists: "select_command ts r \<Longrightarrow> exists_command (kw ''K_EXISTS'' # ts) (set_exists_mode Exists_exists r)"
| ex_not_exists: "select_command ts r \<Longrightarrow> exists_command ([kw ''K_NOT'', kw ''K_EXISTS''] @ ts) (set_exists_mode Exists_not_exists r)"

inductive insert_row :: "token list \<Rightarrow> value list \<Rightarrow> bool" where
  row: "comma_list insert_value ts vs \<Longrightarrow> insert_row (in_parens ts) vs"

inductive insert_command :: "token list \<Rightarrow> insert_cmd \<Rightarrow> bool" where
  insert_rule: "g_string t3 table \<Longrightarrow> comma_list g_string t5 columns \<Longrightarrow> comma_list insert_row t8 rows \<Longrightarrow> optional None Some ratelimit t9 rate \<Longrightarrow>
    insert_command ([kw ''K_INSERT'', kw ''K_INTO''] @ t3 @ in_parens t5 @ kw ''K_VALUES'' # t8 @ t9)
      \<lparr>in_table_name = table, in_columns = columns, in_rows = rows, in_insert = True, in_ratelimit = rate, in_return_value = Ast_rv_none\<rparr>"

inductive replace_command :: "token list \<Rightarrow> insert_cmd \<Rightarrow> bool" where
  replace_rule: "g_string t3 table \<Longrightarrow> comma_list g_string t5 columns \<Longrightarrow> comma_list insert_row t8 rows \<Longrightarrow> optional None Some ratelimit t9 rate \<Longrightarrow>
    optional_return_value t10 rv \<Longrightarrow>
    replace_command ([kw ''K_REPLACE'', kw ''K_INTO''] @ t3 @ in_parens t5 @ kw ''K_VALUES'' # t8 @ t9 @ t10)
      \<lparr>in_table_name = table, in_columns = columns, in_rows = rows, in_insert = False, in_ratelimit = rate, in_return_value = rv\<rparr>"

definition blank_element :: update_set_element where
  "blank_element = \<lparr>us_lhs = [], us_op = [], us_rhs_value = None, us_rhs_attribute = [], us_if_not_exists_lhs = [],
     us_if_not_exists_value = None\<rparr>"

inductive use_lhs :: "token list \<Rightarrow> update_set_element \<Rightarrow> bool" where
  use_attribute: "use_lhs [Token ''T_UNQUOTED_STRING'' a] (blank_element\<lparr>us_rhs_attribute := a\<rparr>)"
| use_default: "lee_lhs ps p \<Longrightarrow> lee_rhs vs v \<Longrightarrow>
    use_lhs (kw ''K_IF_NOT_EXISTS'' # in_parens (ps @ comma # vs))
      (blank_element\<lparr>us_if_not_exists_lhs := p, us_if_not_exists_value := Some v\<rparr>)"

definition equals :: token where
  "equals = Token ''T_EQUAL'' ''=''"

inductive set_element :: "token list \<Rightarrow> update_set_element \<Rightarrow> bool" where
  set_value: "lee_lhs ps p \<Longrightarrow> lee_rhs vs v \<Longrightarrow> set_element (ps @ equals # vs) (blank_element\<lparr>us_lhs := p, us_rhs_value := Some v\<rparr>)"
| set_plus: "lee_lhs ps p \<Longrightarrow> use_lhs us e \<Longrightarrow> lee_rhs vs v \<Longrightarrow>
    set_element (ps @ equals # us @ raw (CHR ''+'') # vs) (e\<lparr>us_lhs := p, us_op := ''+'', us_rhs_value := Some v\<rparr>)"
| set_minus: "lee_lhs ps p \<Longrightarrow> use_lhs us e \<Longrightarrow> lee_rhs vs v \<Longrightarrow>
    set_element (ps @ equals # us @ raw (CHR ''-'') # vs) (e\<lparr>us_lhs := p, us_op := ''-'', us_rhs_value := Some v\<rparr>)"
| set_copy: "lee_lhs ps p \<Longrightarrow> use_lhs us e \<Longrightarrow> set_element (ps @ equals # us) (e\<lparr>us_lhs := p\<rparr>)"

inductive update_command :: "token list \<Rightarrow> update_cmd \<Rightarrow> bool" where
  update_set: "table_optional_index_name t2 (table, index) \<Longrightarrow> comma_list set_element t4 es \<Longrightarrow> optional None Some where_clause t5 clause \<Longrightarrow>
    optional None Some ratelimit t6 rate \<Longrightarrow> optional_return_value t7 rv \<Longrightarrow>
    update_command (kw ''K_UPDATE'' # t2 @ kw ''K_SET'' # t4 @ t5 @ t6 @ t7)
      \<lparr>up_table = table, up_index = index, up_mutation = Mutation_set, up_set = es, up_remove = [], up_where = clause,
       up_upsert = False, up_ratelimit = rate, up_return_value = rv\<rparr>"
| update_remove: "table_optional_index_name t2 (table, index) \<Longrightarrow> comma_list lee_lhs t4 ps \<Longrightarrow> optional None Some where_clause t5 clause \<Longrightarrow>
    optional None Some ratelimit t6 rate \<Longrightarrow> optional_return_value t7 rv \<Longrightarrow>
    update_command (kw ''K_UPDATE'' # t2 @ kw ''K_REMOVE'' # t4 @ t5 @ t6 @ t7)
      \<lparr>up_table = table, up_index = index, up_mutation = Mutation_remove, up_set = [], up_remove = ps, up_where = clause,
       up_upsert = False, up_ratelimit = rate, up_return_value = rv\<rparr>"

inductive upsert_command :: "token list \<Rightarrow> update_cmd \<Rightarrow> bool" where
  upsert_rule: "table_optional_index_name t2 (table, index) \<Longrightarrow> comma_list set_element t4 es \<Longrightarrow> optional None Some where_clause t5 clause \<Longrightarrow>
    optional None Some ratelimit t6 rate \<Longrightarrow> optional_return_value t7 rv \<Longrightarrow>
    upsert_command (kw ''K_UPSERT'' # t2 @ kw ''K_SET'' # t4 @ t5 @ t6 @ t7)
      \<lparr>up_table = table, up_index = index, up_mutation = Mutation_set, up_set = es, up_remove = [], up_where = clause,
       up_upsert = True, up_ratelimit = rate, up_return_value = rv\<rparr>"

inductive delete_command :: "token list \<Rightarrow> delete_cmd \<Rightarrow> bool" where
  delete_rule: "table_optional_index_name t3 (table, index) \<Longrightarrow> optional None Some where_clause t4 clause \<Longrightarrow>
    optional None Some ratelimit t5 rate \<Longrightarrow> optional_return_value t6 rv \<Longrightarrow>
    delete_command ([kw ''K_DELETE'', kw ''K_FROM''] @ t3 @ t4 @ t5 @ t6)
      \<lparr>de_table = table, de_index = index, de_where = clause, de_ratelimit = rate, de_return_value = rv\<rparr>"

inductive write_command :: "token list \<Rightarrow> command_node \<times> string option \<Rightarrow> bool" where
  write_insert: "insert_command ts c \<Longrightarrow> write_command ts (InsertCmd c, None)"
| write_replace: "replace_command ts c \<Longrightarrow> write_command ts (InsertCmd c, None)"
| write_update: "update_command ts c \<Longrightarrow> write_command ts (UpdateCmd c, None)"
| write_upsert: "upsert_command ts c \<Longrightarrow> write_command ts (UpdateCmd c, None)"
| write_delete: "delete_command ts c \<Longrightarrow> write_command ts (DeleteCmd c, None)"
| write_exists: "exists_command ts r \<Longrightarrow> write_command ts r"

section \<open>Transactions\<close>

text \<open>The first semantic error is kept.\<close>

definition first_error :: "string option \<Rightarrow> string option \<Rightarrow> string option" where
  "first_error a b = (case a of None \<Rightarrow> b | Some e \<Rightarrow> Some e)"

inductive transact_list :: "(token list \<Rightarrow> command_node \<times> string option \<Rightarrow> bool) \<Rightarrow> token list \<Rightarrow> command_node list \<Rightarrow> string option \<Rightarrow> bool"
  for C where
  tl_one: "C ts (c, err) \<Longrightarrow> transact_list C (ts @ [semicolon]) [c] err"
| tl_more: "transact_list C us cs err \<Longrightarrow> C ts (c, err') \<Longrightarrow> transact_list C (us @ ts @ [semicolon]) (cs @ [c]) (first_error err err')"

definition transaction :: "token list \<Rightarrow> string \<Rightarrow> token list" where
  "transaction ts k = [kw ''K_BEGIN'', semicolon] @ ts @ [kw k]"

inductive transact_command :: "token list \<Rightarrow> command_node \<times> string option \<Rightarrow> bool" where
  read_commit: "transact_list select_command ts cs err \<Longrightarrow>
    transact_command (transaction ts ''K_COMMIT'') (TransactCmd Access_read False cs, err)"
| write_commit: "transact_list write_command ts cs err \<Longrightarrow>
    transact_command (transaction ts ''K_COMMIT'') (TransactCmd Access_write False cs, err)"
| read_rollback: "transact_list select_command ts cs err \<Longrightarrow>
    transact_command (transaction ts ''K_ROLLBACK'') (TransactCmd Access_read True cs, err)"
| write_rollback: "transact_list write_command ts cs err \<Longrightarrow>
    transact_command (transaction ts ''K_ROLLBACK'') (TransactCmd Access_write True cs, err)"
| empty_rollback: "transact_command (transaction [] ''K_ROLLBACK'') (TransactCmd Access_read True [], None)"

section \<open>Tables, backups, SHOW, HELP and the session\<close>

inductive drop_table_command :: "token list \<Rightarrow> drop_table_cmd \<Rightarrow> bool" where
  drop_rule: "flag_clause [''K_IF'', ''K_EXISTS''] t3 ie \<Longrightarrow> nowait_clause t4 nw \<Longrightarrow> g_string t5 t \<Longrightarrow>
    drop_table_command ([kw ''K_DROP'', kw ''K_TABLE''] @ t3 @ t4 @ t5) \<lparr>dr_table = t, dr_if_exists = ie, dr_nowait = nw\<rparr>"

inductive restore_command :: "token list \<Rightarrow> restore_cmd \<Rightarrow> bool" where
  restore_backup: "g_string ts t \<Longrightarrow> g_string ss s \<Longrightarrow>
    restore_command ([kw ''K_RESTORE'', kw ''K_TABLE''] @ ts @ [kw ''K_FROM'', kw ''K_BACKUP''] @ ss)
      \<lparr>re_kind = From_backup, re_target = t, re_source = s, re_timestamp = []\<rparr>"
| restore_pitr: "g_string ts t \<Longrightarrow> g_string ss s \<Longrightarrow>
    restore_command ([kw ''K_RESTORE'', kw ''K_TABLE''] @ ts @ kw ''K_FROM'' # ss @ [kw ''K_TO'', kw ''K_PITR'', Token ''T_TIMESTAMP'' m])
      \<lparr>re_kind = To_pitr, re_target = t, re_source = s, re_timestamp = unquote m\<rparr>"

inductive describe_command :: "token list \<Rightarrow> command_node \<Rightarrow> bool" where
  describe_rule: "g_string ts t \<Longrightarrow> describe_command (kw ''K_DESCRIBE'' # ts) (DescribeCmd t)"

inductive create_backup_command :: "token list \<Rightarrow> command_node \<Rightarrow> bool" where
  create_backup_rule: "g_string ts t \<Longrightarrow> g_string ss s \<Longrightarrow>
    create_backup_command ([kw ''K_BACKUP'', kw ''K_TABLE''] @ ts @ kw ''K_CALLED'' # ss) (CreateBackupCmd \<lparr>bc_table = t, bc_backup_name = s\<rparr>)"

inductive drop_backup_command :: "token list \<Rightarrow> command_node \<Rightarrow> bool" where
  drop_backup_rule: "g_string ts t \<Longrightarrow> drop_backup_command ([kw ''K_DROP'', kw ''K_BACKUP''] @ ts) (DropBackupCmd t)"

inductive describe_backup_command :: "token list \<Rightarrow> command_node \<Rightarrow> bool" where
  describe_backup_rule: "g_string ts t \<Longrightarrow> describe_backup_command ([kw ''K_DESCRIBE'', kw ''K_BACKUP''] @ ts) (DescribeBackupCmd t)"

inductive ddl_command :: "token list \<Rightarrow> command_node \<Rightarrow> bool" where
  ddl_drop: "drop_table_command ts c \<Longrightarrow> ddl_command ts (DropTableCmd c)"
| ddl_describe: "describe_command ts c \<Longrightarrow> ddl_command ts c"
| ddl_create: "create_table_command ts c \<Longrightarrow> ddl_command ts (CreateTableCmd c)"
| ddl_alter: "alter_table_command ts c \<Longrightarrow> ddl_command ts c"
| ddl_backup: "create_backup_command ts c \<Longrightarrow> ddl_command ts c"
| ddl_drop_backup: "drop_backup_command ts c \<Longrightarrow> ddl_command ts c"
| ddl_describe_backup: "describe_backup_command ts c \<Longrightarrow> ddl_command ts c"
| ddl_restore: "restore_command ts c \<Longrightarrow> ddl_command ts (RestoreCmd c)"

inductive show_tables_command :: "token list \<Rightarrow> command_node \<Rightarrow> bool" where
  show_tables_rule: "flag_clause [''K_BRIEF''] bs b \<Longrightarrow> string_clause [''K_LIKE''] ls l \<Longrightarrow>
    show_tables_command ([kw ''K_SHOW'', kw ''K_TABLES''] @ bs @ ls) (ShowTablesCmd \<lparr>sh_brief = b, sh_like = l\<rparr>)"

inductive show_backups_command :: "token list \<Rightarrow> command_node \<Rightarrow> bool" where
  show_backups_rule: "string_clause [] ks k \<Longrightarrow> string_clause [] ts t \<Longrightarrow>
    show_backups_command (kw ''K_SHOW'' # ks @ kw ''K_BACKUPS'' # ts) (ShowBackupsCmd \<lparr>sb_backup_type = k, sb_table = t\<rparr>)"

inductive show_create_table_command :: "token list \<Rightarrow> command_node \<Rightarrow> bool" where
  show_create_rule: "if_not_exists_clause t4 ine \<Longrightarrow> nowait_clause t5 nw \<Longrightarrow> g_string t6 t \<Longrightarrow>
    show_create_table_command ([kw ''K_SHOW'', kw ''K_CREATE'', kw ''K_TABLE''] @ t4 @ t5 @ t6)
      (ShowCreateTableCmd \<lparr>sc_if_not_exists = ine, sc_nowait = nw, sc_table = t\<rparr>)"

inductive show_command :: "token list \<Rightarrow> command_node \<Rightarrow> bool" where
  show_tables: "show_tables_command ts c \<Longrightarrow> show_command ts c"
| show_version: "show_command [kw ''K_SHOW'', kw ''K_VERSION''] ShowVersionCmd"
| show_backups: "show_backups_command ts c \<Longrightarrow> show_command ts c"
| show_limits: "show_command [kw ''K_SHOW'', kw ''K_LIMITS''] ShowLimitsCmd"
| show_create: "show_create_table_command ts c \<Longrightarrow> show_command ts c"

definition help_topics :: "(string list \<times> help_topic) list" where
  "help_topics =
     [([], Help_general), ([''K_EXPLAIN''], Help_explain), ([''K_BEGIN''], Help_begin), ([''K_COMMIT''], Help_commit),
      ([''K_ROLLBACK''], Help_rollback), ([''K_CONNECT''], Help_connect), ([''K_DROP''], Help_drop),
      ([''K_DROP'', ''K_TABLE''], Help_drop_table), ([''K_DROP'', ''K_BACKUP''], Help_drop_backup),
      ([''K_DESCRIBE''], Help_describe), ([''K_DESCRIBE'', ''K_BACKUP''], Help_describe_backup), ([''K_SHOW''], Help_show),
      ([''K_SHOW'', ''K_TABLES''], Help_show_tables), ([''K_SHOW'', ''K_LIMITS''], Help_show_limits),
      ([''K_SHOW'', ''K_BACKUPS''], Help_show_backups), ([''K_SHOW'', ''K_VERSION''], Help_show_version),
      ([''K_SHOW'', ''K_CREATE'', ''K_TABLE''], Help_show_create_table), ([''K_CREATE''], Help_create),
      ([''K_CREATE'', ''K_TABLE''], Help_create_table), ([''K_ALTER'', ''K_TABLE''], Help_alter_table),
      ([''K_BACKUP''], Help_backup), ([''K_RESTORE''], Help_restore), ([''K_SELECT''], Help_select_statement),
      ([''K_INSERT''], Help_insert), ([''K_REPLACE''], Help_replace), ([''K_UPDATE''], Help_update),
      ([''K_UPSERT''], Help_upsert), ([''K_DELETE''], Help_del)]"

inductive help_command :: "token list \<Rightarrow> command_node \<Rightarrow> bool" where
  help_rule: "(ks, topic) \<in> set help_topics \<Longrightarrow> help_command (kw ''K_HELP'' # map kw ks) (HelpCmd topic)"

inductive connect_command :: "token list \<Rightarrow> command_node \<Rightarrow> bool" where
  connect_rule: "g_string rs r \<Longrightarrow> string_clause [''K_WITH'', ''K_ENDPOINT''] es e \<Longrightarrow>
    connect_command (kw ''K_CONNECT'' # rs @ es) (ConnectCmd \<lparr>cn_region = r, cn_endpoint = e\<rparr>)"

inductive control_command :: "token list \<Rightarrow> command_node \<Rightarrow> bool" where
  control_connect: "connect_command ts c \<Longrightarrow> control_command ts c"
| control_quit: "control_command [kw ''K_QUIT''] QuitCmd"

inductive explainable :: "token list \<Rightarrow> command_node \<times> string option \<Rightarrow> bool" where
  x_ddl: "ddl_command ts c \<Longrightarrow> explainable ts (c, None)"
| x_get: "select_command ts r \<Longrightarrow> explainable ts r"
| x_write: "write_command ts r \<Longrightarrow> explainable ts r"
| x_transact: "transact_command ts r \<Longrightarrow> explainable ts r"

inductive g_command :: "token list \<Rightarrow> command_node \<times> string option \<Rightarrow> bool" where
  c_control: "control_command ts c \<Longrightarrow> g_command ts (c, None)"
| c_explainable: "explainable ts r \<Longrightarrow> g_command ts r"
| c_show: "show_command ts c \<Longrightarrow> g_command ts (c, None)"
| c_help: "help_command ts c \<Longrightarrow> g_command ts (c, None)"

inductive end_of_statement :: "token list \<Rightarrow> bool" where
  eos_semicolon: "end_of_statement [semicolon]"
| eos_input: "end_of_statement []"

text \<open>The input of one statement, without the arm that recovers from a syntax error: what is recorded as its
  result, and the semantic error, if any.\<close>

inductive g_input :: "token list \<Rightarrow> parsed_statement \<Rightarrow> string option \<Rightarrow> bool" where
  input_empty: "end_of_statement es \<Longrightarrow> g_input es \<lparr>ps_command = EmptyCmd, ps_explain = False\<rparr> None"
| input_command: "g_command ts (c, err) \<Longrightarrow> end_of_statement es \<Longrightarrow> g_input (ts @ es) \<lparr>ps_command = c, ps_explain = False\<rparr> err"
| input_explain: "explainable ts (c, err) \<Longrightarrow> end_of_statement es \<Longrightarrow>
    g_input (kw ''K_EXPLAIN'' # ts @ es) \<lparr>ps_command = c, ps_explain = True\<rparr> err"

section \<open>What the executors rely on\<close>

text \<open>A SET element has a path and one source: a value, a path's own value, or a default, the last two with an
  operation exactly if there is an operand.\<close>

definition set_element_ok :: "update_set_element \<Rightarrow> bool" where
  "set_element_ok e \<longleftrightarrow>
     (if us_rhs_attribute e = [] \<and> us_if_not_exists_value e = None then us_op e = [] \<and> us_rhs_value e \<noteq> None
      else us_op e \<in> {[], ''+'', ''-''} \<and> (us_op e = [] \<longleftrightarrow> us_rhs_value e = None) \<and>
        (us_rhs_attribute e = [] \<or> us_if_not_exists_value e = None))"

definition clause_ok :: "lexpr option \<Rightarrow> bool" where
  "clause_ok w = pred_option wf_expr w"

definition select_ok :: "select_cmd \<Rightarrow> bool" where
  "select_ok s \<longleftrightarrow> clause_ok (sel_where s) \<and> (sel_ratelimit s = None \<or> sel_rcc s = Ast_rcc_none) \<and>
     (sel_topk s = None \<longleftrightarrow> sel_search_vector s = None)"

definition insert_ok :: "insert_cmd \<Rightarrow> bool" where
  "insert_ok c \<longleftrightarrow> in_columns c \<noteq> [] \<and> in_rows c \<noteq> [] \<and> [] \<notin> set (in_rows c) \<and> (in_insert c \<longrightarrow> in_return_value c = Ast_rv_none)"

definition update_ok :: "update_cmd \<Rightarrow> bool" where
  "update_ok c \<longleftrightarrow> clause_ok (up_where c) \<and> list_all set_element_ok (up_set c) \<and>
     (case up_mutation c of
        Mutation_set \<Rightarrow> up_set c \<noteq> [] \<and> up_remove c = []
      | Mutation_remove \<Rightarrow> up_set c = [] \<and> up_remove c \<noteq> [] \<and> \<not> up_upsert c)"

fun item_ok :: "access \<Rightarrow> command_node \<Rightarrow> bool" where
  "item_ok acc (SelectCmd s) = (select_ok s \<and> (acc = Access_write \<longleftrightarrow> sel_exists_mode s \<noteq> Exists_none))"
| "item_ok acc (InsertCmd c) = (acc = Access_write \<and> insert_ok c)"
| "item_ok acc (UpdateCmd c) = (acc = Access_write \<and> update_ok c)"
| "item_ok acc (DeleteCmd c) = (acc = Access_write \<and> clause_ok (de_where c))"
| "item_ok acc _ = False"

fun command_ok :: "command_node \<Rightarrow> bool" where
  "command_ok (TransactCmd acc rollback items) = (list_all (item_ok acc) items \<and> (items = [] \<longrightarrow> rollback))"
| "command_ok (SelectCmd s) = select_ok s"
| "command_ok (InsertCmd c) = insert_ok c"
| "command_ok (UpdateCmd c) = update_ok c"
| "command_ok (DeleteCmd c) = clause_ok (de_where c)"
| "command_ok c = pred_option request_ok (alter_request c)"

text \<open>The scanner gives no empty word; nothing else of the text matters here.\<close>

definition no_empty_word :: "token list \<Rightarrow> bool" where
  "no_empty_word ts \<longleftrightarrow> Token ''T_UNQUOTED_STRING'' [] \<notin> set ts"

lemma no_empty_word_simps [simp]:
  "no_empty_word (ts @ us) \<longleftrightarrow> no_empty_word ts \<and> no_empty_word us"
  "no_empty_word (t # ts) \<longleftrightarrow> t \<noteq> Token ''T_UNQUOTED_STRING'' [] \<and> no_empty_word ts"
  "no_empty_word []"
  by (auto simp: no_empty_word_def)

lemma wf_build_element: "wf_expr (build_element e)"
  by (cases e) (auto simp: mk_comparison_def mk_is_not_null_def mk_attribute_exists_def intro!: wf_make_and)

lemma wf_build_where: "wf_expr (build_where w)"
  by (induction w) (simp_all add: wf_build_element wf_make_and wf_make_or)

lemma clause_read: "optional None Some where_clause ts w \<Longrightarrow> clause_ok w"
  by (auto simp: clause_ok_def wf_build_where elim!: optional.cases where_clause.cases)

lemma comma_list_words:
  "comma_list E ts vs \<Longrightarrow> (\<And>ts v. E ts v \<Longrightarrow> no_empty_word ts \<Longrightarrow> P v) \<Longrightarrow> no_empty_word ts \<Longrightarrow> vs \<noteq> [] \<and> list_all P vs"
  by (induction rule: comma_list.induct) auto

lemma source_read:
  "use_lhs ts e \<Longrightarrow> no_empty_word ts \<Longrightarrow>
     us_op e = [] \<and> us_rhs_value e = None \<and> (us_rhs_attribute e = [] \<longleftrightarrow> us_if_not_exists_value e \<noteq> None)"
  by (auto simp: blank_element_def elim!: use_lhs.cases)

lemma set_element_read: "set_element ts e \<Longrightarrow> no_empty_word ts \<Longrightarrow> set_element_ok e"
  by (erule set_element.cases) (auto simp: set_element_ok_def blank_element_def dest!: source_read)

lemma update_read:
  assumes "no_empty_word ts"
  shows "update_command ts c \<Longrightarrow> update_ok c" "upsert_command ts c \<Longrightarrow> update_ok c"
  using assms clause_read comma_list_words [of set_element _ _ set_element_ok] set_element_read comma_list_all [of lee_lhs _ _ "\<lambda>_. True"]
  by (fastforce simp: update_ok_def elim!: update_command.cases upsert_command.cases)+

lemma rows_read: "comma_list insert_row ts rows \<Longrightarrow> rows \<noteq> [] \<and> [] \<notin> set rows"
  using comma_list_all [of insert_row ts rows "\<lambda>r. r \<noteq> []"] comma_list_all [of insert_value _ _ "\<lambda>_. True"]
  by (auto simp: list_all_iff elim!: insert_row.cases)

lemma insert_read:
  shows "insert_command ts c \<Longrightarrow> insert_ok c" "replace_command ts c \<Longrightarrow> insert_ok c"
  using rows_read comma_list_all [of g_string _ _ "\<lambda>_. True"]
  by (fastforce simp: insert_ok_def elim!: insert_command.cases replace_command.cases)+

lemma select_read:
  assumes "select_command ts (c, None)"
  shows "\<exists>s. c = SelectCmd s \<and> select_ok s \<and> sel_exists_mode s = Exists_none"
  using assms clause_read
  by (auto simp: select_action_def select_ok_def split: if_splits elim!: select_command.cases optional_vector_search_clause.cases)

lemma exists_read:
  assumes "exists_command ts (c, None)"
  shows "\<exists>s. c = SelectCmd s \<and> select_ok s \<and> sel_exists_mode s \<noteq> Exists_none"
proof -
  obtain us d err m where r: "select_command us (d, err)" "set_exists_mode m (d, err) = (c, None)" "m \<noteq> Exists_none"
    using assms by (auto elim!: exists_command.cases)
  then have "err = None" by (cases d) auto
  then obtain s where "d = SelectCmd s" "select_ok s" using select_read r(1) by blast
  then show ?thesis using r(2,3) by (auto simp: select_ok_def)
qed

lemma write_read: "write_command ts (c, None) \<Longrightarrow> no_empty_word ts \<Longrightarrow> item_ok Access_write c \<and> command_ok c"
  using update_read [of ts] insert_read [of ts] exists_read [of ts c] clause_read
  by (auto elim!: write_command.cases delete_command.cases)

lemma transact_read:
  assumes "transact_list C ts cs err" and "err = None" and "no_empty_word ts"
    and "\<And>ts c. C ts (c, None) \<Longrightarrow> no_empty_word ts \<Longrightarrow> item_ok acc c"
  shows "cs \<noteq> [] \<and> list_all (item_ok acc) cs"
  using assms by (induction rule: transact_list.induct) (auto simp: first_error_def split: option.splits)

lemma transaction_read:
  assumes "transact_command ts (c, None)" and "no_empty_word ts"
  shows "command_ok c"
  using assms
proof (cases rule: transact_command.cases)
  case (read_commit us cs)
  then show ?thesis using transact_read [of select_command us cs None Access_read] select_read assms(2)
    by (fastforce simp: transaction_def)
next
  case (write_commit us cs)
  then show ?thesis using transact_read [of write_command us cs None Access_write] write_read assms(2) by (auto simp: transaction_def)
next
  case (read_rollback us cs)
  then show ?thesis using transact_read [of select_command us cs None Access_read] select_read assms(2)
    by (fastforce simp: transaction_def)
next
  case (write_rollback us cs)
  then show ?thesis using transact_read [of write_command us cs None Access_write] write_read assms(2) by (auto simp: transaction_def)
qed simp

text \<open>What EXPLAIN takes.\<close>

fun explains :: "command_node \<Rightarrow> bool" where
  "explains (ConnectCmd c) = False"
| "explains QuitCmd = False"
| "explains (HelpCmd t) = False"
| "explains ShowVersionCmd = False"
| "explains (ShowTablesCmd c) = False"
| "explains (ShowBackupsCmd c) = False"
| "explains ShowLimitsCmd = False"
| "explains (ShowCreateTableCmd c) = False"
| "explains EmptyCmd = False"
| "explains c = True"

lemmas ddl_cases = ddl_command.cases describe_command.cases create_backup_command.cases drop_backup_command.cases
  describe_backup_command.cases

lemmas session_cases = control_command.cases connect_command.cases show_command.cases show_tables_command.cases
  show_backups_command.cases show_create_table_command.cases help_command.cases

lemma alter_read: "alter_table_command ts c \<Longrightarrow> command_ok c \<and> explains c"
  using alter_requests_ok [of ts c] by (cases c) (auto simp: alter_request_def elim: alter_table_command.cases)

lemma explainable_read:
  assumes "explainable ts (c, None)" and "no_empty_word ts"
  shows "command_ok c \<and> explains c"
  using assms
proof (cases rule: explainable.cases)
  case x_ddl
  then show ?thesis using alter_read by (auto simp: alter_request_def elim!: ddl_cases)
next
  case x_get
  then show ?thesis using select_read by fastforce
next
  case x_write
  then have "item_ok Access_write c \<and> command_ok c" using write_read assms(2) by blast
  then show ?thesis by (cases c) auto
next
  case x_transact
  then have "command_ok c" using transaction_read assms(2) by blast
  moreover have "explains c" using x_transact by (auto elim: transact_command.cases)
  ultimately show ?thesis by simp
qed

text \<open>The scanner's words are not empty.\<close>

lemma table_kinds: "\<forall>p \<in> set keyword_table. hd (snd p) = CHR ''K''"
  by (simp add: keyword_table_def)

lemma rule_tokens:
  assumes "p \<in> set lex_rules" and "matches (fst p) w" and "token_of (snd p) w = Some t"
  shows "t \<noteq> Token ''T_UNQUOTED_STRING'' []"
proof (cases "snd p = Make_word")
  case False
  have "\<forall>p \<in> set lex_rules. snd p \<noteq> Make_word \<longrightarrow> (\<forall>w s. token_of (snd p) w \<noteq> Some (Token ''T_UNQUOTED_STRING'' s))"
    by (simp add: lex_rules_def)
  then show ?thesis using assms(1,3) False by blast
next
  case True
  have "\<forall>p \<in> set lex_rules. snd p = Make_word \<longrightarrow> fst p = word_rule" by (simp add: lex_rules_def)
  then have "matches word_rule w" using assms(1,2) True by metis
  then obtain c cs where w: "w = c # cs" "is_name_char c" by (auto simp: word_rule_def matches_seq)
  have "c \<noteq> CHR 0x00" using w(2) by (auto simp: is_name_char_def Prepared.is_digit_def in_range_def less_eq_char_def)
  then have "c_str w \<noteq> []" by (simp add: w(1) c_str_def)
  moreover have "k \<noteq> ''T_UNQUOTED_STRING''" if "ddbsh_keyword w = Some k" for k
    using that table_kinds map_of_SomeD unfolding ddbsh_keyword_def by fastforce
  ultimately show ?thesis using assms(3) True by (auto split: option.splits)
qed

lemma scanned_words: "no_empty_word (token_list s)"
proof (induction "length s" arbitrary: s rule: less_induct)
  case less
  show ?case
  proof (cases "s = []")
    case False
    then obtain n act where n: "flex_choice lex_rules s n act" "0 < n" "n \<le> length s" using lex_step_choice by metis
    then obtain p where p: "p \<in> set lex_rules" "snd p = act" "matches (fst p) (take n s)"
      unfolding flex_choice_def by (metis nth_mem)
    have "token_list (take n s @ drop n s) = (case token_of act (take n s) of None \<Rightarrow> [] | Some t \<Rightarrow> [t]) @ token_list (drop n s)"
      using n(1,3) by (intro token_list_choice) simp
    moreover have "no_empty_word (token_list (drop n s))" using n False by (intro less) simp
    ultimately show ?thesis using rule_tokens [OF p(1,3)] p(2) by (auto split: option.splits)
  qed simp
qed

lemma part_of_scanned: "set ts \<subseteq> set (token_list s) \<Longrightarrow> no_empty_word ts"
  using scanned_words [of s] by (auto simp: no_empty_word_def)

text \<open>C11: Every statement that the grammar reads from scanned text, and that records no semantic error, is one the
  planner and the executors are built for: its WHERE tree is well formed, a SELECT has a limit or a capacity
  report but not both and a vector exactly if it has a number of neighbours, an INSERT has columns and rows, an
  UPDATE sets or removes something in one of the forms of an update expression, a transaction has commands of one
  kind only and is empty only to be rolled back, an ALTER TABLE gives a well-formed request; and only
  commands that can be explained are.\<close>

theorem statements_well_formed:
  assumes "g_input ts st None" and "set ts \<subseteq> set (token_list s)"
  shows "command_ok (ps_command st) \<and> (ps_explain st \<longrightarrow> explains (ps_command st))"
  using assms(1)
proof (cases rule: g_input.cases)
  case (input_command us c es)
  then have words: "no_empty_word us" using part_of_scanned [OF assms(2)] by simp
  from input_command(3) have "command_ok c"
  proof (cases rule: g_command.cases)
    case c_explainable
    then show ?thesis using explainable_read words by blast
  qed (auto simp: alter_request_def elim!: session_cases)
  then show ?thesis using input_command by simp
next
  case (input_explain us c es)
  then show ?thesis using explainable_read [of us c] part_of_scanned [OF assms(2)] by simp
qed (simp add: alter_request_def)

theorem statements_well_formed_witness:
  "g_input (token_list ''explain delete from t where attribute_exists(a)'')
     \<lparr>ps_command = DeleteCmd \<lparr>de_table = ''t'', de_index = None, de_where = Some (build_where (W_Element (Attribute_exists (Path_name ''a'')))),
        de_ratelimit = None, de_return_value = Ast_rv_none\<rparr>, ps_explain = True\<rparr> None \<and>
   command_ok (DeleteCmd \<lparr>de_table = ''t'', de_index = None, de_where = Some (build_where (W_Element (Attribute_exists (Path_name ''a'')))),
     de_ratelimit = None, de_return_value = Ast_rv_none\<rparr>)"
proof -
  let ?s = "''explain delete from t where attribute_exists(a)''"
  let ?c = "DeleteCmd \<lparr>de_table = ''t'', de_index = None, de_where = Some (build_where (W_Element (Attribute_exists (Path_name ''a'')))),
     de_ratelimit = None, de_return_value = Ast_rv_none\<rparr>"
  let ?w = "\<lambda>x. Token ''T_UNQUOTED_STRING'' x"
  have "fixed_tokens ?s = Some (kw ''K_EXPLAIN'' # ([kw ''K_DELETE'', kw ''K_FROM''] @ [?w ''t''] @
      (kw ''K_WHERE'' # kw ''K_ATTRIBUTE_EXISTS'' # in_parens [?w ''a'']) @ [] @ []) @ [])" by code_simp
  from scans_phrase [OF this] have ts: "token_list ?s = kw ''K_EXPLAIN'' # ([kw ''K_DELETE'', kw ''K_FROM''] @ [?w ''t''] @
      (kw ''K_WHERE'' # kw ''K_ATTRIBUTE_EXISTS'' # in_parens [?w ''a'']) @ [] @ []) @ []"
    unfolding scans_def by (metis append_Nil2 delimited_Nil token_list_Nil)
  have clause: "where_clause (kw ''K_WHERE'' # kw ''K_ATTRIBUTE_EXISTS'' # in_parens [?w ''a''])
      (build_where (W_Element (Attribute_exists (Path_name ''a''))))"
    by (intro where_rule le_element el_exists path_name string_bare) simp
  have read: "g_input (token_list ?s) \<lparr>ps_command = ?c, ps_explain = True\<rparr> None" unfolding ts
    by (intro input_explain x_write write_delete delete_rule table_only string_bare opt_some [of where_clause, OF clause] opt_absent rv_none eos_input)
  then show ?thesis using statements_well_formed [OF read, of ?s] by simp
qed

text \<open>The number of neighbours is cut to 32 bits: NEAREST 4294967297 asks for one.\<close>

lemma nearest_wraps:
  assumes "lee_rhs ts v"
  shows "optional_vector_search_clause ([kw ''K_NEAREST'', whole ''4294967297'', kw ''K_TO''] @ ts) (Some v, Some 1)"
proof -
  have "parse_ll ''4294967297'' = 4294967297"
    by (simp add: parse_ll_def take_sign_def digits_val_def Prepared.is_digit_def clamp_ll_def no_nul_def c_str_id digit_val_def)
  then have "to_int (parse_ll ''4294967297'') = 1"
    by (simp add: to_int_def signed_take_bit_eq_take_bit_shift take_bit_eq_mod)
  then show ?thesis using vs_nearest [OF assms, of "''4294967297''"] by simp
qed

end
